(* ===== verification/Prelude.thy ===== *)
theory Prelude
  imports Main
begin

text \<open>
  The calculus every component of the development shares.

  A handler of the service reads and writes a world (database tables, blobs, clock) and
  ends with a value or a Python exception. It is a function from the world to the outcome
  and the world left behind, so that an exception path also says which effects it leaves:
  \<open>atomic\<close> undoes the database part and nothing else. \<open>wp\<close> computes the verification
  condition of a handler for a normal and an exceptional postcondition; its rules are in the
  collection \<open>wp_simps\<close>. \<open>keeps\<close> is the frame form: the relation between the world before
  and after, on both outcomes, with its rules in \<open>keeps_rules\<close>.
\<close>

named_theorems wp_simps \<open>verification conditions of the handler combinators\<close>
named_theorems keeps_rules \<open>a relation between the world before and after a handler\<close>

section \<open>Handlers: state and exceptions\<close>

type_synonym ('w, 'e, 'a) prog = "'w \<Rightarrow> ('e + 'a) \<times> 'w"

definition ret :: "'a \<Rightarrow> ('w, 'e, 'a) prog" where
  "ret x w = (Inr x, w)"

definition throw :: "'e \<Rightarrow> ('w, 'e, 'a) prog" where
  "throw e w = (Inl e, w)"

definition gets :: "('w \<Rightarrow> 'a) \<Rightarrow> ('w, 'e, 'a) prog" where
  "gets f w = (Inr (f w), w)"

definition modify :: "('w \<Rightarrow> 'w) \<Rightarrow> ('w, 'e, unit) prog" where
  "modify f w = (Inr (), f w)"

definition lift_sum :: "'e + 'a \<Rightarrow> ('w, 'e, 'a) prog" where
  "lift_sum r w = (r, w)"

definition bindE :: "('w, 'e, 'a) prog \<Rightarrow> ('a \<Rightarrow> ('w, 'e, 'b) prog) \<Rightarrow> ('w, 'e, 'b) prog" where
  "bindE m f w = (case m w of (Inl e, w') \<Rightarrow> (Inl e, w') | (Inr x, w') \<Rightarrow> f x w')"

definition seqE :: "('w, 'e, unit) prog \<Rightarrow> ('w, 'e, 'b) prog \<Rightarrow> ('w, 'e, 'b) prog" where
  "seqE m n = bindE m (\<lambda>_. n)"

text \<open>\<open>guardE b e\<close> is the source's \<open>if not b: raise e\<close>.\<close>

definition guardE :: "bool \<Rightarrow> 'e \<Rightarrow> ('w, 'e, unit) prog" where
  "guardE b e = (if b then ret () else throw e)"

text \<open>\<open>catchE m h\<close> is \<open>try: m except ... as e: h(e)\<close>; effects of \<open>m\<close> before the raise stay.\<close>

definition catchE :: "('w, 'e, 'a) prog \<Rightarrow> ('e \<Rightarrow> ('w, 'f, 'a) prog) \<Rightarrow> ('w, 'f, 'a) prog" where
  "catchE m h w = (case m w of (Inl e, w') \<Rightarrow> h e w' | (Inr x, w') \<Rightarrow> (Inr x, w'))"

text \<open>A \<open>for\<close> loop over a list; an exception leaves the loop.\<close>

fun forE :: "'b list \<Rightarrow> ('b \<Rightarrow> ('w, 'e, unit) prog) \<Rightarrow> ('w, 'e, unit) prog" where
  "forE [] f = ret ()"
| "forE (x # xs) f = seqE (f x) (forE xs f)"

text \<open>A loop that collects one result per element, in order.\<close>

fun mapE :: "('b \<Rightarrow> ('w, 'e, 'a) prog) \<Rightarrow> 'b list \<Rightarrow> ('w, 'e, 'a list) prog" where
  "mapE f [] = ret []"
| "mapE f (x # xs) = bindE (f x) (\<lambda>y. bindE (mapE f xs) (\<lambda>ys. ret (y # ys)))"

section \<open>Verification conditions\<close>

definition wp :: "('w, 'e, 'a) prog \<Rightarrow> ('a \<Rightarrow> 'w \<Rightarrow> bool) \<Rightarrow> ('e \<Rightarrow> 'w \<Rightarrow> bool) \<Rightarrow> 'w \<Rightarrow> bool" where
  "wp m Q R w = (case m w of (Inl e, w') \<Rightarrow> R e w' | (Inr x, w') \<Rightarrow> Q x w')"

lemma wp_ret [wp_simps]: "wp (ret x) Q R w = Q x w"
  by (simp add: wp_def ret_def)

lemma wp_throw [wp_simps]: "wp (throw e) Q R w = R e w"
  by (simp add: wp_def throw_def)

lemma wp_gets [wp_simps]: "wp (gets f) Q R w = Q (f w) w"
  by (simp add: wp_def gets_def)

lemma wp_modify [wp_simps]: "wp (modify f) Q R w = Q () (f w)"
  by (simp add: wp_def modify_def)

lemma wp_lift_sum [wp_simps]:
  "wp (lift_sum r) Q R w = (case r of Inl e \<Rightarrow> R e w | Inr x \<Rightarrow> Q x w)"
  by (simp add: wp_def lift_sum_def split: sum.splits)

lemma wp_bindE [wp_simps]: "wp (bindE m f) Q R w = wp m (\<lambda>x. wp (f x) Q R) R w"
  by (auto simp: wp_def bindE_def split: prod.splits sum.splits)

lemma wp_seqE [wp_simps]: "wp (seqE m n) Q R w = wp m (\<lambda>_. wp n Q R) R w"
  by (simp add: seqE_def wp_bindE)

lemma wp_guardE [wp_simps]: "wp (guardE b e) Q R w = (if b then Q () w else R e w)"
  by (simp add: guardE_def wp_ret wp_throw)

lemma wp_catchE [wp_simps]: "wp (catchE m h) Q R w = wp m Q (\<lambda>e. wp (h e) Q R) w"
  by (auto simp: wp_def catchE_def split: prod.splits sum.splits)

lemma wp_if [wp_simps]: "wp (if b then m else n) Q R w = (if b then wp m Q R w else wp n Q R w)"
  by simp

lemma wp_option [wp_simps]:
  "wp (case x of None \<Rightarrow> m | Some y \<Rightarrow> f y) Q R w =
     (case x of None \<Rightarrow> wp m Q R w | Some y \<Rightarrow> wp (f y) Q R w)"
  by (simp split: option.splits)

lemma wp_mono:
  "wp m Q R w \<Longrightarrow> (\<And>x w'. Q x w' \<Longrightarrow> Q' x w') \<Longrightarrow> (\<And>e w'. R e w' \<Longrightarrow> R' e w') \<Longrightarrow> wp m Q' R' w"
  by (auto simp: wp_def split: prod.splits sum.splits)

lemma wp_conj:
  "wp m Q R w \<Longrightarrow> wp m Q' R' w \<Longrightarrow> wp m (\<lambda>x s. Q x s \<and> Q' x s) (\<lambda>e s. R e s \<and> R' e s) w"
  by (auto simp: wp_def split: prod.splits sum.splits)

text \<open>From a verification condition to a statement about the outcome, and back.\<close>

lemma wp_Inr: "wp m Q R w \<Longrightarrow> m w = (Inr x, w') \<Longrightarrow> Q x w'"
  and wp_Inl: "wp m Q R w \<Longrightarrow> m w = (Inl e, w') \<Longrightarrow> R e w'"
  by (simp_all add: wp_def)

lemma wp_exact: "m w = (Inr x, w') \<Longrightarrow> wp m Q R w = Q x w'"
  and wp_exact_err: "m w = (Inl e, w') \<Longrightarrow> wp m Q R w = R e w'"
  by (simp_all add: wp_def)

lemma wpI:
  "(\<And>x w'. m w = (Inr x, w') \<Longrightarrow> Q x w') \<Longrightarrow> (\<And>e w'. m w = (Inl e, w') \<Longrightarrow> R e w') \<Longrightarrow> wp m Q R w"
  by (auto simp: wp_def split: prod.splits sum.splits)

section \<open>Frames: a relation kept by a handler on both outcomes\<close>

definition keeps :: "('w \<Rightarrow> 'w \<Rightarrow> bool) \<Rightarrow> ('w, 'e, 'a) prog \<Rightarrow> bool" where
  "keeps r m \<longleftrightarrow> (\<forall>w. r w (snd (m w)))"

lemma keepsI: "(\<And>w. wp m (\<lambda>_. r w) (\<lambda>_. r w) w) \<Longrightarrow> keeps r m"
  unfolding keeps_def
proof
  fix w
  assume post: "\<And>w. wp m (\<lambda>_. r w) (\<lambda>_. r w) w"
  obtain res w' where m: "m w = (res, w')" by fastforce
  show "r w (snd (m w))" using post [of w] m by (cases res) (simp_all add: wp_def)
qed

lemma keeps_wp: "keeps r m \<Longrightarrow> wp m (\<lambda>_. r w) (\<lambda>_. r w) w"
  by (intro wpI) (auto simp: keeps_def dest: spec [of _ w])

lemma keepsD: "keeps r m \<Longrightarrow> m w = (res, w') \<Longrightarrow> r w w'"
  by (auto simp: keeps_def dest: spec [of _ w])

lemma keeps_readers [keeps_rules]:
  "reflp r \<Longrightarrow> keeps r (ret x)"
  "reflp r \<Longrightarrow> keeps r (throw e)"
  "reflp r \<Longrightarrow> keeps r (gets f)"
  "reflp r \<Longrightarrow> keeps r (lift_sum s)"
  "reflp r \<Longrightarrow> keeps r (guardE b e)"
  by (simp_all add: keeps_def ret_def throw_def gets_def lift_sum_def guardE_def reflp_def)

lemma keeps_bindE [keeps_rules]:
  assumes "transp r" "keeps r m" "\<And>x. keeps r (f x)"
  shows "keeps r (bindE m f)"
  unfolding keeps_def
proof
  fix w
  obtain res w' where m: "m w = (res, w')" by fastforce
  have one: "r w w'" using assms(2) m by (rule keepsD)
  show "r w (snd (bindE m f w))"
  proof (cases res)
    case (Inl e)
    then show ?thesis using m one by (simp add: bindE_def)
  next
    case (Inr x)
    have "r w' (snd (f x w'))" using assms(3) by (simp add: keeps_def)
    then show ?thesis using Inr m one transpD [OF assms(1)] by (simp add: bindE_def)
  qed
qed

lemma keeps_seqE [keeps_rules]: "transp r \<Longrightarrow> keeps r m \<Longrightarrow> keeps r n \<Longrightarrow> keeps r (seqE m n)"
  by (simp add: seqE_def keeps_bindE)

lemma keeps_if [keeps_rules]: "keeps r m \<Longrightarrow> keeps r n \<Longrightarrow> keeps r (if b then m else n)"
  by simp

lemma keeps_option [keeps_rules]:
  "keeps r m \<Longrightarrow> (\<And>y. keeps r (f y)) \<Longrightarrow> keeps r (case x of None \<Rightarrow> m | Some y \<Rightarrow> f y)"
  by (simp split: option.splits)

lemma keeps_forE [keeps_rules]:
  "reflp r \<Longrightarrow> transp r \<Longrightarrow> (\<And>x. keeps r (f x)) \<Longrightarrow> keeps r (forE xs f)"
  by (induction xs) (simp_all add: keeps_readers keeps_seqE)

lemma keeps_mapE [keeps_rules]:
  "reflp r \<Longrightarrow> transp r \<Longrightarrow> (\<And>x. keeps r (f x)) \<Longrightarrow> keeps r (mapE f xs)"
  by (induction xs) (auto intro!: keeps_bindE simp: keeps_readers)

section \<open>Rows of a table\<close>

text \<open>
  A database table is the list of its rows. \<open>first_where\<close> is a queryset's
  \<open>filter(...).first()\<close>, \<open>update_where\<close> its \<open>filter(...).update(...)\<close> and
  \<open>delete_where\<close> its \<open>filter(...).delete()\<close>.
\<close>

fun first_where :: "('r \<Rightarrow> bool) \<Rightarrow> 'r list \<Rightarrow> 'r option" where
  "first_where P [] = None"
| "first_where P (r # rs) = (if P r then Some r else first_where P rs)"

definition update_where :: "('r \<Rightarrow> bool) \<Rightarrow> ('r \<Rightarrow> 'r) \<Rightarrow> 'r list \<Rightarrow> 'r list" where
  "update_where P f rs = map (\<lambda>r. if P r then f r else r) rs"

definition delete_where :: "('r \<Rightarrow> bool) \<Rightarrow> 'r list \<Rightarrow> 'r list" where
  "delete_where P rs = filter (\<lambda>r. \<not> P r) rs"

lemma first_where_Some: "first_where P rs = Some r \<Longrightarrow> r \<in> set rs \<and> P r"
  by (induction rs) (auto split: if_splits)

lemma first_where_None: "first_where P rs = None \<longleftrightarrow> (\<forall>r \<in> set rs. \<not> P r)"
  by (induction rs) auto

lemma first_where_append:
  "first_where P (rs @ ss) = (case first_where P rs of None \<Rightarrow> first_where P ss | Some r \<Rightarrow> Some r)"
  by (induction rs) auto

lemma first_where_cong: "(\<And>r. r \<in> set rs \<Longrightarrow> P r = P' r) \<Longrightarrow> first_where P rs = first_where P' rs"
  by (induction rs) auto

text \<open>With a key, a lookup by the key finds the row itself.\<close>

lemma first_where_key:
  assumes "distinct (map k rs)" "r \<in> set rs"
  shows "first_where (\<lambda>x. k x = k r) rs = Some r"
  using assms by (induction rs) (auto simp: image_iff)

lemma set_update_where: "set (update_where P f rs) = (\<lambda>r. if P r then f r else r) ` set rs"
  by (simp add: update_where_def)

lemma length_update_where [simp]: "length (update_where P f rs) = length rs"
  by (simp add: update_where_def)

lemma update_where_append [simp]: "update_where P f (rs @ ss) = update_where P f rs @ update_where P f ss"
  by (simp add: update_where_def)

lemma map_update_where:
  "(\<And>r. P r \<Longrightarrow> k (f r) = k r) \<Longrightarrow> map k (update_where P f rs) = map k rs"
  by (simp add: update_where_def)

lemma image_update_where:
  assumes "\<And>r. P r \<Longrightarrow> k (f r) = k r"
  shows "k ` set (update_where P f rs) = k ` set rs"
proof -
  have "set (map k (update_where P f rs)) = set (map k rs)" using map_update_where assms by metis
  then show ?thesis by simp
qed

lemma image_delete_key: "k ` {r \<in> A. k r \<noteq> i} = k ` A - {i}"
  by auto

lemma update_where_none: "(\<And>r. r \<in> set rs \<Longrightarrow> \<not> P r) \<Longrightarrow> update_where P f rs = rs"
  by (simp add: update_where_def map_idI)

lemma set_delete_where [simp]: "set (delete_where P rs) = {r \<in> set rs. \<not> P r}"
  by (auto simp: delete_where_def)

lemma delete_where_append [simp]: "delete_where P (rs @ ss) = delete_where P rs @ delete_where P ss"
  by (simp add: delete_where_def)

lemma distinct_delete_where: "distinct (map k rs) \<Longrightarrow> distinct (map k (delete_where P rs))"
  by (simp add: delete_where_def distinct_map_filter)

lemma first_where_delete_other:
  "(\<And>r. Q r \<Longrightarrow> \<not> P r) \<Longrightarrow> first_where Q (delete_where P rs) = first_where Q rs"
  by (induction rs) (auto simp: delete_where_def)

lemma first_where_update_key:
  assumes "\<And>r. P r \<Longrightarrow> Q (f r) = Q r"
  shows "first_where Q (update_where P f rs) = map_option (\<lambda>r. if P r then f r else r) (first_where Q rs)"
  using assms by (induction rs) (auto simp: update_where_def)

lemma distinct_key_unique:
  "distinct (map k rs) \<Longrightarrow> r \<in> set rs \<Longrightarrow> s \<in> set rs \<Longrightarrow> k r = k s \<Longrightarrow> r = s"
  by (auto simp: distinct_map inj_on_def)

text \<open>Sums over a table, as SQL's \<open>SUM\<close>.\<close>

definition sum_rows :: "('r \<Rightarrow> int) \<Rightarrow> 'r list \<Rightarrow> int" where
  "sum_rows v rs = sum_list (map v rs)"

lemma sum_rows_simps [simp]:
  "sum_rows v [] = 0" "sum_rows v (r # rs) = v r + sum_rows v rs"
  "sum_rows v (rs @ ss) = sum_rows v rs + sum_rows v ss"
  by (simp_all add: sum_rows_def)

lemma sum_rows_nonneg: "(\<And>r. r \<in> set rs \<Longrightarrow> 0 \<le> v r) \<Longrightarrow> 0 \<le> sum_rows v rs"
  by (induction rs) (auto simp: add_nonneg_nonneg)

lemma sum_rows_cong: "(\<And>r. r \<in> set rs \<Longrightarrow> v r = u r) \<Longrightarrow> sum_rows v rs = sum_rows u rs"
  by (induction rs) auto

lemma sum_rows_delete_where:
  "sum_rows v (delete_where P rs) = sum_rows v rs - sum_rows v (filter P rs)"
  by (induction rs) (auto simp: delete_where_def)

lemma filter_key_singleton:
  assumes "distinct (map k rs)" "r \<in> set rs"
  shows "filter (\<lambda>x. k x = k r) rs = [r]"
  using assms by (induction rs) (auto simp: image_iff filter_empty_conv)

lemma sum_rows_delete_key:
  assumes "distinct (map k rs)" "r \<in> set rs"
  shows "sum_rows v (delete_where (\<lambda>x. k x = k r) rs) = sum_rows v rs - v r"
  using filter_key_singleton [OF assms] by (simp add: sum_rows_delete_where)

lemma sum_rows_update_key:
  assumes "distinct (map k rs)" "r \<in> set rs"
  shows "sum_rows v (update_where (\<lambda>x. k x = k r) f rs) = sum_rows v rs - v r + v (f r)"
  using assms
proof (induction rs)
  case Nil
  then show ?case by simp
next
  case (Cons a rs)
  show ?case
  proof (cases "k a = k r")
    case True
    with Cons.prems have "a = r" and "\<And>x. x \<in> set rs \<Longrightarrow> k x \<noteq> k r" by (auto simp: image_iff)
    then have "update_where (\<lambda>x. k x = k r) f rs = rs" by (intro update_where_none) auto
    then show ?thesis using \<open>a = r\<close> by (simp add: update_where_def)
  next
    case False
    then show ?thesis using Cons by (auto simp: update_where_def)
  qed
qed

end
