(* ===== verification/Py_Strings.thy ===== *)
theory Py_Strings
  imports Prelude "HOL-Library.Sublist" "HOL-Library.Char_ord" "HOL-Library.List_Lexorder"
begin

text \<open>
  The string operations of Python that the service uses, on strings whose code points are
  at most 255: \<open>str.strip\<close>, \<open>str.lower\<close>, \<open>str.split\<close>, \<open>str.join\<close>, \<open>str\<close> and \<open>int\<close> of
  integers, and the text form of a UUID. The lemmas relate splitting to joining, show that
  stripping is idempotent, and that the printed integers and UUIDs determine their values.
\<close>

section \<open>Characters\<close>

abbreviation slash :: char where "slash \<equiv> CHR ''/''"

definition code_point :: "char \<Rightarrow> nat" where
  "code_point c = of_char c"

text \<open>\<open>str.isspace\<close> on one character.\<close>

definition is_space :: "char \<Rightarrow> bool" where
  "is_space c = (let n = code_point c in 9 \<le> n \<and> n \<le> 13 \<or> 28 \<le> n \<and> n \<le> 32 \<or> n = 133 \<or> n = 160)"

definition lower_char :: "char \<Rightarrow> char" where
  "lower_char c = (let n = code_point c in
     if 65 \<le> n \<and> n \<le> 90 \<or> 192 \<le> n \<and> n \<le> 222 \<and> n \<noteq> 215 then char_of (n + 32) else c)"

definition lower :: "string \<Rightarrow> string" where
  "lower s = map lower_char s"

section \<open>Stripping\<close>

definition strip_where :: "(char \<Rightarrow> bool) \<Rightarrow> string \<Rightarrow> string" where
  "strip_where P s = rev (dropWhile P (rev (dropWhile P s)))"

text \<open>\<open>s.strip()\<close> and \<open>s.strip('/')\<close>.\<close>

definition strip :: "string \<Rightarrow> string" where
  "strip = strip_where is_space"

definition strip_slashes :: "string \<Rightarrow> string" where
  "strip_slashes = strip_where (\<lambda>c. c = slash)"

definition stripped :: "(char \<Rightarrow> bool) \<Rightarrow> string \<Rightarrow> bool" where
  "stripped P s \<longleftrightarrow> s = [] \<or> \<not> P (hd s) \<and> \<not> P (last s)"

lemma dropWhile_hd: "dropWhile P s = [] \<or> \<not> P (hd (dropWhile P s))"
  using hd_dropWhile by blast

lemma stripped_strip_where: "stripped P (strip_where P s)"
proof -
  let ?t = "dropWhile P s"
  have pre: "suffix (dropWhile P (rev ?t)) (rev ?t)" by (rule suffix_dropWhile)
  then have "prefix (strip_where P s) ?t"
    unfolding strip_where_def by (metis rev_rev_ident suffix_to_prefix)
  then have "strip_where P s = [] \<or> hd (strip_where P s) = hd ?t \<and> ?t \<noteq> []"
    by (metis append_is_Nil_conv hd_append2 prefixE)
  moreover have "strip_where P s = [] \<or> \<not> P (last (strip_where P s))"
    unfolding strip_where_def by (metis dropWhile_hd last_rev rev_is_Nil_conv)
  ultimately show ?thesis using dropWhile_hd [of P s] unfolding stripped_def by metis
qed

lemma strip_where_id: "stripped P s \<Longrightarrow> strip_where P s = s"
proof (cases s rule: rev_cases)
  case Nil
  then show ?thesis by (simp add: strip_where_def)
next
  case (snoc t c)
  assume "stripped P s"
  then have "dropWhile P s = s" "\<not> P c" using snoc by (auto simp: stripped_def dropWhile_eq_self_iff)
  then show ?thesis using snoc by (simp add: strip_where_def)
qed

lemma strip_where_idem [simp]: "strip_where P (strip_where P s) = strip_where P s"
  by (rule strip_where_id) (rule stripped_strip_where)

lemma strip_where_infix: "\<exists>a b. s = a @ strip_where P s @ b \<and> (\<forall>c \<in> set a \<union> set b. P c)"
proof -
  let ?t = "dropWhile P s"
  have "s = takeWhile P s @ strip_where P s @ rev (takeWhile P (rev ?t))"
    unfolding strip_where_def
    by (metis append.assoc rev_append rev_rev_ident takeWhile_dropWhile_id)
  moreover have "\<forall>c \<in> set (takeWhile P s) \<union> set (rev (takeWhile P (rev ?t))). P c"
    by (auto dest: set_takeWhileD)
  ultimately show ?thesis by blast
qed

lemma set_strip_where: "set (strip_where P s) \<subseteq> set s"
  by (metis strip_where_infix Un_upper1 Un_upper2 set_append subset_trans)

section \<open>Splitting and joining\<close>

text \<open>\<open>s.split(c)\<close> and \<open>c.join(parts)\<close> for a one-character separator.\<close>

fun split_on :: "char \<Rightarrow> string \<Rightarrow> string list" where
  "split_on c [] = [[]]"
| "split_on c (x # xs) =
     (if x = c then [] # split_on c xs
      else case split_on c xs of [] \<Rightarrow> [[x]] | p # ps \<Rightarrow> (x # p) # ps)"

fun join_on :: "char \<Rightarrow> string list \<Rightarrow> string" where
  "join_on c [] = []"
| "join_on c [p] = p"
| "join_on c (p # q # ps) = p @ c # join_on c (q # ps)"

lemma split_on_not_Nil [simp]: "split_on c s \<noteq> []"
  by (induction s) (auto split: list.splits)

lemma join_split [simp]: "join_on c (split_on c s) = s"
proof (induction s)
  case Nil
  then show ?case by simp
next
  case (Cons x xs)
  obtain p ps where "split_on c xs = p # ps" by (meson list.exhaust split_on_not_Nil)
  then show ?case using Cons by (cases ps) auto
qed

lemma split_on_fresh: "c \<notin> set p \<Longrightarrow> split_on c p = [p]"
  by (induction p) auto

lemma split_on_append: "c \<notin> set p \<Longrightarrow> split_on c (p @ c # s) = p # split_on c s"
  by (induction p) auto

lemma split_on_general: "split_on c (p @ c # s) = split_on c p @ split_on c s"
  by (induction p) (auto split: list.splits)

lemma split_join [simp]:
  "ps \<noteq> [] \<Longrightarrow> \<forall>p \<in> set ps. c \<notin> set p \<Longrightarrow> split_on c (join_on c ps) = ps"
  by (induction c ps rule: join_on.induct) (auto simp: split_on_fresh split_on_append)

lemma split_on_parts: "p \<in> set (split_on c s) \<Longrightarrow> c \<notin> set p"
  by (induction s arbitrary: p) (auto split: list.splits if_splits)

lemma set_join_on: "set (join_on c ps) \<subseteq> insert c (\<Union> (set ` set ps))"
  by (induction c ps rule: join_on.induct) auto

lemma join_on_append:
  "ps \<noteq> [] \<Longrightarrow> qs \<noteq> [] \<Longrightarrow> join_on c (ps @ qs) = join_on c ps @ c # join_on c qs"
proof (induction c ps rule: join_on.induct)
  case (2 c p)
  then show ?case by (cases qs) auto
qed auto

lemma join_on_eq_Nil: "join_on c ps = [] \<longleftrightarrow> ps = [] \<or> ps = [[]]"
  by (induction c ps rule: join_on.induct) auto

lemma hd_join_on: "ps \<noteq> [] \<Longrightarrow> hd ps \<noteq> [] \<Longrightarrow> hd (join_on c ps) = hd (hd ps)"
  by (induction c ps rule: join_on.induct) auto

lemma last_join_on: "ps \<noteq> [] \<Longrightarrow> last ps \<noteq> [] \<Longrightarrow> last (join_on c ps) = last (last ps)"
  by (induction c ps rule: join_on.induct) (auto simp: join_on_eq_Nil)

text \<open>\<open>s.rsplit('/', 1)\<close>: the part before the last separator, and the part after it.\<close>

definition dirname :: "string \<Rightarrow> string" where
  "dirname s = join_on slash (butlast (split_on slash s))"

definition basename :: "string \<Rightarrow> string" where
  "basename s = last (split_on slash s)"

lemma basename_no_slash: "slash \<notin> set (basename s)"
  by (rule split_on_parts [of _ _ s]) (simp add: basename_def)

lemma basename_join [simp]:
  "ps \<noteq> [] \<Longrightarrow> \<forall>p \<in> set ps. slash \<notin> set p \<Longrightarrow> basename (join_on slash ps) = last ps"
  by (simp add: basename_def)

section \<open>Integers as text\<close>

definition digit_char :: "nat \<Rightarrow> char" where
  "digit_char d = char_of (if d < 10 then 48 + d else 87 + d)"

definition digit_value :: "char \<Rightarrow> nat option" where
  "digit_value c = (let n = code_point c in
     if 48 \<le> n \<and> n \<le> 57 then Some (n - 48)
     else if 97 \<le> n \<and> n \<le> 122 then Some (n - 87)
     else if 65 \<le> n \<and> n \<le> 90 then Some (n - 55)
     else None)"

text \<open>Digits of a number in a base, most significant first.\<close>

fun show_base :: "nat \<Rightarrow> nat \<Rightarrow> string" where
  "show_base b n =
     (if n < b \<or> b < 2 then [digit_char n] else show_base b (n div b) @ [digit_char (n mod b)])"

declare show_base.simps [simp del]

definition str_int :: "int \<Rightarrow> string" where
  "str_int i = (if i < 0 then ''-'' @ show_base 10 (nat (- i)) else show_base 10 (nat i))"

fun read_base :: "nat \<Rightarrow> nat \<Rightarrow> string \<Rightarrow> nat option" where
  "read_base b acc [] = Some acc"
| "read_base b acc (c # cs) =
     (case digit_value c of None \<Rightarrow> None
      | Some d \<Rightarrow> if d < b then read_base b (acc * b + d) cs else None)"

lemma code_char_of: "n < 256 \<Longrightarrow> code_point (char_of n) = n"
  by (simp add: code_point_def)

lemma digit_value_char: "d < 36 \<Longrightarrow> digit_value (digit_char d) = Some d"
  by (auto simp: digit_value_def digit_char_def code_char_of Let_def)

lemma read_base_append:
  "read_base b acc (s @ t) = (case read_base b acc s of None \<Rightarrow> None | Some n \<Rightarrow> read_base b n t)"
  by (induction b acc s rule: read_base.induct) (auto split: option.splits)

lemma read_show_base:
  assumes "2 \<le> b" "b \<le> 36"
  shows "read_base b 0 (show_base b n) = Some n"
proof (induction n rule: less_induct)
  case (less n)
  show ?case
  proof (cases "n < b")
    case True
    then show ?thesis using assms by (subst show_base.simps) (simp add: digit_value_char)
  next
    case False
    then have "n div b < n" using assms by (intro div_less_dividend) auto
    moreover have "n mod b < b" using assms by simp
    then have "n mod b < 36" using assms by linarith
    ultimately show ?thesis using False assms less.IH [of "n div b"]
      by (subst show_base.simps) (simp add: read_base_append digit_value_char)
  qed
qed

lemma show_base_inject: "2 \<le> b \<Longrightarrow> b \<le> 36 \<Longrightarrow> show_base b m = show_base b n \<longleftrightarrow> m = n"
  by (metis option.inject read_show_base)

lemma show_base_chars:
  "2 \<le> b \<Longrightarrow> b \<le> 36 \<Longrightarrow> c \<in> set (show_base b n) \<Longrightarrow> \<exists>d < b. c = digit_char d"
proof (induction n rule: less_induct)
  case (less n)
  show ?case
  proof (cases "n < b")
    case True
    then show ?thesis using less.prems by (subst (asm) show_base.simps) auto
  next
    case False
    then have "n div b < n" using less.prems by (intro div_less_dividend) auto
    moreover have "n mod b < b" using less.prems by simp
    moreover have "c \<in> set (show_base b (n div b)) \<or> c = digit_char (n mod b)"
      using less.prems False by (subst (asm) show_base.simps) auto
    ultimately show ?thesis using less by blast
  qed
qed

lemma digit_char_not_mark: "d < 36 \<Longrightarrow> digit_char d \<noteq> CHR ''-'' \<and> digit_char d \<noteq> slash"
  using digit_value_char [of d] by (auto simp: digit_value_def code_point_def)

lemma show_base_no_mark:
  assumes "2 \<le> b" "b \<le> 36"
  shows "CHR ''-'' \<notin> set (show_base b n)" "slash \<notin> set (show_base b n)"
proof -
  have "c \<noteq> CHR ''-'' \<and> c \<noteq> slash" if c: "c \<in> set (show_base b n)" for c
  proof -
    obtain d where "d < b" "c = digit_char d" using show_base_chars [OF assms c] by blast
    then show ?thesis using digit_char_not_mark [of d] assms by simp
  qed
  then show "CHR ''-'' \<notin> set (show_base b n)" "slash \<notin> set (show_base b n)" by blast+
qed

lemma show_base_not_Nil [simp]: "show_base b n \<noteq> []"
  by (subst show_base.simps) simp

lemma str_int_inject [simp]: "str_int i = str_int j \<longleftrightarrow> i = j"
proof
  assume eq: "str_int i = str_int j"
  have head: "\<And>n t. show_base 10 n \<noteq> CHR ''-'' # t"
  proof
    fix n t
    assume "show_base 10 n = CHR ''-'' # t"
    then have "CHR ''-'' \<in> set (show_base 10 n)" by simp
    then show False using show_base_no_mark(1) [of 10 n] by simp
  qed
  show "i = j"
  proof (cases "i < 0"; cases "j < 0")
    assume "i < 0" "j < 0"
    then show ?thesis using eq by (simp add: str_int_def show_base_inject)
  next
    assume "i < 0" "\<not> j < 0"
    then show ?thesis using eq head [of "nat j" "show_base 10 (nat (- i))"] by (simp add: str_int_def)
  next
    assume "\<not> i < 0" "j < 0"
    then show ?thesis using eq head [of "nat i" "show_base 10 (nat (- j))"] by (simp add: str_int_def)
  next
    assume "\<not> i < 0" "\<not> j < 0"
    then show ?thesis using eq by (simp add: str_int_def show_base_inject)
  qed
qed simp

text \<open>
  \<open>int(s, base)\<close> for a base of 10 or 16: white space around it, a sign, for base 16 a \<open>0x\<close>,
  and single underscores between digits are accepted; anything else is a \<open>ValueError\<close>.
\<close>

definition int_digits :: "nat \<Rightarrow> string \<Rightarrow> nat option" where
  "int_digits b s =
     (let groups = split_on CHR ''_'' s in
      if [] \<in> set groups then None else read_base b 0 (concat groups))"

definition unsigned_int :: "nat \<Rightarrow> string \<Rightarrow> nat option" where
  "unsigned_int b s =
     (if b = 16 \<and> (prefix ''0x'' s \<or> prefix ''0X'' s)
      then int_digits b (if prefix ''_'' (drop 2 s) then drop 3 s else drop 2 s)
      else int_digits b s)"

definition py_int :: "nat \<Rightarrow> string \<Rightarrow> int option" where
  "py_int b s =
     (let t = strip s in
      if prefix ''-'' t then map_option (\<lambda>n. - int n) (unsigned_int b (drop 1 t))
      else if prefix ''+'' t then map_option int (unsigned_int b (drop 1 t))
      else map_option int (unsigned_int b t))"

section \<open>UUIDs as text\<close>

text \<open>
  A UUID is its 128-bit number. \<open>str_uuid\<close> is \<open>str(uuid)\<close>, five groups of lower-case
  hexadecimal digits; \<open>parse_uuid\<close> is \<open>uuid.UUID(s)\<close>, \<open>None\<close> where it raises \<open>ValueError\<close>.
\<close>

type_synonym uuid = nat

fun hex_digits :: "nat \<Rightarrow> nat \<Rightarrow> string" where
  "hex_digits 0 n = []"
| "hex_digits (Suc k) n = hex_digits k (n div 16) @ [digit_char (n mod 16)]"

definition str_uuid :: "uuid \<Rightarrow> string" where
  "str_uuid u = (let h = hex_digits 32 u in
     join_on CHR ''-'' [take 8 h, take 4 (drop 8 h), take 4 (drop 12 h), take 4 (drop 16 h), drop 20 h])"

text \<open>\<open>s.replace(old, new)\<close> for a non-empty \<open>old\<close>.\<close>

fun replace_all :: "string \<Rightarrow> string \<Rightarrow> string \<Rightarrow> string" where
  "replace_all old new [] = []"
| "replace_all old new (c # cs) =
     (if old \<noteq> [] \<and> prefix old (c # cs)
      then new @ replace_all old new (drop (length old - 1) cs)
      else c # replace_all old new cs)"

definition parse_uuid :: "string \<Rightarrow> uuid option" where
  "parse_uuid s =
     (let t = replace_all ''uuid:'' [] (replace_all ''urn:'' [] s);
          h = filter (\<lambda>c. c \<noteq> CHR ''-'') (strip_where (\<lambda>c. c = CHR ''{'' \<or> c = CHR ''}'') t) in
      if length h \<noteq> 32 then None
      else case py_int 16 h of
        None \<Rightarrow> None
      | Some i \<Rightarrow> if 0 \<le> i then Some (nat i) else None)"

lemma length_hex_digits [simp]: "length (hex_digits k n) = k"
  by (induction k arbitrary: n) auto

lemma read_hex_digits: "n < 16 ^ k \<Longrightarrow> read_base 16 0 (hex_digits k n) = Some n"
proof (induction k arbitrary: n)
  case (Suc k)
  then have "n div 16 < 16 ^ k" by (simp add: less_mult_imp_div_less mult.commute)
  then show ?case using Suc.IH by (simp add: read_base_append digit_value_char)
qed simp

lemma hex_digits_chars: "c \<in> set (hex_digits k n) \<Longrightarrow> \<exists>d < 16. c = digit_char d"
  by (induction k arbitrary: n) force+

lemma hex_digits_no_mark: "CHR ''-'' \<notin> set (hex_digits k n)" "slash \<notin> set (hex_digits k n)"
proof -
  have "c \<noteq> CHR ''-'' \<and> c \<noteq> slash" if c: "c \<in> set (hex_digits k n)" for c
  proof -
    obtain d where "d < 16" "c = digit_char d" using hex_digits_chars [OF c] by blast
    then show ?thesis using digit_char_not_mark [of d] by simp
  qed
  then show "CHR ''-'' \<notin> set (hex_digits k n)" "slash \<notin> set (hex_digits k n)" by blast+
qed

lemma str_uuid_digits: "filter (\<lambda>c. c \<noteq> CHR ''-'') (str_uuid u) = hex_digits 32 u"
proof -
  let ?h = "hex_digits 32 u"
  have clean: "filter (\<lambda>c. c \<noteq> CHR ''-'') t = t" if "set t \<subseteq> set ?h" for t
    using that hex_digits_no_mark(1) [of 32 u] by (intro filter_True) auto
  have "take 8 ?h @ take 4 (drop 8 ?h) @ take 4 (drop 12 ?h) @ take 4 (drop 16 ?h) @ drop 20 ?h = ?h"
    using append_take_drop_id [of 4 "drop 16 ?h"] append_take_drop_id [of 4 "drop 12 ?h"]
      append_take_drop_id [of 4 "drop 8 ?h"] append_take_drop_id [of 8 ?h] by simp
  then show ?thesis
    by (simp add: str_uuid_def Let_def clean set_take_subset set_drop_subset order_trans [OF set_take_subset set_drop_subset])
qed

lemma str_uuid_inject: "u < 2 ^ 128 \<Longrightarrow> v < 2 ^ 128 \<Longrightarrow> str_uuid u = str_uuid v \<longleftrightarrow> u = v"
proof
  assume "u < 2 ^ 128" "v < 2 ^ 128" "str_uuid u = str_uuid v"
  moreover have "(2 :: nat) ^ 128 = 16 ^ 32" by simp
  ultimately show "u = v" by (metis option.inject read_hex_digits str_uuid_digits)
qed simp

lemma str_uuid_no_slash: "slash \<notin> set (str_uuid u)"
proof
  assume "slash \<in> set (str_uuid u)"
  then have "slash \<in> set (filter (\<lambda>c. c \<noteq> CHR ''-'') (str_uuid u))" by simp
  then show False using hex_digits_no_mark(2) by (simp only: str_uuid_digits)
qed

lemma str_uuid_not_Nil [simp]: "str_uuid u \<noteq> []"
proof
  assume "str_uuid u = []"
  then have "hex_digits 32 u = []" using str_uuid_digits [of u] by simp
  then show False using length_hex_digits [of 32 u] by simp
qed

end
