(* ===== verification/Models.thy ===== *)
theory Models
  imports Py_Strings "HOL-Library.AList" "HOL-Library.Word"
begin

text \<open>
  The data of the storage app: \<open>apps/storage/models.py\<close> as enumerations and rows, the
  database and the blob store as one world, and the exceptions its operations raise. A table
  is the list of its rows, a foreign key the primary key of the row it points to, and a time
  the number of microseconds since the epoch. The constraints of the schema (primary keys,
  unique constraints, foreign keys, the check constraint on grants) are in Database.
\<close>

section \<open>Enumerations\<close>

datatype BucketKind = COMPANY_KIND | CONNECTOR_KIND
datatype SubjectType = SUBJECT_USER | SUBJECT_GROUP | SUBJECT_COMPANY
datatype ResourceType = RESOURCE_BUCKET | RESOURCE_FOLDER | RESOURCE_OBJECT
datatype Permission = READ | WRITE | ADMIN
datatype Effect = ALLOW | DENY

section \<open>JSON values\<close>

datatype json = JNull | JBool bool | JInt int | JStr string | JList "json list"
  | JObj "(string \<times> json) list"

type_synonym dict = "(string \<times> json) list"
type_synonym bytes = "8 word list"

section \<open>Rows\<close>

record bucket =
  b_id :: uuid
  b_name :: string
  b_company_id :: int
  b_kind :: BucketKind
  b_public :: bool
  b_file_size_limit :: "int option"
  b_allowed_mime_types :: "string list"
  b_owner_id :: "int option"
  b_connector_provider :: string
  b_created_at :: int
  b_updated_at :: int

record storage_object =
  o_id :: uuid
  o_bucket :: uuid
  o_name :: string
  o_company_id :: int
  o_owner_id :: "int option"
  o_size :: int
  o_etag :: string
  o_mime_type :: string
  o_metadata :: dict
  o_storage_key :: string
  o_version :: int
  o_created_at :: int
  o_updated_at :: int
  o_last_accessed_at :: "int option"

record company_quota =
  cq_company_id :: int
  cq_max_bytes :: int
  cq_used_bytes :: int
  cq_max_bytes_per_user :: "int option"

record user_quota =
  uq_company_id :: int
  uq_user_id :: int
  uq_max_bytes :: int
  uq_used_bytes :: int

record access_grant =
  g_id :: uuid
  g_company_id :: int
  g_bucket :: uuid
  g_object :: "uuid option"
  g_subject_type :: SubjectType
  g_subject_id :: string
  g_resource_type :: ResourceType
  g_permission :: Permission
  g_effect :: Effect
  g_created_by_id :: "int option"
  g_created_at :: int
  g_updated_at :: int
  g_expires_at :: "int option"
  g_notes :: string

record share_link =
  l_id :: uuid
  l_token :: string
  l_object :: uuid
  l_company_id :: int
  l_created_by_id :: int
  l_expires_at :: "int option"
  l_max_downloads :: "int option"
  l_download_count :: int
  l_revoked_at :: "int option"
  l_created_at :: int
  l_notes :: string

text \<open>
  The user of a request (\<open>StoragePrincipal\<close>): no user id is the anonymous user, no company id
  a token without the claim.
\<close>

record principal =
  p_user_id :: "int option"
  p_company_id :: "int option"
  p_is_company_owner :: bool
  p_is_staff :: bool
  p_email :: string
  p_username :: string
  p_access_global_metrics :: bool

section \<open>Folder markers\<close>

definition FOLDER_PLACEHOLDER_NAME :: string where
  "FOLDER_PLACEHOLDER_NAME = ''.emptyFolderPlaceholder''"

definition normalize_slashes :: "string \<Rightarrow> string" where
  "normalize_slashes s = strip_slashes (strip s)"

definition folder_placeholder_path :: "string \<Rightarrow> string" where
  "folder_placeholder_path folder_path =
     (let folder = normalize_slashes folder_path in
      if folder = [] then FOLDER_PLACEHOLDER_NAME else folder @ slash # FOLDER_PLACEHOLDER_NAME)"

definition folder_path_from_placeholder :: "string \<Rightarrow> string" where
  "folder_path_from_placeholder object_name =
     (let name = normalize_slashes object_name; sfx = slash # FOLDER_PLACEHOLDER_NAME in
      if name = FOLDER_PLACEHOLDER_NAME then []
      else if suffix sfx name then take (length name - length sfx) name
      else name)"

definition is_placeholder_name :: "string \<Rightarrow> bool" where
  "is_placeholder_name name \<longleftrightarrow>
     name = FOLDER_PLACEHOLDER_NAME \<or> suffix (slash # FOLDER_PLACEHOLDER_NAME) name"

definition obj_folder :: "storage_object \<Rightarrow> string" where
  "obj_folder obj = (if slash \<notin> set (o_name obj) then [] else dirname (o_name obj))"

definition obj_basename :: "storage_object \<Rightarrow> string" where
  "obj_basename obj = basename (o_name obj)"

definition link_is_active :: "int \<Rightarrow> share_link \<Rightarrow> bool" where
  "link_is_active now link =
     (if l_revoked_at link \<noteq> None then False
      else if (case l_expires_at link of None \<Rightarrow> False | Some t \<Rightarrow> t \<le> now) then False
      else if (case l_max_downloads link of None \<Rightarrow> False | Some m \<Rightarrow> m \<le> l_download_count link) then False
      else True)"

section \<open>Exceptions, events and the world\<close>

text \<open>
  \<open>StorageErr status code\<close> is \<open>StorageError\<close>, \<open>BlobErr code\<close> whatever the storage backend
  raises (with its S3 error code, empty when there is none), and the last two are Django's, for a request body that is too
  large for the memory or has been read already. Messages are left out.
\<close>

datatype exn = StorageErr int string | ValueErr | QuotaErr string | BlobErr string
  | IntegrityErr | TypeErr | DoesNotExist | RequestDataTooBig | RawPostDataErr

record event =
  e_type :: string
  e_company_id :: int
  e_data :: dict
  e_actor :: "dict option"

record world =
  w_buckets :: "bucket list"
  w_objects :: "storage_object list"
  w_grants :: "access_grant list"
  w_links :: "share_link list"
  w_cquotas :: "company_quota list"
  w_uquotas :: "user_quota list"
  w_events :: "event list"
  w_blobs :: "string \<rightharpoonup> bytes"
  w_clock :: int
  w_next_uuid :: uuid

type_synonym 'a act = "(world, exn, 'a) prog"

text \<open>
  \<open>transaction.atomic\<close>: an exception rolls the database back. The blob store is not part of
  the transaction, and a UUID that was drawn is not drawn again.
\<close>

definition rollback :: "world \<Rightarrow> world \<Rightarrow> world" where
  "rollback w w' = w\<lparr>w_blobs := w_blobs w', w_next_uuid := w_next_uuid w'\<rparr>"

definition atomic :: "'a act \<Rightarrow> 'a act" where
  "atomic m w = (case m w of (Inl e, w') \<Rightarrow> (Inl e, rollback w w') | (Inr x, w') \<Rightarrow> (Inr x, w'))"

text \<open>\<open>uuid.uuid4()\<close> draws an identifier nothing uses yet.\<close>

definition fresh_uuid :: "uuid act" where
  "fresh_uuid w = (Inr (w_next_uuid w), w\<lparr>w_next_uuid := Suc (w_next_uuid w)\<rparr>)"

section \<open>Queries\<close>

definition bucket_by_id :: "world \<Rightarrow> uuid \<Rightarrow> bucket option" where
  "bucket_by_id w i = first_where (\<lambda>b. b_id b = i) (w_buckets w)"

definition bucket_by_name :: "world \<Rightarrow> int \<Rightarrow> string \<Rightarrow> bucket option" where
  "bucket_by_name w company_id name =
     first_where (\<lambda>b. b_company_id b = company_id \<and> b_name b = name) (w_buckets w)"

definition object_by_id :: "world \<Rightarrow> uuid \<Rightarrow> storage_object option" where
  "object_by_id w i = first_where (\<lambda>obj. o_id obj = i) (w_objects w)"

definition find_object :: "world \<Rightarrow> bucket \<Rightarrow> string \<Rightarrow> storage_object option" where
  "find_object w bucket name =
     first_where (\<lambda>obj. o_bucket obj = b_id bucket \<and> o_name obj = name) (w_objects w)"

definition bucket_name_of :: "world \<Rightarrow> uuid \<Rightarrow> string" where
  "bucket_name_of w i = (case bucket_by_id w i of None \<Rightarrow> [] | Some b \<Rightarrow> b_name b)"

definition object_name_of :: "world \<Rightarrow> uuid option \<Rightarrow> string" where
  "object_name_of w i =
     (case i of None \<Rightarrow> [] | Some i \<Rightarrow> (case object_by_id w i of None \<Rightarrow> [] | Some obj \<Rightarrow> o_name obj))"

definition resource_path :: "world \<Rightarrow> access_grant \<Rightarrow> string" where
  "resource_path w g =
     (if g_resource_type g = RESOURCE_BUCKET then bucket_name_of w (g_bucket g)
      else if g_object g = None then []
      else if g_resource_type g = RESOURCE_FOLDER
      then folder_path_from_placeholder (object_name_of w (g_object g))
      else normalize_slashes (object_name_of w (g_object g)))"

end
