(* ===== verification/Database.thy ===== *)
theory Database
  imports Models
begin

text \<open>
  The database operations the storage app issues, with the constraints the schema enforces:
  inserting and saving rows (\<open>IntegrityErr\<close> on a broken constraint), queryset updates, and
  deletion with \<open>on_delete=CASCADE\<close>. \<open>schema_ok\<close> is what the schema guarantees, and every
  operation keeps it; \<open>tenant_ok\<close> is what the code must add for companies to stay apart.
\<close>

section \<open>Constraints\<close>

definition object_key :: "storage_object \<Rightarrow> uuid \<times> string" where
  "object_key obj = (o_bucket obj, o_name obj)"

definition grant_shape :: "access_grant \<Rightarrow> bool" where
  "grant_shape g \<longleftrightarrow> (g_resource_type g = RESOURCE_BUCKET) = (g_object g = None)"

definition schema_ok :: "world \<Rightarrow> bool" where
  "schema_ok w \<longleftrightarrow>
     distinct (map b_id (w_buckets w)) \<and>
     distinct (map (\<lambda>b. (b_company_id b, b_name b)) (w_buckets w)) \<and>
     distinct (map o_id (w_objects w)) \<and>
     distinct (map object_key (w_objects w)) \<and>
     distinct (map g_id (w_grants w)) \<and>
     distinct (map l_token (w_links w)) \<and>
     distinct (map cq_company_id (w_cquotas w)) \<and>
     distinct (map (\<lambda>q. (uq_company_id q, uq_user_id q)) (w_uquotas w)) \<and>
     (\<forall>obj \<in> set (w_objects w). o_bucket obj \<in> b_id ` set (w_buckets w)) \<and>
     (\<forall>g \<in> set (w_grants w). grant_shape g \<and> g_bucket g \<in> b_id ` set (w_buckets w) \<and>
        (\<forall>i. g_object g = Some i \<longrightarrow> i \<in> o_id ` set (w_objects w))) \<and>
     (\<forall>l \<in> set (w_links w). l_object l \<in> o_id ` set (w_objects w))"

definition bucket_company :: "bucket list \<Rightarrow> uuid \<Rightarrow> int \<Rightarrow> bool" where
  "bucket_company bs i c \<longleftrightarrow> (\<forall>b \<in> set bs. b_id b = i \<longrightarrow> b_company_id b = c)"

definition object_local :: "world \<Rightarrow> storage_object \<Rightarrow> bool" where
  "object_local w obj \<longleftrightarrow> 0 \<le> o_size obj \<and>
     bucket_company (w_buckets w) (o_bucket obj) (o_company_id obj)"

definition grant_local :: "world \<Rightarrow> access_grant \<Rightarrow> bool" where
  "grant_local w g \<longleftrightarrow>
     bucket_company (w_buckets w) (g_bucket g) (g_company_id g) \<and>
     (\<forall>obj \<in> set (w_objects w). g_object g = Some (o_id obj) \<longrightarrow> o_bucket obj = g_bucket g)"

definition link_local :: "world \<Rightarrow> share_link \<Rightarrow> bool" where
  "link_local w l \<longleftrightarrow>
     (\<forall>obj \<in> set (w_objects w). o_id obj = l_object l \<longrightarrow> o_company_id obj = l_company_id l)"

definition tenant_ok :: "world \<Rightarrow> bool" where
  "tenant_ok w \<longleftrightarrow>
     (\<forall>obj \<in> set (w_objects w). object_local w obj) \<and>
     (\<forall>g \<in> set (w_grants w). grant_local w g) \<and>
     (\<forall>l \<in> set (w_links w). link_local w l)"

section \<open>Buckets\<close>

definition insert_bucket :: "bucket \<Rightarrow> bucket act" where
  "insert_bucket b w =
     (if b_id b \<in> b_id ` set (w_buckets w) \<or>
         (b_company_id b, b_name b) \<in> (\<lambda>x. (b_company_id x, b_name x)) ` set (w_buckets w)
      then (Inl IntegrityErr, w)
      else (Inr b, w\<lparr>w_buckets := w_buckets w @ [b]\<rparr>))"

definition update_bucket :: "uuid \<Rightarrow> (bucket \<Rightarrow> bucket) \<Rightarrow> unit act" where
  "update_bucket i f = modify (\<lambda>w. w\<lparr>w_buckets := update_where (\<lambda>b. b_id b = i) f (w_buckets w)\<rparr>)"

section \<open>Objects\<close>

definition object_exists :: "storage_object \<Rightarrow> world \<Rightarrow> bool" where
  "object_exists obj w \<longleftrightarrow>
     o_id obj \<in> o_id ` set (w_objects w) \<or> object_key obj \<in> object_key ` set (w_objects w) \<or>
     o_bucket obj \<notin> b_id ` set (w_buckets w)"

definition insert_object :: "storage_object \<Rightarrow> storage_object act" where
  "insert_object obj w =
     (if object_exists obj w then (Inl IntegrityErr, w)
      else (Inr obj, w\<lparr>w_objects := w_objects w @ [obj]\<rparr>))"

text \<open>
  \<open>obj.save(update_fields=...)\<close> and \<open>filter(pk=...).update(...)\<close> write some columns of one
  row; the unique constraint on bucket and name is checked on the new row.
\<close>

definition object_conflict :: "uuid \<Rightarrow> (storage_object \<Rightarrow> storage_object) \<Rightarrow> world \<Rightarrow> bool" where
  "object_conflict i f w \<longleftrightarrow>
     (\<exists>x \<in> set (w_objects w). o_id x = i \<and>
        (o_bucket (f x) \<notin> b_id ` set (w_buckets w) \<or>
         (\<exists>y \<in> set (w_objects w). o_id y \<noteq> i \<and> object_key y = object_key (f x))))"

definition update_object :: "uuid \<Rightarrow> (storage_object \<Rightarrow> storage_object) \<Rightarrow> unit act" where
  "update_object i f w =
     (if object_conflict i f w
      then (Inl IntegrityErr, w)
      else (Inr (), w\<lparr>w_objects := update_where (\<lambda>x. o_id x = i) f (w_objects w)\<rparr>))"

text \<open>Deleting an object takes its grants and share links with it (\<open>on_delete=CASCADE\<close>).\<close>

definition delete_object_row :: "uuid \<Rightarrow> unit act" where
  "delete_object_row i = modify (\<lambda>w. w\<lparr>
     w_objects := delete_where (\<lambda>x. o_id x = i) (w_objects w),
     w_grants := delete_where (\<lambda>g. g_object g = Some i) (w_grants w),
     w_links := delete_where (\<lambda>l. l_object l = i) (w_links w)\<rparr>)"

section \<open>Grants and share links\<close>

definition grant_conflict :: "access_grant \<Rightarrow> world \<Rightarrow> bool" where
  "grant_conflict g w \<longleftrightarrow>
     g_id g \<in> g_id ` set (w_grants w) \<or> \<not> grant_shape g \<or> g_bucket g \<notin> b_id ` set (w_buckets w) \<or>
     (\<exists>i \<in> set_option (g_object g). i \<notin> o_id ` set (w_objects w))"

definition insert_grant :: "access_grant \<Rightarrow> access_grant act" where
  "insert_grant g w =
     (if grant_conflict g w
      then (Inl IntegrityErr, w)
      else (Inr g, w\<lparr>w_grants := w_grants w @ [g]\<rparr>))"

definition delete_grant_row :: "uuid \<Rightarrow> unit act" where
  "delete_grant_row i = modify (\<lambda>w. w\<lparr>w_grants := delete_where (\<lambda>g. g_id g = i) (w_grants w)\<rparr>)"

definition insert_link :: "share_link \<Rightarrow> share_link act" where
  "insert_link l w =
     (if l_token l \<in> l_token ` set (w_links w) \<or> l_object l \<notin> o_id ` set (w_objects w)
      then (Inl IntegrityErr, w)
      else (Inr l, w\<lparr>w_links := w_links w @ [l]\<rparr>))"

definition update_link :: "string \<Rightarrow> (share_link \<Rightarrow> share_link) \<Rightarrow> unit act" where
  "update_link tok f =
     modify (\<lambda>w. w\<lparr>w_links := update_where (\<lambda>l. l_token l = tok) f (w_links w)\<rparr>)"

section \<open>Verification conditions\<close>

lemma conflict_next [simp]:
  "grant_conflict g (w\<lparr>w_next_uuid := n\<rparr>) = grant_conflict g w"
  "object_exists obj (w\<lparr>w_next_uuid := n\<rparr>) = object_exists obj w"
  "grant_conflict g (w\<lparr>w_blobs := bl\<rparr>) = grant_conflict g w"
  "object_exists obj (w\<lparr>w_blobs := bl\<rparr>) = object_exists obj w"
  by (simp_all add: grant_conflict_def object_exists_def)

lemma wp_fresh_uuid [wp_simps]:
  "wp fresh_uuid Q R w = Q (w_next_uuid w) (w\<lparr>w_next_uuid := Suc (w_next_uuid w)\<rparr>)"
  by (simp add: wp_def fresh_uuid_def)

lemma wp_atomic [wp_simps]: "wp (atomic m) Q R w = wp m Q (\<lambda>e w'. R e (rollback w w')) w"
  by (auto simp: wp_def atomic_def split: prod.splits sum.splits)

lemma wp_insert_bucket:
  "wp (insert_bucket b) Q R w =
     (if b_id b \<in> b_id ` set (w_buckets w) \<or>
         (b_company_id b, b_name b) \<in> (\<lambda>x. (b_company_id x, b_name x)) ` set (w_buckets w)
      then R IntegrityErr w else Q b (w\<lparr>w_buckets := w_buckets w @ [b]\<rparr>))"
  by (simp add: wp_def insert_bucket_def)

lemma wp_insert_object:
  "wp (insert_object obj) Q R w =
     (if object_exists obj w then R IntegrityErr w else Q obj (w\<lparr>w_objects := w_objects w @ [obj]\<rparr>))"
  by (simp add: wp_def insert_object_def)

lemma wp_update_object:
  "wp (update_object i f) Q R w =
     (if object_conflict i f w
      then R IntegrityErr w
      else Q () (w\<lparr>w_objects := update_where (\<lambda>x. o_id x = i) f (w_objects w)\<rparr>))"
  by (simp add: wp_def update_object_def)

lemma wp_insert_grant:
  "wp (insert_grant g) Q R w =
     (if grant_conflict g w
      then R IntegrityErr w else Q g (w\<lparr>w_grants := w_grants w @ [g]\<rparr>))"
  by (simp add: wp_def insert_grant_def)

lemma wp_insert_link:
  "wp (insert_link l) Q R w =
     (if l_token l \<in> l_token ` set (w_links w) \<or> l_object l \<notin> o_id ` set (w_objects w)
      then R IntegrityErr w else Q l (w\<lparr>w_links := w_links w @ [l]\<rparr>))"
  by (simp add: wp_def insert_link_def)

lemmas wp_rows = wp_insert_bucket wp_insert_object wp_update_object wp_insert_grant wp_insert_link

section \<open>Invariants of the database\<close>

text \<open>
  \<open>stable I\<close>: the invariant speaks about the database only, so that rolling back to a state
  that had it restores it. \<open>maintains I m\<close>: the handler keeps it on every outcome.
\<close>

definition stable :: "(world \<Rightarrow> bool) \<Rightarrow> bool" where
  "stable I \<longleftrightarrow> (\<forall>w bl n. I (w\<lparr>w_blobs := bl, w_next_uuid := n\<rparr>) = I w)"

definition maintains :: "(world \<Rightarrow> bool) \<Rightarrow> 'a act \<Rightarrow> bool" where
  "maintains I m \<longleftrightarrow> (\<forall>w. I w \<longrightarrow> I (snd (m w)))"

lemma maintains_wp: "maintains I m \<Longrightarrow> I w \<Longrightarrow> wp m (\<lambda>_. I) (\<lambda>_. I) w"
  by (intro wpI) (auto simp: maintains_def dest!: spec [of _ w])

lemma maintains_post: "maintains I m \<Longrightarrow> I w \<Longrightarrow> wp m (\<lambda>_. I) (\<lambda>_ _. True) w"
  by (rule wp_mono [OF maintains_wp]) auto

lemma maintainsI: "(\<And>w. I w \<Longrightarrow> wp m (\<lambda>_. I) (\<lambda>_. I) w) \<Longrightarrow> maintains I m"
  unfolding maintains_def
proof (intro allI impI)
  fix w
  assume step: "\<And>w. I w \<Longrightarrow> wp m (\<lambda>_. I) (\<lambda>_. I) w" and w: "I w"
  obtain res w' where m: "m w = (res, w')" by fastforce
  show "I (snd (m w))" using step [OF w] m by (cases res) (simp_all add: wp_def)
qed

lemma maintainsD: "maintains I m \<Longrightarrow> I w \<Longrightarrow> m w = (r, w') \<Longrightarrow> I w'"
  by (auto simp: maintains_def dest!: spec [of _ w])

lemma maintains_keeps: "maintains I m = keeps (\<lambda>w w'. I w \<longrightarrow> I w') m"
  by (simp add: maintains_def keeps_def)

lemma rel_imp: "reflp (\<lambda>w w'. I w \<longrightarrow> I w')" "transp (\<lambda>w w'. I w \<longrightarrow> I w')"
  by (auto simp: reflp_def transp_def)

named_theorems maintains_rules \<open>handlers keep an invariant\<close>

lemma maintains_basic [maintains_rules]:
  "maintains I (ret x)" "maintains I (throw e)" "maintains I (gets f)" "maintains I (lift_sum s)"
  "maintains I (guardE b e)"
  by (simp_all add: maintains_keeps keeps_readers rel_imp)

lemma maintains_bindE [maintains_rules]:
  "maintains I m \<Longrightarrow> (\<And>x. maintains I (f x)) \<Longrightarrow> maintains I (bindE m f)"
  by (simp add: maintains_keeps keeps_bindE rel_imp)

lemma maintains_seqE [maintains_rules]:
  "maintains I m \<Longrightarrow> maintains I n \<Longrightarrow> maintains I (seqE m n)"
  by (simp add: maintains_keeps keeps_seqE rel_imp)

lemma maintains_if [maintains_rules]:
  "(b \<Longrightarrow> maintains I m) \<Longrightarrow> (\<not> b \<Longrightarrow> maintains I n) \<Longrightarrow> maintains I (if b then m else n)"
  by simp

lemma maintains_option [maintains_rules]:
  "maintains I m \<Longrightarrow> (\<And>y. maintains I (f y)) \<Longrightarrow> maintains I (case x of None \<Rightarrow> m | Some y \<Rightarrow> f y)"
  by (simp split: option.splits)

lemma maintains_forE [maintains_rules]:
  "(\<And>x. maintains I (f x)) \<Longrightarrow> maintains I (forE xs f)"
  by (simp add: maintains_keeps keeps_forE rel_imp)

lemma maintains_mapE [maintains_rules]:
  "(\<And>x. maintains I (f x)) \<Longrightarrow> maintains I (mapE f xs)"
  by (simp add: maintains_keeps keeps_mapE rel_imp)

lemma maintains_catchE [maintains_rules]:
  "maintains I m \<Longrightarrow> (\<And>e. maintains I (h e)) \<Longrightarrow> maintains I (catchE m h)"
  by (intro maintainsI) (auto simp: wp_catchE intro!: wp_mono [OF maintains_wp] maintains_wp)

lemma stable_next: "stable I \<Longrightarrow> I (w\<lparr>w_next_uuid := n\<rparr>) = I w"
proof -
  assume "stable I"
  then have "I (w\<lparr>w_blobs := w_blobs w, w_next_uuid := n\<rparr>) = I w" unfolding stable_def by blast
  then show ?thesis by simp
qed

lemma maintains_fresh [maintains_rules]: "stable I \<Longrightarrow> maintains I fresh_uuid"
  by (intro maintainsI) (simp add: wp_fresh_uuid stable_next)

lemma stable_rollback: "stable I \<Longrightarrow> I (rollback w w') = I w"
  by (simp add: stable_def rollback_def)

text \<open>Inside a transaction only the successful outcome has to keep the invariant.\<close>

lemma maintains_atomic:
  assumes "stable I" "\<And>w. I w \<Longrightarrow> wp m (\<lambda>_. I) (\<lambda>_ _. True) w"
  shows "maintains I (atomic m)"
  by (intro maintainsI) (auto simp: wp_atomic stable_rollback [OF assms(1)] intro: wp_mono [OF assms(2)])

lemma maintains_atomic' [maintains_rules]: "stable I \<Longrightarrow> maintains I m \<Longrightarrow> maintains I (atomic m)"
  by (rule maintains_atomic) (auto intro: wp_mono [OF maintains_wp])

section \<open>What the operations keep\<close>

lemma stable_schema_ok: "stable schema_ok"
  by (simp add: stable_def schema_ok_def grant_shape_def)

lemma bucket_company_append [simp]:
  "bucket_company (bs @ [b]) i c \<longleftrightarrow> bucket_company bs i c \<and> (b_id b = i \<longrightarrow> b_company_id b = c)"
  by (auto simp: bucket_company_def)

lemma bucket_company_update:
  assumes "\<And>b. b_id (f b) = b_id b \<and> b_company_id (f b) = b_company_id b"
  shows "bucket_company (update_where P f bs) i c = bucket_company bs i c"
proof -
  have "(\<lambda>b. (b_id b, b_company_id b)) ` set (update_where P f bs) = (\<lambda>b. (b_id b, b_company_id b)) ` set bs"
    using assms by (intro image_update_where) simp
  moreover have "bucket_company bs i c \<longleftrightarrow> (\<forall>k. (i, k) \<in> (\<lambda>b. (b_id b, b_company_id b)) ` set bs \<longrightarrow> k = c)" for bs
    by (auto simp: bucket_company_def)
  ultimately show ?thesis by simp
qed

lemmas local_defs = object_local_def grant_local_def link_local_def

lemma stable_tenant_ok: "stable tenant_ok"
  by (simp add: stable_def tenant_ok_def local_defs)

lemma stable_conj: "stable I \<Longrightarrow> stable J \<Longrightarrow> stable (\<lambda>w. I w \<and> J w)"
  by (simp add: stable_def)

lemma schema_insert_object: "maintains schema_ok (insert_object obj)"
  by (intro maintainsI) (auto simp: wp_insert_object object_exists_def schema_ok_def)

lemma schema_insert_bucket: "maintains schema_ok (insert_bucket b)"
  by (intro maintainsI) (auto simp: wp_insert_bucket schema_ok_def)

lemma schema_insert_grant: "maintains schema_ok (insert_grant g)"
  by (intro maintainsI) (auto simp: wp_insert_grant grant_conflict_def schema_ok_def split: option.splits)

lemma schema_insert_link: "maintains schema_ok (insert_link l)"
  by (intro maintainsI) (auto simp: wp_insert_link schema_ok_def)

lemma schema_delete_grant: "maintains schema_ok (delete_grant_row i)"
  by (intro maintainsI)
    (auto simp: delete_grant_row_def wp_modify schema_ok_def intro: distinct_delete_where)

lemma schema_delete_object: "maintains schema_ok (delete_object_row i)"
  by (intro maintainsI)
    (auto simp: delete_object_row_def wp_modify schema_ok_def image_delete_key intro: distinct_delete_where)

lemma schema_update_link:
  "(\<And>l. l_token (f l) = l_token l \<and> l_object (f l) = l_object l) \<Longrightarrow> maintains schema_ok (update_link t f)"
  by (intro maintainsI)
    (auto simp: update_link_def wp_modify schema_ok_def set_update_where map_update_where)

lemma schema_update_bucket:
  "(\<And>b. b_id (f b) = b_id b \<and> b_company_id (f b) = b_company_id b \<and> b_name (f b) = b_name b) \<Longrightarrow>
   maintains schema_ok (update_bucket i f)"
  by (intro maintainsI)
    (simp add: update_bucket_def wp_modify schema_ok_def image_update_where map_update_where)

lemma distinct_update_key:
  assumes "distinct (map k rs)" "distinct (map u rs)" "\<And>r. k (f r) = k r"
    "\<And>x y. x \<in> set rs \<Longrightarrow> y \<in> set rs \<Longrightarrow> k x = i \<Longrightarrow> k y \<noteq> i \<Longrightarrow> u y \<noteq> u (f x)"
  shows "distinct (map u (update_where (\<lambda>r. k r = i) f rs))"
  using assms
proof (induction rs)
  case (Cons a rs)
  have rest: "distinct (map u (update_where (\<lambda>r. k r = i) f rs))"
    using Cons by simp
  have "u (if k a = i then f a else a) \<notin> u ` set (update_where (\<lambda>r. k r = i) f rs)"
    using Cons.prems by (cases "k a = i") (auto simp: set_update_where image_iff; metis)+
  moreover have "update_where (\<lambda>r. k r = i) f (a # rs) =
      (if k a = i then f a else a) # update_where (\<lambda>r. k r = i) f rs"
    by (simp add: update_where_def)
  ultimately show ?case using rest by simp
qed (simp add: update_where_def)

lemma schema_update_object:
  assumes "\<And>x. o_id (f x) = o_id x"
  shows "maintains schema_ok (update_object i f)"
proof (intro maintainsI)
  fix w
  assume w: "schema_ok w"
  let ?objs = "update_where (\<lambda>x. o_id x = i) f (w_objects w)"
  have ids: "o_id ` set ?objs = o_id ` set (w_objects w)"
    using assms by (intro image_update_where) simp
  have "schema_ok (w\<lparr>w_objects := ?objs\<rparr>)" if no: "\<not> object_conflict i f w"
  proof -
    have "distinct (map object_key ?objs)"
      using w no assms by (intro distinct_update_key) (auto simp: schema_ok_def object_conflict_def)
    moreover have "map o_id ?objs = map o_id (w_objects w)"
      using assms by (intro map_update_where) simp
    moreover have "\<forall>obj \<in> set ?objs. o_bucket obj \<in> b_id ` set (w_buckets w)"
      using w no by (auto simp: set_update_where schema_ok_def object_conflict_def)
    ultimately show ?thesis using w ids by (simp add: schema_ok_def grant_shape_def)
  qed
  then show "wp (update_object i f) (\<lambda>_. schema_ok) (\<lambda>_. schema_ok) w"
    using w by (simp add: wp_update_object)
qed

lemmas schema_rules = schema_insert_object schema_insert_bucket schema_insert_grant schema_insert_link
  schema_delete_grant schema_delete_object schema_update_link schema_update_bucket schema_update_object

end
