(* ===== verification/Environment.thy ===== *)
theory Environment
  imports Models
begin

text \<open>
  What a deployment fixes and the code only reads or calls: the settings, the blob store
  behind \<open>default_storage\<close> (Django's file system storage or S3), the type tables of
  \<open>mimetypes\<close>, the digest of \<open>hashlib\<close>, the Markdown renderer, Django's \<open>parse_datetime\<close>
  (\<open>Inl\<close> is its \<open>ValueError\<close>) with the current time zone, and the random share tokens, of
  which the n-th draw is \<open>share_token env n\<close>. The blob store is a parameter: every call may
  fail, and what a call that succeeds does is stated by the named hypotheses \<open>overwrites\<close>,
  \<open>renames\<close>, \<open>reads_back\<close> and \<open>removes\<close>, the documented behaviour of the two backends.
  \<open>s3_env\<close> and \<open>fs_env\<close> are concrete environments that satisfy them.
\<close>

type_synonym blobs = "string \<rightharpoonup> bytes"

text \<open>A date and time as \<open>parse_datetime\<close> returns it, without or with a time zone.\<close>

datatype datetime = Naive int | Aware int

record env =
  MAX_UPLOAD_BYTES :: int
  DATA_UPLOAD_MAX_MEMORY_SIZE :: int
  DEFAULT_COMPANY_QUOTA_BYTES :: int
  DEFAULT_USER_QUOTA_BYTES :: int
  STORAGE_BACKEND :: string
  STORAGE_KEY_PREFIX :: string
  SIGNED_URL_EXPIRES :: int
  storage_save :: "string \<Rightarrow> bytes \<Rightarrow> blobs \<Rightarrow> (string + string) \<times> blobs"
  storage_open :: "string \<Rightarrow> blobs \<Rightarrow> string + bytes"
  storage_has :: "string \<Rightarrow> blobs \<Rightarrow> string + bool"
  storage_delete :: "string \<Rightarrow> blobs \<Rightarrow> (string + unit) \<times> blobs"
  storage_url :: "string \<Rightarrow> int option \<Rightarrow> string option"
  guess_type :: "string \<Rightarrow> string option"
  guess_type_strict :: "string \<Rightarrow> string option"
  md5_hex :: "bytes \<Rightarrow> string"
  decode_utf8 :: "bytes \<Rightarrow> string"
  render_markdown :: "string \<Rightarrow> string option"
  parse_datetime :: "string \<Rightarrow> unit + datetime option"
  make_aware :: "int \<Rightarrow> int"
  share_token :: "uuid \<Rightarrow> string"

section \<open>Documented behaviour of the two backends\<close>

text \<open>S3 with \<open>file_overwrite\<close>: saving under a key replaces what is there.\<close>

definition overwrites :: "env \<Rightarrow> bool" where
  "overwrites env \<longleftrightarrow> (\<forall>k d bl k' bl'. storage_save env k d bl = (Inr k', bl') \<longrightarrow>
     k' = k \<and> bl' = bl(k \<mapsto> d))"

text \<open>
  \<open>FileSystemStorage\<close> (\<open>allow_overwrite\<close> off): a name that is taken is never written again;
  the data goes to another name, which \<open>save\<close> returns.
\<close>

definition renames :: "env \<Rightarrow> bool" where
  "renames env \<longleftrightarrow> (\<forall>k d bl k' bl'. storage_save env k d bl = (Inr k', bl') \<longrightarrow>
     k' \<notin> dom bl \<and> bl' = bl(k' \<mapsto> d) \<and> (k \<notin> dom bl \<longrightarrow> k' = k))"

definition reads_back :: "env \<Rightarrow> bool" where
  "reads_back env \<longleftrightarrow> (\<forall>k bl d. bl k = Some d \<longrightarrow> storage_open env k bl = Inr d)"

text \<open>\<open>exists\<close> tells whether there is a blob, and a \<open>delete\<close> that returns has removed it.\<close>

definition removes :: "env \<Rightarrow> bool" where
  "removes env \<longleftrightarrow> (\<forall>k bl. storage_has env k bl = Inr (k \<in> dom bl)) \<and>
     (\<forall>k bl u bl'. storage_delete env k bl = (Inr u, bl') \<longrightarrow> bl' = bl(k := None))"

text \<open>Either backend stores data that is given a new name under that name.\<close>

lemma save_new_key:
  assumes "overwrites env \<or> renames env" "storage_save env k d bl = (Inr k', bl')" "k \<notin> dom bl"
  shows "k' = k \<and> bl' = bl(k \<mapsto> d)"
  using assms unfolding overwrites_def renames_def by blast

section \<open>Concrete environments\<close>

definition s3_env :: env where
  "s3_env = \<lparr>MAX_UPLOAD_BYTES = 20, DATA_UPLOAD_MAX_MEMORY_SIZE = 12, DEFAULT_COMPANY_QUOTA_BYTES = 100,
     DEFAULT_USER_QUOTA_BYTES = 0, STORAGE_BACKEND = ''s3'', STORAGE_KEY_PREFIX = ''shellui'',
     SIGNED_URL_EXPIRES = 3600,
     storage_save = (\<lambda>k d bl. (Inr k, bl(k \<mapsto> d))),
     storage_open = (\<lambda>k bl. case bl k of None \<Rightarrow> Inl ''404'' | Some d \<Rightarrow> Inr d),
     storage_has = (\<lambda>k bl. Inr (bl k \<noteq> None)),
     storage_delete = (\<lambda>k bl. (Inr (), bl(k := None))),
     storage_url = (\<lambda>k e. Some k),
     guess_type = (\<lambda>s. if suffix ''.md'' s then Some ''text/markdown'' else None),
     guess_type_strict = (\<lambda>s. None),
     md5_hex = (\<lambda>d. show_base 16 (length d)),
     decode_utf8 = (\<lambda>d. map (\<lambda>x. char_of (unat x)) d),
     render_markdown = (\<lambda>s. None),
     parse_datetime = (\<lambda>s. Inr (map_option Aware (py_int 10 s))),
     make_aware = (\<lambda>t. t),
     share_token = str_uuid\<rparr>"

definition fs_env :: env where
  "fs_env = s3_env\<lparr>STORAGE_BACKEND := ''filesystem'',
     storage_save := (\<lambda>k d bl.
       if bl k = None then (Inr k, bl(k \<mapsto> d))
       else if bl (k @ ''_0'') = None then (Inr (k @ ''_0''), bl(k @ ''_0'' \<mapsto> d))
       else (Inl '''', bl))\<rparr>"

lemma s3_env_overwrites: "overwrites s3_env"
  by (simp add: overwrites_def s3_env_def)

lemma s3_env_reads_back: "reads_back s3_env"
  by (simp add: reads_back_def s3_env_def)

lemma s3_env_removes: "removes s3_env"
  by (auto simp: removes_def s3_env_def)

lemma fs_env_renames: "renames fs_env"
  by (auto simp: renames_def fs_env_def dom_def split: if_splits)

lemma fs_env_reads_back: "reads_back fs_env"
  by (simp add: reads_back_def fs_env_def s3_env_def)

end
