(* ===== verification/Samples.thy ===== *)
theory Samples
  imports Database Environment
begin

text \<open>
  Concrete rows on which the theorems of the development are applied: company 7 with its
  bucket, its members Ann (user 1) and Bob (user 2), its owner (user 3), and Eve (user 9)
  of company 8.
\<close>

definition company_bucket :: bucket where
  "company_bucket = \<lparr>b_id = 1, b_name = ''company'', b_company_id = 7, b_kind = COMPANY_KIND,
     b_public = False, b_file_size_limit = None, b_allowed_mime_types = [], b_owner_id = None,
     b_connector_provider = [], b_created_at = 0, b_updated_at = 0\<rparr>"

definition user_of :: "int \<Rightarrow> int \<Rightarrow> principal" where
  "user_of c u = \<lparr>p_user_id = Some u, p_company_id = Some c, p_is_company_owner = False,
     p_is_staff = False, p_email = [], p_username = [],
     p_access_global_metrics = False\<rparr>"

definition ann :: principal where "ann = user_of 7 1"
definition bob :: principal where "bob = user_of 7 2"
definition owner :: principal where "owner = (user_of 7 3)\<lparr>p_is_company_owner := True\<rparr>"
definition eve :: principal where "eve = user_of 8 9"

definition blob_key :: "uuid \<Rightarrow> string" where
  "blob_key i = ''blobs/'' @ [digit_char i]"

definition file_row :: "uuid \<Rightarrow> string \<Rightarrow> int \<Rightarrow> int \<Rightarrow> storage_object" where
  "file_row i name sz u = \<lparr>o_id = i, o_bucket = 1, o_name = name, o_company_id = 7,
     o_owner_id = Some u, o_size = sz, o_etag = [], o_mime_type = ''application/octet-stream'',
     o_metadata = [], o_storage_key = blob_key i, o_version = 1, o_created_at = 0, o_updated_at = 0,
     o_last_accessed_at = None\<rparr>"

definition grant_row ::
  "uuid \<Rightarrow> SubjectType \<Rightarrow> int \<Rightarrow> ResourceType \<Rightarrow> uuid option \<Rightarrow> Permission \<Rightarrow> Effect \<Rightarrow> access_grant" where
  "grant_row i st s rt target perm eff = \<lparr>g_id = i, g_company_id = 7, g_bucket = 1, g_object = target,
     g_subject_type = st, g_subject_id = str_int s, g_resource_type = rt, g_permission = perm,
     g_effect = eff, g_created_by_id = Some 1, g_created_at = 0, g_updated_at = 0,
     g_expires_at = None, g_notes = []\<rparr>"

definition empty_world :: world where
  "empty_world = \<lparr>w_buckets = [company_bucket], w_objects = [], w_grants = [], w_links = [],
     w_cquotas = [], w_uquotas = [], w_events = [], w_blobs = (\<lambda>_. None), w_clock = 1000,
     w_next_uuid = 8\<rparr>"

text \<open>A folder with one file, both made by Ann; the folder is private to her.\<close>

definition marker_row :: storage_object where
  "marker_row = file_row 2 ''secret/.emptyFolderPlaceholder'' 0 1"

definition secret_file :: storage_object where
  "secret_file = file_row 3 ''secret/plan.txt'' 5 1"

definition folder_deny :: access_grant where
  "folder_deny = grant_row 5 SUBJECT_COMPANY 7 RESOURCE_FOLDER (Some 2) READ DENY"

definition folder_allow :: access_grant where
  "folder_allow = grant_row 6 SUBJECT_USER 1 RESOURCE_FOLDER (Some 2) ADMIN ALLOW"

definition private_world :: world where
  "private_world = empty_world\<lparr>w_objects := [marker_row, secret_file],
     w_grants := [folder_deny, folder_allow],
     w_cquotas := [\<lparr>cq_company_id = 7, cq_max_bytes = 100, cq_used_bytes = 5, cq_max_bytes_per_user = None\<rparr>],
     w_blobs := [blob_key 2 \<mapsto> [], blob_key 3 \<mapsto> [1, 2, 3, 4, 5]]\<rparr>"

lemmas sample_defs = company_bucket_def user_of_def ann_def bob_def owner_def eve_def file_row_def
  grant_row_def empty_world_def marker_row_def secret_file_def folder_deny_def folder_allow_def
  private_world_def

end
