(* ===== verification/Access.thy ===== *)
theory Access
  imports Database Samples "HOL-Library.Product_Lexorder"
begin

text \<open>
  \<open>apps/storage/access.py\<close>, the decision part: which grants are active, whom and what a grant
  matches, how grants are ranked, and \<open>evaluate_access\<close>, the decision behind every guard of
  the service. The locale \<open>access_policy\<close> is what the guarded operations rely on (only
  members of the bucket's company, a stronger permission implies a weaker one, only the
  normal form of the path counts); it is interpreted on \<open>evaluate_access\<close>.
\<close>

section \<open>Permissions\<close>

definition permission_rank :: "Permission \<Rightarrow> nat" where
  "permission_rank p = (case p of READ \<Rightarrow> 0 | WRITE \<Rightarrow> 1 | ADMIN \<Rightarrow> 2)"

instantiation Permission :: linorder
begin

definition less_eq_Permission :: "Permission \<Rightarrow> Permission \<Rightarrow> bool" where
  "less_eq_Permission p q \<longleftrightarrow> permission_rank p \<le> permission_rank q"

definition less_Permission :: "Permission \<Rightarrow> Permission \<Rightarrow> bool" where
  "less_Permission p q \<longleftrightarrow> permission_rank p < permission_rank q"

instance
  by standard (auto simp: less_eq_Permission_def less_Permission_def permission_rank_def
      split: Permission.splits)

end

lemma permission_order [simp]:
  "READ \<le> p" "p \<le> ADMIN" "WRITE \<le> READ \<longleftrightarrow> False" "ADMIN \<le> WRITE \<longleftrightarrow> False" "ADMIN \<le> READ \<longleftrightarrow> False"
  by (auto simp: less_eq_Permission_def permission_rank_def split: Permission.splits)

definition permission_at_least :: "Permission \<Rightarrow> Permission \<Rightarrow> bool" where
  "permission_at_least granted required \<longleftrightarrow> required \<le> granted"

text \<open>Denying read blocks everything, denying write blocks write and admin.\<close>

definition deny_blocks :: "Permission \<Rightarrow> Permission \<Rightarrow> bool" where
  "deny_blocks denied required \<longleftrightarrow> denied \<le> required"

definition required_permission :: "bool \<Rightarrow> bool \<Rightarrow> Permission" where
  "required_permission write admin = (if admin then ADMIN else if write then WRITE else READ)"

section \<open>Matching\<close>

definition normalize_path :: "string option \<Rightarrow> string" where
  "normalize_path path = (case path of None \<Rightarrow> [] | Some p \<Rightarrow> strip_slashes (strip p))"

definition folder_matches :: "string \<Rightarrow> string \<Rightarrow> bool" where
  "folder_matches pre path =
     (let p = normalize_path (Some pre); q = normalize_path (Some path) in
      if p = [] then True else q = p \<or> prefix (p @ [slash]) q)"

definition resource_matches_grant ::
  "world \<Rightarrow> access_grant \<Rightarrow> bucket \<Rightarrow> string option \<Rightarrow> uuid option \<Rightarrow> bool" where
  "resource_matches_grant w g bucket path object_id =
     (if g_bucket g \<noteq> b_id bucket then False
      else let path = normalize_path path in
        case g_resource_type g of
          RESOURCE_BUCKET \<Rightarrow> True
        | RESOURCE_FOLDER \<Rightarrow>
            (if g_object g = None then False
             else folder_matches (folder_path_from_placeholder (object_name_of w (g_object g))) path)
        | RESOURCE_OBJECT \<Rightarrow>
            (if g_object g = None then False
             else if object_id \<noteq> None \<and> g_object g = object_id then True
             else path \<noteq> [] \<and> normalize_path (Some (object_name_of w (g_object g))) = path))"

definition subject_matches :: "access_grant \<Rightarrow> principal \<Rightarrow> bool" where
  "subject_matches g p =
     (case (p_user_id p, p_company_id p) of
        (Some u, Some c) \<Rightarrow>
          (case g_subject_type g of
             SUBJECT_USER \<Rightarrow> g_subject_id g = str_int u
           | SUBJECT_COMPANY \<Rightarrow> g_subject_id g = str_int c
           | SUBJECT_GROUP \<Rightarrow> False)
      | _ \<Rightarrow> False)"

definition grant_active :: "int \<Rightarrow> access_grant \<Rightarrow> bool" where
  "grant_active now g = (case g_expires_at g of None \<Rightarrow> True | Some t \<Rightarrow> now < t)"

definition active_grants :: "world \<Rightarrow> int \<Rightarrow> access_grant list" where
  "active_grants w company_id =
     filter (\<lambda>g. g_company_id g = company_id \<and> grant_active (w_clock w) g) (w_grants w)"

section \<open>Ranking and decision\<close>

definition kind_default_allows :: "principal \<Rightarrow> bucket \<Rightarrow> Permission \<Rightarrow> bool" where
  "kind_default_allows p bucket required =
     (case (p_company_id p, p_user_id p) of
        (Some c, Some _) \<Rightarrow>
          (if b_company_id bucket \<noteq> c then False
           else case b_kind bucket of
             COMPANY_KIND \<Rightarrow> if required = ADMIN then p_is_company_owner p \<or> p_is_staff p else True
           | CONNECTOR_KIND \<Rightarrow> required = READ)
      | _ \<Rightarrow> False)"

definition subject_score :: "SubjectType \<Rightarrow> nat" where
  "subject_score s = (case s of SUBJECT_USER \<Rightarrow> 3 | SUBJECT_GROUP \<Rightarrow> 2 | SUBJECT_COMPANY \<Rightarrow> 1)"

definition grant_specificity :: "world \<Rightarrow> access_grant \<Rightarrow> nat \<times> nat" where
  "grant_specificity w g =
     (case g_resource_type g of
        RESOURCE_OBJECT \<Rightarrow> 1000
      | RESOURCE_FOLDER \<Rightarrow>
          (let folder_path = (if g_object g = None then []
               else folder_path_from_placeholder (object_name_of w (g_object g)));
             depth = (if folder_path = [] then 0
               else length (split_on slash (normalize_path (Some folder_path)))) in
           100 + depth)
      | RESOURCE_BUCKET \<Rightarrow> 1,
      subject_score (g_subject_type g))"

definition matching_grants ::
  "world \<Rightarrow> principal \<Rightarrow> bucket \<Rightarrow> string option \<Rightarrow> uuid option \<Rightarrow> access_grant list" where
  "matching_grants w p bucket path object_id =
     (case p_company_id p of None \<Rightarrow> []
      | Some c \<Rightarrow> filter (\<lambda>g. subject_matches g p \<and> resource_matches_grant w g bucket path object_id)
          (active_grants w c))"

text \<open>The grants of the highest specificity.\<close>

definition top_grants :: "world \<Rightarrow> access_grant list \<Rightarrow> access_grant list" where
  "top_grants w grants =
     (let best = Max (set (map (grant_specificity w) grants)) in
      filter (\<lambda>g. grant_specificity w g = best) grants)"

text \<open>The two loops over them: \<open>None\<close> when they decide nothing.\<close>

fun blocked_by :: "Permission \<Rightarrow> access_grant list \<Rightarrow> bool" where
  "blocked_by required [] = False"
| "blocked_by required (g # gs) =
     (if g_effect g = DENY \<and> deny_blocks (g_permission g) required then True else blocked_by required gs)"

fun allowed_by :: "Permission \<Rightarrow> bool \<Rightarrow> access_grant list \<Rightarrow> bool option" where
  "allowed_by required saw_allow [] = (if saw_allow then Some False else None)"
| "allowed_by required saw_allow (g # gs) =
     (if g_effect g \<noteq> ALLOW then allowed_by required saw_allow gs
      else if permission_at_least (g_permission g) required then Some True
      else allowed_by required True gs)"

definition evaluate_access ::
  "world \<Rightarrow> principal \<Rightarrow> bucket \<Rightarrow> string option \<Rightarrow> uuid option \<Rightarrow> bool \<Rightarrow> bool \<Rightarrow> bool" where
  "evaluate_access w p bucket path object_id write admin =
     (case (p_company_id p, p_user_id p) of
        (Some c, Some _) \<Rightarrow>
          (if b_company_id bucket \<noteq> c then False
           else
             let required = required_permission write admin;
                 grants = matching_grants w p bucket path object_id;
                 fallback = kind_default_allows p bucket required in
             if grants = [] then fallback
             else
               let tops = top_grants w grants in
               if blocked_by required tops then False
               else case allowed_by required False tops of Some b \<Rightarrow> b | None \<Rightarrow> fallback)
      | _ \<Rightarrow> False)"

definition can_access_bucket :: "world \<Rightarrow> principal \<Rightarrow> bucket \<Rightarrow> bool \<Rightarrow> bool \<Rightarrow> bool" where
  "can_access_bucket w p bucket write admin = evaluate_access w p bucket None None write admin"

definition can_access_path ::
  "world \<Rightarrow> principal \<Rightarrow> bucket \<Rightarrow> string \<Rightarrow> uuid option \<Rightarrow> bool \<Rightarrow> bool \<Rightarrow> bool" where
  "can_access_path w p bucket path object_id write admin =
     evaluate_access w p bucket (Some path) object_id write admin"

definition assert_can_access_bucket :: "principal \<Rightarrow> bucket \<Rightarrow> bool \<Rightarrow> bool \<Rightarrow> unit act" where
  "assert_can_access_bucket p bucket write admin =
     bindE (gets (\<lambda>w. can_access_bucket w p bucket write admin)) (\<lambda>ok.
       guardE ok (StorageErr 403 ''bucket_access_denied''))"

definition assert_can_access_path ::
  "principal \<Rightarrow> bucket \<Rightarrow> string \<Rightarrow> uuid option \<Rightarrow> bool \<Rightarrow> bool \<Rightarrow> unit act" where
  "assert_can_access_path p bucket path object_id write admin =
     bindE (gets (\<lambda>w. can_access_path w p bucket path object_id write admin)) (\<lambda>ok.
       guardE ok (StorageErr 403 ''path_access_denied''))"

lemma wp_assert_bucket [wp_simps]:
  "wp (assert_can_access_bucket p b wr ad) Q R w =
     (if can_access_bucket w p b wr ad then Q () w else R (StorageErr 403 ''bucket_access_denied'') w)"
  by (simp add: assert_can_access_bucket_def wp_simps)

lemma wp_assert_path [wp_simps]:
  "wp (assert_can_access_path p b path i wr ad) Q R w =
     (if can_access_path w p b path i wr ad then Q () w else R (StorageErr 403 ''path_access_denied'') w)"
  by (simp add: assert_can_access_path_def wp_simps)

section \<open>The loops in closed form\<close>

lemma blocked_by_iff:
  "blocked_by r gs \<longleftrightarrow> (\<exists>g \<in> set gs. g_effect g = DENY \<and> g_permission g \<le> r)"
  by (induction r gs rule: blocked_by.induct) (auto simp: deny_blocks_def)

lemma allowed_by_eq:
  "allowed_by r saw gs =
     (if \<exists>g \<in> set gs. g_effect g = ALLOW \<and> r \<le> g_permission g then Some True
      else if saw \<or> (\<exists>g \<in> set gs. g_effect g = ALLOW) then Some False else None)"
  by (induction r saw gs rule: allowed_by.induct) (auto simp: permission_at_least_def)

text \<open>The decision over the top grants, as one formula.\<close>

definition decide :: "access_grant set \<Rightarrow> bool \<Rightarrow> Permission \<Rightarrow> bool" where
  "decide tops dflt r \<longleftrightarrow>
     \<not> (\<exists>g \<in> tops. g_effect g = DENY \<and> g_permission g \<le> r) \<and>
     (if \<exists>g \<in> tops. g_effect g = ALLOW then \<exists>g \<in> tops. g_effect g = ALLOW \<and> r \<le> g_permission g else dflt)"

definition member :: "principal \<Rightarrow> bucket \<Rightarrow> bool" where
  "member p bucket \<longleftrightarrow> p_company_id p = Some (b_company_id bucket) \<and> p_user_id p \<noteq> None"

lemma decide_loops:
  "(if blocked_by r ts then False else case allowed_by r False ts of Some b \<Rightarrow> b | None \<Rightarrow> d) =
     decide (set ts) d r"
  unfolding decide_def blocked_by_iff allowed_by_eq by auto

lemma decide_empty [simp]: "decide {} d r = d"
  by (simp add: decide_def)

lemma evaluate_access_eq:
  "evaluate_access w p bucket path i write admin \<longleftrightarrow>
     member p bucket \<and>
     decide (set (top_grants w (matching_grants w p bucket path i)))
       (kind_default_allows p bucket (required_permission write admin)) (required_permission write admin)"
proof (cases "member p bucket")
  case True
  then obtain u where "p_company_id p = Some (b_company_id bucket)" "p_user_id p = Some u"
    by (auto simp: member_def)
  moreover have "top_grants w [] = []" by (simp add: top_grants_def)
  ultimately show ?thesis
    by (cases "matching_grants w p bucket path i = []")
      (simp_all add: evaluate_access_def member_def Let_def decide_loops)
next
  case False
  then show ?thesis by (auto simp: evaluate_access_def member_def split: option.splits)
qed

section \<open>What every caller relies on\<close>

lemma kind_default_antimono:
  "q \<le> r \<Longrightarrow> kind_default_allows p b r \<Longrightarrow> kind_default_allows p b q"
  by (cases q; cases r) (simp_all add: kind_default_allows_def split: option.splits BucketKind.splits if_splits)

lemma decide_antimono: "q \<le> r \<Longrightarrow> (d \<Longrightarrow> d') \<Longrightarrow> decide ts d r \<Longrightarrow> decide ts d' q"
  unfolding decide_def by (meson order_trans)

lemma required_permission_le:
  "(wr' \<or> ad' \<Longrightarrow> wr \<or> ad) \<Longrightarrow> (ad' \<Longrightarrow> ad) \<Longrightarrow> required_permission wr' ad' \<le> required_permission wr ad"
  by (auto simp: required_permission_def)

lemma evaluate_access_antimono:
  assumes "evaluate_access w p b path i wr ad" "wr' \<or> ad' \<Longrightarrow> wr \<or> ad" "ad' \<Longrightarrow> ad"
  shows "evaluate_access w p b path i wr' ad'"
proof -
  have le: "required_permission wr' ad' \<le> required_permission wr ad"
    using assms(2,3) by (rule required_permission_le)
  from decide_antimono [OF le kind_default_antimono [OF le]] show ?thesis
    using assms(1) unfolding evaluate_access_eq by blast
qed

lemma resource_matches_cong:
  "normalize_path path = normalize_path path' \<Longrightarrow>
   resource_matches_grant w g b path i = resource_matches_grant w g b path' i"
  by (simp add: resource_matches_grant_def)

lemma evaluate_access_normal:
  assumes "normalize_path path = normalize_path path'"
  shows "evaluate_access w p b path i wr ad = evaluate_access w p b path' i wr ad"
proof -
  have "resource_matches_grant w g b path i = resource_matches_grant w g b path' i" for g
    using assms by (rule resource_matches_cong)
  then show ?thesis by (simp only: evaluate_access_eq matching_grants_def)
qed

text \<open>The decision reads the grants, the object names and the clock, and nothing else.\<close>

lemma object_name_of_cong: "w_objects w' = w_objects w \<Longrightarrow> object_name_of w' = object_name_of w"
  by (simp add: fun_eq_iff object_name_of_def object_by_id_def split: option.splits)

lemma evaluate_access_names:
  assumes "w_grants w' = w_grants w" "object_name_of w' = object_name_of w" "w_clock w' = w_clock w"
  shows "evaluate_access w' = evaluate_access w"
proof -
  have "grant_specificity w' = grant_specificity w"
    by (intro ext) (simp only: grant_specificity_def assms(2))
  then have "top_grants w' = top_grants w" by (simp add: fun_eq_iff top_grants_def)
  moreover have "resource_matches_grant w' = resource_matches_grant w"
    by (intro ext) (simp only: resource_matches_grant_def assms(2))
  moreover have "active_grants w' = active_grants w"
    using assms by (simp add: fun_eq_iff active_grants_def)
  ultimately have "top_grants w' = top_grants w" "matching_grants w' = matching_grants w"
    by (intro ext; simp only: matching_grants_def)+
  then show ?thesis by (simp add: fun_eq_iff evaluate_access_eq)
qed

lemma evaluate_access_frame:
  "w_grants w' = w_grants w \<Longrightarrow> w_objects w' = w_objects w \<Longrightarrow> w_clock w' = w_clock w \<Longrightarrow>
   evaluate_access w' = evaluate_access w"
  by (rule evaluate_access_names) (auto intro: object_name_of_cong)

locale access_policy =
  fixes permits :: "world \<Rightarrow> principal \<Rightarrow> bucket \<Rightarrow> string option \<Rightarrow> uuid option \<Rightarrow> bool \<Rightarrow> bool \<Rightarrow> bool"
  assumes permits_member: "permits w p b path i wr ad \<Longrightarrow> member p b"
    and permits_weaker: "permits w p b path i wr ad \<Longrightarrow> (wr' \<or> ad' \<Longrightarrow> wr \<or> ad) \<Longrightarrow> (ad' \<Longrightarrow> ad) \<Longrightarrow>
      permits w p b path i wr' ad'"
    and permits_normal: "normalize_path path = normalize_path path' \<Longrightarrow>
      permits w p b path i wr ad = permits w p b path' i wr ad"
    and permits_frame: "w_grants w' = w_grants w \<Longrightarrow> w_objects w' = w_objects w \<Longrightarrow> w_clock w' = w_clock w \<Longrightarrow>
      permits w' = permits w"
begin

text \<open>Two companies never see the same bucket.\<close>

lemma company_apart:
  "permits w p b path i wr ad \<Longrightarrow> permits w' q b path' j wr' ad' \<Longrightarrow> p_company_id p = p_company_id q"
  using permits_member [of w p b] permits_member [of w' q b] by (auto simp: member_def)

lemma reads_if_writes: "permits w p b path i True False \<Longrightarrow> permits w p b path i False False"
  by (rule permits_weaker) auto

lemma writes_if_admin: "permits w p b path i wr True \<Longrightarrow> permits w p b path i True False"
  by (rule permits_weaker) auto

text \<open>Bytes written, usage counted or events sent do not change a decision.\<close>

lemma permits_blobs: "permits (w\<lparr>w_blobs := bl, w_next_uuid := n\<rparr>) = permits w"
  by (rule permits_frame) simp_all

end

interpretation acl: access_policy evaluate_access
proof
  show "member p b" if "evaluate_access w p b path i wr ad" for w p b path i wr ad
    using that by (simp add: evaluate_access_eq)
  show "evaluate_access w p b path i wr' ad'"
    if "evaluate_access w p b path i wr ad" "wr' \<or> ad' \<Longrightarrow> wr \<or> ad" "ad' \<Longrightarrow> ad" for w p b path i wr ad wr' ad'
    using that by (rule evaluate_access_antimono)
  show "evaluate_access w p b path i wr ad = evaluate_access w p b path' i wr ad"
    if "normalize_path path = normalize_path path'" for w p b path path' i wr ad
    using that by (rule evaluate_access_normal)
  show "evaluate_access w' = evaluate_access w"
    if "w_grants w' = w_grants w" "w_objects w' = w_objects w" "w_clock w' = w_clock w" for w w'
    using that by (rule evaluate_access_frame)
qed

section \<open>Which grants count\<close>

text \<open>A grant that is expired, of another company or for a group is as good as absent.\<close>

definition inert :: "world \<Rightarrow> principal \<Rightarrow> access_grant \<Rightarrow> bool" where
  "inert w p g \<longleftrightarrow> \<not> grant_active (w_clock w) g \<or> p_company_id p \<noteq> Some (g_company_id g) \<or>
     g_subject_type g = SUBJECT_GROUP"

lemma matching_grants_inert:
  "matching_grants (w\<lparr>w_grants := filter (\<lambda>g. \<not> inert w p g) (w_grants w)\<rparr>) p b path i =
   matching_grants w p b path i"
proof -
  let ?w = "w\<lparr>w_grants := filter (\<lambda>g. \<not> inert w p g) (w_grants w)\<rparr>"
  have "object_name_of ?w = object_name_of w" by (rule object_name_of_cong) simp
  then have names: "resource_matches_grant ?w = resource_matches_grant w"
    by (intro ext) (simp only: resource_matches_grant_def)
  have no_group: "subject_matches g p \<Longrightarrow> g_subject_type g \<noteq> SUBJECT_GROUP" for g
    by (auto simp: subject_matches_def split: option.splits)
  show ?thesis
  proof (cases "p_company_id p")
    case (Some c)
    have "filter (\<lambda>g. subject_matches g p \<and> resource_matches_grant w g b path i)
        (filter (\<lambda>g. g_company_id g = c \<and> grant_active (w_clock w) g) (filter (\<lambda>g. \<not> inert w p g) gs)) =
      filter (\<lambda>g. subject_matches g p \<and> resource_matches_grant w g b path i)
        (filter (\<lambda>g. g_company_id g = c \<and> grant_active (w_clock w) g) gs)" for gs
      unfolding filter_filter using no_group Some by (intro filter_cong) (auto simp: inert_def)
    then show ?thesis using Some names by (simp add: matching_grants_def active_grants_def)
  qed (simp add: matching_grants_def)
qed

lemma top_grants_subset: "set (top_grants w gs) \<subseteq> set gs"
  by (auto simp: top_grants_def Let_def)

lemma top_grants_best:
  "g \<in> set gs \<Longrightarrow> (\<And>h. h \<in> set gs \<Longrightarrow> grant_specificity w h \<le> grant_specificity w g) \<Longrightarrow>
   set (top_grants w gs) = {h \<in> set gs. grant_specificity w h = grant_specificity w g}"
proof -
  assume g: "g \<in> set gs" and best: "\<And>h. h \<in> set gs \<Longrightarrow> grant_specificity w h \<le> grant_specificity w g"
  have "Max (set (map (grant_specificity w) gs)) = grant_specificity w g"
    using g best by (intro Max_eqI) auto
  then show ?thesis by (auto simp: top_grants_def Let_def)
qed

section \<open>Properties of the decision\<close>

text \<open>
  C1. Tenant isolation of the access decision, and which grants it can depend on: access is
  only ever given to an identified member of the bucket's company, and the answer does not
  change when every expired grant, every grant of another company and every group grant is
  removed from the table.
\<close>

theorem access_tenant_isolation:
  "(evaluate_access w p b path i wr ad \<longrightarrow> p_company_id p = Some (b_company_id b) \<and> p_user_id p \<noteq> None) \<and>
   evaluate_access (w\<lparr>w_grants := filter (\<lambda>g. \<not> inert w p g) (w_grants w)\<rparr>) p b path i wr ad =
   evaluate_access w p b path i wr ad"
proof -
  let ?w = "w\<lparr>w_grants := filter (\<lambda>g. \<not> inert w p g) (w_grants w)\<rparr>"
  have "object_name_of ?w = object_name_of w" by (rule object_name_of_cong) simp
  then have "grant_specificity ?w = grant_specificity w"
    by (intro ext) (simp only: grant_specificity_def)
  then have "top_grants ?w = top_grants w" by (intro ext) (simp only: top_grants_def)
  then show ?thesis
    using acl.permits_member by (auto simp: evaluate_access_eq matching_grants_inert member_def)
qed

lemma access_tenant_isolation_witness:
  "evaluate_access private_world ann company_bucket (Some ''secret/plan.txt'') (Some 3) True False \<and>
   p_company_id ann = Some (b_company_id company_bucket) \<and>
   \<not> evaluate_access private_world eve company_bucket (Some ''secret/plan.txt'') (Some 3) False False"
proof -
  have "evaluate_access private_world ann company_bucket (Some ''secret/plan.txt'') (Some 3) True False"
    "p_company_id eve \<noteq> Some (b_company_id company_bucket)" by code_simp+
  then show ?thesis
    using access_tenant_isolation [of private_world ann company_bucket "Some ''secret/plan.txt''" "Some 3" True False]
      access_tenant_isolation [of private_world eve company_bucket "Some ''secret/plan.txt''" "Some 3" False False]
    by blast
qed

text \<open>
  Permissions are ordered admin, write, read: whoever may administer a path may write it,
  and whoever may write it may read it, whatever grants are stored.
\<close>

theorem access_permission_order:
  "(evaluate_access w p b path i wr True \<longrightarrow> evaluate_access w p b path i True False) \<and>
   (evaluate_access w p b path i True False \<longrightarrow> evaluate_access w p b path i False False)"
  using acl.writes_if_admin acl.reads_if_writes by blast

lemma access_permission_order_witness:
  "evaluate_access private_world ann company_bucket (Some ''secret/plan.txt'') (Some 3) False True \<and>
   evaluate_access private_world ann company_bucket (Some ''secret/plan.txt'') (Some 3) False False"
proof -
  have "evaluate_access private_world ann company_bucket (Some ''secret/plan.txt'') (Some 3) False True"
    by code_simp
  then show ?thesis
    using access_permission_order [of private_world ann company_bucket "Some ''secret/plan.txt''" "Some 3" False]
    by blast
qed

text \<open>
  C2. Among the grants of the highest specificity a deny wins over every allow for the permission that it denies and for every
  stronger one: if one of them denies a permission at or below the one that is asked for, access is refused,
  however many grants allow it. (A deny of a stronger permission than the one asked for decides nothing: see
  \<open>access_weak_deny_falls_through\<close>.)
\<close>

theorem access_top_deny_wins:
  assumes "g \<in> set (matching_grants w p b path i)" "g_effect g = DENY" "g_permission g \<le> required_permission wr ad"
    and "\<And>h. h \<in> set (matching_grants w p b path i) \<Longrightarrow> grant_specificity w h \<le> grant_specificity w g"
  shows "\<not> evaluate_access w p b path i wr ad"
proof -
  have "g \<in> set (top_grants w (matching_grants w p b path i))"
    using top_grants_best [OF assms(1,4)] assms(1) by simp
  then show ?thesis using assms(2,3) by (auto simp: evaluate_access_eq decide_def)
qed

lemma access_top_deny_wins_witness:
  "\<not> evaluate_access private_world bob company_bucket (Some ''secret/plan.txt'') (Some 3) False False"
proof (rule access_top_deny_wins [where g = folder_deny])
  have m: "matching_grants private_world bob company_bucket (Some ''secret/plan.txt'') (Some 3) = [folder_deny]"
    by code_simp
  show "folder_deny \<in> set (matching_grants private_world bob company_bucket (Some ''secret/plan.txt'') (Some 3))"
    by (simp add: m)
  show "g_effect folder_deny = DENY" "g_permission folder_deny \<le> required_permission False False"
    by (simp_all add: sample_defs)
  show "grant_specificity private_world h \<le> grant_specificity private_world folder_deny"
    if "h \<in> set (matching_grants private_world bob company_bucket (Some ''secret/plan.txt'') (Some 3))" for h
    using that by (simp add: m)
qed

text \<open>
  Specificity goes before effect: when the highest-ranked matching grants all allow, the
  answer is whether one of them is strong enough, and denies of a lower rank (such as the
  company-wide deny on the same folder, or a bucket-wide deny) have no say.
\<close>

theorem access_specific_allow_overrides:
  assumes "g \<in> set (matching_grants w p b path i)"
    and "\<And>h. h \<in> set (matching_grants w p b path i) \<Longrightarrow> grant_specificity w h \<le> grant_specificity w g"
    and "\<And>h. h \<in> set (matching_grants w p b path i) \<Longrightarrow> grant_specificity w h = grant_specificity w g \<Longrightarrow> g_effect h = ALLOW"
  shows "evaluate_access w p b path i wr ad \<longleftrightarrow> member p b \<and>
     (\<exists>h \<in> set (matching_grants w p b path i). grant_specificity w h = grant_specificity w g \<and>
        required_permission wr ad \<le> g_permission h)"
  using assms(1,3) top_grants_best [OF assms(1,2)] by (auto simp: evaluate_access_eq decide_def)

lemma access_specific_allow_overrides_witness:
  "evaluate_access private_world ann company_bucket (Some ''secret/plan.txt'') (Some 3) True True \<and>
   folder_deny \<in> set (matching_grants private_world ann company_bucket (Some ''secret/plan.txt'') (Some 3))"
proof -
  let ?m = "matching_grants private_world ann company_bucket (Some ''secret/plan.txt'') (Some 3)"
  have m: "?m = [folder_deny, folder_allow]" by code_simp
  have less: "grant_specificity private_world folder_deny < grant_specificity private_world folder_allow"
    by code_simp
  have "evaluate_access private_world ann company_bucket (Some ''secret/plan.txt'') (Some 3) True True \<longleftrightarrow>
    member ann company_bucket \<and> (\<exists>h \<in> set ?m. grant_specificity private_world h = grant_specificity private_world folder_allow \<and>
      required_permission True True \<le> g_permission h)"
    using less by (intro access_specific_allow_overrides) (auto simp: m folder_allow_def grant_row_def)
  moreover have "member ann company_bucket" by (simp add: member_def sample_defs)
  moreover have "ADMIN \<le> g_permission folder_allow" by (simp add: sample_defs)
  ultimately show ?thesis by (auto simp: m required_permission_def)
qed

text \<open>
  A deny can open a path. When the highest-ranked matching grants all deny something
  stronger than what is asked, they decide nothing, the lower-ranked grants are not looked
  at, and the default of the bucket kind applies: a company-wide ``deny write'' on a file
  makes the file readable by every member of the company although its folder is private.
\<close>

theorem access_weak_deny_falls_through:
  assumes "g \<in> set (matching_grants w p b path i)"
    and "\<And>h. h \<in> set (matching_grants w p b path i) \<Longrightarrow> grant_specificity w h \<le> grant_specificity w g"
    and "\<And>h. h \<in> set (matching_grants w p b path i) \<Longrightarrow> grant_specificity w h = grant_specificity w g \<Longrightarrow>
       g_effect h = DENY \<and> required_permission wr ad < g_permission h"
  shows "evaluate_access w p b path i wr ad \<longleftrightarrow>
     member p b \<and> kind_default_allows p b (required_permission wr ad)"
  using assms(3) top_grants_best [OF assms(1,2)] by (fastforce simp: evaluate_access_eq decide_def)

definition file_deny_write :: access_grant where
  "file_deny_write = grant_row 7 SUBJECT_COMPANY 7 RESOURCE_OBJECT (Some 3) WRITE DENY"

definition opened_world :: world where
  "opened_world = private_world\<lparr>w_grants := w_grants private_world @ [file_deny_write]\<rparr>"

lemma access_weak_deny_falls_through_witness:
  "\<not> evaluate_access private_world bob company_bucket (Some ''secret/plan.txt'') (Some 3) False False \<and>
   evaluate_access opened_world bob company_bucket (Some ''secret/plan.txt'') (Some 3) False False"
proof
  show "\<not> evaluate_access private_world bob company_bucket (Some ''secret/plan.txt'') (Some 3) False False"
    by code_simp
  let ?m = "matching_grants opened_world bob company_bucket (Some ''secret/plan.txt'') (Some 3)"
  have m: "?m = [folder_deny, file_deny_write]" by code_simp
  have less: "grant_specificity opened_world folder_deny < grant_specificity opened_world file_deny_write"
    by code_simp
  have weak: "g_effect file_deny_write = DENY" "required_permission False False < g_permission file_deny_write"
    by code_simp+
  have "evaluate_access opened_world bob company_bucket (Some ''secret/plan.txt'') (Some 3) False False \<longleftrightarrow>
    member bob company_bucket \<and> kind_default_allows bob company_bucket (required_permission False False)"
    using less weak by (intro access_weak_deny_falls_through [where g = file_deny_write]) (auto simp: m)
  moreover have "member bob company_bucket \<and> kind_default_allows bob company_bucket (required_permission False False)"
    by code_simp
  ultimately show "evaluate_access opened_world bob company_bucket (Some ''secret/plan.txt'') (Some 3) False False"
    by blast
qed

end
