(* ===== verification/Private_Default.thy ===== *)
theory Private_Default
  imports Access
begin

text \<open>
  \<open>apps/storage/access.py\<close>, the private-by-default part: the folders above a path, their
  grants, the nearest private one, and the grants a new folder or file starts with (a copy of
  the parent folder's, or a company-wide deny with an administrator grant for the creator).
\<close>

definition AUTO_PRIVATE_NOTES :: string where
  "AUTO_PRIVATE_NOTES = ''auto: private by default''"

section \<open>Folders above a path\<close>

definition ancestor_folder_prefixes :: "string \<Rightarrow> string list" where
  "ancestor_folder_prefixes path0 =
     (let path = normalize_path (Some path0) in
      if path = [] \<or> slash \<notin> set path then []
      else let parts = split_on slash path in
        map (\<lambda>i. join_on slash (take i parts)) [1..<length parts])"

definition folder_grants_for_prefixes :: "world \<Rightarrow> int \<Rightarrow> string \<Rightarrow> string list \<Rightarrow> access_grant list" where
  "folder_grants_for_prefixes w company_id bucket_name folder_prefixes =
     (if folder_prefixes = [] then []
      else let names = map folder_placeholder_path folder_prefixes in
        filter (\<lambda>g. g_resource_type g = RESOURCE_FOLDER \<and> g_object g \<noteq> None \<and>
            object_name_of w (g_object g) \<in> set names \<and> bucket_name_of w (g_bucket g) = bucket_name)
          (active_grants w company_id))"

definition grant_folder :: "world \<Rightarrow> access_grant \<Rightarrow> string" where
  "grant_folder w g = folder_path_from_placeholder (object_name_of w (g_object g))"

definition nearest_ancestor_folder_grants ::
  "world \<Rightarrow> int \<Rightarrow> string \<Rightarrow> string \<Rightarrow> (string \<times> access_grant list) option" where
  "nearest_ancestor_folder_grants w company_id bucket_name path =
     (let ancestors = ancestor_folder_prefixes path;
          grants = folder_grants_for_prefixes w company_id bucket_name ancestors in
      if ancestors = [] \<or> grants = [] then None
      else case first_where (\<lambda>pre. \<exists>g \<in> set grants. grant_folder w g = pre) (rev ancestors) of
        None \<Rightarrow> None
      | Some pre \<Rightarrow> Some (pre, filter (\<lambda>g. grant_folder w g = pre) grants))"

definition denies_company_read :: "int \<Rightarrow> access_grant \<Rightarrow> bool" where
  "denies_company_read company_id g \<longleftrightarrow>
     g_effect g = DENY \<and> g_subject_type g = SUBJECT_COMPANY \<and> deny_blocks (g_permission g) READ \<and>
     g_subject_id g = str_int company_id"

definition nearest_private_ancestor_folder :: "world \<Rightarrow> int \<Rightarrow> string \<Rightarrow> string \<Rightarrow> string option" where
  "nearest_private_ancestor_folder w company_id bucket_name path =
     (let ancestors = ancestor_folder_prefixes path;
          grants = folder_grants_for_prefixes w company_id bucket_name ancestors;
          private_prefixes = map (grant_folder w) (filter (denies_company_read company_id) grants) in
      if ancestors = [] then None
      else first_where (\<lambda>pre. pre \<in> set private_prefixes) (rev ancestors))"

definition assert_can_open_to_company :: "int \<Rightarrow> string \<Rightarrow> string \<Rightarrow> unit act" where
  "assert_can_open_to_company company_id bucket_name path =
     bindE (gets (\<lambda>w. nearest_private_ancestor_folder w company_id bucket_name path)) (\<lambda>parent.
       case parent of None \<Rightarrow> ret ()
       | Some f \<Rightarrow> guardE (f = []) (StorageErr 400 ''parent_folder_private''))"

section \<open>The grants of a new folder or file\<close>

definition resource_grants_exist :: "world \<Rightarrow> storage_object \<Rightarrow> ResourceType \<Rightarrow> bool" where
  "resource_grants_exist w target rt \<longleftrightarrow>
     (\<exists>g \<in> set (active_grants w (o_company_id target)).
        g_resource_type g = rt \<and> g_object g = Some (o_id target) \<and> g_bucket g = o_bucket target)"

text \<open>\<open>StorageAccessGrant.objects.create\<close> with the columns given; id and times are defaults.\<close>

definition create_grant_row :: "access_grant \<Rightarrow> access_grant act" where
  "create_grant_row g =
     bindE fresh_uuid (\<lambda>i.
     bindE (gets w_clock) (\<lambda>now.
     insert_grant (g\<lparr>g_id := i, g_created_at := now, g_updated_at := now\<rparr>)))"

definition new_grant ::
  "storage_object \<Rightarrow> ResourceType \<Rightarrow> int \<Rightarrow> SubjectType \<Rightarrow> string \<Rightarrow> Permission \<Rightarrow> Effect \<Rightarrow>
   int option \<Rightarrow> string \<Rightarrow> access_grant" where
  "new_grant target rt user_id st sid perm eff expires notes =
     \<lparr>g_id = 0, g_company_id = o_company_id target, g_bucket = o_bucket target,
      g_object = Some (o_id target), g_subject_type = st, g_subject_id = sid, g_resource_type = rt,
      g_permission = perm, g_effect = eff, g_created_by_id = Some user_id, g_created_at = 0,
      g_updated_at = 0, g_expires_at = expires, g_notes = notes\<rparr>"

definition copy_folder_grants :: "access_grant list \<Rightarrow> int \<Rightarrow> storage_object \<Rightarrow> access_grant list act" where
  "copy_folder_grants source_grants user_id target =
     mapE (\<lambda>src. create_grant_row
       (new_grant target RESOURCE_FOLDER user_id (g_subject_type src) (g_subject_id src)
          (g_permission src) (g_effect src) (g_expires_at src)
          (if g_notes src = [] then AUTO_PRIVATE_NOTES else g_notes src))) source_grants"

definition private_pair :: "int \<Rightarrow> storage_object \<Rightarrow> ResourceType \<Rightarrow> access_grant list" where
  "private_pair user_id target rt =
     [new_grant target rt user_id SUBJECT_COMPANY (str_int (o_company_id target)) READ DENY None AUTO_PRIVATE_NOTES,
      new_grant target rt user_id SUBJECT_USER (str_int user_id) ADMIN ALLOW None AUTO_PRIVATE_NOTES]"

definition ensure_default_private_access ::
  "int option \<Rightarrow> storage_object \<Rightarrow> ResourceType \<Rightarrow> access_grant list act" where
  "ensure_default_private_access user_id target rt =
     (case user_id of None \<Rightarrow> ret []
      | Some u \<Rightarrow>
        if rt \<notin> {RESOURCE_FOLDER, RESOURCE_OBJECT} then ret []
        else
          let path = (if rt = RESOURCE_FOLDER then folder_path_from_placeholder (o_name target)
                      else normalize_path (Some (o_name target))) in
          if path = [] then ret []
          else bindE (gets (\<lambda>w. resource_grants_exist w target rt)) (\<lambda>found.
            if found then ret []
            else bindE (gets (\<lambda>w. nearest_ancestor_folder_grants w (o_company_id target)
                     (bucket_name_of w (o_bucket target)) path)) (\<lambda>nearest.
              case nearest of
                Some (f, parent_grants) \<Rightarrow>
                  if f \<noteq> [] \<and> parent_grants \<noteq> []
                  then (if rt = RESOURCE_FOLDER then copy_folder_grants parent_grants u target else ret [])
                  else mapE create_grant_row (private_pair u target rt)
              | None \<Rightarrow> mapE create_grant_row (private_pair u target rt))))"

definition apply_default_private_on_create ::
  "storage_object \<Rightarrow> int option \<Rightarrow> bool \<Rightarrow> access_grant list act" where
  "apply_default_private_on_create obj user_id is_folder =
     (case user_id of None \<Rightarrow> ret []
      | Some u \<Rightarrow>
        let path = normalize_path (Some (o_name obj)) in
        if path = [] \<or> path = FOLDER_PLACEHOLDER_NAME then ret []
        else if is_folder \<or> suffix (slash # FOLDER_PLACEHOLDER_NAME) path
        then (if folder_path_from_placeholder path = [] then ret []
              else ensure_default_private_access (Some u) obj RESOURCE_FOLDER)
        else ensure_default_private_access (Some u) obj RESOURCE_OBJECT)"

section \<open>What creating grants keeps\<close>

lemma wp_create_grant_row:
  "wp (create_grant_row g) Q R w =
     (let w1 = w\<lparr>w_next_uuid := Suc (w_next_uuid w)\<rparr>;
          g' = g\<lparr>g_id := w_next_uuid w, g_created_at := w_clock w, g_updated_at := w_clock w\<rparr> in
      if grant_conflict g' w then R IntegrityErr w1 else Q g' (w1\<lparr>w_grants := w_grants w @ [g']\<rparr>))"
  by (simp add: create_grant_row_def wp_simps wp_insert_grant Let_def)

lemma schema_create_grant_row: "maintains schema_ok (create_grant_row g)"
  unfolding create_grant_row_def
  by (intro maintains_rules schema_insert_grant stable_schema_ok)

text \<open>\<open>holds t w\<close>: the schema and tenant invariants, with \<open>t\<close> a row of the object table.\<close>

definition holds :: "storage_object \<Rightarrow> world \<Rightarrow> bool" where
  "holds t w \<longleftrightarrow> schema_ok w \<and> tenant_ok w \<and> t \<in> set (w_objects w)"

lemma stable_holds: "stable (holds t)"
  using stable_schema_ok stable_tenant_ok by (simp add: stable_def holds_def)

lemma grant_local_new:
  assumes "holds t w" "g_object g = Some (o_id t)" "g_bucket g = o_bucket t" "g_company_id g = o_company_id t"
  shows "grant_local w g"
  using assms distinct_key_unique [of o_id "w_objects w" t]
  by (fastforce simp: holds_def grant_local_def tenant_ok_def object_local_def schema_ok_def)

lemma tenant_add_grant:
  "tenant_ok w \<Longrightarrow> grant_local w g \<Longrightarrow> tenant_ok (w\<lparr>w_next_uuid := n, w_grants := w_grants w @ [g]\<rparr>)"
  by (auto simp: tenant_ok_def local_defs)

lemma holds_create_grant_row:
  assumes "g_object g = Some (o_id t)" "g_bucket g = o_bucket t" "g_company_id g = o_company_id t"
  shows "maintains (holds t) (create_grant_row g)"
proof (intro maintainsI)
  fix w
  assume w: "holds t w"
  let ?g = "g\<lparr>g_id := w_next_uuid w, g_created_at := w_clock w, g_updated_at := w_clock w\<rparr>"
  have "grant_local w ?g" using w assms by (intro grant_local_new [of t]) simp_all
  then have "tenant_ok (w\<lparr>w_next_uuid := Suc (w_next_uuid w), w_grants := w_grants w @ [?g]\<rparr>)"
    using w by (intro tenant_add_grant) (simp_all add: holds_def)
  then show "wp (create_grant_row g) (\<lambda>_. holds t) (\<lambda>_. holds t) w"
    using w maintains_wp [OF schema_create_grant_row, of w g] stable_next [OF stable_tenant_ok]
    by (auto simp: wp_create_grant_row Let_def holds_def)
qed

lemma maintains_mapE_set:
  "(\<And>x. x \<in> set xs \<Longrightarrow> maintains I (f x)) \<Longrightarrow> maintains I (mapE f xs)"
  by (induction xs) (auto intro!: maintains_bindE maintains_basic)

lemma holds_private_pair: "maintains (holds t) (mapE create_grant_row (private_pair u t rt))"
  by (intro maintains_mapE_set holds_create_grant_row) (auto simp: private_pair_def new_grant_def)

lemma holds_copy_grants: "maintains (holds t) (copy_folder_grants gs u t)"
  unfolding copy_folder_grants_def
  by (intro maintains_mapE_set holds_create_grant_row) (auto simp: new_grant_def)

lemma holds_ensure_private: "maintains (holds t) (ensure_default_private_access u t rt)"
  unfolding ensure_default_private_access_def Let_def
  by (auto split: option.splits prod.splits intro!: maintains_basic maintains_bindE maintains_if
      holds_copy_grants holds_private_pair)

lemma holds_apply_private: "maintains (holds t) (apply_default_private_on_create t u f)"
  unfolding apply_default_private_on_create_def Let_def
  by (auto split: option.splits intro!: maintains_basic maintains_if holds_ensure_private)

text \<open>Only the grants and the UUID supply change.\<close>

definition same_but_grants :: "world \<Rightarrow> world \<Rightarrow> bool" where
  "same_but_grants w w' \<longleftrightarrow>
     w_buckets w' = w_buckets w \<and> w_objects w' = w_objects w \<and> w_links w' = w_links w \<and>
     w_cquotas w' = w_cquotas w \<and> w_uquotas w' = w_uquotas w \<and> w_events w' = w_events w \<and>
     w_blobs w' = w_blobs w \<and> w_clock w' = w_clock w \<and> w_next_uuid w \<le> w_next_uuid w'"

lemma same_but_grants_rel: "reflp same_but_grants" "transp same_but_grants"
  by (auto simp: reflp_def transp_def same_but_grants_def)

lemma create_grant_row_frame: "keeps same_but_grants (create_grant_row g)"
  by (intro keepsI) (simp add: wp_create_grant_row Let_def same_but_grants_def)

lemma ensure_private_frame: "keeps same_but_grants (ensure_default_private_access u t rt)"
  unfolding ensure_default_private_access_def Let_def copy_folder_grants_def
  by (auto split: option.splits prod.splits intro!: keeps_readers keeps_bindE keeps_if keeps_mapE
      same_but_grants_rel create_grant_row_frame)

lemma apply_private_frame: "keeps same_but_grants (apply_default_private_on_create t u f)"
  unfolding apply_default_private_on_create_def Let_def
  by (auto split: option.splits intro!: keeps_readers keeps_if same_but_grants_rel ensure_private_frame)

text \<open>With a sound UUID supply the grants are created without fail.\<close>

definition supply_ok :: "world \<Rightarrow> bool" where
  "supply_ok w \<longleftrightarrow>
     (\<forall>b \<in> set (w_buckets w). b_id b < w_next_uuid w) \<and>
     (\<forall>obj \<in> set (w_objects w). o_id obj < w_next_uuid w) \<and>
     (\<forall>g \<in> set (w_grants w). g_id g < w_next_uuid w)"

definition ready :: "storage_object \<Rightarrow> world \<Rightarrow> bool" where
  "ready t w \<longleftrightarrow> supply_ok w \<and> t \<in> set (w_objects w) \<and> o_bucket t \<in> b_id ` set (w_buckets w)"

definition total :: "(world \<Rightarrow> bool) \<Rightarrow> 'a act \<Rightarrow> bool" where
  "total I m \<longleftrightarrow> (\<forall>w. I w \<longrightarrow> wp m (\<lambda>_. I) (\<lambda>_ _. False) w)"

lemma total_basic: "total I (ret x)" "total I (gets f)"
  by (simp_all add: total_def wp_simps)

lemma total_bindE: "total I m \<Longrightarrow> (\<And>x. total I (f x)) \<Longrightarrow> total I (bindE m f)"
  unfolding total_def wp_bindE by (blast intro: wp_mono)

lemma total_mapE: "(\<And>x. x \<in> set xs \<Longrightarrow> total I (f x)) \<Longrightarrow> total I (mapE f xs)"
  by (induction xs) (auto intro!: total_bindE total_basic)

lemma total_run: "total I m \<Longrightarrow> I w \<Longrightarrow> \<exists>x w'. m w = (Inr x, w') \<and> I w'"
proof -
  assume "total I m" "I w"
  then have post: "wp m (\<lambda>_. I) (\<lambda>_ _. False) w" by (simp add: total_def)
  obtain r w' where "m w = (r, w')" by fastforce
  with post show ?thesis by (cases r) (simp_all add: wp_def)
qed

lemma total_create_grant:
  assumes "g_object g = Some (o_id t)" "g_bucket g = o_bucket t" "g_resource_type g \<noteq> RESOURCE_BUCKET"
  shows "total (ready t) (create_grant_row g)"
  unfolding total_def
proof (intro allI impI)
  fix w
  assume w: "ready t w"
  have "w_next_uuid w \<notin> g_id ` set (w_grants w)" using w by (auto simp: ready_def supply_ok_def)
  then have "\<not> grant_conflict (g\<lparr>g_id := w_next_uuid w, g_created_at := w_clock w, g_updated_at := w_clock w\<rparr>) w"
    using w assms by (auto simp: grant_conflict_def grant_shape_def ready_def)
  moreover have "ready t (w\<lparr>w_next_uuid := Suc (w_next_uuid w), w_grants := w_grants w @
      [g\<lparr>g_id := w_next_uuid w, g_created_at := w_clock w, g_updated_at := w_clock w\<rparr>]\<rparr>)"
    using w by (auto simp: ready_def supply_ok_def less_Suc_eq)
  ultimately show "wp (create_grant_row g) (\<lambda>_. ready t) (\<lambda>_ _. False) w"
    by (simp add: wp_create_grant_row Let_def)
qed

lemma total_ensure_private: "total (ready t) (ensure_default_private_access u t rt)"
  unfolding ensure_default_private_access_def Let_def copy_folder_grants_def private_pair_def
  by (auto split: option.splits prod.splits
      intro!: total_basic total_bindE total_mapE total_create_grant simp: new_grant_def)

lemma total_apply_private: "total (ready t) (apply_default_private_on_create t u f)"
  unfolding apply_default_private_on_create_def Let_def
  by (auto split: option.splits intro!: total_basic total_ensure_private)

section \<open>The nearest private folder\<close>

text \<open>A folder that an active grant closes to the whole company.\<close>

definition private_folder :: "world \<Rightarrow> int \<Rightarrow> string \<Rightarrow> string \<Rightarrow> string \<Rightarrow> bool" where
  "private_folder w company_id bucket_name path f \<longleftrightarrow>
     (\<exists>g \<in> set (folder_grants_for_prefixes w company_id bucket_name (ancestor_folder_prefixes path)).
        denies_company_read company_id g \<and> grant_folder w g = f)"

lemma sorted_ancestors: "sorted_wrt (\<lambda>x y. length x < length y) (ancestor_folder_prefixes path)"
proof -
  have step: "length (join_on slash (take i ps)) < length (join_on slash (take j ps))"
    if "1 \<le> i" "i < j" "j \<le> length ps" for i j and ps :: "string list"
  proof -
    have "take j ps = take i ps @ take (j - i) (drop i ps)"
      using that by (metis add_diff_inverse_nat less_imp_le_nat not_less take_add)
    moreover have "take i ps \<noteq> []" "take (j - i) (drop i ps) \<noteq> []" using that by auto
    ultimately show ?thesis by (simp add: join_on_append)
  qed
  have "sorted_wrt (\<lambda>i j. length (join_on slash (take i ps)) < length (join_on slash (take j ps)))
      [1..<length ps]" for ps :: "string list"
    by (rule sorted_wrt_mono_rel [OF _ sorted_wrt_upt]) (auto intro: step)
  then show ?thesis by (simp add: ancestor_folder_prefixes_def Let_def sorted_wrt_map)
qed

text \<open>The first hit from the deep end is the longest one.\<close>

lemma first_where_rev_longest:
  assumes "sorted_wrt (\<lambda>x y. length x < length y) xs" "first_where P (rev xs) = Some f"
    "x \<in> set xs" "P x"
  shows "length x \<le> length (f :: string)"
  using assms
proof (induction xs rule: rev_induct)
  case (snoc y ys)
  then show ?case by (auto simp: sorted_wrt_append split: if_splits)
qed simp

lemma nearest_private_eq:
  "nearest_private_ancestor_folder w c bn path =
     first_where (private_folder w c bn path) (rev (ancestor_folder_prefixes path))"
proof -
  have "(f \<in> set (map (grant_folder w) (filter (denies_company_read c)
      (folder_grants_for_prefixes w c bn (ancestor_folder_prefixes path))))) = private_folder w c bn path f" for f
    by (auto simp: private_folder_def)
  then show ?thesis by (simp add: nearest_private_ancestor_folder_def Let_def)
qed

text \<open>
  \<open>nearest_private_ancestor_folder\<close> returns a folder strictly above the path that an
  active grant closes to the company, the deepest of them; it returns nothing exactly when no
  folder above the path is closed.
\<close>

theorem nearest_private_deepest:
  "case nearest_private_ancestor_folder w c bn path of
     None \<Rightarrow> \<not> (\<exists>f \<in> set (ancestor_folder_prefixes path). private_folder w c bn path f)
   | Some f \<Rightarrow> f \<in> set (ancestor_folder_prefixes path) \<and> private_folder w c bn path f \<and>
       \<not> (\<exists>h \<in> set (ancestor_folder_prefixes path). private_folder w c bn path h \<and> length f < length h)"
  using first_where_rev_longest [OF sorted_ancestors, of "private_folder w c bn path" path]
  by (fastforce simp: nearest_private_eq first_where_None dest: first_where_Some split: option.splits)

section \<open>A new file is private to its creator\<close>

lemma create_grants_outcome:
  "mapE create_grant_row gs w = (Inr hs, w') \<Longrightarrow>
     w_grants w' = w_grants w @ hs \<and>
     map (\<lambda>h. h\<lparr>g_id := 0, g_created_at := 0, g_updated_at := 0\<rparr>) hs =
     map (\<lambda>g. g\<lparr>g_id := 0, g_created_at := 0, g_updated_at := 0\<rparr>) gs"
proof (induction gs arbitrary: w hs w')
  case Nil
  then show ?case by (simp add: ret_def)
next
  case (Cons g gs)
  obtain h w1 where one: "create_grant_row g w = (Inr h, w1)"
    using Cons.prems by (auto simp: bindE_def split: prod.splits sum.splits)
  have h: "h = g\<lparr>g_id := w_next_uuid w, g_created_at := w_clock w, g_updated_at := w_clock w\<rparr>"
    "w_grants w1 = w_grants w @ [h]"
    using one wp_create_grant_row [of g "\<lambda>x v. x = h \<and> v = w1 \<longrightarrow> h = g\<lparr>g_id := w_next_uuid w,
      g_created_at := w_clock w, g_updated_at := w_clock w\<rparr> \<and> w_grants w1 = w_grants w @ [h]" "\<lambda>_ _. True" w]
    by (simp_all add: wp_def Let_def split: if_splits) auto
  obtain ts where rest: "mapE create_grant_row gs w1 = (Inr ts, w')" "hs = h # ts"
    using Cons.prems one by (auto simp: bindE_def ret_def split: prod.splits sum.splits)
  show ?case using Cons.IH [OF rest(1)] rest(2) h by simp
qed

text \<open>The depth of a path is one more than its slashes; normalising never adds any.\<close>

definition depth :: "string \<Rightarrow> nat" where
  "depth path = length (split_on slash (normalize_path (Some path)))"

lemma length_split_on: "length (split_on c s) = Suc (count_list s c)"
  by (induction s) (auto split: list.splits)

lemma count_strip_where: "count_list (strip_where P s) c \<le> count_list s c"
proof -
  obtain a b where "s = a @ strip_where P s @ b" using strip_where_infix by blast
  then have "count_list s c = count_list a c + count_list (strip_where P s) c + count_list b c"
    by (metis count_list_append add.assoc)
  then show ?thesis by simp
qed

lemma depth_normalize: "depth (normalize_path (Some path)) \<le> depth path"
proof -
  have "count_list (normalize_path (Some q)) slash \<le> count_list q slash" for q
    using count_strip_where order_trans unfolding normalize_path_def strip_def strip_slashes_def option.case by blast
  then show ?thesis by (simp add: depth_def length_split_on)
qed

lemma depth_folder_le: "folder_matches f path \<Longrightarrow> normalize_path (Some f) \<noteq> [] \<Longrightarrow> depth f \<le> depth path"
  by (auto simp: folder_matches_def Let_def depth_def prefix_def length_split_on)

text \<open>A bucket or folder grant that matches a path of ordinary depth ranks below an object grant.\<close>

lemma specificity_below_object:
  assumes "resource_matches_grant w g b (Some path) i" "g_resource_type g \<noteq> RESOURCE_OBJECT"
    "depth path < 900"
  shows "grant_specificity w g < (1000, s)"
proof (cases "g_resource_type g")
  case RESOURCE_FOLDER
  let ?f = "folder_path_from_placeholder (object_name_of w (g_object g))"
  have m: "folder_matches ?f (normalize_path (Some path))" "g_object g \<noteq> None"
    using assms(1) RESOURCE_FOLDER by (auto simp: resource_matches_grant_def Let_def split: if_splits)
  have "depth ?f < 900"
  proof (cases "normalize_path (Some ?f) = []")
    case True
    then show ?thesis by (simp add: depth_def)
  next
    case False
    then show ?thesis using depth_folder_le [OF m(1)] depth_normalize [of path] assms(3) by linarith
  qed
  then show ?thesis
    using RESOURCE_FOLDER m(2) by (simp add: grant_specificity_def Let_def depth_def less_prod_def)
qed (use assms(2) in \<open>simp_all add: grant_specificity_def less_prod_def\<close>)

text \<open>The two grants a new item starts with, as they are found in the table.\<close>

definition private_to :: "int \<Rightarrow> storage_object \<Rightarrow> access_grant \<Rightarrow> access_grant \<Rightarrow> bool" where
  "private_to u t d a \<longleftrightarrow>
     (\<forall>g \<in> {d, a}. g_company_id g = o_company_id t \<and> g_bucket g = o_bucket t \<and>
        g_object g = Some (o_id t) \<and> g_resource_type g = RESOURCE_OBJECT \<and> g_expires_at g = None) \<and>
     g_effect d = DENY \<and> g_permission d = READ \<and> g_subject_type d = SUBJECT_COMPANY \<and>
     g_subject_id d = str_int (o_company_id t) \<and>
     g_effect a = ALLOW \<and> g_permission a = ADMIN \<and> g_subject_type a = SUBJECT_USER \<and>
     g_subject_id a = str_int u"

lemma private_pair_stored:
  assumes "mapE create_grant_row (private_pair u t RESOURCE_OBJECT) w = (Inr gs, w')"
  shows "\<exists>d a. gs = [d, a] \<and> w_grants w' = w_grants w @ [d, a] \<and> private_to u t d a"
proof -
  let ?z = "\<lambda>h. h\<lparr>g_id := 0, g_created_at := 0, g_updated_at := 0\<rparr>"
  have eq: "w_grants w' = w_grants w @ gs" "map ?z gs = map ?z (private_pair u t RESOURCE_OBJECT)"
    using create_grants_outcome [OF assms] by auto
  then obtain d a where gs: "gs = [d, a]" "?z d = ?z (private_pair u t RESOURCE_OBJECT ! 0)"
      "?z a = ?z (private_pair u t RESOURCE_OBJECT ! 1)"
    by (auto simp: private_pair_def)
  have same: "?z x = ?z y \<Longrightarrow> g_company_id x = g_company_id y \<and> g_bucket x = g_bucket y \<and>
      g_object x = g_object y \<and> g_resource_type x = g_resource_type y \<and> g_expires_at x = g_expires_at y \<and>
      g_effect x = g_effect y \<and> g_permission x = g_permission y \<and> g_subject_type x = g_subject_type y \<and>
      g_subject_id x = g_subject_id y" for x y
    by (cases x; cases y) simp
  have "private_to u t d a"
    using same [OF gs(2)] same [OF gs(3)] by (simp add: private_to_def private_pair_def new_grant_def)
  then show ?thesis using eq gs by blast
qed

lemma matching_private:
  assumes "private_to u t d a" "w_grants w' = w_grants w @ [d, a]" "w_objects w' = w_objects w"
    "w_clock w' = w_clock w" "member p b" "b_id b = o_bucket t" "b_company_id b = o_company_id t"
  shows "matching_grants w' p b path (Some (o_id t)) =
     matching_grants w p b path (Some (o_id t)) @ d # (if p_user_id p = Some u then [a] else [])"
proof -
  have "object_name_of w' = object_name_of w" using assms(3) by (rule object_name_of_cong)
  then have res: "resource_matches_grant w' = resource_matches_grant w"
    by (intro ext) (simp only: resource_matches_grant_def)
  obtain v where p: "p_company_id p = Some (o_company_id t)" "p_user_id p = Some v"
    using assms(5,7) by (auto simp: member_def)
  have "resource_matches_grant w g b path (Some (o_id t))" if "g \<in> {d, a}" for g
    using assms(1,6) that by (auto simp: private_to_def resource_matches_grant_def Let_def)
  moreover have "grant_active (w_clock w) g \<and> g_company_id g = o_company_id t" if "g \<in> {d, a}" for g
    using assms(1) that by (auto simp: private_to_def grant_active_def)
  moreover have "subject_matches d p" "subject_matches a p = (v = u)"
    using assms(1) p by (auto simp: private_to_def subject_matches_def)
  ultimately show ?thesis
    using p by (simp add: matching_grants_def active_grants_def assms(2,4) res)
qed

lemma private_access:
  assumes "private_to u t d a" "w_grants w' = w_grants w @ [d, a]" "w_objects w' = w_objects w"
    "w_clock w' = w_clock w" "member p b" "b_id b = o_bucket t" "b_company_id b = o_company_id t"
    and lower: "\<forall>g \<in> set (w_grants w). g_resource_type g = RESOURCE_OBJECT \<longrightarrow>
      \<not> resource_matches_grant w g b (Some path) (Some (o_id t))" and "depth path < 900"
  shows "evaluate_access w' p b (Some path) (Some (o_id t)) wr ad \<longleftrightarrow> p_user_id p = Some u"
proof -
  let ?m = "matching_grants w' p b (Some path) (Some (o_id t))"
  let ?best = "if p_user_id p = Some u then a else d"
  have m: "set ?m = set (matching_grants w p b (Some path) (Some (o_id t))) \<union> (if p_user_id p = Some u then {d, a} else {d})"
    using matching_private [OF assms(1-7)] by simp
  have spec: "grant_specificity w' d = (1000, 1)" "grant_specificity w' a = (1000, 3)"
    using assms(1) by (simp_all add: private_to_def grant_specificity_def subject_score_def)
  have old: "grant_specificity w' g < (1000, s)" if "g \<in> set (matching_grants w p b (Some path) (Some (o_id t)))" for g s
  proof -
    have "g \<in> set (w_grants w)" "resource_matches_grant w g b (Some path) (Some (o_id t))"
      using that by (auto simp: matching_grants_def active_grants_def split: option.splits)
    moreover have "object_name_of w' = object_name_of w" using assms(3) by (rule object_name_of_cong)
    then have "grant_specificity w' = grant_specificity w" by (intro ext) (simp only: grant_specificity_def)
    ultimately show ?thesis using lower specificity_below_object assms(9) by metis
  qed
  have old_ne: "grant_specificity w' g \<noteq> (1000, s)"
    if "g \<in> set (matching_grants w p b (Some path) (Some (o_id t)))" for g s
    using old [OF that, of s] by simp
  have "set (top_grants w' ?m) = {h \<in> set ?m. grant_specificity w' h = grant_specificity w' ?best}"
    using old spec by (intro top_grants_best) (auto simp: m less_imp_le split: if_splits)
  then have "set (top_grants w' ?m) = {?best}"
    using old_ne spec by (auto simp: m split: if_splits)
  then show ?thesis
    using assms(1,5) by (auto simp: evaluate_access_eq decide_def private_to_def split: if_splits)
qed

lemma ensure_private_cases:
  assumes "ensure_default_private_access (Some u) t RESOURCE_OBJECT w = (Inr gs, w')"
  shows "gs = [] \<and> w' = w \<or> mapE create_grant_row (private_pair u t RESOURCE_OBJECT) w = (Inr gs, w')"
  using assms by (auto simp: ensure_default_private_access_def Let_def ret_def bindE_def gets_def
      split: if_splits option.splits prod.splits)

text \<open>
  Private by default: when a new file gets its automatic grants, the only member of the
  company with any access to it is the user who created it, who has every permission. Owners
  and staff have none. The hypotheses say that the automatic grants were created (no folder
  above the file has grants), that no other object grant matches the file, and that its path
  is not 900 folders deep (1024 characters hold at most 512).
\<close>

theorem new_file_private_to_creator:
  assumes "ensure_default_private_access (Some u) t RESOURCE_OBJECT w = (Inr gs, w')" "gs \<noteq> []"
    and "b_id b = o_bucket t" "b_company_id b = o_company_id t" "member p b"
    and "\<forall>g \<in> set (w_grants w). g_resource_type g = RESOURCE_OBJECT \<longrightarrow>
      \<not> resource_matches_grant w g b (Some (o_name t)) (Some (o_id t))"
    and "depth (o_name t) < 900"
  shows "evaluate_access w' p b (Some (o_name t)) (Some (o_id t)) wr ad \<longleftrightarrow> p_user_id p = Some u"
proof -
  have made: "mapE create_grant_row (private_pair u t RESOURCE_OBJECT) w = (Inr gs, w')"
    using ensure_private_cases [OF assms(1)] assms(2) by blast
  obtain d a where da: "w_grants w' = w_grants w @ [d, a]" "private_to u t d a"
    using private_pair_stored [OF made] by blast
  have "same_but_grants w w'" using ensure_private_frame assms(1) by (rule keepsD)
  then show ?thesis
    using private_access [OF da(2,1) _ _ assms(5,3,4,6,7)] by (simp add: same_but_grants_def)
qed

definition open_file :: storage_object where
  "open_file = file_row 4 ''notes.txt'' 3 2"

definition open_world :: world where
  "open_world = private_world\<lparr>w_objects := w_objects private_world @ [open_file]\<rparr>"

lemma new_file_private_to_creator_witness:
  "evaluate_access open_world owner company_bucket (Some ''notes.txt'') (Some 4) False False \<and>
   (case ensure_default_private_access (Some 2) open_file RESOURCE_OBJECT open_world of
      (Inl _, _) \<Rightarrow> False
    | (Inr gs, w') \<Rightarrow>
        \<not> evaluate_access w' owner company_bucket (Some ''notes.txt'') (Some 4) False False \<and>
        evaluate_access w' bob company_bucket (Some ''notes.txt'') (Some 4) True True)"
proof -
  let ?r = "ensure_default_private_access (Some 2) open_file RESOURCE_OBJECT open_world"
  have made: "case ?r of (Inl _, _) \<Rightarrow> False | (Inr gs, _) \<Rightarrow> gs \<noteq> []" by code_simp
  then obtain gs w' where r: "?r = (Inr gs, w')" "gs \<noteq> []"
    by (auto split: prod.splits sum.splits)
  have facts: "b_id company_bucket = o_bucket open_file" "b_company_id company_bucket = o_company_id open_file"
    "o_name open_file = ''notes.txt''" "o_id open_file = 4"
    "depth (o_name open_file) < 900" "p_user_id owner \<noteq> Some 2" "p_user_id bob = Some 2"
    "evaluate_access open_world owner company_bucket (Some ''notes.txt'') (Some 4) False False"
    by code_simp+
  have "member owner company_bucket" "member bob company_bucket"
    by (simp_all add: member_def sample_defs)
  moreover have "\<forall>g \<in> set (w_grants open_world). g_resource_type g = RESOURCE_OBJECT \<longrightarrow>
      \<not> resource_matches_grant open_world g company_bucket (Some (o_name open_file)) (Some (o_id open_file))"
    by code_simp
  ultimately show ?thesis
    using new_file_private_to_creator [OF r facts(1,2) _ _ facts(5)] r facts by simp
qed

end
