(* ===== verification/Quotas.thy ===== *)
theory Quotas
  imports Database Environment
begin

text \<open>
  \<open>apps/storage/quotas.py\<close>: the company totals and the optional per-user caps, the check
  before bytes are added, and the adjustment of the counters after it. The adjustment is
  shown to be a total function of the world (\<open>charge\<close>), and the locale \<open>usage_ledger\<close> states
  what the object operations rely on: the company counter moves by the difference, and no
  other company's does. \<open>exact\<close> is the accounting invariant: each company's counter is the
  sum of the sizes of its objects.
\<close>

section \<open>Lookups\<close>

definition company_quota_row :: "world \<Rightarrow> int \<Rightarrow> company_quota option" where
  "company_quota_row w c = first_where (\<lambda>q. cq_company_id q = c) (w_cquotas w)"

definition user_quota_row :: "world \<Rightarrow> int \<Rightarrow> int \<Rightarrow> user_quota option" where
  "user_quota_row w c u = first_where (\<lambda>q. uq_company_id q = c \<and> uq_user_id q = u) (w_uquotas w)"

definition new_company_quota :: "env \<Rightarrow> int \<Rightarrow> company_quota" where
  "new_company_quota env c = \<lparr>cq_company_id = c, cq_max_bytes = DEFAULT_COMPANY_QUOTA_BYTES env,
     cq_used_bytes = 0,
     cq_max_bytes_per_user =
       (if DEFAULT_USER_QUOTA_BYTES env = 0 then None else Some (DEFAULT_USER_QUOTA_BYTES env))\<rparr>"

definition get_or_create_company_quota :: "env \<Rightarrow> int \<Rightarrow> company_quota act" where
  "get_or_create_company_quota env c w =
     (case company_quota_row w c of
        Some q \<Rightarrow> (Inr q, w)
      | None \<Rightarrow> (Inr (new_company_quota env c), w\<lparr>w_cquotas := w_cquotas w @ [new_company_quota env c]\<rparr>))"

definition resolve_user_limit ::
  "world \<Rightarrow> company_quota \<Rightarrow> int option \<Rightarrow> int option \<times> user_quota option" where
  "resolve_user_limit w company user_id =
     (case user_id of None \<Rightarrow> (None, None)
      | Some u \<Rightarrow>
         (case user_quota_row w (cq_company_id company) u of
            Some row \<Rightarrow> (Some (uq_max_bytes row), Some row)
          | None \<Rightarrow>
             (case cq_max_bytes_per_user company of
                None \<Rightarrow> (None, None)
              | Some cap \<Rightarrow> if cap \<le> 0 then (None, None) else (Some cap, None))))"

record quota_snapshot =
  qs_company_id :: int
  qs_company_max :: int
  qs_company_used :: int
  qs_user_id :: "int option"
  qs_user_max :: "int option"
  qs_user_used :: int

definition snapshot :: "env \<Rightarrow> int \<Rightarrow> int option \<Rightarrow> quota_snapshot act" where
  "snapshot env c user_id =
     bindE (get_or_create_company_quota env c) (\<lambda>company.
     bindE (gets (\<lambda>w. resolve_user_limit w company user_id)) (\<lambda>(user_max, user_row).
     ret \<lparr>qs_company_id = c, qs_company_max = cq_max_bytes company,
       qs_company_used = cq_used_bytes company, qs_user_id = user_id, qs_user_max = user_max,
       qs_user_used = (case user_row of None \<Rightarrow> 0 | Some row \<Rightarrow> uq_used_bytes row)\<rparr>))"

section \<open>The check\<close>

definition user_limit_exceeded :: "int option \<times> user_quota option \<Rightarrow> int \<Rightarrow> bool" where
  "user_limit_exceeded limit delta =
     (case limit of
        (None, _) \<Rightarrow> False
      | (Some m, row) \<Rightarrow>
          m \<noteq> 0 \<and> m < (case row of None \<Rightarrow> 0 | Some r \<Rightarrow> uq_used_bytes r) + delta)"

definition assert_can_store :: "env \<Rightarrow> int \<Rightarrow> int option \<Rightarrow> int \<Rightarrow> int \<Rightarrow> unit act" where
  "assert_can_store env c user_id additional_bytes replacing_bytes =
     seqE (guardE (0 \<le> additional_bytes) ValueErr)
     (let delta = additional_bytes - replacing_bytes in
      if delta \<le> 0 then ret ()
      else bindE (get_or_create_company_quota env c) (\<lambda>company.
        seqE (guardE (\<not> (cq_max_bytes company \<noteq> 0 \<and> cq_max_bytes company < cq_used_bytes company + delta))
               (QuotaErr ''company_quota_exceeded''))
        (bindE (gets (\<lambda>w. resolve_user_limit w company user_id)) (\<lambda>limit.
          guardE (\<not> user_limit_exceeded limit delta) (QuotaErr ''user_quota_exceeded'')))))"

section \<open>The adjustment\<close>

definition add_company_usage :: "int \<Rightarrow> int \<Rightarrow> world \<Rightarrow> world" where
  "add_company_usage c delta w = w\<lparr>w_cquotas :=
     update_where (\<lambda>q. cq_company_id q = c \<and> cq_used_bytes q < 0) (\<lambda>q. q\<lparr>cq_used_bytes := 0\<rparr>)
       (update_where (\<lambda>q. cq_company_id q = c) (\<lambda>q. q\<lparr>cq_used_bytes := cq_used_bytes q + delta\<rparr>)
         (w_cquotas w))\<rparr>"

definition add_user_usage :: "int \<Rightarrow> int \<Rightarrow> int \<Rightarrow> world \<Rightarrow> world" where
  "add_user_usage c u delta w = w\<lparr>w_uquotas :=
     update_where (\<lambda>q. uq_company_id q = c \<and> uq_user_id q = u \<and> uq_used_bytes q < 0) (\<lambda>q. q\<lparr>uq_used_bytes := 0\<rparr>)
       (update_where (\<lambda>q. uq_company_id q = c \<and> uq_user_id q = u)
         (\<lambda>q. q\<lparr>uq_used_bytes := uq_used_bytes q + delta\<rparr>) (w_uquotas w))\<rparr>"

definition create_user_quota :: "int \<Rightarrow> int \<Rightarrow> int \<Rightarrow> world \<Rightarrow> world" where
  "create_user_quota c u limit w = w\<lparr>w_uquotas := w_uquotas w @
     [\<lparr>uq_company_id = c, uq_user_id = u, uq_max_bytes = limit, uq_used_bytes = 0\<rparr>]\<rparr>"

definition apply_usage_delta :: "env \<Rightarrow> int \<Rightarrow> int option \<Rightarrow> int \<Rightarrow> unit act" where
  "apply_usage_delta env c user_id delta = atomic (
     if delta = 0 then ret ()
     else bindE (get_or_create_company_quota env c) (\<lambda>company.
       seqE (modify (add_company_usage c delta))
       (case user_id of None \<Rightarrow> ret ()
        | Some u \<Rightarrow>
           bindE (gets (\<lambda>w. resolve_user_limit w company user_id)) (\<lambda>(user_max, user_row).
             case user_row of
               Some _ \<Rightarrow> modify (add_user_usage c u delta)
             | None \<Rightarrow>
                (case user_max of
                   None \<Rightarrow> ret ()
                 | Some limit \<Rightarrow>
                     seqE (modify (create_user_quota c u limit)) (modify (add_user_usage c u delta)))))))"

section \<open>The adjustment as a function\<close>

definition with_company_quota :: "env \<Rightarrow> int \<Rightarrow> world \<Rightarrow> world" where
  "with_company_quota env c w = snd (get_or_create_company_quota env c w)"

definition company_quota_of :: "env \<Rightarrow> int \<Rightarrow> world \<Rightarrow> company_quota" where
  "company_quota_of env c w =
     (case company_quota_row w c of Some q \<Rightarrow> q | None \<Rightarrow> new_company_quota env c)"

definition charge_user :: "company_quota \<Rightarrow> int \<Rightarrow> int option \<Rightarrow> int \<Rightarrow> world \<Rightarrow> world" where
  "charge_user company c user_id delta w =
     (case user_id of None \<Rightarrow> w
      | Some u \<Rightarrow>
         (case resolve_user_limit w company user_id of
            (_, Some _) \<Rightarrow> add_user_usage c u delta w
          | (None, None) \<Rightarrow> w
          | (Some limit, None) \<Rightarrow> add_user_usage c u delta (create_user_quota c u limit w)))"

definition charge :: "env \<Rightarrow> int \<Rightarrow> int option \<Rightarrow> int \<Rightarrow> world \<Rightarrow> world" where
  "charge env c user_id delta w =
     (if delta = 0 then w
      else charge_user (company_quota_of env c w) c user_id delta
             (add_company_usage c delta (with_company_quota env c w)))"

lemma get_or_create_eq:
  "get_or_create_company_quota env c w = (Inr (company_quota_of env c w), with_company_quota env c w)"
  by (simp add: get_or_create_company_quota_def company_quota_of_def with_company_quota_def split: option.splits)

lemma apply_usage_delta_eq: "apply_usage_delta env c u d w = (Inr (), charge env c u d w)"
  by (auto simp: apply_usage_delta_def atomic_def bindE_def seqE_def get_or_create_eq charge_def
      charge_user_def modify_def gets_def ret_def split: option.splits prod.splits)

lemma wp_get_or_create [wp_simps]:
  "wp (get_or_create_company_quota env c) Q R w = Q (company_quota_of env c w) (with_company_quota env c w)"
  by (simp add: wp_def get_or_create_eq)

lemma wp_apply_usage_delta [wp_simps]:
  "wp (apply_usage_delta env c u d) Q R w = Q () (charge env c u d w)"
  by (simp add: wp_def apply_usage_delta_eq)

section \<open>Frames\<close>

definition same_but_quotas :: "world \<Rightarrow> world \<Rightarrow> bool" where
  "same_but_quotas w w' \<longleftrightarrow>
     w_buckets w' = w_buckets w \<and> w_objects w' = w_objects w \<and> w_grants w' = w_grants w \<and>
     w_links w' = w_links w \<and> w_events w' = w_events w \<and> w_blobs w' = w_blobs w \<and>
     w_clock w' = w_clock w \<and> w_next_uuid w' = w_next_uuid w"

lemma same_but_quotas_refl: "same_but_quotas w w"
  by (simp add: same_but_quotas_def)

lemma same_but_quotas_trans: "same_but_quotas u v \<Longrightarrow> same_but_quotas v w \<Longrightarrow> same_but_quotas u w"
  by (simp add: same_but_quotas_def)

lemma same_but_quotas_intros:
  "same_but_quotas w (w\<lparr>w_cquotas := cs\<rparr>)" "same_but_quotas w (w\<lparr>w_uquotas := us\<rparr>)"
  by (simp_all add: same_but_quotas_def)

lemma with_company_quota_frame: "same_but_quotas w (with_company_quota env c w)"
  by (simp add: with_company_quota_def get_or_create_company_quota_def same_but_quotas_refl
      same_but_quotas_intros split: option.splits)

lemma charge_user_frame: "same_but_quotas w (charge_user q c u d w)"
  by (simp add: charge_user_def add_user_usage_def create_user_quota_def same_but_quotas_def
      split: option.splits prod.splits)

lemma charge_frame: "same_but_quotas w (charge env c u d w)"
proof (cases "d = 0")
  case False
  let ?v = "add_company_usage c d (with_company_quota env c w)"
  have "same_but_quotas (with_company_quota env c w) ?v"
    by (simp add: add_company_usage_def same_but_quotas_intros)
  then have "same_but_quotas w ?v"
    using with_company_quota_frame same_but_quotas_trans by blast
  then have "same_but_quotas w (charge_user (company_quota_of env c w) c u d ?v)"
    using charge_user_frame same_but_quotas_trans by blast
  then show ?thesis using False by (simp add: charge_def)
qed (simp add: charge_def same_but_quotas_refl)

lemma charge_fields [simp]:
  "w_buckets (charge env c u d w) = w_buckets w" "w_objects (charge env c u d w) = w_objects w"
  "w_grants (charge env c u d w) = w_grants w" "w_links (charge env c u d w) = w_links w"
  "w_blobs (charge env c u d w) = w_blobs w" "w_clock (charge env c u d w) = w_clock w"
  "w_events (charge env c u d w) = w_events w" "w_next_uuid (charge env c u d w) = w_next_uuid w"
  using charge_frame [of w env c u d] by (auto simp: same_but_quotas_def)

section \<open>The counters\<close>

definition company_used :: "world \<Rightarrow> int \<Rightarrow> int" where
  "company_used w c = (case company_quota_row w c of None \<Rightarrow> 0 | Some q \<Rightarrow> cq_used_bytes q)"

definition user_used :: "world \<Rightarrow> int \<Rightarrow> int \<Rightarrow> int" where
  "user_used w c u = (case user_quota_row w c u of None \<Rightarrow> 0 | Some q \<Rightarrow> uq_used_bytes q)"

definition company_bytes :: "int \<Rightarrow> storage_object list \<Rightarrow> int" where
  "company_bytes c objs = sum_rows (\<lambda>obj. if o_company_id obj = c then o_size obj else 0) objs"

lemma company_used_with_quota [simp]: "company_used (with_company_quota env c w) c' = company_used w c'"
  by (simp add: with_company_quota_def get_or_create_company_quota_def company_used_def
      company_quota_row_def new_company_quota_def first_where_append split: option.splits)

lemma company_quota_exists: "\<exists>q. company_quota_row (with_company_quota env c w) c = Some q"
  by (simp add: with_company_quota_def get_or_create_company_quota_def company_quota_row_def
      new_company_quota_def first_where_append split: option.splits)

lemma company_row_add:
  "company_quota_row (add_company_usage c d w) c' =
     map_option (\<lambda>q. if c' = c then q\<lparr>cq_used_bytes := max 0 (cq_used_bytes q + d)\<rparr> else q)
       (company_quota_row w c')"
proof -
  let ?P = "\<lambda>q. cq_company_id q = c'"
  have add: "first_where ?P (update_where (\<lambda>q. cq_company_id q = c) (\<lambda>q. q\<lparr>cq_used_bytes := cq_used_bytes q + d\<rparr>) rs) =
    map_option (\<lambda>q. if cq_company_id q = c then q\<lparr>cq_used_bytes := cq_used_bytes q + d\<rparr> else q)
      (first_where ?P rs)" for rs
    by (rule first_where_update_key) simp
  have clamp: "first_where ?P (update_where (\<lambda>q. cq_company_id q = c \<and> cq_used_bytes q < 0) (\<lambda>q. q\<lparr>cq_used_bytes := 0\<rparr>) rs) =
    map_option (\<lambda>q. if cq_company_id q = c \<and> cq_used_bytes q < 0 then q\<lparr>cq_used_bytes := 0\<rparr> else q)
      (first_where ?P rs)" for rs
    by (rule first_where_update_key) simp
  have row: "company_quota_row (add_company_usage c d w) c' =
    map_option (\<lambda>q. if cq_company_id q = c \<and> cq_used_bytes q < 0 then q\<lparr>cq_used_bytes := 0\<rparr> else q)
      (map_option (\<lambda>q. if cq_company_id q = c then q\<lparr>cq_used_bytes := cq_used_bytes q + d\<rparr> else q)
        (company_quota_row w c'))"
    using clamp [of "update_where (\<lambda>q. cq_company_id q = c) (\<lambda>q. q\<lparr>cq_used_bytes := cq_used_bytes q + d\<rparr>) (w_cquotas w)"]
      add [of "w_cquotas w"]
    by (simp add: company_quota_row_def add_company_usage_def)
  show ?thesis
  proof (cases "company_quota_row w c'")
    case None
    then show ?thesis using row by simp
  next
    case (Some q)
    then have "cq_company_id q = c'" by (auto simp: company_quota_row_def dest: first_where_Some)
    then show ?thesis using Some row by (auto simp: max_def)
  qed
qed

lemma cquotas_charge_user [simp]: "w_cquotas (charge_user q c u d w) = w_cquotas w"
  by (simp add: charge_user_def add_user_usage_def create_user_quota_def split: option.splits prod.splits)

lemma company_used_charge_user [simp]: "company_used (charge_user q c u d w) c' = company_used w c'"
  by (simp only: company_used_def company_quota_row_def cquotas_charge_user)

lemma company_used_charge:
  "company_used (charge env c u d w) c' =
     (if c' = c \<and> d \<noteq> 0 then max 0 (company_used w c + d) else company_used w c')"
proof -
  let ?v = "with_company_quota env c w"
  have own: "company_used (add_company_usage c d ?v) c = max 0 (company_used ?v c + d)"
    using company_quota_exists [of env c w] by (auto simp: company_used_def company_row_add)
  have other: "c' \<noteq> c \<Longrightarrow> company_used (add_company_usage c d ?v) c' = company_used ?v c'"
    by (simp add: company_used_def company_row_add option.case_eq_if option.map_sel)
  show ?thesis using own other by (cases "c' = c") (simp_all add: charge_def)
qed

lemma schema_with_quota: "schema_ok w \<Longrightarrow> schema_ok (with_company_quota env c w)"
  by (auto simp: with_company_quota_def get_or_create_company_quota_def company_quota_row_def
      new_company_quota_def schema_ok_def first_where_None split: option.splits)

lemma distinct_uquotas_charge_user:
  "distinct (map (\<lambda>q. (uq_company_id q, uq_user_id q)) (w_uquotas w)) \<Longrightarrow> cq_company_id q = c \<Longrightarrow>
   distinct (map (\<lambda>q. (uq_company_id q, uq_user_id q)) (w_uquotas (charge_user q c u d w)))"
  by (auto simp: charge_user_def add_user_usage_def create_user_quota_def map_update_where
      resolve_user_limit_def user_quota_row_def first_where_None split: option.splits prod.splits if_splits)

lemma company_quota_of_id [simp]: "cq_company_id (company_quota_of env c w) = c"
  by (auto simp: company_quota_of_def company_quota_row_def new_company_quota_def
      dest: first_where_Some split: option.splits)

lemma schema_charge: "schema_ok w \<Longrightarrow> schema_ok (charge env c u d w)"
proof -
  assume w: "schema_ok w"
  let ?v = "add_company_usage c d (with_company_quota env c w)"
  have "schema_ok (with_company_quota env c w)" using w by (rule schema_with_quota)
  then have v: "schema_ok ?v"
    by (simp add: schema_ok_def add_company_usage_def map_update_where grant_shape_def)
  then have "schema_ok (charge_user (company_quota_of env c w) c u d ?v)"
    using charge_user_frame [of ?v "company_quota_of env c w" c u d] distinct_uquotas_charge_user
    by (simp add: schema_ok_def same_but_quotas_def)
  then show ?thesis using w by (simp add: charge_def)
qed

lemma tenant_charge [simp]: "tenant_ok (charge env c u d w) = tenant_ok w"
  by (simp add: tenant_ok_def local_defs)

section \<open>The ledger the object operations rely on\<close>

locale usage_ledger =
  fixes post :: "int \<Rightarrow> int option \<Rightarrow> int \<Rightarrow> world \<Rightarrow> world"
    and used :: "world \<Rightarrow> int \<Rightarrow> int"
  assumes used_post: "used (post c u d w) c' =
      (if c' = c \<and> d \<noteq> 0 then max 0 (used w c + d) else used w c')"
    and objects_post: "w_objects (post c u d w) = w_objects w"
    and used_frame: "w_cquotas w' = w_cquotas w \<Longrightarrow> used w' = used w"
begin

text \<open>Every company's counter is the number of bytes its objects hold.\<close>

definition balanced :: "world \<Rightarrow> bool" where
  "balanced w \<longleftrightarrow> (\<forall>c. used w c = company_bytes c (w_objects w))"

lemma post_balanced:
  assumes "\<And>c'. used w c' + (if c' = c then d else 0) = company_bytes c' (w_objects w)"
    and "0 \<le> company_bytes c (w_objects w)"
  shows "balanced (post c u d w)"
  unfolding balanced_def
proof
  fix c'
  show "used (post c u d w) c' = company_bytes c' (w_objects (post c u d w))"
    using assms(1) [of c'] assms(1) [of c] assms(2)
    by (simp add: used_post objects_post max_def split: if_splits)
qed

lemma balanced_frame:
  "balanced w \<Longrightarrow> w_cquotas w' = w_cquotas w \<Longrightarrow>
   (\<And>c. company_bytes c (w_objects w') = company_bytes c (w_objects w)) \<Longrightarrow> balanced w'"
  using used_frame [of w' w] by (simp add: balanced_def)

end

interpretation ledger: usage_ledger "charge env" company_used for env
proof
  show "company_used w' = company_used w" if "w_cquotas w' = w_cquotas w" for w w'
    using that by (simp add: fun_eq_iff company_used_def company_quota_row_def)
qed (simp_all add: company_used_charge)

definition exact :: "world \<Rightarrow> bool" where
  "exact w \<longleftrightarrow> (\<forall>c. company_used w c = company_bytes c (w_objects w))"

lemma exact_balanced: "ledger.balanced = exact"
  by (simp add: fun_eq_iff ledger.balanced_def exact_def)

lemmas exact_charge = ledger.post_balanced [unfolded exact_balanced]
lemmas exact_frame = ledger.balanced_frame [unfolded exact_balanced]

lemma stable_exact: "stable exact"
  by (simp add: stable_def exact_def company_used_def company_quota_row_def)

end
