(* ===== verification/Mime.thy ===== *)
theory Mime
  imports Environment
begin

text \<open>
  \<open>apps/storage/mime.py\<close>: the MIME type of an upload, the allow-list of a bucket, and the
  normal form of an object path. The lemmas characterise the allow-list check, show that a
  normalised path is canonical (no empty, \<open>.\<close> or \<open>..\<close> segment, no backslash), that canonical
  paths are its fixed points, and exactly when a path is refused.
\<close>

section \<open>MIME types\<close>

definition guess_mime_type :: "env \<Rightarrow> string \<Rightarrow> string \<Rightarrow> string" where
  "guess_mime_type env filename fallback =
     (case guess_type env filename of
        None \<Rightarrow> fallback
      | Some guessed \<Rightarrow> if guessed = [] then fallback else guessed)"

definition clean_mime :: "string \<Rightarrow> string" where
  "clean_mime value = lower (strip (takeWhile (\<lambda>c. c \<noteq> CHR '';'') value))"

definition normalize_mime_type :: "env \<Rightarrow> string option \<Rightarrow> string \<Rightarrow> string" where
  "normalize_mime_type env value filename =
     (let fallback = guess_mime_type env filename ''application/octet-stream'' in
      case value of
        None \<Rightarrow> fallback
      | Some v \<Rightarrow>
          if v \<noteq> [] \<and> clean_mime v \<noteq> [] \<and> clean_mime v \<noteq> ''application/octet-stream''
          then clean_mime v else fallback)"

text \<open>The loop over the patterns of the allow-list, in order, with its early return.\<close>

fun mime_matches :: "string \<Rightarrow> string list \<Rightarrow> bool" where
  "mime_matches mime [] = False"
| "mime_matches mime (entry # patterns) =
     (let pattern = lower (strip entry) in
      if pattern = [] then mime_matches mime patterns
      else if suffix ''/*'' pattern
      then (if prefix (butlast pattern) mime then True else mime_matches mime patterns)
      else if mime = pattern then True
      else mime_matches mime patterns)"

definition mime_allowed :: "string \<Rightarrow> string list \<Rightarrow> bool" where
  "mime_allowed mime_type allowed =
     (if allowed = [] then True else mime_matches (clean_mime mime_type) allowed)"

definition pattern_covers :: "string \<Rightarrow> string \<Rightarrow> bool" where
  "pattern_covers entry mime \<longleftrightarrow>
     (let pattern = lower (strip entry) in
      (\<exists>major. pattern = major @ ''/*'' \<and> prefix (major @ ''/'') mime) \<or>
      pattern \<noteq> [] \<and> \<not> suffix ''/*'' pattern \<and> mime = pattern)"

lemma butlast_wildcard: "butlast (major @ ''/*'') = major @ ''/''"
  by (simp add: butlast_append)

lemma mime_matches_iff: "mime_matches mime allowed \<longleftrightarrow> (\<exists>entry \<in> set allowed. pattern_covers entry mime)"
  by (induction mime allowed rule: mime_matches.induct)
    (auto simp: pattern_covers_def Let_def suffix_def butlast_append)

section \<open>Object paths\<close>

definition backslash :: char where
  "backslash = CHR 0x5C"

text \<open>\<open>PurePosixPath(p).parts\<close> of a relative path, and \<open>PurePosixPath(p).name\<close>.\<close>

definition posix_parts :: "string \<Rightarrow> string list" where
  "posix_parts p = filter (\<lambda>s. s \<noteq> [] \<and> s \<noteq> ''.'') (split_on slash p)"

definition posix_name :: "string \<Rightarrow> string" where
  "posix_name p = (case rev (posix_parts p) of [] \<Rightarrow> [] | s # _ \<Rightarrow> s)"

fun safe_parts :: "string list \<Rightarrow> exn + string list" where
  "safe_parts [] = Inr []"
| "safe_parts (part # rest) =
     (if part = [] \<or> part = ''.'' then safe_parts rest
      else if part = ''..'' then Inl ValueErr
      else case safe_parts rest of Inl e \<Rightarrow> Inl e | Inr parts \<Rightarrow> Inr (part # parts))"

definition forward_slashes :: "string \<Rightarrow> string" where
  "forward_slashes p = map (\<lambda>c. if c = backslash then slash else c) p"

definition safe_object_path :: "string \<Rightarrow> exn + string" where
  "safe_object_path path =
     (let raw = strip_slashes (forward_slashes path) in
      if raw = [] then Inl ValueErr
      else case safe_parts (posix_parts raw) of
        Inl e \<Rightarrow> Inl e
      | Inr parts \<Rightarrow> if parts = [] then Inl ValueErr else Inr (join_on slash parts))"

section \<open>Canonical paths\<close>

definition canonical_segment :: "string \<Rightarrow> bool" where
  "canonical_segment s \<longleftrightarrow> s \<noteq> [] \<and> s \<noteq> ''.'' \<and> s \<noteq> ''..'' \<and> slash \<notin> set s \<and> backslash \<notin> set s"

definition canonical :: "string \<Rightarrow> bool" where
  "canonical p \<longleftrightarrow> (\<forall>s \<in> set (split_on slash p). canonical_segment s)"

lemma backslash_not_slash [simp]: "backslash \<noteq> slash" "slash \<noteq> backslash"
  by (simp_all add: backslash_def)

lemma safe_parts_Inr:
  "safe_parts ps = Inr qs \<longleftrightarrow> qs = filter (\<lambda>s. s \<noteq> [] \<and> s \<noteq> ''.'') ps \<and> ''..'' \<notin> set ps"
proof (induction ps arbitrary: qs)
  case (Cons p ps)
  have "safe_parts ps = Inr rs \<longleftrightarrow> rs = filter (\<lambda>s. s \<noteq> [] \<and> s \<noteq> ''.'') ps \<and> ''..'' \<notin> set ps" for rs
    by (rule Cons.IH)
  then show ?case by (cases "safe_parts ps") auto
qed auto

lemma safe_parts_Inl: "safe_parts ps = Inl e \<longleftrightarrow> e = ValueErr \<and> ''..'' \<in> set ps"
proof (induction ps)
  case (Cons p ps)
  then show ?case by (cases "safe_parts ps") auto
qed simp

lemma strip_slashes_hd_last:
  "strip_slashes s = [] \<or> hd (strip_slashes s) \<noteq> slash \<and> last (strip_slashes s) \<noteq> slash"
  using stripped_strip_where [of "\<lambda>c. c = slash" s] by (auto simp: strip_slashes_def stripped_def)

lemma split_slashes_only:
  "\<forall>c \<in> set a. c = slash \<Longrightarrow> filter (\<lambda>s. s \<noteq> []) (split_on slash a) = []"
  by (induction a) auto

lemma split_on_Cons_ex: "\<exists>p ps. split_on c s = p # ps"
  by (meson list.exhaust split_on_not_Nil)

lemma posix_parts_slashes_left: "\<forall>c \<in> set a. c = slash \<Longrightarrow> posix_parts (a @ s) = posix_parts s"
  by (induction a) (auto simp: posix_parts_def)

lemma posix_parts_slashes_right: "\<forall>c \<in> set b. c = slash \<Longrightarrow> posix_parts (s @ b) = posix_parts s"
proof (induction b rule: rev_induct)
  case (snoc c b)
  have "split_on slash (t @ [slash]) = split_on slash t @ [[]]" for t
    using split_on_general [of slash t "[]"] by simp
  with snoc show ?case by (simp add: posix_parts_def flip: append_assoc)
qed simp

lemma posix_parts_strip [simp]: "posix_parts (strip_slashes s) = posix_parts s"
proof -
  obtain a b where "s = a @ strip_slashes s @ b" "\<forall>c \<in> set a \<union> set b. c = slash"
    using strip_where_infix [of s "\<lambda>c. c = slash"] by (auto simp: strip_slashes_def)
  then show ?thesis
    by (metis Un_iff posix_parts_slashes_left posix_parts_slashes_right)
qed

lemma posix_parts_empty: "posix_parts [] = []"
  by (simp add: posix_parts_def)

text \<open>The normal form in closed form: the real segments, unless one of them is \<open>..\<close>.\<close>

lemma safe_object_path_eq:
  "safe_object_path p =
     (let parts = posix_parts (forward_slashes p) in
      if parts = [] \<or> ''..'' \<in> set parts then Inl ValueErr else Inr (join_on slash parts))"
proof -
  let ?raw = "strip_slashes (forward_slashes p)"
  have parts: "posix_parts ?raw = posix_parts (forward_slashes p)" by simp
  have "?raw = [] \<Longrightarrow> posix_parts (forward_slashes p) = []"
    using parts by (simp add: posix_parts_empty)
  moreover have "filter (\<lambda>s. s \<noteq> [] \<and> s \<noteq> ''.'') (posix_parts q) = posix_parts q" for q
    by (simp add: posix_parts_def)
  ultimately show ?thesis
    by (auto simp: safe_object_path_def Let_def safe_parts_Inr safe_parts_Inl split: sum.splits)
qed

lemma posix_parts_segment:
  "s \<in> set (posix_parts p) \<Longrightarrow> s \<noteq> [] \<and> s \<noteq> ''.'' \<and> slash \<notin> set s"
  by (auto simp: posix_parts_def dest: split_on_parts)

lemma split_on_subset: "p \<in> set (split_on c s) \<Longrightarrow> set p \<subseteq> set s"
proof (induction s arbitrary: p)
  case (Cons x xs)
  obtain q qs where s: "split_on c xs = q # qs" by (meson list.exhaust split_on_not_Nil)
  then have "set r \<subseteq> set xs" if "r = q \<or> r \<in> set qs" for r using Cons.IH that by auto
  then show ?case using Cons.prems s by (fastforce split: if_splits)
qed simp

lemma forward_slashes_no_backslash: "backslash \<notin> set (forward_slashes p)"
  by (auto simp: forward_slashes_def)

lemma safe_object_path_canonical: "safe_object_path p = Inr n \<Longrightarrow> canonical n"
proof -
  assume ok: "safe_object_path p = Inr n"
  let ?ps = "posix_parts (forward_slashes p)"
  have n: "n = join_on slash ?ps" "?ps \<noteq> []" "''..'' \<notin> set ?ps"
    using ok by (auto simp: safe_object_path_eq Let_def split: if_splits)
  have seg: "canonical_segment s" if "s \<in> set ?ps" for s
  proof -
    have "s \<in> set (split_on slash (forward_slashes p))" using that by (simp add: posix_parts_def)
    then have "backslash \<notin> set s" using split_on_subset forward_slashes_no_backslash by blast
    then show ?thesis using posix_parts_segment [OF that] that n(3) by (auto simp: canonical_segment_def)
  qed
  then have "split_on slash n = ?ps" using n by (auto simp: canonical_segment_def)
  then show ?thesis using seg by (simp add: canonical_def)
qed

lemma canonical_fixed:
  assumes "canonical n"
  shows "safe_object_path n = Inr n"
proof -
  have "\<forall>c \<in> set n. c \<noteq> backslash"
  proof
    fix c
    assume "c \<in> set n"
    then have "c \<in> insert slash (\<Union> (set ` set (split_on slash n)))"
      by (metis join_split set_join_on subsetD)
    moreover have "\<forall>s \<in> set (split_on slash n). backslash \<notin> set s"
      using assms by (simp add: canonical_def canonical_segment_def)
    ultimately show "c \<noteq> backslash" using backslash_not_slash by fastforce
  qed
  then have "forward_slashes n = n" by (simp add: forward_slashes_def map_idI)
  moreover have "posix_parts n = split_on slash n"
    using assms by (auto simp: posix_parts_def canonical_def canonical_segment_def)
  moreover have "''..'' \<notin> set (split_on slash n)"
    using assms by (auto simp: canonical_def canonical_segment_def)
  ultimately show ?thesis by (simp add: safe_object_path_eq Let_def)
qed

end
