(* ===== verification/Backends.thy ===== *)
theory Backends
  imports Database Mime
begin

text \<open>
  \<open>apps/storage/backends.py\<close> and the blob writer of \<open>services.py\<close>: the physical key of an
  object, the digest of its bytes, and the calls to the blob store with their errors. The
  pruning of empty parent directories on disk changes no blob and is left out. The key lemma
  is that the keys of two objects differ, because each contains the object's UUID.
\<close>

definition build_storage_key :: "env \<Rightarrow> int \<Rightarrow> string \<Rightarrow> string \<Rightarrow> uuid \<Rightarrow> string" where
  "build_storage_key env company_id bucket_name object_name object_id =
     (let base = (if posix_name object_name = [] then ''blob'' else posix_name object_name);
          parts = filter (\<lambda>p. p \<noteq> [])
            [STORAGE_KEY_PREFIX env, str_int company_id, bucket_name, str_uuid object_id, base] in
      join_on slash parts)"

definition content_etag :: "env \<Rightarrow> bytes \<Rightarrow> string" where
  "content_etag env data = md5_hex env data"

definition is_s3_backend :: "env \<Rightarrow> bool" where
  "is_s3_backend env \<longleftrightarrow> STORAGE_BACKEND env = ''s3''"

definition blob_write_error :: "env \<Rightarrow> string \<Rightarrow> exn" where
  "blob_write_error env code =
     (if is_s3_backend env \<and> code \<in> {''NoSuchBucket'', ''404''} then StorageErr 502 ''s3_bucket_missing''
      else if is_s3_backend env then StorageErr 502 ''s3_error''
      else StorageErr 500 ''storage_write_failed'')"

text \<open>\<open>default_storage.save\<close> returns the name it used; the caller ignores it.\<close>

definition save_blob :: "env \<Rightarrow> string \<Rightarrow> bytes \<Rightarrow> unit act" where
  "save_blob env key data w =
     (case storage_save env key data (w_blobs w) of
        (Inl code, bl) \<Rightarrow> (Inl (blob_write_error env code), w\<lparr>w_blobs := bl\<rparr>)
      | (Inr _, bl) \<Rightarrow> (Inr (), w\<lparr>w_blobs := bl\<rparr>))"

definition open_blob :: "env \<Rightarrow> string \<Rightarrow> bytes act" where
  "open_blob env key w =
     (case storage_open env key (w_blobs w) of Inl code \<Rightarrow> (Inl (BlobErr code), w) | Inr d \<Rightarrow> (Inr d, w))"

definition storage_exists :: "env \<Rightarrow> string \<Rightarrow> bool act" where
  "storage_exists env key w =
     (case storage_has env key (w_blobs w) of Inl code \<Rightarrow> (Inl (BlobErr code), w) | Inr b \<Rightarrow> (Inr b, w))"

definition delete_storage_key :: "env \<Rightarrow> string \<Rightarrow> unit act" where
  "delete_storage_key env key =
     bindE (storage_exists env key) (\<lambda>found.
       if found then (\<lambda>w. case storage_delete env key (w_blobs w) of
           (Inl code, bl) \<Rightarrow> (Inl (BlobErr code), w\<lparr>w_blobs := bl\<rparr>)
         | (Inr _, bl) \<Rightarrow> (Inr (), w\<lparr>w_blobs := bl\<rparr>))
       else ret ())"

section \<open>What the blob calls change\<close>

text \<open>The blob calls leave the database, the clock and the UUID supply alone.\<close>

definition same_db :: "world \<Rightarrow> world \<Rightarrow> bool" where
  "same_db w w' \<longleftrightarrow> (\<exists>bl. w' = w\<lparr>w_blobs := bl\<rparr>)"

lemma same_dbI: "same_db w (w\<lparr>w_blobs := bl\<rparr>)"
  by (auto simp: same_db_def)

lemma same_db_refl: "same_db w w"
  using same_dbI [of w "w_blobs w"] by simp

lemma same_db_rel: "reflp same_db" "transp same_db"
  by (auto simp: reflp_def transp_def same_db_refl) (auto simp: same_db_def)

lemma save_blob_db: "keeps same_db (save_blob env key data)"
  by (simp add: keeps_def save_blob_def same_dbI same_db_refl split: prod.splits sum.splits)

lemma open_blob_db: "keeps same_db (open_blob env key)"
  by (simp add: keeps_def open_blob_def same_db_refl split: prod.splits sum.splits)

lemma storage_exists_db: "keeps same_db (storage_exists env key)"
  by (simp add: keeps_def storage_exists_def same_db_refl split: prod.splits sum.splits)

lemma delete_storage_key_db: "keeps same_db (delete_storage_key env key)"
  unfolding delete_storage_key_def
  by (intro keeps_bindE keeps_if keeps_readers same_db_rel storage_exists_db)
    (simp add: keeps_def same_dbI same_db_refl split: prod.splits sum.splits)

lemma same_db_stable: "stable I \<Longrightarrow> same_db w w' \<Longrightarrow> I w' = I w"
proof -
  assume I: "stable I" and "same_db w w'"
  then obtain bl where "w' = w\<lparr>w_blobs := bl\<rparr>" by (auto simp: same_db_def)
  then have "w' = w\<lparr>w_blobs := bl, w_next_uuid := w_next_uuid w\<rparr>" by simp
  then show ?thesis using I unfolding stable_def by metis
qed

lemma maintains_same_db: "stable I \<Longrightarrow> keeps same_db m \<Longrightarrow> maintains I m"
  unfolding maintains_def keeps_def using same_db_stable by metis

lemma blob_calls_maintain [maintains_rules]:
  assumes "stable I"
  shows "maintains I (save_blob env key data)" "maintains I (delete_storage_key env key)"
  using assms by (auto intro: maintains_same_db save_blob_db delete_storage_key_db)

lemma open_blob_maintains [maintains_rules]: "stable I \<Longrightarrow> maintains I (open_blob env key)"
  by (rule maintains_same_db [OF _ open_blob_db])

section \<open>Keys\<close>

lemma posix_name_props: "slash \<notin> set (posix_name p)"
proof (cases "posix_parts p" rule: rev_cases)
  case Nil
  then show ?thesis by (simp add: posix_name_def)
next
  case (snoc ps s)
  then have "s \<in> set (posix_parts p)" by simp
  then show ?thesis using snoc posix_parts_segment [of s p] by (simp add: posix_name_def)
qed

text \<open>The last two segments of a key are the UUID and the base name.\<close>

lemma storage_key_tail:
  "\<exists>front base. build_storage_key env c b n i = join_on slash (front @ [str_uuid i, base]) \<and>
     base \<noteq> [] \<and> slash \<notin> set base"
proof -
  let ?base = "if posix_name n = [] then ''blob'' else posix_name n"
  let ?front = "filter (\<lambda>p. p \<noteq> []) [STORAGE_KEY_PREFIX env, str_int c, b]"
  have "build_storage_key env c b n i = join_on slash (?front @ [str_uuid i, ?base])"
    by (simp add: build_storage_key_def)
  moreover have "slash \<notin> set ?base" using posix_name_props by simp
  moreover have "?base \<noteq> []" by simp
  ultimately show ?thesis by blast
qed

lemma split_key_tail:
  assumes "slash \<notin> set s" "slash \<notin> set base"
  shows "last (butlast (split_on slash (join_on slash (front @ [s, base])))) = s"
proof (cases "front = []")
  case True
  then show ?thesis using assms by (simp add: split_on_append split_on_fresh)
next
  case False
  then have "join_on slash (front @ [s, base]) = join_on slash front @ slash # s @ slash # base"
    by (simp add: join_on_append)
  then show ?thesis using assms by (simp add: split_on_general split_on_fresh butlast_append)
qed

lemma storage_keys_differ:
  assumes "i < 2 ^ 128" "j < 2 ^ 128" "i \<noteq> j"
  shows "build_storage_key env c b n i \<noteq> build_storage_key env' c' b' n' j"
proof
  assume eq: "build_storage_key env c b n i = build_storage_key env' c' b' n' j"
  have "str_uuid i = str_uuid j"
    using storage_key_tail [of env c b n i] storage_key_tail [of env' c' b' n' j] eq
    by (metis split_key_tail str_uuid_no_slash)
  then show False using assms str_uuid_inject by blast
qed

end
