(* ===== verification/Py_Values.thy ===== *)
theory Py_Values
  imports Models
begin

text \<open>
  Python values the handlers take from JSON bodies and put into answers: truth, \<open>str\<close> and
  \<open>repr\<close> of a JSON value, \<open>data.get(k) or default\<close>, slices with signed bounds, and
  \<open>datetime.isoformat()\<close> of a UTC time. Numbers with a fraction are left out. The lemma on
  UUIDs is the round trip \<open>uuid.UUID(str(u)) == u\<close>.
\<close>

section \<open>JSON values as Python sees them\<close>

fun truthy :: "json \<Rightarrow> bool" where
  "truthy JNull = False"
| "truthy (JBool b) = b"
| "truthy (JInt i) = (i \<noteq> 0)"
| "truthy (JStr s) = (s \<noteq> [])"
| "truthy (JList xs) = (xs \<noteq> [])"
| "truthy (JObj kvs) = (kvs \<noteq> [])"

definition single_quote :: char where "single_quote = char_of (39 :: nat)"
definition double_quote :: char where "double_quote = char_of (34 :: nat)"
definition backslash_char :: char where "backslash_char = char_of (92 :: nat)"

definition escape_char :: "char \<Rightarrow> char \<Rightarrow> string" where
  "escape_char quote c = (let n = code_point c in
     if c = quote \<or> c = backslash_char then [backslash_char, c]
     else if n = 9 then [backslash_char, CHR ''t'']
     else if n = 10 then [backslash_char, CHR ''n'']
     else if n = 13 then [backslash_char, CHR ''r'']
     else if n < 32 \<or> 127 \<le> n \<and> n < 161 \<or> n = 173
     then backslash_char # CHR ''x'' # [digit_char (n div 16), digit_char (n mod 16)]
     else [c])"

definition repr_str :: "string \<Rightarrow> string" where
  "repr_str s =
     (let quote = (if single_quote \<in> set s \<and> double_quote \<notin> set s then double_quote else single_quote) in
      quote # concat (map (escape_char quote) s) @ [quote])"

fun join_with :: "string \<Rightarrow> string list \<Rightarrow> string" where
  "join_with sep [] = []"
| "join_with sep [s] = s"
| "join_with sep (s # t # ss) = s @ sep @ join_with sep (t # ss)"

fun py_repr :: "json \<Rightarrow> string" where
  "py_repr JNull = ''None''"
| "py_repr (JBool b) = (if b then ''True'' else ''False'')"
| "py_repr (JInt i) = str_int i"
| "py_repr (JStr s) = repr_str s"
| "py_repr (JList xs) = ''['' @ join_with '', '' (map py_repr xs) @ '']''"
| "py_repr (JObj kvs) = ''{'' @ join_with '', '' (map (\<lambda>(k, v). repr_str k @ '': '' @ py_repr v) kvs) @ ''}''"

definition py_str :: "json \<Rightarrow> string" where
  "py_str v = (case v of JStr s \<Rightarrow> s | _ \<Rightarrow> py_repr v)"

text \<open>\<open>str(data.get(k) or dflt)\<close>.\<close>

definition get_or :: "dict \<Rightarrow> string \<Rightarrow> string \<Rightarrow> string" where
  "get_or data k dflt =
     (case map_of data k of None \<Rightarrow> dflt | Some v \<Rightarrow> if truthy v then py_str v else dflt)"

text \<open>\<open>xs[lo:hi]\<close> with Python's treatment of negative bounds.\<close>

definition slice_bound :: "int \<Rightarrow> nat \<Rightarrow> nat" where
  "slice_bound i n = (if i < 0 then nat (max 0 (i + int n)) else min (nat i) n)"

definition py_slice :: "int \<Rightarrow> int \<Rightarrow> 'a list \<Rightarrow> 'a list" where
  "py_slice lo hi xs =
     (let a = slice_bound lo (length xs); b = slice_bound hi (length xs) in take (b - a) (drop a xs))"

section \<open>Times as text\<close>

text \<open>
  Microseconds since the epoch to a civil date in the proleptic Gregorian calendar, counting
  years from March so that the leap day is the last of its year.
\<close>

definition civil :: "int \<Rightarrow> int \<times> int \<times> int" where
  "civil days =
     (let z = days + 719468; era = z div 146097; doe = z mod 146097;
          yoe = (doe - doe div 1460 + doe div 36524 - doe div 146096) div 365;
          doy = doe - (365 * yoe + yoe div 4 - yoe div 100);
          mp = (5 * doy + 2) div 153;
          d = doy - (153 * mp + 2) div 5 + 1;
          m = (if mp < 10 then mp + 3 else mp - 9) in
      (yoe + era * 400 + (if m \<le> 2 then 1 else 0), m, d))"

definition pad :: "nat \<Rightarrow> int \<Rightarrow> string" where
  "pad k n = (let s = str_int n in replicate (k - length s) CHR ''0'' @ s)"

text \<open>\<open>t.isoformat().replace('+00:00', 'Z')\<close>: no fraction when the microseconds are zero.\<close>

definition day_microseconds :: int where "day_microseconds = 86400000000"

definition iso_z :: "int \<Rightarrow> string" where
  "iso_z t =
     (let (y, m, d) = civil (t div day_microseconds);
          us = t mod day_microseconds; secs = us div 1000000; frac = us mod 1000000 in
      pad 4 y @ ''-'' @ pad 2 m @ ''-'' @ pad 2 d @ ''T'' @ pad 2 (secs div 3600) @ '':'' @
      pad 2 (secs div 60 mod 60) @ '':'' @ pad 2 (secs mod 60) @
      (if frac = 0 then [] else ''.'' @ pad 6 frac) @ ''Z'')"

section \<open>UUIDs read back\<close>

lemma hex_char_code: "c \<in> set (hex_digits k n) \<Longrightarrow> 48 \<le> code_point c \<and> code_point c \<le> 57 \<or> 97 \<le> code_point c \<and> code_point c \<le> 102"
proof -
  assume "c \<in> set (hex_digits k n)"
  then obtain d where d: "d < 16" "c = digit_char d" using hex_digits_chars by blast
  then have "code_point c = (if d < 10 then 48 + d else 87 + d)"
    using code_char_of [of "if d < 10 then 48 + d else 87 + d"] by (simp add: digit_char_def)
  then show ?thesis using d(1) by (simp split: if_splits)
qed

lemma hex_digits_not:
  "\<not> (48 \<le> code_point x \<and> code_point x \<le> 57 \<or> 97 \<le> code_point x \<and> code_point x \<le> 102) \<Longrightarrow> x \<notin> set (hex_digits k n)"
  using hex_char_code by blast

lemma hex_digits_other_chars:
  "CHR ''u'' \<notin> set (hex_digits k n)" "CHR ''x'' \<notin> set (hex_digits k n)" "CHR ''X'' \<notin> set (hex_digits k n)"
  "CHR ''_'' \<notin> set (hex_digits k n)" "CHR ''+'' \<notin> set (hex_digits k n)" "CHR '':'' \<notin> set (hex_digits k n)"
  by (rule hex_digits_not, code_simp)+

lemma set_str_uuid: "set (str_uuid u) \<subseteq> insert CHR ''-'' (set (hex_digits 32 u))"
proof -
  let ?h = "hex_digits 32 u"
  have "set (str_uuid u) \<subseteq> insert CHR ''-'' (\<Union> (set ` set [take 8 ?h, take 4 (drop 8 ?h), take 4 (drop 12 ?h),
      take 4 (drop 16 ?h), drop 20 ?h]))"
    unfolding str_uuid_def Let_def by (rule set_join_on)
  then show ?thesis by (auto dest: in_set_takeD in_set_dropD)
qed

lemma replace_absent: "c \<in> set old \<Longrightarrow> c \<notin> set s \<Longrightarrow> replace_all old new s = s"
proof (induction s)
  case (Cons x xs)
  have "\<not> prefix old (x # xs)" using Cons.prems set_mono_prefix by blast
  then show ?case using Cons by simp
qed simp

lemma strip_where_clean: "\<forall>c \<in> set s. \<not> P c \<Longrightarrow> strip_where P s = s"
  by (rule strip_where_id) (auto simp: stripped_def)

lemma parse_str_uuid [simp]:
  assumes "u < 2 ^ 128"
  shows "parse_uuid (str_uuid u) = Some u"
proof -
  let ?h = "hex_digits 32 u"
  have "CHR ''u'' \<notin> set (str_uuid u)" using set_str_uuid hex_digits_other_chars(1) by fastforce
  then have "replace_all ''uuid:'' [] (replace_all ''urn:'' [] (str_uuid u)) = str_uuid u"
    using replace_absent [of "CHR ''u''" "''urn:''" "str_uuid u"] replace_absent [of "CHR ''u''" "''uuid:''" "str_uuid u"]
    by simp
  moreover have "\<forall>c \<in> set (str_uuid u). \<not> (c = CHR ''{'' \<or> c = CHR ''}'')"
  proof -
    have "CHR ''{'' \<notin> set ?h" "CHR ''}'' \<notin> set ?h" by (rule hex_digits_not, code_simp)+
    then show ?thesis using set_str_uuid by fastforce
  qed
  then have "strip_where (\<lambda>c. c = CHR ''{'' \<or> c = CHR ''}'') (str_uuid u) = str_uuid u" by (rule strip_where_clean)
  moreover have "py_int 16 ?h = Some (int u)"
  proof -
    have "strip ?h = ?h"
      unfolding strip_def
    proof (rule strip_where_clean, rule ballI)
      fix c assume "c \<in> set ?h"
      from hex_char_code [OF this] show "\<not> is_space c" by (auto simp: is_space_def Let_def)
    qed
    moreover have no: "\<not> prefix (x # xs) ?h" if "x \<notin> set ?h" for x xs using that set_mono_prefix by fastforce
    have "\<not> prefix ''-'' ?h" "\<not> prefix ''+'' ?h"
      by (rule no, rule hex_digits_no_mark hex_digits_other_chars)+
    moreover have "\<not> prefix ''0x'' ?h" "\<not> prefix ''0X'' ?h"
      using hex_digits_other_chars(2,3) set_mono_prefix by fastforce+
    moreover have "split_on CHR ''_'' ?h = [?h]" by (rule split_on_fresh) (rule hex_digits_other_chars)
    moreover have "?h \<noteq> []" using length_hex_digits [of 32 u] by (metis list.size(3) zero_neq_numeral)
    moreover have "read_base 16 0 ?h = Some u" using assms by (intro read_hex_digits) simp
    ultimately show ?thesis by (simp add: py_int_def unsigned_int_def int_digits_def)
  qed
  moreover have "length ?h = 32" by (rule length_hex_digits)
  ultimately show ?thesis by (simp add: parse_uuid_def Let_def str_uuid_digits)
qed

section \<open>Dictionaries\<close>

text \<open>\<open>d[k] = v\<close> and \<open>d.pop(k, None)\<close>.\<close>

definition dict_set :: "string \<Rightarrow> json \<Rightarrow> dict \<Rightarrow> dict" where
  "dict_set k v d = (if k \<in> fst ` set d then map (\<lambda>(x, y). if x = k then (x, v) else (x, y)) d else d @ [(k, v)])"

definition dict_pop :: "string \<Rightarrow> dict \<Rightarrow> dict" where
  "dict_pop k d = filter (\<lambda>(x, v). x \<noteq> k) d"

lemma map_of_dict_set: "map_of (dict_set k v d) = (map_of d)(k \<mapsto> v)"
proof (cases "k \<in> fst ` set d")
  case True
  then have "map_of (map (\<lambda>(x, y). if x = k then (x, v) else (x, y)) d) k = Some v" by (induction d) auto
  moreover have "x \<noteq> k \<Longrightarrow> map_of (map (\<lambda>(x, y). if x = k then (x, v) else (x, y)) d) x = map_of d x" for x by (induction d) auto
  ultimately show ?thesis using True by (auto simp: dict_set_def fun_eq_iff)
next
  case False
  then have "map_of d k = None" by (simp add: map_of_eq_None_iff)
  then show ?thesis using False by (auto simp: dict_set_def fun_eq_iff map_add_def split: option.splits)
qed

lemma map_of_dict_pop: "map_of (dict_pop k d) = (map_of d)(k := None)"
  by (induction d) (auto simp: dict_pop_def fun_eq_iff)

end
