(* ===== verification/Hooks.thy ===== *)
theory Hooks
  imports Backends Py_Values
begin

text \<open>
  \<open>apps/actions/storage_hooks.py\<close> and \<open>apps/storage/signals.py\<close>: what follows an upload or a
  deletion. The receivers hand an event to the event system (\<open>emit_event_if_rules\<close>, here a row
  of \<open>w_events\<close>: its type, company, payload and actor), and the Markdown receiver writes the
  extracted text into the metadata of the object. Neither can raise, and neither touches
  anything but events and metadata.
\<close>

section \<open>Events\<close>

definition actor_from_user :: "principal option \<Rightarrow> dict option" where
  "actor_from_user user =
     (case user of None \<Rightarrow> None
      | Some p \<Rightarrow>
         (case p_user_id p of None \<Rightarrow> None
          | Some u \<Rightarrow> Some ([(''user_id'', JInt u)]
              @ (if p_email p \<noteq> [] then [(''email'', JStr (p_email p))] else [])
              @ (if p_username p \<noteq> [] then [(''username'', JStr (p_username p))] else []))))"

definition emit_event :: "string \<Rightarrow> int \<Rightarrow> dict \<Rightarrow> dict option \<Rightarrow> unit act" where
  "emit_event event_type company_id payload actor =
     modify (\<lambda>w. w\<lparr>w_events := w_events w @
       [\<lparr>e_type = event_type, e_company_id = company_id, e_data = payload, e_actor = actor\<rparr>]\<rparr>)"

definition is_folder_placeholder :: "string \<Rightarrow> bool" where
  "is_folder_placeholder object_name = is_placeholder_name (strip object_name)"

definition kind_value :: "BucketKind \<Rightarrow> string" where
  "kind_value k = (case k of COMPANY_KIND \<Rightarrow> ''company'' | CONNECTOR_KIND \<Rightarrow> ''connector'')"

definition actions_on_object_uploaded ::
  "bucket \<Rightarrow> storage_object \<Rightarrow> bool \<Rightarrow> principal option \<Rightarrow> unit act" where
  "actions_on_object_uploaded bucket obj created request =
     (if is_folder_placeholder (o_name obj) then ret ()
      else emit_event ''storage.object.uploaded'' (o_company_id obj)
        [(''object_id'', JStr (str_uuid (o_id obj))),
         (''bucket_name'', JStr (b_name bucket)),
         (''bucket_kind'', JStr (kind_value (b_kind bucket))),
         (''path'', JStr (o_name obj)),
         (''size'', JInt (o_size obj)),
         (''mime_type'', JStr (o_mime_type obj)),
         (''version'', JInt (o_version obj)),
         (''created'', JBool created)]
        (actor_from_user request))"

definition actions_on_object_deleted ::
  "string \<Rightarrow> string \<Rightarrow> int \<Rightarrow> string \<Rightarrow> int \<Rightarrow> principal option \<Rightarrow> unit act" where
  "actions_on_object_deleted bucket_name object_name company_id mime_type sz request =
     (if is_folder_placeholder object_name then ret ()
      else emit_event ''storage.object.deleted'' company_id
        [(''bucket_name'', JStr bucket_name), (''path'', JStr object_name), (''size'', JInt sz),
         (''mime_type'', JStr mime_type)]
        (actor_from_user request))"

definition emit_bucket_created :: "bucket \<Rightarrow> principal option \<Rightarrow> principal option \<Rightarrow> unit act" where
  "emit_bucket_created bucket request user =
     emit_event ''storage.bucket.created'' (b_company_id bucket)
       [(''bucket_id'', JStr (str_uuid (b_id bucket))), (''bucket_name'', JStr (b_name bucket)),
        (''bucket_kind'', JStr (kind_value (b_kind bucket)))]
       (case actor_from_user request of Some a \<Rightarrow> Some a | None \<Rightarrow> actor_from_user user)"

section \<open>The Markdown receiver\<close>

text \<open>\<open>re.sub(r'<[^>]+>', ' ', html)\<close>: a tag has at least one character before its \<open>>\<close>.\<close>

function blank_tags :: "string \<Rightarrow> string" where
  "blank_tags [] = []"
| "blank_tags (c # s) =
     (let body = takeWhile (\<lambda>x. x \<noteq> CHR ''>'') s; rest = dropWhile (\<lambda>x. x \<noteq> CHR ''>'') s in
      if c = CHR ''<'' \<and> body \<noteq> [] \<and> rest \<noteq> [] then CHR '' '' # blank_tags (tl rest)
      else c # blank_tags s)"
  by pat_completeness auto

termination
proof (relation "measure length")
  fix c s body rest
  assume "rest = dropWhile (\<lambda>x. x \<noteq> CHR ''>'') s"
  then have "length rest \<le> length s" using length_dropWhile_le by simp
  then show "(tl rest, c # s) \<in> measure length" by simp
qed simp_all

definition strip_tags :: "string \<Rightarrow> string" where
  "strip_tags html = strip (replace_all ''&nbsp;'' '' '' (blank_tags html))"

definition is_markdown :: "storage_object \<Rightarrow> bool" where
  "is_markdown obj \<longleftrightarrow>
     lower (o_mime_type obj) \<in> {''text/markdown'', ''text/x-markdown''} \<or>
     suffix ''.md'' (lower (o_name obj)) \<or> suffix ''.markdown'' (lower (o_name obj))"

definition markdown_text :: "env \<Rightarrow> storage_object \<Rightarrow> bytes \<Rightarrow> string" where
  "markdown_text env obj contents =
     (let raw = take (nat (min (o_size obj) (2 * 1024 * 1024))) contents; txt = decode_utf8 env raw in
      case render_markdown env txt of None \<Rightarrow> txt | Some html \<Rightarrow> strip_tags html)"

definition markdown_metadata :: "string \<Rightarrow> dict \<Rightarrow> dict" where
  "markdown_metadata plain meta =
     dict_set ''markdown_chars'' (JInt (int (length plain)))
       (dict_set ''markdown_text'' (JStr (take 50000 plain)) meta)"

definition extract_markdown_sidecar :: "env \<Rightarrow> storage_object \<Rightarrow> storage_object act" where
  "extract_markdown_sidecar env obj w =
     (if \<not> is_markdown obj then (Inr obj, w)
      else case storage_open env (o_storage_key obj) (w_blobs w) of
        Inl _ \<Rightarrow> (Inr obj, w)
      | Inr contents \<Rightarrow>
          let meta = markdown_metadata (markdown_text env obj contents) (o_metadata obj) in
          (Inr (obj\<lparr>o_metadata := meta\<rparr>),
           w\<lparr>w_objects := update_where (\<lambda>x. o_id x = o_id obj) (\<lambda>x. x\<lparr>o_metadata := meta\<rparr>) (w_objects w)\<rparr>))"

text \<open>The signals; the receivers run in the order in which they are registered.\<close>

definition send_uploaded ::
  "env \<Rightarrow> bucket \<Rightarrow> storage_object \<Rightarrow> bool \<Rightarrow> principal option \<Rightarrow> storage_object act" where
  "send_uploaded env bucket obj created request =
     bindE (extract_markdown_sidecar env obj) (\<lambda>obj'.
     seqE (actions_on_object_uploaded bucket obj' created request) (ret obj'))"

section \<open>Frames\<close>

lemma wp_emit_event [wp_simps]:
  "wp (emit_event t c d a) Q R w =
     Q () (w\<lparr>w_events := w_events w @ [\<lparr>e_type = t, e_company_id = c, e_data = d, e_actor = a\<rparr>]\<rparr>)"
  by (simp add: emit_event_def wp_simps)

text \<open>The receivers add events and rewrite metadata; everything an invariant looks at stays.\<close>

definition bare :: "storage_object \<Rightarrow> storage_object" where
  "bare obj = obj\<lparr>o_metadata := []\<rparr>"

definition after_signal :: "world \<Rightarrow> world \<Rightarrow> bool" where
  "after_signal w w' \<longleftrightarrow>
     map bare (w_objects w') = map bare (w_objects w) \<and>
     w_buckets w' = w_buckets w \<and> w_grants w' = w_grants w \<and> w_links w' = w_links w \<and>
     w_cquotas w' = w_cquotas w \<and> w_uquotas w' = w_uquotas w \<and> w_blobs w' = w_blobs w \<and>
     w_clock w' = w_clock w \<and> w_next_uuid w' = w_next_uuid w"

lemma after_signal_rel: "reflp after_signal" "transp after_signal"
  by (auto simp: reflp_def transp_def after_signal_def)

lemma bare_fields [simp]:
  "o_id (bare obj) = o_id obj" "o_bucket (bare obj) = o_bucket obj" "o_name (bare obj) = o_name obj"
  "o_company_id (bare obj) = o_company_id obj" "o_owner_id (bare obj) = o_owner_id obj"
  "o_size (bare obj) = o_size obj" "o_storage_key (bare obj) = o_storage_key obj"
  "object_key (bare obj) = object_key obj"
  by (simp_all add: bare_def object_key_def)

lemma map_bare:
  assumes "map bare os' = map bare os" "\<And>obj. k (bare obj) = k obj"
  shows "map k os' = map k os"
proof -
  have "map k xs = map k (map bare xs)" for xs using assms(2) by (induction xs) auto
  then show ?thesis using assms(1) by metis
qed

lemma ball_bare:
  assumes "map bare os' = map bare os" "\<And>obj. P (bare obj) = P obj"
  shows "(\<forall>obj \<in> set os'. P obj) = (\<forall>obj \<in> set os. P obj)"
proof -
  have "map P os' = map P os" using assms by (rule map_bare)
  moreover have "(\<forall>obj \<in> set xs. P obj) = list_all id (map P xs)" for xs by (simp add: list_all_iff)
  ultimately show ?thesis by simp
qed

lemma image_bare:
  assumes "map bare os' = map bare os" "\<And>obj. k (bare obj) = k obj"
  shows "k ` set os' = k ` set os"
proof -
  have "map k os' = map k os" using assms by (rule map_bare)
  then have "set (map k os') = set (map k os)" by simp
  then show ?thesis by simp
qed

lemma schema_after_signal:
  assumes "after_signal w w'"
  shows "schema_ok w' = schema_ok w"
proof -
  have o: "map bare (w_objects w') = map bare (w_objects w)" using assms by (simp add: after_signal_def)
  show ?thesis
    using assms map_bare [OF o, of o_id] map_bare [OF o, of object_key] image_bare [OF o, of o_id]
      ball_bare [OF o, of "\<lambda>obj. o_bucket obj \<in> b_id ` set (w_buckets w)"]
    by (simp add: schema_ok_def after_signal_def)
qed

lemma tenant_after_signal:
  assumes "after_signal w w'"
  shows "tenant_ok w' = tenant_ok w"
proof -
  have o: "map bare (w_objects w') = map bare (w_objects w)" using assms by (simp add: after_signal_def)
  have rows: "w_buckets w' = w_buckets w" "w_grants w' = w_grants w" "w_links w' = w_links w"
    using assms by (simp_all add: after_signal_def)
  have "object_local w' obj = object_local w obj" for obj by (simp add: object_local_def rows)
  moreover have "(\<forall>obj \<in> set (w_objects w'). object_local w obj) = (\<forall>obj \<in> set (w_objects w). object_local w obj)"
    by (rule ball_bare [OF o]) (simp add: object_local_def)
  moreover have "grant_local w' g = grant_local w g" for g
    using ball_bare [OF o, of "\<lambda>obj. g_object g = Some (o_id obj) \<longrightarrow> o_bucket obj = g_bucket g"]
    by (simp add: grant_local_def rows)
  moreover have "link_local w' l = link_local w l" for l
    using ball_bare [OF o, of "\<lambda>obj. o_id obj = l_object l \<longrightarrow> o_company_id obj = l_company_id l"]
    by (simp add: link_local_def)
  ultimately show ?thesis by (simp add: tenant_ok_def rows)
qed

lemma emit_event_frame: "keeps after_signal (emit_event t c d a)"
  by (intro keepsI) (simp add: wp_emit_event after_signal_def)

lemma extract_markdown_frame: "keeps after_signal (extract_markdown_sidecar env obj)"
  by (auto simp: keeps_def extract_markdown_sidecar_def after_signal_def Let_def update_where_def bare_def
      split: sum.splits)

lemma send_uploaded_frame: "keeps after_signal (send_uploaded env b obj created req)"
  unfolding send_uploaded_def actions_on_object_uploaded_def
  by (intro keeps_rules after_signal_rel emit_event_frame extract_markdown_frame)

lemma deleted_frame: "keeps after_signal (actions_on_object_deleted b n c m s r)"
  unfolding actions_on_object_deleted_def
  by (intro keeps_rules after_signal_rel emit_event_frame)

text \<open>The receivers never raise.\<close>

lemma send_uploaded_total: "\<exists>obj' w'. send_uploaded env b obj created req w = (Inr obj', w') \<and> bare obj' = bare obj"
  by (auto simp: send_uploaded_def extract_markdown_sidecar_def actions_on_object_uploaded_def emit_event_def
      bindE_def seqE_def ret_def modify_def Let_def bare_def split: sum.splits)

lemma deleted_total: "\<exists>w'. actions_on_object_deleted b n c m s r w = (Inr (), w')"
  by (simp add: actions_on_object_deleted_def emit_event_def ret_def modify_def)

end
