(* ===== verification/Resolve.thy ===== *)
theory Resolve
  imports Private_Default Quotas Hooks
begin

text \<open>
  \<open>apps/storage/access.py\<close>, the lookups a request starts with: the company of the principal,
  its system bucket (provisioned on first use), and a bucket or an object by name with the
  access check. Also the access summaries that listings show. \<open>sound\<close> is the invariant of the
  storage app: the schema, the separation of companies, and the exact usage counters.
\<close>

definition COMPANY_BUCKET_NAME :: string where
  "COMPANY_BUCKET_NAME = ''company''"

definition require_company_id :: "principal \<Rightarrow> int act" where
  "require_company_id p =
     (case p_company_id p of None \<Rightarrow> throw (StorageErr 403 ''missing_company'') | Some c \<Rightarrow> ret c)"

definition get_bucket_for_company :: "int \<Rightarrow> string \<Rightarrow> bucket act" where
  "get_bucket_for_company company_id name =
     bindE (gets (\<lambda>w. bucket_by_name w company_id name)) (\<lambda>found.
       case found of None \<Rightarrow> throw (StorageErr 404 ''bucket_not_found'') | Some b \<Rightarrow> ret b)"

definition system_bucket :: "uuid \<Rightarrow> int \<Rightarrow> int \<Rightarrow> bucket" where
  "system_bucket i now company_id =
     \<lparr>b_id = i, b_name = COMPANY_BUCKET_NAME, b_company_id = company_id, b_kind = COMPANY_KIND,
      b_public = False, b_file_size_limit = None, b_allowed_mime_types = [], b_owner_id = None,
      b_connector_provider = [], b_created_at = now, b_updated_at = now\<rparr>"

definition ensure_company_bucket :: "int \<Rightarrow> principal option \<Rightarrow> principal option \<Rightarrow> bucket act" where
  "ensure_company_bucket company_id request user =
     bindE (gets (\<lambda>w. bucket_by_name w company_id COMPANY_BUCKET_NAME)) (\<lambda>found.
     bindE (case found of
         Some b \<Rightarrow> ret b
       | None \<Rightarrow>
           bindE fresh_uuid (\<lambda>i. bindE (gets w_clock) (\<lambda>now.
           bindE (insert_bucket (system_bucket i now company_id)) (\<lambda>b.
           seqE (emit_bucket_created b request user) (ret b))))) (\<lambda>b.
     if b_kind b \<noteq> COMPANY_KIND \<or> b_public b
     then bindE (gets w_clock) (\<lambda>now.
       let fix_row = (\<lambda>x. x\<lparr>b_kind := COMPANY_KIND, b_public := False, b_owner_id := None, b_updated_at := now\<rparr>) in
       seqE (update_bucket (b_id b) fix_row) (ret (fix_row b)))
     else ret b))"

definition list_accessible_buckets :: "principal \<Rightarrow> bucket list act" where
  "list_accessible_buckets p =
     bindE (require_company_id p) (\<lambda>c.
     bindE (ensure_company_bucket c None (Some p)) (\<lambda>_.
     gets (\<lambda>w. filter (\<lambda>b. can_access_bucket w p b False False)
       (sort_key (\<lambda>b. (kind_value (b_kind b), b_name b))
         (filter (\<lambda>b. b_company_id b = c) (w_buckets w))))))"

definition get_accessible_bucket :: "principal \<Rightarrow> string \<Rightarrow> bool \<Rightarrow> bool \<Rightarrow> bucket act" where
  "get_accessible_bucket p name write admin =
     bindE (require_company_id p) (\<lambda>c.
     bindE (ensure_company_bucket c None (Some p)) (\<lambda>_.
     bindE (get_bucket_for_company c name) (\<lambda>b.
     seqE (assert_can_access_bucket p b write admin) (ret b))))"

definition get_accessible_object ::
  "principal \<Rightarrow> string \<Rightarrow> string \<Rightarrow> bool \<Rightarrow> bool \<Rightarrow> (bucket \<times> storage_object) act" where
  "get_accessible_object p bucket_name path write admin =
     bindE (get_accessible_bucket p bucket_name write admin) (\<lambda>b.
     bindE (lift_sum (safe_object_path path)) (\<lambda>name.
     bindE (gets (\<lambda>w. find_object w b name)) (\<lambda>found.
       case found of
         None \<Rightarrow> throw (StorageErr 404 ''object_not_found'')
       | Some obj \<Rightarrow>
           seqE (assert_can_access_path p b name (Some (o_id obj)) write admin) (ret (b, obj)))))"

section \<open>Access summaries\<close>

datatype audience = AUD_COMPANY | AUD_CONNECTOR | AUD_RESTRICTED | AUD_LIMITED
datatype party = MEMBERS_AND_GRANTS | MEMBERS | GRANTS_ONLY | NOBODY

record access_descr =
  ad_audience :: audience
  ad_readers :: party
  ad_writers :: party
  ad_owner_id :: "int option"
  ad_shareable :: bool
  ad_grants_enabled :: bool
  ad_users :: "string list option"
  ad_groups :: "string list option"
  ad_grant_count :: "nat option"

definition access_summary :: "bucket \<Rightarrow> access_descr" where
  "access_summary b =
     (case b_kind b of
        COMPANY_KIND \<Rightarrow> \<lparr>ad_audience = AUD_COMPANY, ad_readers = MEMBERS_AND_GRANTS,
          ad_writers = MEMBERS_AND_GRANTS, ad_owner_id = None, ad_shareable = True,
          ad_grants_enabled = True, ad_users = None, ad_groups = None, ad_grant_count = None\<rparr>
      | CONNECTOR_KIND \<Rightarrow> \<lparr>ad_audience = AUD_CONNECTOR, ad_readers = MEMBERS, ad_writers = NOBODY,
          ad_owner_id = b_owner_id b, ad_shareable = False, ad_grants_enabled = True,
          ad_users = None, ad_groups = None, ad_grant_count = None\<rparr>)"

definition allowed_subjects :: "SubjectType \<Rightarrow> access_grant list \<Rightarrow> string list" where
  "allowed_subjects st gs =
     sort (remdups (map g_subject_id (filter (\<lambda>g. g_effect g = ALLOW \<and> g_subject_type g = st) gs)))"

definition path_access_summary ::
  "world \<Rightarrow> bucket \<Rightarrow> string \<Rightarrow> uuid option \<Rightarrow> access_grant list \<Rightarrow> access_descr" where
  "path_access_summary w b path0 object_id grants =
     (let base = access_summary b; path = normalize_path (Some path0) in
      if \<not> ad_grants_enabled base then base
      else if path = [] \<and> object_id = None then base
      else
        let matching = filter (\<lambda>g. resource_matches_grant w g b (if path = [] then None else Some path) object_id) grants;
            company_deny_read = list_ex (\<lambda>g. g_effect g = DENY \<and> g_subject_type g = SUBJECT_COMPANY \<and>
              deny_blocks (g_permission g) READ) matching;
            has_other_grants = list_ex (\<lambda>g. \<not> (g_effect g = DENY \<and> g_subject_type g = SUBJECT_COMPANY)) matching;
            counted = base\<lparr>ad_grant_count := Some (length matching)\<rparr>;
            named = counted\<lparr>ad_users := Some (allowed_subjects SUBJECT_USER matching),
              ad_groups := Some (allowed_subjects SUBJECT_GROUP matching)\<rparr> in
        if matching = [] then base
        else if company_deny_read
        then named\<lparr>ad_audience := AUD_RESTRICTED, ad_readers := GRANTS_ONLY, ad_writers := GRANTS_ONLY\<rparr>
        else if has_other_grants
        then named\<lparr>ad_audience := AUD_LIMITED, ad_readers := MEMBERS_AND_GRANTS, ad_writers := MEMBERS_AND_GRANTS\<rparr>
        else counted)"

definition display_name_for_bucket :: "bucket \<Rightarrow> string" where
  "display_name_for_bucket b =
     (case b_kind b of
        COMPANY_KIND \<Rightarrow> ''Company files''
      | CONNECTOR_KIND \<Rightarrow>
          (let given = strip (if b_connector_provider b = [] then ''connector'' else b_connector_provider b) in
           (if given = [] then ''connector'' else given) @ '' files''))"

section \<open>The invariant of the storage app\<close>

definition sound :: "world \<Rightarrow> bool" where
  "sound w \<longleftrightarrow> schema_ok w \<and> tenant_ok w \<and> exact w"

lemma stable_sound: "stable sound"
  using stable_schema_ok stable_tenant_ok stable_exact by (simp add: stable_def sound_def)

lemma exact_after_signal:
  assumes "after_signal w w'"
  shows "exact w' = exact w"
proof -
  have o: "map bare (w_objects w') = map bare (w_objects w)" using assms by (simp add: after_signal_def)
  have "company_bytes c (w_objects w') = company_bytes c (w_objects w)" for c
    using map_bare [OF o, of "\<lambda>obj. if o_company_id obj = c then o_size obj else 0"]
    by (simp add: company_bytes_def sum_rows_def)
  moreover have "company_used w' = company_used w"
    using assms by (simp add: fun_eq_iff after_signal_def company_used_def company_quota_row_def)
  ultimately show ?thesis by (simp add: exact_def)
qed

lemma sound_after_signal: "after_signal w w' \<Longrightarrow> sound w' = sound w"
  by (simp add: sound_def schema_after_signal tenant_after_signal exact_after_signal)

lemma maintains_after_signal: "keeps after_signal m \<Longrightarrow> maintains sound m"
  unfolding maintains_def keeps_def using sound_after_signal by blast

lemma sound_insert_bucket: "maintains sound (insert_bucket b)"
proof (intro maintainsI)
  fix w
  assume w: "sound w"
  have "tenant_ok (w\<lparr>w_buckets := w_buckets w @ [b]\<rparr>)" if new: "b_id b \<notin> b_id ` set (w_buckets w)"
  proof -
    have "b_id b \<noteq> o_bucket obj" if "obj \<in> set (w_objects w)" for obj
    proof -
      have "o_bucket obj \<in> b_id ` set (w_buckets w)" using w that by (simp add: sound_def schema_ok_def)
      then show ?thesis using new by metis
    qed
    moreover have "b_id b \<noteq> g_bucket g" if "g \<in> set (w_grants w)" for g
    proof -
      have "g_bucket g \<in> b_id ` set (w_buckets w)" using w that by (simp add: sound_def schema_ok_def)
      then show ?thesis using new by metis
    qed
    ultimately show ?thesis
      using w by (auto simp: sound_def tenant_ok_def local_defs)
  qed
  moreover have "exact (w\<lparr>w_buckets := w_buckets w @ [b]\<rparr>)"
    using w by (auto simp: sound_def intro: exact_frame [of w])
  ultimately show "wp (insert_bucket b) (\<lambda>_. sound) (\<lambda>_. sound) w"
    using w maintains_wp [OF schema_insert_bucket, of w b] by (auto simp: wp_insert_bucket sound_def)
qed

lemma sound_update_bucket:
  assumes "\<And>b. b_id (f b) = b_id b \<and> b_company_id (f b) = b_company_id b \<and> b_name (f b) = b_name b"
  shows "maintains sound (update_bucket i f)"
proof (intro maintainsI)
  fix w
  assume w: "sound w"
  let ?w = "w\<lparr>w_buckets := update_where (\<lambda>b. b_id b = i) f (w_buckets w)\<rparr>"
  have "schema_ok ?w"
    using maintains_wp [OF schema_update_bucket [OF assms], of w i] w
    by (simp add: update_bucket_def wp_modify sound_def)
  moreover have "tenant_ok ?w"
    using w assms by (simp add: sound_def tenant_ok_def local_defs bucket_company_update)
  moreover have "exact ?w" using w by (auto simp: sound_def intro: exact_frame [of w])
  ultimately show "wp (update_bucket i f) (\<lambda>_. sound) (\<lambda>_. sound) w"
    by (simp add: update_bucket_def wp_modify sound_def)
qed

lemma sound_emit: "maintains sound (emit_event t c d a)"
  by (rule maintains_after_signal [OF emit_event_frame])

lemma sound_ensure_company_bucket: "maintains sound (ensure_company_bucket c r u)"
  unfolding ensure_company_bucket_def Let_def emit_bucket_created_def
  by (intro maintains_rules stable_sound sound_insert_bucket sound_emit sound_update_bucket) simp

lemma sound_require_company: "maintains I (require_company_id p)"
  unfolding require_company_id_def by (intro maintains_rules)

lemma maintains_asserts [maintains_rules]:
  "maintains I (assert_can_access_bucket p b wr ad)" "maintains I (assert_can_access_path p b n i wr ad)"
  unfolding assert_can_access_bucket_def assert_can_access_path_def by (intro maintains_rules)+

lemma sound_get_accessible_bucket: "maintains sound (get_accessible_bucket p name wr ad)"
  unfolding get_accessible_bucket_def get_bucket_for_company_def
  by (intro maintains_rules sound_require_company sound_ensure_company_bucket)

lemma sound_get_accessible_object: "maintains sound (get_accessible_object p name path wr ad)"
  unfolding get_accessible_object_def
  by (intro maintains_rules sound_get_accessible_bucket)

text \<open>A lookup leaves objects, grants and blobs alone; it may provision the company bucket.\<close>

definition only_buckets :: "world \<Rightarrow> world \<Rightarrow> bool" where
  "only_buckets w w' \<longleftrightarrow> w_objects w' = w_objects w \<and> w_grants w' = w_grants w \<and> w_links w' = w_links w \<and>
     w_cquotas w' = w_cquotas w \<and> w_uquotas w' = w_uquotas w \<and> w_blobs w' = w_blobs w \<and>
     w_clock w' = w_clock w \<and> w_next_uuid w \<le> w_next_uuid w'"

lemma only_buckets_rel: "reflp only_buckets" "transp only_buckets"
  by (auto simp: reflp_def transp_def only_buckets_def)

lemma only_buckets_basic:
  "keeps only_buckets fresh_uuid" "keeps only_buckets (emit_event t c d a)"
  "keeps only_buckets (insert_bucket b)" "keeps only_buckets (update_bucket i f)"
  by (auto intro!: keepsI simp: wp_fresh_uuid wp_emit_event wp_insert_bucket update_bucket_def wp_modify
      only_buckets_def)

lemma ensure_company_bucket_frame: "keeps only_buckets (ensure_company_bucket c r u)"
  unfolding ensure_company_bucket_def Let_def emit_bucket_created_def
  by (intro keeps_rules only_buckets_rel only_buckets_basic)

lemma keeps_asserts:
  "reflp r \<Longrightarrow> transp r \<Longrightarrow> keeps r (assert_can_access_bucket p b wr ad)"
  "reflp r \<Longrightarrow> transp r \<Longrightarrow> keeps r (assert_can_access_path p b n i wr ad)"
  unfolding assert_can_access_bucket_def assert_can_access_path_def by (intro keeps_rules; assumption)+

lemma get_accessible_bucket_frame: "keeps only_buckets (get_accessible_bucket p name wr ad)"
  unfolding get_accessible_bucket_def get_bucket_for_company_def require_company_id_def
  by (intro keeps_rules keeps_asserts only_buckets_rel ensure_company_bucket_frame)

lemma get_accessible_object_frame: "keeps only_buckets (get_accessible_object p name path wr ad)"
  unfolding get_accessible_object_def
  by (intro keeps_rules keeps_asserts only_buckets_rel get_accessible_bucket_frame)

section \<open>What a lookup guarantees\<close>

text \<open>
  The guard in front of every operation, for any access policy: the bucket belongs to the
  company of the principal, and the object found is the one the policy permits.
\<close>

context access_policy
begin

lemma permitted_same_company:
  "permits w p b path i wr ad \<Longrightarrow> p_company_id p = Some c \<Longrightarrow> b_company_id b = c"
  using permits_member [of w p b] by (auto simp: member_def)

end

lemma get_accessible_bucket_post:
  "wp (get_accessible_bucket p name wr ad)
     (\<lambda>b w'. b \<in> set (w_buckets w') \<and> b_name b = name \<and> p_company_id p = Some (b_company_id b) \<and>
        can_access_bucket w' p b wr ad) (\<lambda>_ _. True) w"
proof (cases "p_company_id p")
  case None
  then show ?thesis by (simp add: get_accessible_bucket_def require_company_id_def wp_simps)
next
  case (Some c)
  have "wp (ensure_company_bucket c None (Some p)) (\<lambda>_ _. True) (\<lambda>_ _. True) w'" for w'
    by (simp add: wp_def split: prod.splits sum.splits)
  moreover have "wp (bindE (get_bucket_for_company c name) (\<lambda>b. seqE (assert_can_access_bucket p b wr ad) (ret b)))
     (\<lambda>b w'. b \<in> set (w_buckets w') \<and> b_name b = name \<and> p_company_id p = Some (b_company_id b) \<and>
        can_access_bucket w' p b wr ad) (\<lambda>_ _. True) w'" for w'
    using Some by (auto simp: get_bucket_for_company_def wp_simps bucket_by_name_def
      dest: first_where_Some split: option.splits)
  ultimately show ?thesis
    using Some by (simp add: get_accessible_bucket_def require_company_id_def wp_bindE [of "ret _"] wp_ret)
      (simp add: wp_bindE [of "ensure_company_bucket _ _ _"], rule wp_mono, auto)
qed

lemma get_accessible_object_post:
  "wp (get_accessible_object p bname path wr ad)
     (\<lambda>(b, obj) w'. b \<in> set (w_buckets w') \<and> b_name b = bname \<and> p_company_id p = Some (b_company_id b) \<and>
        obj \<in> set (w_objects w') \<and> o_bucket obj = b_id b \<and> safe_object_path path = Inr (o_name obj) \<and>
        can_access_bucket w' p b wr ad \<and>
        can_access_path w' p b (o_name obj) (Some (o_id obj)) wr ad) (\<lambda>_ _. True) w"
  unfolding get_accessible_object_def wp_bindE
  by (rule wp_mono [OF get_accessible_bucket_post])
    (auto simp: wp_simps find_object_def split: sum.splits option.splits dest: first_where_Some)

end
