(* ===== verification/Upload.thy ===== *)
theory Upload
  imports Resolve
begin

text \<open>
  \<open>apps/storage/services.py\<close>: uploading (a new object or an overwrite) and the folder markers.
  The lemmas show that both keep the invariant of the storage app, that an upload which
  succeeds fits the company quota, what a download returns afterwards, and what an overwrite
  does to the counters of the users.
\<close>

section \<open>Operations\<close>

definition upload_limit :: "env \<Rightarrow> bucket \<Rightarrow> int" where
  "upload_limit env bucket =
     min (case b_file_size_limit bucket of None \<Rightarrow> MAX_UPLOAD_BYTES env
          | Some m \<Rightarrow> if m = 0 then MAX_UPLOAD_BYTES env else m)
       (MAX_UPLOAD_BYTES env)"

definition read_upload_bytes :: "bytes \<Rightarrow> int \<Rightarrow> exn + bytes" where
  "read_upload_bytes file max_bytes =
     (let data = take (nat (max_bytes + 1)) file in
      if max_bytes < int (length data) then Inl (StorageErr 413 ''payload_too_large'') else Inr data)"

definition quota_to_storage :: "exn \<Rightarrow> unit act" where
  "quota_to_storage e = (case e of QuotaErr code \<Rightarrow> throw (StorageErr 413 code) | _ \<Rightarrow> throw e)"

definition check_quota :: "env \<Rightarrow> int \<Rightarrow> int option \<Rightarrow> int \<Rightarrow> int \<Rightarrow> unit act" where
  "check_quota env c u additional replacing =
     catchE (assert_can_store env c u additional replacing) quota_to_storage"

definition upload_metadata :: "dict option \<Rightarrow> string option \<Rightarrow> dict" where
  "upload_metadata metadata cache_control =
     (let meta = (case metadata of None \<Rightarrow> [] | Some d \<Rightarrow> d) in
      case cache_control of None \<Rightarrow> meta
      | Some c \<Rightarrow> if c = [] then meta else dict_set ''cacheControl'' (JStr c) meta)"

definition overwrite_object ::
  "env \<Rightarrow> bucket \<Rightarrow> storage_object \<Rightarrow> bytes \<Rightarrow> int option \<Rightarrow> string \<Rightarrow> dict \<Rightarrow> principal option \<Rightarrow> storage_object act" where
  "overwrite_object env bucket existing data owner_id mime meta request =
     seqE (save_blob env (o_storage_key existing) data)
     (bindE (gets w_clock) (\<lambda>now.
      let delta = int (length data) - o_size existing;
          saved = existing\<lparr>o_size := int (length data), o_etag := content_etag env data,
            o_mime_type := mime, o_metadata := meta, o_version := o_version existing + 1,
            o_updated_at := now,
            o_owner_id := (case owner_id of None \<Rightarrow> o_owner_id existing | Some u \<Rightarrow> Some u)\<rparr> in
      seqE (update_object (o_id existing) (\<lambda>_. saved))
      (seqE (apply_usage_delta env (b_company_id bucket) owner_id delta)
      (send_uploaded env bucket saved False request))))"

definition new_object ::
  "uuid \<Rightarrow> bucket \<Rightarrow> string \<Rightarrow> int option \<Rightarrow> int \<Rightarrow> string \<Rightarrow> string \<Rightarrow> dict \<Rightarrow> string \<Rightarrow> int \<Rightarrow> storage_object" where
  "new_object i bucket name owner_id sz etag mime meta key now =
     \<lparr>o_id = i, o_bucket = b_id bucket, o_name = name, o_company_id = b_company_id bucket,
      o_owner_id = owner_id, o_size = sz, o_etag = etag, o_mime_type = mime, o_metadata = meta,
      o_storage_key = key, o_version = 1, o_created_at = now, o_updated_at = now,
      o_last_accessed_at = None\<rparr>"

definition create_object ::
  "env \<Rightarrow> bucket \<Rightarrow> string \<Rightarrow> bytes \<Rightarrow> int option \<Rightarrow> string \<Rightarrow> dict \<Rightarrow> principal option \<Rightarrow> storage_object act" where
  "create_object env bucket name data owner_id mime meta request =
     bindE fresh_uuid (\<lambda>i.
     let key = build_storage_key env (b_company_id bucket) (b_name bucket) name i in
     seqE (save_blob env key data)
     (bindE (gets w_clock) (\<lambda>now.
      bindE (insert_object (new_object i bucket name owner_id (int (length data)) (content_etag env data) mime meta key now)) (\<lambda>obj.
      seqE (apply_usage_delta env (b_company_id bucket) owner_id (int (length data)))
      (bindE (apply_default_private_on_create obj owner_id False) (\<lambda>_.
       send_uploaded env bucket obj True request))))))"

definition upload_object ::
  "env \<Rightarrow> bucket \<Rightarrow> string \<Rightarrow> bytes \<Rightarrow> int option \<Rightarrow> string option \<Rightarrow> bool \<Rightarrow> dict option \<Rightarrow> string option \<Rightarrow>
   principal option \<Rightarrow> storage_object act" where
  "upload_object env bucket path file owner_id content_type upsert metadata cache_control request = atomic (
     bindE (lift_sum (safe_object_path path)) (\<lambda>name.
     let mime = normalize_mime_type env content_type name in
     seqE (guardE (mime_allowed mime (b_allowed_mime_types bucket)) (StorageErr 415 ''invalid_mime_type''))
     (bindE (gets (\<lambda>w. find_object w bucket name)) (\<lambda>existing.
      seqE (guardE (existing = None \<or> upsert) (StorageErr 400 ''resource_already_exists''))
      (bindE (lift_sum (read_upload_bytes file (upload_limit env bucket))) (\<lambda>data.
       seqE (check_quota env (b_company_id bucket) owner_id (int (length data))
               (case existing of None \<Rightarrow> 0 | Some ex \<Rightarrow> o_size ex))
       (let meta = upload_metadata metadata cache_control in
        case existing of
          Some ex \<Rightarrow> overwrite_object env bucket ex data owner_id mime meta request
        | None \<Rightarrow> create_object env bucket name data owner_id mime meta request)))))))"

definition ensure_folder_marker :: "env \<Rightarrow> bucket \<Rightarrow> string \<Rightarrow> int option \<Rightarrow> storage_object act" where
  "ensure_folder_marker env bucket folder_path owner_id =
     (let name = folder_placeholder_path folder_path in
      bindE (gets (\<lambda>w. find_object w bucket name)) (\<lambda>existing.
        case existing of Some obj \<Rightarrow> ret obj
        | None \<Rightarrow>
            bindE fresh_uuid (\<lambda>i.
            let key = build_storage_key env (b_company_id bucket) (b_name bucket) name i in
            seqE (save_blob env key [])
            (bindE (gets w_clock) (\<lambda>now.
             insert_object (new_object i bucket name owner_id 0 [] ''application/octet-stream'' [] key now))))))"

text \<open>\<open>build_download_response\<close>: the bytes and headers of a download.\<close>

record download =
  d_body :: bytes
  d_content_type :: string
  d_length :: int
  d_etag :: "string option"
  d_filename :: string
  d_attachment :: bool

definition build_download_response :: "env \<Rightarrow> storage_object \<Rightarrow> bool \<Rightarrow> string option \<Rightarrow> download act" where
  "build_download_response env obj as_attachment filename =
     bindE (gets w_clock) (\<lambda>now.
     seqE (update_object (o_id obj) (\<lambda>x. x\<lparr>o_last_accessed_at := Some now\<rparr>))
     (bindE (open_blob env (o_storage_key obj)) (\<lambda>body.
      ret \<lparr>d_body = body,
        d_content_type = (if o_mime_type obj \<noteq> [] then o_mime_type obj
          else case guess_type_strict env (o_name obj) of None \<Rightarrow> ''application/octet-stream''
            | Some guessed \<Rightarrow> if guessed = [] then ''application/octet-stream'' else guessed),
        d_length = o_size obj,
        d_etag = (if o_etag obj = [] then None else Some (o_etag obj)),
        d_filename = (case filename of None \<Rightarrow> obj_basename obj
          | Some f \<Rightarrow> if f = [] then obj_basename obj else f),
        d_attachment = as_attachment\<rparr>)))"

definition build_signed_url :: "env \<Rightarrow> storage_object \<Rightarrow> int option \<Rightarrow> string" where
  "build_signed_url env obj expires_in =
     (let expires = (case expires_in of None \<Rightarrow> SIGNED_URL_EXPIRES env
          | Some e \<Rightarrow> max 1 (min e (SIGNED_URL_EXPIRES env))) in
      case storage_url env (o_storage_key obj) (if is_s3_backend env then Some expires else None) of
        None \<Rightarrow> [] | Some url \<Rightarrow> url)"

section \<open>Adding and replacing a row keeps the invariant\<close>

text \<open>What is known of a bucket a request has resolved: its row still says the same company.\<close>

definition known :: "bucket \<Rightarrow> world \<Rightarrow> bool" where
  "known bucket w \<longleftrightarrow> sound w \<and> bucket_company (w_buckets w) (b_id bucket) (b_company_id bucket)"

lemma stable_known: "stable (known bucket)"
  using stable_sound by (simp add: stable_def known_def)

lemma company_bytes_append [simp]:
  "company_bytes c (objs @ [obj]) = company_bytes c objs + (if o_company_id obj = c then o_size obj else 0)"
  by (simp add: company_bytes_def)

lemma company_bytes_nonneg: "tenant_ok w \<Longrightarrow> 0 \<le> company_bytes c (w_objects w)"
  unfolding company_bytes_def by (rule sum_rows_nonneg) (auto simp: tenant_ok_def object_local_def)

lemma tenant_add_object:
  assumes "schema_ok w" "tenant_ok w" "\<not> object_exists obj w" "object_local w obj"
  shows "tenant_ok (w\<lparr>w_objects := w_objects w @ [obj]\<rparr>)"
proof -
  have fresh: "o_id obj \<notin> o_id ` set (w_objects w)" using assms(3) by (simp add: object_exists_def)
  have "g_object g \<noteq> Some (o_id obj)" if "g \<in> set (w_grants w)" for g
  proof
    assume "g_object g = Some (o_id obj)"
    then have "o_id obj \<in> o_id ` set (w_objects w)" using assms(1) that by (simp add: schema_ok_def)
    then show False using fresh by metis
  qed
  moreover have "o_id obj \<noteq> l_object l" if "l \<in> set (w_links w)" for l
  proof -
    have "l_object l \<in> o_id ` set (w_objects w)" using assms(1) that by (simp add: schema_ok_def)
    then show ?thesis using fresh by metis
  qed
  ultimately show ?thesis using assms(2,4) by (auto simp: tenant_ok_def local_defs)
qed

lemma schema_add_object:
  "schema_ok w \<Longrightarrow> \<not> object_exists obj w \<Longrightarrow> schema_ok (w\<lparr>w_objects := w_objects w @ [obj]\<rparr>)"
  using maintains_wp [OF schema_insert_object, of w obj] by (simp add: wp_insert_object)

lemma sound_add_object:
  assumes "sound w" "\<not> object_exists obj w" "object_local w obj" "o_company_id obj = c" "o_size obj = d"
  shows "sound (charge env c u d (w\<lparr>w_objects := w_objects w @ [obj]\<rparr>))"
proof -
  let ?w = "w\<lparr>w_objects := w_objects w @ [obj]\<rparr>"
  have t: "tenant_ok ?w" "schema_ok ?w"
    using assms tenant_add_object schema_add_object by (auto simp: sound_def)
  have "company_used ?w c' = company_used w c'" for c'
    by (simp add: company_used_def company_quota_row_def)
  then have "company_used ?w c' + (if c' = c then d else 0) = company_bytes c' (w_objects ?w)" for c'
    using assms by (simp add: sound_def exact_def)
  then have "exact (charge env c u d ?w)"
    using company_bytes_nonneg [OF t(1)] by (intro exact_charge) auto
  then show ?thesis using t schema_charge by (simp add: sound_def)
qed

lemma tenant_update_object:
  assumes "tenant_ok w"
    and same: "\<And>x. x \<in> set (w_objects w) \<Longrightarrow> o_id x = i \<Longrightarrow> o_id (f x) = o_id x \<and> o_bucket (f x) = o_bucket x \<and>
      o_company_id (f x) = o_company_id x \<and> 0 \<le> o_size (f x)"
  shows "tenant_ok (w\<lparr>w_objects := update_where (\<lambda>x. o_id x = i) f (w_objects w)\<rparr>)"
proof -
  define F where "F x = (if o_id x = i then f x else x)" for x
  have f: "o_id (F x) = o_id x \<and> o_bucket (F x) = o_bucket x \<and> o_company_id (F x) = o_company_id x"
    "0 \<le> o_size (F x)" if "x \<in> set (w_objects w)" for x
    using same [OF that] assms(1) that by (auto simp: tenant_ok_def object_local_def F_def)
  have rows: "update_where (\<lambda>x. o_id x = i) f (w_objects w) = map F (w_objects w)"
    by (simp add: update_where_def F_def)
  show ?thesis using assms(1) f by (auto simp: tenant_ok_def local_defs rows)
qed

lemma update_const_key:
  assumes "distinct (map o_id objs)" "ex \<in> set objs" "x \<in> set objs" "o_id x = o_id ex"
  shows "x = ex"
  using distinct_key_unique [OF assms(1,3,2,4)] .

lemma exact_update_row:
  assumes "sound w" "ex \<in> set (w_objects w)" "o_company_id new = o_company_id ex" "o_company_id ex = c"
    "d = o_size new - o_size ex"
    and t: "tenant_ok (w\<lparr>w_objects := update_where (\<lambda>x. o_id x = o_id ex) (\<lambda>_. new) (w_objects w)\<rparr>)"
  shows "exact (charge env c u d (w\<lparr>w_objects := update_where (\<lambda>x. o_id x = o_id ex) (\<lambda>_. new) (w_objects w)\<rparr>))"
proof -
  let ?w = "w\<lparr>w_objects := update_where (\<lambda>x. o_id x = o_id ex) (\<lambda>_. new) (w_objects w)\<rparr>"
  have ids: "distinct (map o_id (w_objects w))" using assms(1) by (simp add: sound_def schema_ok_def)
  have "company_bytes c' (w_objects ?w) = company_bytes c' (w_objects w) + (if c' = c then d else 0)" for c'
    using sum_rows_update_key [OF ids assms(2), of "\<lambda>obj. if o_company_id obj = c' then o_size obj else 0" "\<lambda>_. new"]
      assms(3-5) by (auto simp: company_bytes_def)
  moreover have "company_used ?w c' = company_used w c'" for c'
    by (simp add: company_used_def company_quota_row_def)
  ultimately have "company_used ?w c' + (if c' = c then d else 0) = company_bytes c' (w_objects ?w)" for c'
    using assms(1) by (simp add: sound_def exact_def)
  then show ?thesis using company_bytes_nonneg [OF t] by (intro exact_charge) auto
qed

lemma sound_replace_row:
  assumes "sound w" "ex \<in> set (w_objects w)" "\<not> object_conflict (o_id ex) (\<lambda>_. new) w"
    "o_id new = o_id ex" "o_bucket new = o_bucket ex" "o_company_id new = o_company_id ex"
    "0 \<le> o_size new" "o_company_id ex = c" "d = o_size new - o_size ex"
  shows "sound (charge env c u d (w\<lparr>w_objects := update_where (\<lambda>x. o_id x = o_id ex) (\<lambda>_. new) (w_objects w)\<rparr>))"
proof -
  let ?f = "\<lambda>x. if o_id x = o_id ex then new else x"
  let ?w = "w\<lparr>w_objects := update_where (\<lambda>x. o_id x = o_id ex) (\<lambda>_. new) (w_objects w)\<rparr>"
  have ids: "distinct (map o_id (w_objects w))" using assms(1) by (simp add: sound_def schema_ok_def)
  have upd: "update_where (\<lambda>x. o_id x = o_id ex) (\<lambda>_. new) = update_where (\<lambda>x. o_id x = o_id ex) ?f"
    by (simp add: fun_eq_iff update_where_def)
  have "object_conflict (o_id ex) ?f w = object_conflict (o_id ex) (\<lambda>_. new) w"
    by (auto simp: object_conflict_def)
  moreover have "maintains schema_ok (update_object (o_id ex) ?f)"
    using assms(4) by (intro schema_update_object) simp
  ultimately have "schema_ok ?w"
    using maintains_wp [of schema_ok "update_object (o_id ex) ?f" w] assms(1,3)
    by (simp add: wp_update_object sound_def upd)
  moreover have t: "tenant_ok ?w"
  proof (intro tenant_update_object)
    fix x
    assume "x \<in> set (w_objects w)" "o_id x = o_id ex"
    then have "x = ex" using update_const_key [OF ids assms(2)] by blast
    then show "o_id new = o_id x \<and> o_bucket new = o_bucket x \<and> o_company_id new = o_company_id x \<and> 0 \<le> o_size new"
      using assms by simp
  qed (use assms(1) in \<open>simp add: sound_def\<close>)
  ultimately show ?thesis
    using exact_update_row [OF assms(1,2,6,8,9) t] schema_charge by (simp add: sound_def)
qed

text \<open>Writing a column that no invariant reads, such as the time of the last access.\<close>

lemma sound_touch:
  assumes "\<And>x. bare (f x) = bare x \<or> o_id (f x) = o_id x \<and> object_key (f x) = object_key x \<and>
    o_company_id (f x) = o_company_id x \<and> o_size (f x) = o_size x"
  shows "maintains sound (update_object i f)"
proof (intro maintainsI)
  fix w
  assume w: "sound w"
  have same: "o_id (f x) = o_id x \<and> object_key (f x) = object_key x \<and> o_company_id (f x) = o_company_id x \<and>
      o_size (f x) = o_size x" for x
    using assms [of x] bare_fields [of "f x"] bare_fields [of x] by metis
  let ?w = "w\<lparr>w_objects := update_where (\<lambda>x. o_id x = i) f (w_objects w)\<rparr>"
  have "schema_ok ?w" if "\<not> object_conflict i f w"
    using maintains_wp [OF schema_update_object, of f w i] same that w by (simp add: wp_update_object sound_def)
  moreover have "tenant_ok ?w"
    using same w by (intro tenant_update_object)
      (auto simp: sound_def tenant_ok_def object_local_def object_key_def)
  moreover have "map (\<lambda>obj. if o_company_id obj = c then o_size obj else 0) (w_objects ?w) =
      map (\<lambda>obj. if o_company_id obj = c then o_size obj else 0) (w_objects w)" for c
    using same by (simp add: map_update_where)
  then have "exact ?w"
    using w by (auto simp: sound_def company_bytes_def sum_rows_def intro: exact_frame [of w])
  ultimately show "wp (update_object i f) (\<lambda>_. sound) (\<lambda>_. sound) w"
    using w by (simp add: wp_update_object sound_def)
qed

section \<open>Uploads keep the invariant\<close>

lemma wp_same_db:
  assumes "keeps same_db m" "\<And>x bl. Q x (w\<lparr>w_blobs := bl\<rparr>)" "\<And>e bl. R e (w\<lparr>w_blobs := bl\<rparr>)"
  shows "wp m Q R w"
  by (rule wp_mono [OF keeps_wp [OF assms(1)]]) (auto simp: same_db_def assms)

lemmas wp_save_blob = wp_same_db [OF save_blob_db]

lemma known_blobs: "known b (w\<lparr>w_blobs := bl, w_next_uuid := n\<rparr>) = known b w"
  using stable_known by (simp add: stable_def)

lemma known_blob [simp]: "known b (w\<lparr>w_blobs := bl\<rparr>) = known b w"
  using known_blobs [where w = w and bl = bl and n = "w_next_uuid w"] by simp

lemma known_private: "maintains (\<lambda>w. known b w \<and> t \<in> set (w_objects w)) (apply_default_private_on_create t u f)"
proof (intro maintainsI)
  fix w
  assume w: "known b w \<and> t \<in> set (w_objects w)"
  have inv: "wp (apply_default_private_on_create t u f) (\<lambda>_. holds t) (\<lambda>_. holds t) w"
    using w by (intro maintains_wp holds_apply_private) (simp add: holds_def known_def sound_def)
  have both: "known b w' \<and> t \<in> set (w_objects w')" if "holds t w'" "same_but_grants w w'" for w'
    using that w by (auto simp: known_def sound_def holds_def same_but_grants_def intro: exact_frame [of w])
  show "wp (apply_default_private_on_create t u f) (\<lambda>_ w. known b w \<and> t \<in> set (w_objects w))
      (\<lambda>_ w. known b w \<and> t \<in> set (w_objects w)) w"
    by (rule wp_mono [OF wp_conj [OF inv keeps_wp [OF apply_private_frame]]]) (simp_all add: both)
qed

lemma known_after_signal: "after_signal w w' \<Longrightarrow> known b w' = known b w"
  by (simp add: known_def sound_after_signal) (simp add: after_signal_def)

lemma known_signal: "keeps after_signal m \<Longrightarrow> maintains (known b) m"
  unfolding maintains_def keeps_def using known_after_signal by blast

lemma wp_insert_then_charge:
  assumes "known b w" "o_bucket obj = b_id b" "o_company_id obj = b_company_id b" "o_size obj = d" "0 \<le> d"
    and cont: "\<And>w'. known b w' \<Longrightarrow> obj \<in> set (w_objects w') \<Longrightarrow> wp (cont obj) Q R w'"
    and fail: "R IntegrityErr w"
  shows "wp (bindE (insert_object obj) (\<lambda>obj. seqE (apply_usage_delta env (b_company_id b) u d) (cont obj))) Q R w"
proof -
  let ?w = "w\<lparr>w_objects := w_objects w @ [obj]\<rparr>"
  have "known b (charge env (b_company_id b) u d ?w)" if "\<not> object_exists obj w"
    using assms sound_add_object [OF _ that, of "b_company_id b" d env u]
    by (simp add: known_def object_local_def)
  then show ?thesis using cont fail by (simp add: wp_simps wp_insert_object)
qed

lemma new_object_fields [simp]:
  "o_id (new_object i b n u s e m d k t) = i" "o_bucket (new_object i b n u s e m d k t) = b_id b"
  "o_name (new_object i b n u s e m d k t) = n" "o_company_id (new_object i b n u s e m d k t) = b_company_id b"
  "o_owner_id (new_object i b n u s e m d k t) = u" "o_size (new_object i b n u s e m d k t) = s"
  "o_storage_key (new_object i b n u s e m d k t) = k" "o_etag (new_object i b n u s e m d k t) = e"
  "o_mime_type (new_object i b n u s e m d k t) = m"
  by (simp_all add: new_object_def)

lemma known_signals: "maintains (known b) (send_uploaded env b' obj c r)"
  by (rule known_signal [OF send_uploaded_frame])

lemma create_object_known:
  assumes "known b w"
  shows "wp (create_object env b name data u mime meta req) (\<lambda>_. known b) (\<lambda>_ _. True) w"
proof -
  have tail: "wp (bindE (apply_default_private_on_create obj u False) (\<lambda>_. send_uploaded env b obj True req))
      (\<lambda>_. known b) (\<lambda>_ _. True) w'" if "known b w'" "obj \<in> set (w_objects w')" for obj w'
  proof -
    have "wp (apply_default_private_on_create obj u False) (\<lambda>_. known b) (\<lambda>_ _. True) w'"
      using maintains_wp [OF known_private, of b w' obj u False] that by (auto elim: wp_mono)
    moreover have "wp (send_uploaded env b obj True req) (\<lambda>_. known b) (\<lambda>_ _. True) v" if "known b v" for v
      using known_signals that by (rule maintains_post)
    ultimately show ?thesis by (auto simp: wp_bindE elim: wp_mono)
  qed
  have "known b (w\<lparr>w_next_uuid := n\<rparr>)" for n using assms stable_next [OF stable_known] by simp
  then show ?thesis
    unfolding create_object_def Let_def wp_bindE [of fresh_uuid] wp_fresh_uuid wp_seqE [of "save_blob _ _ _"]
      wp_bindE [of "gets _"] wp_gets
    by (intro wp_save_blob wp_insert_then_charge tail) simp_all
qed

lemma overwrite_object_known:
  assumes "known b w" "ex \<in> set (w_objects w)" "o_bucket ex = b_id b"
  shows "wp (overwrite_object env b ex data u mime meta req) (\<lambda>_. known b) (\<lambda>_ _. True) w"
proof -
  have ex: "ex \<in> set (w_objects (w\<lparr>w_blobs := bl\<rparr>))" "known b (w\<lparr>w_blobs := bl\<rparr>)" for bl
    using assms by simp_all
  have step: "wp (seqE (update_object (o_id ex) (\<lambda>_. new)) (seqE (apply_usage_delta env (b_company_id b) u d)
      (send_uploaded env b new False req))) (\<lambda>_. known b) (\<lambda>_ _. True) v"
    if v: "known b v" "ex \<in> set (w_objects v)"
      and new: "o_id new = o_id ex" "o_bucket new = o_bucket ex" "o_company_id new = o_company_id ex"
      "0 \<le> o_size new" "d = o_size new - o_size ex" for v new d
  proof -
    have "tenant_ok v" "bucket_company (w_buckets v) (b_id b) (b_company_id b)" "o_bucket ex \<in> b_id ` set (w_buckets v)"
      using v by (auto simp: known_def sound_def schema_ok_def)
    then have "o_company_id ex = b_company_id b"
      using v(2) assms(3) unfolding tenant_ok_def object_local_def bucket_company_def by force
    then have "known b (charge env (b_company_id b) u d (v\<lparr>w_objects := update_where (\<lambda>x. o_id x = o_id ex) (\<lambda>_. new) (w_objects v)\<rparr>))"
      if "\<not> object_conflict (o_id ex) (\<lambda>_. new) v"
      using v new that sound_replace_row [of v ex new "b_company_id b" d env u] by (simp add: known_def)
    then show ?thesis
      using maintains_post [OF known_signals] by (simp add: wp_simps wp_update_object)
  qed
  show ?thesis
    unfolding overwrite_object_def Let_def wp_seqE [of "save_blob _ _ _"] wp_bindE [of "gets _"] wp_gets
    by (rule wp_save_blob) (rule step [OF ex(2,1)], simp_all)
qed

definition company_full :: "env \<Rightarrow> int \<Rightarrow> int \<Rightarrow> world \<Rightarrow> bool" where
  "company_full env c delta w \<longleftrightarrow>
     (let q = company_quota_of env c w in cq_max_bytes q \<noteq> 0 \<and> cq_max_bytes q < cq_used_bytes q + delta)"

definition user_full :: "env \<Rightarrow> int \<Rightarrow> int option \<Rightarrow> int \<Rightarrow> world \<Rightarrow> bool" where
  "user_full env c u delta w \<longleftrightarrow>
     user_limit_exceeded (resolve_user_limit (with_company_quota env c w) (company_quota_of env c w) u) delta"

lemma wp_check_quota:
  "wp (check_quota env c u a r) Q R w =
     (if a < 0 then R ValueErr w
      else if a - r \<le> 0 then Q () w
      else if company_full env c (a - r) w then R (StorageErr 413 ''company_quota_exceeded'') (with_company_quota env c w)
      else if user_full env c u (a - r) w then R (StorageErr 413 ''user_quota_exceeded'') (with_company_quota env c w)
      else Q () (with_company_quota env c w))"
  by (simp add: check_quota_def assert_can_store_def quota_to_storage_def wp_simps Let_def company_full_def user_full_def)

lemma known_with_quota: "known b w \<Longrightarrow> known b (with_company_quota env c w)"
proof -
  assume w: "known b w"
  have f: "same_but_quotas w (with_company_quota env c w)" by (rule with_company_quota_frame)
  have "exact (with_company_quota env c w)"
    using w f by (simp add: known_def sound_def exact_def same_but_quotas_def)
  moreover have "tenant_ok (with_company_quota env c w)"
    using w f by (simp add: known_def sound_def tenant_ok_def local_defs same_but_quotas_def)
  ultimately show ?thesis
    using w f schema_with_quota by (simp add: known_def sound_def same_but_quotas_def)
qed

lemma with_quota_objects [simp]: "w_objects (with_company_quota env c w) = w_objects w"
  using with_company_quota_frame [of w env c] by (simp add: same_but_quotas_def)

lemma find_objectD: "find_object w b name = Some ex \<Longrightarrow> ex \<in> set (w_objects w) \<and> o_bucket ex = b_id b \<and> o_name ex = name"
  by (auto simp: find_object_def dest: first_where_Some)

text \<open>The world in which an upload reaches the storage step, and the rule to reason about it.\<close>

definition quota_step :: "env \<Rightarrow> int \<Rightarrow> int option \<Rightarrow> int \<Rightarrow> world \<Rightarrow> world \<Rightarrow> bool" where
  "quota_step env c u delta w w1 \<longleftrightarrow>
     delta \<le> 0 \<and> w1 = w \<or>
     0 < delta \<and> w1 = with_company_quota env c w \<and> \<not> company_full env c delta w \<and> \<not> user_full env c u delta w"

lemma quota_step_frame: "quota_step env c u d w w1 \<Longrightarrow> same_but_quotas w w1"
  using with_company_quota_frame same_but_quotas_refl by (auto simp: quota_step_def)

lemma quota_step_known: "quota_step env c u d w w1 \<Longrightarrow> known b w \<Longrightarrow> known b w1"
  using known_with_quota by (auto simp: quota_step_def)

lemma wp_upload:
  assumes create: "\<And>name data w1. safe_object_path path = Inr name \<Longrightarrow>
      read_upload_bytes file (upload_limit env b) = Inr data \<Longrightarrow> find_object w b name = None \<Longrightarrow>
      quota_step env (b_company_id b) u (int (length data)) w w1 \<Longrightarrow>
      wp (create_object env b name data u (normalize_mime_type env ct name) (upload_metadata md cc) req) Q (\<lambda>_ _. True) w1"
    and overwrite: "\<And>name data ex w1. safe_object_path path = Inr name \<Longrightarrow>
      read_upload_bytes file (upload_limit env b) = Inr data \<Longrightarrow> find_object w b name = Some ex \<Longrightarrow> ups \<Longrightarrow>
      quota_step env (b_company_id b) u (int (length data) - o_size ex) w w1 \<Longrightarrow>
      wp (overwrite_object env b ex data u (normalize_mime_type env ct name) (upload_metadata md cc) req) Q (\<lambda>_ _. True) w1"
  shows "wp (upload_object env b path file u ct ups md cc req) Q (\<lambda>_ _. True) w"
proof -
  have c: "wp (create_object env b name data u (normalize_mime_type env ct name) (upload_metadata md cc) req) Q (\<lambda>_ _. True) w1"
    if "safe_object_path path = Inr name" "read_upload_bytes file (upload_limit env b) = Inr data"
      "find_object w b name = None" "quota_step env (b_company_id b) u (int (length data)) w w1" for name data w1
    using that by (rule create)
  show ?thesis
    unfolding upload_object_def
    using c overwrite
    by (auto simp: Let_def wp_atomic wp_bindE wp_seqE wp_lift_sum wp_guardE wp_gets wp_check_quota quota_step_def
        split: sum.splits option.splits)
qed

lemma upload_known: "maintains (known b) (upload_object env b path file u ct ups md cc req)"
proof -
  let ?m = "upload_object env b path file u ct ups md cc req"
  have succ: "wp ?m (\<lambda>_. known b) (\<lambda>_ _. True) w" if "known b w" for w
  proof (rule wp_upload)
    fix name and data :: bytes and w1
    assume "quota_step env (b_company_id b) u (int (length data)) w w1"
    then show "wp (create_object env b name data u (normalize_mime_type env ct name) (upload_metadata md cc) req)
        (\<lambda>_. known b) (\<lambda>_ _. True) w1"
      using quota_step_known that by (intro create_object_known) blast
  next
    fix name and data :: bytes and ex w1
    assume "find_object w b name = Some ex" and q: "quota_step env (b_company_id b) u (int (length data) - o_size ex) w w1"
    then have "ex \<in> set (w_objects w1)" "o_bucket ex = b_id b"
      using quota_step_frame [OF q] by (auto dest!: find_objectD simp: same_but_quotas_def)
    then show "wp (overwrite_object env b ex data u (normalize_mime_type env ct name) (upload_metadata md cc) req)
        (\<lambda>_. known b) (\<lambda>_ _. True) w1"
      using quota_step_known [OF q that] by (intro overwrite_object_known)
  qed
  obtain body where body: "?m = atomic body" by (simp add: upload_object_def)
  have "wp (atomic body) (\<lambda>_. known b) (\<lambda>_. known b) w" if "known b w" for w
    using succ [OF that] that
    by (auto simp: body wp_atomic stable_rollback [OF stable_known] elim: wp_mono)
  then show ?thesis by (simp add: body maintainsI)
qed

section \<open>What an upload does\<close>

lemma bindE_Inr: "bindE m f w = (Inr y, w') \<longleftrightarrow> (\<exists>x v. m w = (Inr x, v) \<and> f x v = (Inr y, w'))"
  by (auto simp: bindE_def split: prod.splits sum.splits)

lemma seqE_Inr: "seqE m n w = (Inr y, w') \<longleftrightarrow> (\<exists>v. m w = (Inr (), v) \<and> n v = (Inr y, w'))"
  by (simp add: seqE_def bindE_Inr)

lemma basic_Inr:
  "ret x w = (Inr y, w') \<longleftrightarrow> y = x \<and> w' = w"
  "throw e w = (Inr y, w') \<longleftrightarrow> False"
  "gets f w = (Inr z, w') \<longleftrightarrow> z = f w \<and> w' = w"
  "guardE b e w = (Inr u, w') \<longleftrightarrow> b \<and> w' = w"
  "lift_sum r w = (Inr v, w') \<longleftrightarrow> r = Inr v \<and> w' = w"
  "modify g w = (Inr u, w') \<longleftrightarrow> w' = g w"
  "atomic m w = (Inr y, w') \<longleftrightarrow> m w = (Inr y, w')"
  by (auto simp: ret_def throw_def gets_def guardE_def lift_sum_def modify_def atomic_def
      split: prod.splits sum.splits)

lemma row_Inr:
  "insert_object obj w = (Inr o1, w') \<longleftrightarrow> \<not> object_exists obj w \<and> o1 = obj \<and> w' = w\<lparr>w_objects := w_objects w @ [obj]\<rparr>"
  "update_object i f w = (Inr u, w') \<longleftrightarrow> \<not> object_conflict i f w \<and>
     w' = w\<lparr>w_objects := update_where (\<lambda>x. o_id x = i) f (w_objects w)\<rparr>"
  "fresh_uuid w = (Inr j, w') \<longleftrightarrow> j = w_next_uuid w \<and> w' = w\<lparr>w_next_uuid := Suc (w_next_uuid w)\<rparr>"
  by (auto simp: insert_object_def update_object_def fresh_uuid_def)

lemma save_blob_Inr:
  "save_blob env k d w = (Inr u, w') \<longleftrightarrow>
     (\<exists>k' bl. storage_save env k d (w_blobs w) = (Inr k', bl) \<and> w' = w\<lparr>w_blobs := bl\<rparr>)"
  by (auto simp: save_blob_def split: prod.splits sum.splits)

lemmas run_Inr = bindE_Inr seqE_Inr basic_Inr row_Inr save_blob_Inr apply_usage_delta_eq

lemma send_uploaded_row:
  assumes "send_uploaded env b obj created req w = (Inr obj', w')" "obj \<in> set (w_objects w)"
  shows "obj' \<in> set (w_objects w')" "bare obj' = bare obj" "after_signal w w'"
proof -
  show "after_signal w w'" using send_uploaded_frame assms(1) by (rule keepsD)
  show "bare obj' = bare obj" using send_uploaded_total [of env b obj created req w] assms(1) by auto
  obtain v where v: "extract_markdown_sidecar env obj w = (Inr obj', v)" "w_objects w' = w_objects v"
    using assms(1) by (auto simp: send_uploaded_def actions_on_object_uploaded_def emit_event_def run_Inr split: if_splits)
  then show "obj' \<in> set (w_objects w')"
    using assms(2) by (auto simp: extract_markdown_sidecar_def Let_def set_update_where image_iff split: if_splits sum.splits)
qed

text \<open>A successful creation, step by step.\<close>

lemma create_object_run:
  assumes "create_object env b name data u mime meta req w = (Inr obj', w')"
  obtains k' bl obj gs w4 where
    "storage_save env (o_storage_key obj) data (w_blobs w) = (Inr k', bl)"
    "obj = new_object (w_next_uuid w) b name u (int (length data)) (content_etag env data) mime meta
       (build_storage_key env (b_company_id b) (b_name b) name (w_next_uuid w)) (w_clock w)"
    "\<not> object_exists obj (w\<lparr>w_blobs := bl\<rparr>)"
    "apply_default_private_on_create obj u False
       (charge env (b_company_id b) u (int (length data))
         (w\<lparr>w_next_uuid := Suc (w_next_uuid w), w_blobs := bl, w_objects := w_objects w @ [obj]\<rparr>)) = (Inr gs, w4)"
    "after_signal w4 w'" "bare obj' = bare obj" "obj' \<in> set (w_objects w')"
proof -
  let ?obj = "new_object (w_next_uuid w) b name u (int (length data)) (content_etag env data) mime meta
       (build_storage_key env (b_company_id b) (b_name b) name (w_next_uuid w)) (w_clock w)"
  obtain k' bl gs w4 where run:
    "storage_save env (o_storage_key ?obj) data (w_blobs w) = (Inr k', bl)"
    "\<not> object_exists ?obj (w\<lparr>w_blobs := bl\<rparr>)"
    "apply_default_private_on_create ?obj u False
       (charge env (b_company_id b) u (int (length data))
         (w\<lparr>w_next_uuid := Suc (w_next_uuid w), w_blobs := bl, w_objects := w_objects w @ [?obj]\<rparr>)) = (Inr gs, w4)"
    "send_uploaded env b ?obj True req w4 = (Inr obj', w')"
    using assms by (auto simp: create_object_def Let_def run_Inr)
  have "?obj \<in> set (w_objects w4)"
    using keepsD [OF apply_private_frame run(3)] by (simp add: same_but_grants_def)
  then show ?thesis using that [OF run(1) refl run(2,3)] send_uploaded_row [OF run(4)] by blast
qed

lemma overwrite_object_run:
  assumes "overwrite_object env b ex data u mime meta req w = (Inr obj', w')" "ex \<in> set (w_objects w)"
  obtains k' bl new w3 where
    "storage_save env (o_storage_key ex) data (w_blobs w) = (Inr k', bl)"
    "o_id new = o_id ex" "o_name new = o_name ex" "o_bucket new = o_bucket ex" "o_company_id new = o_company_id ex"
    "o_storage_key new = o_storage_key ex" "o_size new = int (length data)" "o_etag new = content_etag env data"
    "o_version new = o_version ex + 1" "o_owner_id new = (case u of None \<Rightarrow> o_owner_id ex | Some v \<Rightarrow> Some v)"
    "w3 = charge env (b_company_id b) u (int (length data) - o_size ex)
       (w\<lparr>w_blobs := bl, w_objects := update_where (\<lambda>x. o_id x = o_id ex) (\<lambda>_. new) (w_objects w)\<rparr>)"
    "after_signal w3 w'" "bare obj' = bare new" "obj' \<in> set (w_objects w')"
proof -
  let ?new = "ex\<lparr>o_size := int (length data), o_etag := content_etag env data, o_mime_type := mime,
    o_metadata := meta, o_version := o_version ex + 1, o_updated_at := w_clock w,
    o_owner_id := (case u of None \<Rightarrow> o_owner_id ex | Some v \<Rightarrow> Some v)\<rparr>"
  obtain k' bl where run:
    "storage_save env (o_storage_key ex) data (w_blobs w) = (Inr k', bl)"
    "send_uploaded env b ?new False req (charge env (b_company_id b) u (int (length data) - o_size ex)
       (w\<lparr>w_blobs := bl, w_objects := update_where (\<lambda>x. o_id x = o_id ex) (\<lambda>_. ?new) (w_objects w)\<rparr>)) = (Inr obj', w')"
    using assms(1) by (auto simp: overwrite_object_def Let_def run_Inr)
  have "?new \<in> set (update_where (\<lambda>x. o_id x = o_id ex) (\<lambda>_. ?new) (w_objects w))"
    using assms(2) by (auto simp: set_update_where image_iff)
  then show ?thesis
    using that [OF run(1), of ?new] send_uploaded_row [OF run(2)] by simp
qed

lemma check_quota_step: "check_quota env c v a r w = (Inr z, w') \<Longrightarrow> quota_step env c v (a - r) w w'"
proof -
  assume run: "check_quota env c v a r w = (Inr z, w')"
  have "wp (check_quota env c v a r) (\<lambda>_ y. quota_step env c v (a - r) w y) (\<lambda>_ _. True) w"
    by (auto simp: wp_check_quota quota_step_def)
  then show ?thesis using run by (simp add: wp_def)
qed

text \<open>A successful upload is one of the two.\<close>

lemma upload_run:
  assumes "upload_object env b path file u ct ups md cc req w = (Inr obj', w')"
  obtains name data w1 where "safe_object_path path = Inr name" "read_upload_bytes file (upload_limit env b) = Inr data"
    "mime_allowed (normalize_mime_type env ct name) (b_allowed_mime_types b)"
    "find_object w b name = None" "quota_step env (b_company_id b) u (int (length data)) w w1"
    "create_object env b name data u (normalize_mime_type env ct name) (upload_metadata md cc) req w1 = (Inr obj', w')"
  | name data ex w1 where "safe_object_path path = Inr name" "read_upload_bytes file (upload_limit env b) = Inr data"
    "mime_allowed (normalize_mime_type env ct name) (b_allowed_mime_types b)"
    "find_object w b name = Some ex" "ups" "quota_step env (b_company_id b) u (int (length data) - o_size ex) w w1"
    "overwrite_object env b ex data u (normalize_mime_type env ct name) (upload_metadata md cc) req w1 = (Inr obj', w')"
proof -
  obtain name data w1 where run: "safe_object_path path = Inr name"
    "read_upload_bytes file (upload_limit env b) = Inr data"
    "mime_allowed (normalize_mime_type env ct name) (b_allowed_mime_types b)"
    "find_object w b name = None \<or> ups"
    "check_quota env (b_company_id b) u (int (length data))
       (case find_object w b name of None \<Rightarrow> 0 | Some ex \<Rightarrow> o_size ex) w = (Inr (), w1)"
    "(case find_object w b name of
       Some ex \<Rightarrow> overwrite_object env b ex data u (normalize_mime_type env ct name) (upload_metadata md cc) req
     | None \<Rightarrow> create_object env b name data u (normalize_mime_type env ct name) (upload_metadata md cc) req) w1
     = (Inr obj', w')"
    using assms unfolding upload_object_def by (auto simp: Let_def run_Inr)
  show ?thesis
  proof (cases "find_object w b name")
    case None
    then show ?thesis using that(1) [OF run(1-3)] run(5,6) check_quota_step [OF run(5)] by simp
  next
    case (Some ex)
    then show ?thesis using that(2) [OF run(1-3)] run(4,6) check_quota_step [OF run(5)] by simp
  qed
qed

section \<open>Uploads that go through\<close>

text \<open>
  The storage backend took the blob: \<open>save\<close> returned. All other reasons to fail are in the
  hypotheses of the two lemmas.
\<close>

definition save_works :: "env \<Rightarrow> string \<Rightarrow> bytes \<Rightarrow> world \<Rightarrow> bool" where
  "save_works env key data w \<longleftrightarrow> (\<exists>k bl. storage_save env key data (w_blobs w) = (Inr k, bl))"

lemma create_object_succeeds:
  assumes "supply_ok w" "b_id b \<in> b_id ` set (w_buckets w)" "find_object w b name = None"
    "\<And>key. save_works env key data w"
  shows "\<exists>obj w'. create_object env b name data u mime meta req w = (Inr obj, w')"
proof -
  let ?i = "w_next_uuid w"
  let ?key = "build_storage_key env (b_company_id b) (b_name b) name ?i"
  let ?obj = "new_object ?i b name u (int (length data)) (content_etag env data) mime meta ?key (w_clock w)"
  obtain k bl where save: "storage_save env ?key data (w_blobs w) = (Inr k, bl)"
    using assms(4) unfolding save_works_def by blast
  let ?v = "w\<lparr>w_next_uuid := Suc ?i, w_blobs := bl\<rparr>"
  let ?c = "charge env (b_company_id b) u (int (length data)) (?v\<lparr>w_objects := w_objects w @ [?obj]\<rparr>)"
  have "?i \<notin> o_id ` set (w_objects w)" using assms(1) by (auto simp: supply_ok_def)
  moreover have "object_key ?obj \<notin> object_key ` set (w_objects w)"
    using assms(3) by (auto simp: find_object_def first_where_None object_key_def)
  ultimately have insert: "\<not> object_exists ?obj w" using assms(2) by (simp add: object_exists_def)
  have "ready ?obj ?c"
    using assms(1,2) by (auto simp: ready_def supply_ok_def less_Suc_eq)
  then obtain gs w4 where "apply_default_private_on_create ?obj u False ?c = (Inr gs, w4)"
    using total_run [OF total_apply_private] by blast
  moreover obtain obj' w' where "send_uploaded env b ?obj True req w4 = (Inr obj', w')"
    using send_uploaded_total by blast
  ultimately have "create_object env b name data u mime meta req w = (Inr obj', w')"
    using save insert by (simp add: create_object_def Let_def run_Inr)
  then show ?thesis by blast
qed

lemma overwrite_object_succeeds:
  assumes "schema_ok w" "ex \<in> set (w_objects w)" "save_works env (o_storage_key ex) data w"
  shows "\<exists>obj w'. overwrite_object env b ex data u mime meta req w = (Inr obj, w')"
proof -
  let ?new = "ex\<lparr>o_size := int (length data), o_etag := content_etag env data, o_mime_type := mime,
    o_metadata := meta, o_version := o_version ex + 1, o_updated_at := w_clock w,
    o_owner_id := (case u of None \<Rightarrow> o_owner_id ex | Some v \<Rightarrow> Some v)\<rparr>"
  obtain k bl where save: "storage_save env (o_storage_key ex) data (w_blobs w) = (Inr k, bl)"
    using assms(3) unfolding save_works_def by blast
  have ids: "distinct (map o_id (w_objects w))" and keys: "distinct (map object_key (w_objects w))"
    and "o_bucket ex \<in> b_id ` set (w_buckets w)"
    using assms(1,2) by (simp_all add: schema_ok_def)
  moreover have "object_key ?new = object_key ex" by (simp add: object_key_def)
  ultimately have "\<not> object_conflict (o_id ex) (\<lambda>_. ?new) (w\<lparr>w_blobs := bl\<rparr>)"
    using distinct_key_unique [OF keys] assms(2) by (auto simp: object_conflict_def)
  moreover obtain obj' w' where "send_uploaded env b ?new False req
      (charge env (b_company_id b) u (int (length data) - o_size ex)
        (w\<lparr>w_blobs := bl, w_objects := update_where (\<lambda>x. o_id x = o_id ex) (\<lambda>_. ?new) (w_objects w)\<rparr>)) = (Inr obj', w')"
    using send_uploaded_total by blast
  ultimately have "overwrite_object env b ex data u mime meta req w = (Inr obj', w')"
    using save by (simp add: overwrite_object_def Let_def run_Inr)
  then show ?thesis by blast
qed

end
