(* ===== verification/Upload_Results.thy ===== *)
theory Upload_Results
  imports Upload
begin

text \<open>
  Properties of \<open>upload_object\<close> and of the download that follows it: the company quota, the
  contents under either kind of blob store, the counters of the users, who can see a new
  file, and the refusals.
\<close>

section \<open>Quota\<close>

lemma used_after_signal: "after_signal w w' \<Longrightarrow> company_used w' c = company_used w c \<and> user_used w' c u = user_used w c u"
  by (simp add: after_signal_def company_used_def company_quota_row_def user_used_def user_quota_row_def)

lemma used_but_grants: "same_but_grants w w' \<Longrightarrow> company_used w' c = company_used w c \<and> user_used w' c u = user_used w c u"
  by (simp add: same_but_grants_def company_used_def company_quota_row_def user_used_def user_quota_row_def)

lemma company_used_objects [simp]:
  "company_used (w\<lparr>w_objects := os\<rparr>) c = company_used w c"
  "company_used (w\<lparr>w_blobs := bl\<rparr>) c = company_used w c"
  "company_used (w\<lparr>w_next_uuid := n\<rparr>) c = company_used w c"
  by (simp_all add: company_used_def company_quota_row_def)

text \<open>Whatever its outcome, an upload moves the counter by what the quota check let through.\<close>

lemma upload_used:
  assumes "upload_object env b path file u ct ups md cc req w = (Inr obj, w')"
  shows "\<exists>delta w1. quota_step env (b_company_id b) u delta w w1 \<and>
     company_used w' (b_company_id b) =
       (if delta = 0 then company_used w (b_company_id b) else max 0 (company_used w (b_company_id b) + delta))"
  using assms
proof (cases rule: upload_run)
  case (1 name data w1)
  obtain o2 bl gs w4 where run: "apply_default_private_on_create o2 u False (charge env (b_company_id b) u (int (length data))
      (w1\<lparr>w_next_uuid := Suc (w_next_uuid w1), w_blobs := bl, w_objects := w_objects w1 @ [o2]\<rparr>)) = (Inr gs, w4)"
    "after_signal w4 w'"
    using 1(6) by (rule create_object_run)
  have "company_used w1 c = company_used w c" for c using 1(5) by (auto simp: quota_step_def)
  then have "company_used w' (b_company_id b) =
      (if int (length data) = 0 then company_used w (b_company_id b)
       else max 0 (company_used w (b_company_id b) + int (length data)))"
    using used_after_signal [OF run(2)] used_but_grants [OF keepsD [OF apply_private_frame run(1)]]
    by (simp add: company_used_charge)
  then show ?thesis using 1(5) by blast
next
  case (2 name data ex w1)
  have "ex \<in> set (w_objects w1)"
    using find_objectD [OF 2(4)] quota_step_frame [OF 2(6)] by (simp add: same_but_quotas_def)
  then obtain new bl w3 where run: "w3 = charge env (b_company_id b) u (int (length data) - o_size ex)
      (w1\<lparr>w_blobs := bl, w_objects := update_where (\<lambda>x. o_id x = o_id ex) (\<lambda>_. new) (w_objects w1)\<rparr>)" "after_signal w3 w'"
    using overwrite_object_run [OF 2(7)] by metis
  have "company_used w1 c = company_used w c" for c using 2(6) by (auto simp: quota_step_def)
  then have "company_used w' (b_company_id b) =
      (if int (length data) - o_size ex = 0 then company_used w (b_company_id b)
       else max 0 (company_used w (b_company_id b) + (int (length data) - o_size ex)))"
    using used_after_signal [OF run(2)] run(1) by (simp add: company_used_charge)
  then show ?thesis using 2(6) by blast
qed


section \<open>Which uploads are refused\<close>

text \<open>The reason an upload is refused, if any, as a function of the request and the tables.\<close>

definition upload_refusal ::
  "env \<Rightarrow> bucket \<Rightarrow> string \<Rightarrow> bytes \<Rightarrow> int option \<Rightarrow> string option \<Rightarrow> bool \<Rightarrow> world \<Rightarrow> exn option" where
  "upload_refusal env b path file u ct ups w =
     (case safe_object_path path of
        Inl e \<Rightarrow> Some e
      | Inr name \<Rightarrow>
          let delta = int (length file) - (case find_object w b name of None \<Rightarrow> 0 | Some ex \<Rightarrow> o_size ex) in
          if \<not> mime_allowed (normalize_mime_type env ct name) (b_allowed_mime_types b)
          then Some (StorageErr 415 ''invalid_mime_type'')
          else if find_object w b name \<noteq> None \<and> \<not> ups then Some (StorageErr 400 ''resource_already_exists'')
          else if upload_limit env b < int (length file) then Some (StorageErr 413 ''payload_too_large'')
          else if delta \<le> 0 then None
          else if company_full env (b_company_id b) delta w then Some (StorageErr 413 ''company_quota_exceeded'')
          else if user_full env (b_company_id b) u delta w then Some (StorageErr 413 ''user_quota_exceeded'')
          else None)"

lemma read_upload_bytes_eq:
  "read_upload_bytes file m =
     (if m < int (length file) then Inl (StorageErr 413 ''payload_too_large'') else Inr file)"
  by (auto simp: read_upload_bytes_def Let_def min_def)

lemma quota_step_ready:
  assumes "quota_step env c u d w w1"
  shows "supply_ok w1 = supply_ok w" "w_buckets w1 = w_buckets w" "w_objects w1 = w_objects w"
    "find_object w1 b name = find_object w b name" "save_works env k data w1 = save_works env k data w"
  using quota_step_frame [OF assms]
  by (simp_all add: same_but_quotas_def supply_ok_def find_object_def save_works_def)

lemma upload_decides:
  assumes "known b w" "supply_ok w" "b_id b \<in> b_id ` set (w_buckets w)" "\<forall>key. save_works env key file w"
  shows "wp (upload_object env b path file u ct ups md cc req)
     (\<lambda>_ _. upload_refusal env b path file u ct ups w = None)
     (\<lambda>e w1. upload_refusal env b path file u ct ups w = Some e \<and> (\<exists>w'. w1 = rollback w w')) w"
proof -
  have create: "wp (create_object env b name file u mime meta req) (\<lambda>_ _. True) (\<lambda>_ _. False) w1"
    if "find_object w b name = None" "quota_step env c u d w w1" for name mime meta w1 c d
  proof -
    have "supply_ok w1" "b_id b \<in> b_id ` set (w_buckets w1)" "find_object w1 b name = None"
      "\<And>key. save_works env key file w1"
      using assms that quota_step_ready [OF that(2)] by simp_all
    then obtain obj v where "create_object env b name file u mime meta req w1 = (Inr obj, v)"
      using create_object_succeeds by blast
    then show ?thesis by (simp add: wp_def)
  qed
  have over: "wp (overwrite_object env b ex file u mime meta req) (\<lambda>_ _. True) (\<lambda>_ _. False) w1"
    if "find_object w b name = Some ex" "quota_step env c u d w w1" for name ex mime meta w1 c d
  proof -
    have "schema_ok w1" using quota_step_known [OF that(2) assms(1)] by (simp add: known_def sound_def)
    moreover have "ex \<in> set (w_objects w1)" "save_works env (o_storage_key ex) file w1"
      using that assms(4) quota_step_ready [OF that(2)] by (auto dest: find_objectD)
    ultimately obtain obj v where "overwrite_object env b ex file u mime meta req w1 = (Inr obj, v)"
      using overwrite_object_succeeds by blast
    then show ?thesis by (simp add: wp_def)
  qed
  let ?ref = "upload_refusal env b path file u ct ups w"
  let ?Q = "\<lambda>(_ :: storage_object) (_ :: world). ?ref = None"
  let ?R = "\<lambda>e w1. ?ref = Some e \<and> (\<exists>w'. w1 = rollback w w')"
  show ?thesis
  proof (cases "safe_object_path path")
    case (Inl e)
    then show ?thesis by (auto simp: upload_object_def upload_refusal_def wp_atomic wp_bindE wp_lift_sum)
  next
    case (Inr name)
    let ?mime = "normalize_mime_type env ct name" and ?c = "b_company_id b"
    let ?store = "case find_object w b name of
        Some ex \<Rightarrow> overwrite_object env b ex file u ?mime (upload_metadata md cc) req
      | None \<Rightarrow> create_object env b name file u ?mime (upload_metadata md cc) req"
    let ?old = "case find_object w b name of None \<Rightarrow> 0 | Some ex \<Rightarrow> o_size ex"
    let ?delta = "int (length file) - ?old"
    have store: "?ref = None \<Longrightarrow> quota_step env ?c u ?delta w w1 \<Longrightarrow> wp ?store ?Q (\<lambda>e v. ?R e (rollback w v)) w1" for w1
      by (cases "find_object w b name") (auto intro: wp_mono [OF create] wp_mono [OF over])
    have quota: "wp (seqE (check_quota env ?c u (int (length file)) ?old) ?store) ?Q (\<lambda>e v. ?R e (rollback w v)) w"
      if "mime_allowed ?mime (b_allowed_mime_types b)" "find_object w b name = None \<or> ups"
        "\<not> upload_limit env b < int (length file)"
    proof -
      have ref: "?ref = (if ?delta \<le> 0 then None
          else if company_full env ?c ?delta w then Some (StorageErr 413 ''company_quota_exceeded'')
          else if user_full env ?c u ?delta w then Some (StorageErr 413 ''user_quota_exceeded'') else None)"
        using that Inr by (auto simp: upload_refusal_def Let_def)
      show ?thesis
        using store ref by (auto simp: wp_seqE wp_check_quota quota_step_def)
    qed
    show ?thesis
    proof (cases "mime_allowed ?mime (b_allowed_mime_types b) \<and> (find_object w b name = None \<or> ups) \<and>
        \<not> upload_limit env b < int (length file)")
      case True
      then have eq: "upload_object env b path file u ct ups md cc req w =
          atomic (seqE (check_quota env ?c u (int (length file)) ?old) ?store) w"
        using Inr by (simp add: upload_object_def Let_def atomic_def bindE_def seqE_def lift_sum_def guardE_def gets_def
            ret_def read_upload_bytes_eq)
      have "wp (atomic (seqE (check_quota env ?c u (int (length file)) ?old) ?store)) ?Q ?R w"
        unfolding wp_atomic using True by (intro wp_mono [OF quota]) auto
      then show ?thesis by (simp only: wp_def eq)
    next
      case False
      then consider "\<not> mime_allowed ?mime (b_allowed_mime_types b)"
        | "mime_allowed ?mime (b_allowed_mime_types b)" "find_object w b name \<noteq> None" "\<not> ups"
        | "mime_allowed ?mime (b_allowed_mime_types b)" "find_object w b name = None \<or> ups"
          "upload_limit env b < int (length file)" by argo
      then obtain e where e: "upload_object env b path file u ct ups md cc req w = (Inl e, rollback w w)" "?ref = Some e"
        using Inr by cases (simp_all add: upload_object_def Let_def atomic_def bindE_def seqE_def lift_sum_def
            guardE_def gets_def ret_def throw_def read_upload_bytes_eq upload_refusal_def)
      then show ?thesis by (auto simp: wp_exact_err)
    qed
  qed
qed


section \<open>What a download returns\<close>

lemma bare_eqD:
  "bare x = bare y \<Longrightarrow> o_id x = o_id y \<and> o_name x = o_name y \<and> o_bucket x = o_bucket y \<and>
     o_company_id x = o_company_id y \<and> o_size x = o_size y \<and> o_etag x = o_etag y \<and>
     o_storage_key x = o_storage_key y \<and> o_owner_id x = o_owner_id y \<and> o_version x = o_version y"
  by (cases x; cases y) (simp add: bare_def)

lemma upload_stored:
  assumes "upload_object env b path file u ct ups md cc req w = (Inr obj, w')"
  shows "\<exists>k bl. storage_save env (o_storage_key obj) file (w_blobs w) = (Inr k, bl) \<and> w_blobs w' = bl \<and>
     o_size obj = int (length file) \<and> o_etag obj = content_etag env file \<and> obj \<in> set (w_objects w') \<and>
     o_bucket obj = b_id b \<and> safe_object_path path = Inr (o_name obj) \<and>
     (case find_object w b (o_name obj) of
        None \<Rightarrow> o_version obj = 1 \<and> o_owner_id obj = u
      | Some ex \<Rightarrow> o_id obj = o_id ex \<and> o_storage_key obj = o_storage_key ex \<and> o_version obj = o_version ex + 1 \<and>
          o_owner_id obj = (case u of None \<Rightarrow> o_owner_id ex | Some v \<Rightarrow> Some v))"
  using assms
proof (cases rule: upload_run)
  case (1 name data w1)
  have data: "data = file" using 1(2) by (simp add: read_upload_bytes_eq split: if_splits)
  obtain k bl o2 gs w4 where run: "storage_save env (o_storage_key o2) data (w_blobs w1) = (Inr k, bl)"
    "o2 = new_object (w_next_uuid w1) b name u (int (length data)) (content_etag env data) (normalize_mime_type env ct name)
       (upload_metadata md cc) (build_storage_key env (b_company_id b) (b_name b) name (w_next_uuid w1)) (w_clock w1)"
    "apply_default_private_on_create o2 u False (charge env (b_company_id b) u (int (length data))
      (w1\<lparr>w_next_uuid := Suc (w_next_uuid w1), w_blobs := bl, w_objects := w_objects w1 @ [o2]\<rparr>)) = (Inr gs, w4)"
    "after_signal w4 w'" "bare obj = bare o2" "obj \<in> set (w_objects w')"
    using 1(6) by (rule create_object_run)
  have "w_blobs w' = bl"
    using keepsD [OF apply_private_frame run(3)] run(4) by (simp add: same_but_grants_def after_signal_def)
  moreover have "w_blobs w1 = w_blobs w" using quota_step_frame [OF 1(5)] by (simp add: same_but_quotas_def)
  moreover have "o_version o2 = 1" by (simp add: run(2) new_object_def)
  ultimately show ?thesis using run(1,2,6) bare_eqD [OF run(5)] 1(1,4) by (simp add: data)
next
  case (2 name data ex w1)
  have data: "data = file" using 2(2) by (simp add: read_upload_bytes_eq split: if_splits)
  have ex: "ex \<in> set (w_objects w1)" "o_bucket ex = b_id b" "o_name ex = name"
    using find_objectD [OF 2(4)] quota_step_frame [OF 2(6)] by (simp_all add: same_but_quotas_def)
  obtain k bl new w3 where run: "storage_save env (o_storage_key ex) data (w_blobs w1) = (Inr k, bl)"
    "o_id new = o_id ex" "o_name new = o_name ex" "o_bucket new = o_bucket ex" "o_company_id new = o_company_id ex"
    "o_storage_key new = o_storage_key ex" "o_size new = int (length data)" "o_etag new = content_etag env data"
    "o_version new = o_version ex + 1" "o_owner_id new = (case u of None \<Rightarrow> o_owner_id ex | Some v \<Rightarrow> Some v)"
    "w3 = charge env (b_company_id b) u (int (length data) - o_size ex)
       (w1\<lparr>w_blobs := bl, w_objects := update_where (\<lambda>x. o_id x = o_id ex) (\<lambda>_. new) (w_objects w1)\<rparr>)"
    "after_signal w3 w'" "bare obj = bare new" "obj \<in> set (w_objects w')"
    by (rule overwrite_object_run [OF 2(7) ex(1)])
  have "w_blobs w' = bl" using run(11,12) by (simp add: after_signal_def)
  moreover have "w_blobs w1 = w_blobs w" using quota_step_frame [OF 2(6)] by (simp add: same_but_quotas_def)
  moreover have same: "o_id obj = o_id ex" "o_name obj = name" "o_bucket obj = b_id b" "o_storage_key obj = o_storage_key ex"
    "o_size obj = int (length file)" "o_etag obj = content_etag env file" "o_version obj = o_version ex + 1"
    "o_owner_id obj = (case u of None \<Rightarrow> o_owner_id ex | Some v \<Rightarrow> Some v)"
    using bare_eqD [OF run(13)] run(2-10) ex(2,3) data by simp_all
  ultimately have "storage_save env (o_storage_key obj) file (w_blobs w) = (Inr k, bl)" "w_blobs w' = bl"
    using run(1) data by simp_all
  then show ?thesis using same run(14) 2(1,4) by simp
qed

lemma download_run:
  assumes "schema_ok w" "obj \<in> set (w_objects w)" "storage_open env (o_storage_key obj) (w_blobs w) = Inr body"
  shows "\<exists>d w'. build_download_response env obj att fname w = (Inr d, w') \<and> d_body d = body \<and>
     d_length d = o_size obj \<and> w_blobs w' = w_blobs w"
proof -
  let ?f = "\<lambda>x. x\<lparr>o_last_accessed_at := Some (w_clock w)\<rparr>"
  have keys: "distinct (map object_key (w_objects w))" "distinct (map o_id (w_objects w))"
    "\<forall>x \<in> set (w_objects w). o_bucket x \<in> b_id ` set (w_buckets w)"
    using assms(1) by (simp_all add: schema_ok_def)
  have "object_key (?f x) = object_key x" for x by (simp add: object_key_def)
  then have "\<not> object_conflict (o_id obj) ?f w"
    using distinct_key_unique [OF keys(1)] keys(3) by (auto simp: object_conflict_def)
  then show ?thesis
    using assms(3) by (simp add: build_download_response_def run_Inr open_blob_def)
qed

text \<open>
  C5. Round trip: after an upload that succeeds, downloading the object it returned gives back
  exactly the uploaded bytes with their length, if the blob store overwrites (S3), or if it
  does not (the file system) and the key of the object was not in use before, as for a new object. For an overwrite on the
  file system it does not hold: see \<open>overwrite_lost_on_filesystem\<close>.
\<close>

theorem upload_download_roundtrip:
  assumes "known b w" "reads_back env"
    and "upload_object env b path file u ct ups md cc req w = (Inr obj, w')"
    and "overwrites env \<or> renames env \<and> w_blobs w (o_storage_key obj) = None"
  shows "\<exists>d w''. build_download_response env obj att fname w' = (Inr d, w'') \<and>
     d_body d = file \<and> d_length d = int (length file)"
proof -
  obtain k bl where st: "storage_save env (o_storage_key obj) file (w_blobs w) = (Inr k, bl)" "w_blobs w' = bl"
    "o_size obj = int (length file)" "obj \<in> set (w_objects w')"
    using upload_stored [OF assms(3)] by blast
  have "bl = (w_blobs w)(o_storage_key obj \<mapsto> file)"
    using assms(4) st(1) save_new_key [OF _ st(1)] unfolding overwrites_def domIff by metis
  then have "bl (o_storage_key obj) = Some file" by simp
  then have opened: "storage_open env (o_storage_key obj) (w_blobs w') = Inr file"
    using assms(2) st(2) by (simp add: reads_back_def)
  have "schema_ok w'"
    using maintainsD [OF upload_known assms(1,3)] by (simp add: known_def sound_def)
  then show ?thesis using download_run [OF _ st(4) opened] st by metis
qed

text \<open>
  On the file system backend (\<open>allow_overwrite\<close> off) an overwrite is lost. The row gets
  the size, digest and version of the new bytes, but the blob under its key is still the old
  one: the store wrote the new bytes under another name and that name was dropped. A download
  returns the old bytes with the new length.
\<close>

theorem overwrite_lost_on_filesystem:
  assumes "known b w" "reads_back env" "renames env"
    and "upload_object env b path file u ct True md cc req w = (Inr obj, w')"
    and "find_object w b (o_name obj) = Some ex" "w_blobs w (o_storage_key ex) = Some old"
  shows "\<exists>d w''. build_download_response env obj att fname w' = (Inr d, w'') \<and>
     d_body d = old \<and> d_length d = int (length file) \<and> o_etag obj = content_etag env file \<and>
     o_version obj = o_version ex + 1"
proof -
  obtain k bl where st: "storage_save env (o_storage_key obj) file (w_blobs w) = (Inr k, bl)" "w_blobs w' = bl"
    "o_size obj = int (length file)" "obj \<in> set (w_objects w')" "o_etag obj = content_etag env file"
    "o_storage_key obj = o_storage_key ex" "o_version obj = o_version ex + 1"
    using upload_stored [OF assms(4)] assms(5) by auto
  have "k \<notin> dom (w_blobs w)" "bl = (w_blobs w)(k \<mapsto> file)"
    using assms(3) st(1) by (auto simp: renames_def)
  then have "bl (o_storage_key obj) = Some old" using assms(6) st(6) by (auto simp: domIff)
  then have opened: "storage_open env (o_storage_key obj) (w_blobs w') = Inr old"
    using assms(2) st(2) by (simp add: reads_back_def)
  have "schema_ok w'"
    using maintainsD [OF upload_known assms(1,4)] by (simp add: known_def sound_def)
  then show ?thesis using download_run [OF _ st(4) opened] st by metis
qed

section \<open>The counters of the users\<close>

definition owner_bytes :: "int \<Rightarrow> int \<Rightarrow> storage_object list \<Rightarrow> int" where
  "owner_bytes c a objs = sum_rows (\<lambda>obj. if o_company_id obj = c \<and> o_owner_id obj = Some a then o_size obj else 0) objs"

lemma user_used_add_other:
  "a \<noteq> v \<Longrightarrow> user_used (add_user_usage c v d w) c a = user_used w c a"
proof -
  assume ne: "a \<noteq> v"
  have skip: "first_where (\<lambda>q. uq_company_id q = c \<and> uq_user_id q = a) (update_where P f rs) =
      first_where (\<lambda>q. uq_company_id q = c \<and> uq_user_id q = a) rs"
    if "\<And>q. P q \<Longrightarrow> uq_user_id q = v" "\<And>q. uq_user_id (f q) = uq_user_id q" for P f rs
  proof (induction rs)
    case (Cons q rs)
    then show ?case using that(1) [of q] that(2) [of q] ne by (auto simp: update_where_def)
  qed (simp add: update_where_def)
  have clamp: "first_where (\<lambda>q. uq_company_id q = c \<and> uq_user_id q = a)
      (update_where (\<lambda>q. uq_company_id q = c \<and> uq_user_id q = v \<and> uq_used_bytes q < 0) (\<lambda>q. q\<lparr>uq_used_bytes := 0\<rparr>) rs) =
    first_where (\<lambda>q. uq_company_id q = c \<and> uq_user_id q = a) rs" for rs
    by (rule skip) auto
  have add: "first_where (\<lambda>q. uq_company_id q = c \<and> uq_user_id q = a)
      (update_where (\<lambda>q. uq_company_id q = c \<and> uq_user_id q = v) (\<lambda>q. q\<lparr>uq_used_bytes := uq_used_bytes q + d\<rparr>) rs) =
    first_where (\<lambda>q. uq_company_id q = c \<and> uq_user_id q = a) rs" for rs
    by (rule skip) auto
  show ?thesis
    using clamp [of "update_where (\<lambda>q. uq_company_id q = c \<and> uq_user_id q = v) (\<lambda>q. q\<lparr>uq_used_bytes := uq_used_bytes q + d\<rparr>) (w_uquotas w)"]
      add [of "w_uquotas w"]
    by (simp add: user_used_def user_quota_row_def add_user_usage_def)
qed

lemma user_used_create_other: "a \<noteq> v \<Longrightarrow> user_used (create_user_quota c v m w) c a = user_used w c a"
  by (simp add: user_used_def user_quota_row_def create_user_quota_def first_where_append split: option.splits)

lemma user_used_charge_other:
  assumes "a \<noteq> v"
  shows "user_used (charge env c (Some v) d w) c a = user_used w c a"
proof -
  have "user_used (with_company_quota env c w) c a = user_used w c a"
    by (simp add: with_company_quota_def get_or_create_company_quota_def user_used_def user_quota_row_def split: option.splits)
  moreover have "user_used (add_company_usage c d x) c a = user_used x c a" for x
    by (simp add: add_company_usage_def user_used_def user_quota_row_def)
  ultimately show ?thesis
    using user_used_add_other [OF assms] user_used_create_other [OF assms]
    by (simp add: charge_def charge_user_def split: option.splits prod.splits)
qed

text \<open>
  When a user overwrites a file another user owns, the file changes owner but the old
  owner's counter keeps its bytes: the counter stays where it was although the bytes that the
  old owner owns went down by the size of the file. From then on the per-user usage is wrong.
\<close>

theorem overwrite_keeps_old_owner_charged:
  assumes "known b w" "upload_object env b path file (Some u) ct True md cc req w = (Inr obj, w')"
    and "find_object w b (o_name obj) = Some ex" "o_owner_id ex = Some a" "a \<noteq> u"
  shows "o_owner_id obj = Some u \<and> user_used w' (b_company_id b) a = user_used w (b_company_id b) a \<and>
     owner_bytes (b_company_id b) a (w_objects w') = owner_bytes (b_company_id b) a (w_objects w) - o_size ex"
  using assms(2)
proof (cases rule: upload_run)
  case (1 name data w1)
  then show ?thesis using upload_stored [OF assms(2)] assms(3) by auto
next
  case (2 name data ex' w1)
  have "name = o_name obj" using upload_stored [OF assms(2)] 2(1) by auto
  then have ex': "ex' = ex" using 2(4) assms(3) by simp
  have f: "same_but_quotas w w1" using 2(6) by (rule quota_step_frame)
  have ex: "ex \<in> set (w_objects w1)" "o_bucket ex = b_id b"
    using find_objectD [OF assms(3)] f by (simp_all add: same_but_quotas_def)
  have company: "o_company_id ex = b_company_id b"
    using assms(1) find_objectD [OF assms(3)]
    unfolding known_def sound_def tenant_ok_def object_local_def bucket_company_def schema_ok_def by force
  obtain k bl new w3 where run: "storage_save env (o_storage_key ex) data (w_blobs w1) = (Inr k, bl)"
    "o_id new = o_id ex" "o_name new = o_name ex" "o_bucket new = o_bucket ex" "o_company_id new = o_company_id ex"
    "o_storage_key new = o_storage_key ex" "o_size new = int (length data)" "o_etag new = content_etag env data"
    "o_version new = o_version ex + 1" "o_owner_id new = (case Some u of None \<Rightarrow> o_owner_id ex | Some v \<Rightarrow> Some v)"
    "w3 = charge env (b_company_id b) (Some u) (int (length data) - o_size ex)
       (w1\<lparr>w_blobs := bl, w_objects := update_where (\<lambda>x. o_id x = o_id ex) (\<lambda>_. new) (w_objects w1)\<rparr>)"
    "after_signal w3 w'" "bare obj = bare new" "obj \<in> set (w_objects w')"
    using 2(7) ex(1) unfolding ex' by (rule overwrite_object_run)
  have "user_used w1 (b_company_id b) a = user_used w (b_company_id b) a"
    using 2(6) by (auto simp: quota_step_def with_company_quota_def get_or_create_company_quota_def
      user_used_def user_quota_row_def split: option.splits)
  then have "user_used w' (b_company_id b) a = user_used w (b_company_id b) a"
    using user_used_charge_other [OF assms(5)] used_after_signal [OF run(12)] run(11)
    by (simp add: user_used_def user_quota_row_def)
  moreover have "owner_bytes (b_company_id b) a (w_objects w') = owner_bytes (b_company_id b) a (w_objects w) - o_size ex"
  proof -
    let ?v = "\<lambda>obj. if o_company_id obj = b_company_id b \<and> o_owner_id obj = Some a then o_size obj else 0"
    have bare: "map bare (w_objects w') = map bare (w_objects w3)" using run(12) by (simp add: after_signal_def)
    have rows: "w_objects w3 = update_where (\<lambda>x. o_id x = o_id ex) (\<lambda>_. new) (w_objects w)"
      using run(11) f by (simp add: same_but_quotas_def)
    have "map ?v (w_objects w') = map ?v (w_objects w3)" by (rule map_bare [OF bare]) simp
    then have "owner_bytes (b_company_id b) a (w_objects w') = sum_rows ?v (w_objects w3)"
      by (simp add: owner_bytes_def sum_rows_def)
    moreover have "distinct (map o_id (w_objects w))" using assms(1) by (simp add: known_def sound_def schema_ok_def)
    then have "sum_rows ?v (w_objects w3) = sum_rows ?v (w_objects w) - ?v ex + ?v new"
      unfolding rows using find_objectD [OF assms(3)] by (intro sum_rows_update_key) auto
    moreover have "?v new = 0" "?v ex = o_size ex" using run(10) assms(4,5) company by auto
    ultimately show ?thesis by (simp add: owner_bytes_def)
  qed
  moreover have "o_owner_id obj = Some u" using bare_eqD [OF run(13)] run(10) by simp
  ultimately show ?thesis by blast
qed

section \<open>Who sees a new file\<close>

lemma object_name_of_append:
  "(\<And>x. i = Some x \<Longrightarrow> x \<in> o_id ` set (w_objects w)) \<Longrightarrow> w_objects w' = w_objects w @ os \<Longrightarrow>
   object_name_of w' i = object_name_of w i"
  by (cases i) (auto simp: object_name_of_def object_by_id_def first_where_append first_where_None
      split: option.splits)

lemma object_name_of_alt:
  "object_name_of w i = (case i of None \<Rightarrow> [] | Some i \<Rightarrow>
     case map_option o_name (object_by_id w i) of None \<Rightarrow> [] | Some n \<Rightarrow> n)"
  by (simp add: object_name_of_def split: option.splits)

lemma object_name_of_bare:
  assumes "map bare os' = map bare (w_objects w)" "w_objects w' = os'"
  shows "object_name_of w' = object_name_of w"
proof -
  have "map_option o_name (first_where (\<lambda>obj. o_id obj = i) xs) = map_option o_name (first_where (\<lambda>obj. o_id obj = i) (map bare xs))" for i xs
    by (induction xs) auto
  then have "map_option o_name (object_by_id w' i) = map_option o_name (object_by_id w i)" for i
    using assms by (metis object_by_id_def)
  then have "object_name_of w' i = object_name_of w i" for i
    by (cases i) (simp_all add: object_name_of_alt)
  then show ?thesis by blast
qed

lemma access_after_signal: "after_signal w w' \<Longrightarrow> evaluate_access w' = evaluate_access w"
  using object_name_of_bare [of "w_objects w'" w w']
  by (intro evaluate_access_names) (simp_all add: after_signal_def)


section \<open>The theorems on concrete requests\<close>

lemma private_world_known: "known company_bucket private_world"
proof -
  have "schema_ok private_world" "tenant_ok private_world"
    by (simp_all add: schema_ok_def tenant_ok_def local_defs bucket_company_def sample_defs object_key_def
        grant_shape_def)
  moreover have "exact private_world"
    by (simp add: exact_def company_used_def company_quota_row_def company_bytes_def sample_defs)
  ultimately show ?thesis by (simp add: known_def sound_def bucket_company_def sample_defs)
qed

lemma private_world_supply: "supply_ok private_world"
  by (simp add: supply_ok_def sample_defs)

lemma sample_saves: "save_works s3_env key data w"
  by (simp add: save_works_def s3_env_def)

text \<open>Ann uploads three bytes to the top level.\<close>

abbreviation ann_upload :: "env \<Rightarrow> string \<Rightarrow> storage_object act" where
  "ann_upload env path \<equiv> upload_object env company_bucket path [1, 2, 3] (Some 1) None True None None (Some ann)"

lemma sample_refusal:
  "upload_refusal s3_env company_bucket ''a.bin'' [1, 2, 3] (Some 1) None True private_world = None"
proof -
  have "safe_object_path ''a.bin'' = Inr ''a.bin''" "find_object private_world company_bucket ''a.bin'' = None"
    "b_allowed_mime_types company_bucket = []" "upload_limit s3_env company_bucket = 20"
    "\<not> company_full s3_env 7 3 private_world" "b_company_id company_bucket = 7"
    by code_simp+
  moreover have "\<not> user_full s3_env 7 (Some 1) 3 private_world"
    by (simp add: user_full_def resolve_user_limit_def user_limit_exceeded_def company_quota_of_def
        company_quota_row_def with_company_quota_def get_or_create_company_quota_def user_quota_row_def sample_defs)
  ultimately show ?thesis by (simp add: upload_refusal_def mime_allowed_def)
qed

lemma sample_upload:
  assumes "\<forall>key. save_works env key [1, 2, 3] private_world"
    "upload_refusal env company_bucket path [1, 2, 3] (Some 1) None True private_world = None"
  shows "\<exists>obj w'. ann_upload env path private_world = (Inr obj, w')"
proof -
  have "b_id company_bucket \<in> b_id ` set (w_buckets private_world)" by (simp add: sample_defs)
  from upload_decides [OF private_world_known private_world_supply this assms(1), of path "Some 1" None True None None "Some ann"]
  show ?thesis using assms(2)
    by (cases "ann_upload env path private_world"; cases "fst (ann_upload env path private_world)") (auto simp: wp_def)
qed


lemma sample_upload_s3: "\<exists>obj w'. ann_upload s3_env ''a.bin'' private_world = (Inr obj, w')"
  using sample_saves by (intro sample_upload sample_refusal) blast


lemma upload_download_roundtrip_witness:
  "\<exists>obj w' d w''. ann_upload s3_env ''a.bin'' private_world = (Inr obj, w') \<and>
     build_download_response s3_env obj False None w' = (Inr d, w'') \<and> d_body d = [1, 2, 3]"
proof -
  obtain obj w' where r: "ann_upload s3_env ''a.bin'' private_world = (Inr obj, w')" using sample_upload_s3 by blast
  have "overwrites s3_env \<or> renames s3_env \<and> w_blobs private_world (o_storage_key obj) = None"
    using s3_env_overwrites by blast
  then show ?thesis
    using upload_download_roundtrip [OF private_world_known s3_env_reads_back r, of False None] r by blast
qed

text \<open>Ann overwrites the private file on the file system backend; Bob would do the same on S3.\<close>

abbreviation plan_upload :: "env \<Rightarrow> int \<Rightarrow> storage_object act" where
  "plan_upload env u \<equiv> upload_object env company_bucket ''secret/plan.txt'' [1, 2, 3] (Some u) None True None None None"

lemma plan_found: "find_object private_world company_bucket ''secret/plan.txt'' = Some secret_file"
  by (simp add: find_object_def sample_defs)

lemma plan_path: "safe_object_path ''secret/plan.txt'' = Inr ''secret/plan.txt''"
  by code_simp

lemma plan_runs:
  assumes "upload_limit env company_bucket = 20" "\<forall>key. save_works env key [1, 2, 3] private_world"
  shows "\<exists>obj w'. plan_upload env u private_world = (Inr obj, w')"
proof -
  have ok: "upload_refusal env company_bucket ''secret/plan.txt'' [1, 2, 3] (Some u) None True private_world = None"
    using assms(1) by (simp add: upload_refusal_def plan_path plan_found mime_allowed_def) (simp add: sample_defs)
  have "b_id company_bucket \<in> b_id ` set (w_buckets private_world)" by (simp add: sample_defs)
  from upload_decides [OF private_world_known private_world_supply this assms(2), of "''secret/plan.txt''" "Some u" None True None None None]
  show ?thesis using ok
    by (cases "plan_upload env u private_world"; cases "fst (plan_upload env u private_world)") (auto simp: wp_def)
qed

lemma fs_saves_plan: "\<forall>key. save_works fs_env key [1, 2, 3] private_world"
  by (auto simp: save_works_def fs_env_def private_world_def blob_key_def digit_char_def)

lemma overwrite_lost_on_filesystem_witness:
  "\<exists>obj w' d w''. plan_upload fs_env 1 private_world = (Inr obj, w') \<and>
     build_download_response fs_env obj False None w' = (Inr d, w'') \<and> d_body d = [1, 2, 3, 4, 5] \<and> d_length d = 3"
proof -
  have "upload_limit fs_env company_bucket = 20" by code_simp
  then obtain obj w' where r: "plan_upload fs_env 1 private_world = (Inr obj, w')"
    using plan_runs fs_saves_plan by blast
  have "o_name obj = ''secret/plan.txt''" using upload_stored [OF r] plan_path by auto
  moreover have "w_blobs private_world (o_storage_key secret_file) = Some [1, 2, 3, 4, 5]"
    by (simp add: sample_defs)
  ultimately show ?thesis
    using overwrite_lost_on_filesystem [OF private_world_known fs_env_reads_back fs_env_renames r, of secret_file _ False None]
      plan_found r by auto
qed

lemma overwrite_keeps_old_owner_charged_witness:
  "\<exists>obj w'. plan_upload s3_env 2 private_world = (Inr obj, w') \<and> o_owner_id obj = Some 2 \<and>
     owner_bytes 7 1 (w_objects private_world) = 5 \<and> owner_bytes 7 1 (w_objects w') = 0"
proof -
  have "upload_limit s3_env company_bucket = 20" by code_simp
  then obtain obj w' where r: "plan_upload s3_env 2 private_world = (Inr obj, w')"
    using plan_runs sample_saves by blast
  have "o_name obj = ''secret/plan.txt''" using upload_stored [OF r] plan_path by auto
  moreover have "o_owner_id secret_file = Some 1" "o_size secret_file = 5" "b_company_id company_bucket = 7"
    "owner_bytes 7 1 (w_objects private_world) = 5" by (simp_all add: sample_defs owner_bytes_def)
  ultimately show ?thesis
    using overwrite_keeps_old_owner_charged [OF private_world_known r, of secret_file 1] plan_found r by auto
qed


end
