(* ===== verification/Removal.thy ===== *)
theory Removal
  imports Upload
begin

text \<open>
  \<open>apps/storage/services.py\<close>, removal: one object, a list of paths, everything under a folder
  prefix, a whole bucket. A removal deletes the row (grants and share links go with it), then
  the blob, then adjusts the counters and sends the event; the loops first check the access
  to every object. \<open>erase\<close> is the effect of one removal on the database, \<open>wp_delete_object\<close>
  the rule that every property here rests on.
\<close>

section \<open>Operations\<close>

definition delete_object :: "env \<Rightarrow> storage_object \<Rightarrow> principal option \<Rightarrow> unit act" where
  "delete_object env obj request = atomic (
     bindE (gets (\<lambda>w. bucket_name_of w (o_bucket obj))) (\<lambda>bucket_name.
     seqE (delete_object_row (o_id obj))
     (seqE (delete_storage_key env (o_storage_key obj))
     (seqE (apply_usage_delta env (o_company_id obj) (o_owner_id obj) (- o_size obj))
     (actions_on_object_deleted bucket_name (o_name obj) (o_company_id obj) (o_mime_type obj) (o_size obj) request)))))"

text \<open>One step of the first loop of \<open>delete_paths\<close>: \<open>None\<close> is a \<open>continue\<close>.\<close>

definition select_path :: "bucket \<Rightarrow> principal \<Rightarrow> string \<Rightarrow> (string \<times> storage_object) option act" where
  "select_path bucket p raw =
     (case safe_object_path raw of Inl _ \<Rightarrow> ret None
      | Inr name \<Rightarrow>
         bindE (gets (\<lambda>w. find_object w bucket name)) (\<lambda>found.
           case found of None \<Rightarrow> ret None
           | Some obj \<Rightarrow>
               seqE (assert_can_access_path p bucket name (Some (o_id obj)) True False) (ret (Some (name, obj)))))"

definition delete_all :: "env \<Rightarrow> storage_object list \<Rightarrow> principal option \<Rightarrow> unit act" where
  "delete_all env objs request = forE objs (\<lambda>obj. delete_object env obj request)"

definition delete_paths :: "env \<Rightarrow> bucket \<Rightarrow> string list \<Rightarrow> principal \<Rightarrow> principal option \<Rightarrow> string list act" where
  "delete_paths env bucket paths p request = atomic (
     bindE (mapE (select_path bucket p) paths) (\<lambda>selected.
     let to_delete = List.map_filter id selected in
     seqE (delete_all env (map snd to_delete) request) (ret (map fst to_delete))))"

definition prefix_filter :: "string \<Rightarrow> string" where
  "prefix_filter folder_path =
     (let pre = strip_slashes folder_path in if pre = [] then [] else pre @ [slash])"

text \<open>The rows come in the order of the model, by name.\<close>

definition objects_under_prefix :: "world \<Rightarrow> bucket \<Rightarrow> string \<Rightarrow> storage_object list" where
  "objects_under_prefix w bucket folder_path =
     sort_key o_name (filter (\<lambda>obj. o_bucket obj = b_id bucket \<and> prefix (prefix_filter folder_path) (o_name obj))
       (w_objects w))"

definition bucket_files :: "world \<Rightarrow> bucket \<Rightarrow> storage_object list" where
  "bucket_files w bucket = sort_key o_name (filter (\<lambda>obj. o_bucket obj = b_id bucket) (w_objects w))"

definition assert_can_write_all :: "bucket \<Rightarrow> principal \<Rightarrow> storage_object list \<Rightarrow> unit act" where
  "assert_can_write_all bucket p objs =
     forE objs (\<lambda>obj. assert_can_access_path p bucket (o_name obj) (Some (o_id obj)) True False)"

definition delete_under_prefix :: "env \<Rightarrow> bucket \<Rightarrow> string \<Rightarrow> principal \<Rightarrow> principal option \<Rightarrow> string list act" where
  "delete_under_prefix env bucket folder_path p request = atomic (
     bindE (gets (\<lambda>w. objects_under_prefix w bucket folder_path)) (\<lambda>objs.
     seqE (assert_can_write_all bucket p objs)
     (seqE (delete_all env objs request) (ret (map o_name objs)))))"

definition empty_bucket :: "env \<Rightarrow> bucket \<Rightarrow> principal \<Rightarrow> principal option \<Rightarrow> unit act" where
  "empty_bucket env bucket p request = atomic (
     bindE (gets (\<lambda>w. bucket_files w bucket)) (\<lambda>objs.
     seqE (assert_can_write_all bucket p objs) (delete_all env objs request)))"

section \<open>One removal\<close>

definition without_object :: "uuid \<Rightarrow> world \<Rightarrow> world" where
  "without_object i w = w\<lparr>
     w_objects := delete_where (\<lambda>x. o_id x = i) (w_objects w),
     w_grants := delete_where (\<lambda>g. g_object g = Some i) (w_grants w),
     w_links := delete_where (\<lambda>l. l_object l = i) (w_links w)\<rparr>"

definition erase :: "env \<Rightarrow> storage_object \<Rightarrow> world \<Rightarrow> world" where
  "erase env obj w = charge env (o_company_id obj) (o_owner_id obj) (- o_size obj) (without_object (o_id obj) w)"

lemma erase_fields [simp]:
  "w_objects (erase env obj w) = delete_where (\<lambda>x. o_id x = o_id obj) (w_objects w)"
  "w_grants (erase env obj w) = delete_where (\<lambda>g. g_object g = Some (o_id obj)) (w_grants w)"
  "w_links (erase env obj w) = delete_where (\<lambda>l. l_object l = o_id obj) (w_links w)"
  "w_buckets (erase env obj w) = w_buckets w" "w_blobs (erase env obj w) = w_blobs w"
  "w_clock (erase env obj w) = w_clock w" "w_next_uuid (erase env obj w) = w_next_uuid w"
  by (simp_all add: erase_def without_object_def)

lemma company_used_without [simp]: "company_used (without_object i w) c = company_used w c"
  by (simp add: company_used_def company_quota_row_def without_object_def)

lemma company_used_erase:
  "company_used (erase env obj w) c =
     (if c = o_company_id obj \<and> o_size obj \<noteq> 0 then max 0 (company_used w c - o_size obj) else company_used w c)"
  by (auto simp: erase_def company_used_charge)

lemma delete_row_run: "delete_object_row i w = (Inr (), without_object i w)"
  by (simp add: delete_object_row_def modify_def without_object_def)

text \<open>The blob calls of a removal, and what they leave.\<close>

lemma delete_key_cases:
  "\<exists>r bl. delete_storage_key env k w = (r, w\<lparr>w_blobs := bl\<rparr>)"
proof -
  obtain r w' where run: "delete_storage_key env k w = (r, w')" by fastforce
  then have "same_db w w'" using delete_storage_key_db keepsD by metis
  then show ?thesis using run by (auto simp: same_db_def)
qed

lemma rollback_blobs: "rollback w (without_object i w\<lparr>w_blobs := bl\<rparr>) = w\<lparr>w_blobs := bl\<rparr>"
  by (simp add: rollback_def without_object_def)

lemma charge_blobs: "charge env c u d (w\<lparr>w_blobs := bl\<rparr>) = (charge env c u d w)\<lparr>w_blobs := bl\<rparr>"
  by (simp add: charge_def company_quota_of_def with_company_quota_def get_or_create_company_quota_def
      charge_user_def add_company_usage_def resolve_user_limit_def user_quota_row_def add_user_usage_def
      create_user_quota_def company_quota_row_def split: option.splits prod.splits)

lemma deleted_signal_run:
  "\<exists>ev. actions_on_object_deleted b n c m s r w = (Inr (), w\<lparr>w_events := ev\<rparr>)"
proof (cases "is_folder_placeholder n")
  case True
  then have "actions_on_object_deleted b n c m s r w = (Inr (), w\<lparr>w_events := w_events w\<rparr>)"
    by (simp add: actions_on_object_deleted_def ret_def)
  then show ?thesis by blast
qed (auto simp: actions_on_object_deleted_def emit_event_def modify_def)

text \<open>A removal either fails in the blob store and leaves the database as it was, or erases.\<close>

lemma delete_object_cases:
  obtains (Failed) e bl where "delete_object env obj req w = (Inl e, w\<lparr>w_blobs := bl\<rparr>)"
      "delete_storage_key env (o_storage_key obj) (without_object (o_id obj) w) = (Inl e, without_object (o_id obj) w\<lparr>w_blobs := bl\<rparr>)"
  | (Done) bl ev where "delete_object env obj req w = (Inr (), (erase env obj w)\<lparr>w_blobs := bl, w_events := ev\<rparr>)"
      "delete_storage_key env (o_storage_key obj) (without_object (o_id obj) w) = (Inr (), without_object (o_id obj) w\<lparr>w_blobs := bl\<rparr>)"
proof -
  let ?v = "without_object (o_id obj) w"
  obtain r bl where del: "delete_storage_key env (o_storage_key obj) ?v = (r, ?v\<lparr>w_blobs := bl\<rparr>)"
    using delete_key_cases by blast
  show ?thesis
  proof (cases r)
    case (Inl e)
    then have "delete_object env obj req w = (Inl e, w\<lparr>w_blobs := bl\<rparr>)"
      using del by (simp add: delete_object_def atomic_def bindE_def seqE_def gets_def delete_row_run rollback_blobs)
    then show ?thesis using del Inl that(1) by blast
  next
    case (Inr u)
    let ?c = "charge env (o_company_id obj) (o_owner_id obj) (- o_size obj) (?v\<lparr>w_blobs := bl\<rparr>)"
    have "?c = (erase env obj w)\<lparr>w_blobs := bl\<rparr>"
      by (simp only: erase_def charge_blobs)
    moreover obtain ev where
      "actions_on_object_deleted (bucket_name_of w (o_bucket obj)) (o_name obj) (o_company_id obj)
         (o_mime_type obj) (o_size obj) req ?c = (Inr (), ?c\<lparr>w_events := ev\<rparr>)"
      using deleted_signal_run by blast
    ultimately have "delete_object env obj req w = (Inr (), (erase env obj w)\<lparr>w_blobs := bl, w_events := ev\<rparr>)"
      using del Inr by (simp add: delete_object_def atomic_def bindE_def seqE_def gets_def delete_row_run apply_usage_delta_eq)
    then show ?thesis using del Inr that(2) by simp
  qed
qed

lemma wp_delete_object:
  assumes "\<And>bl ev. Q () ((erase env obj w)\<lparr>w_blobs := bl, w_events := ev\<rparr>)" "\<And>e bl. R e (w\<lparr>w_blobs := bl\<rparr>)"
  shows "wp (delete_object env obj req) Q R w"
  by (cases rule: delete_object_cases [of env obj req w]) (simp_all add: wp_def assms)

lemma erase_sound:
  assumes "sound w" "obj \<in> set (w_objects w)"
  shows "sound (erase env obj w)"
proof -
  let ?v = "without_object (o_id obj) w"
  have ids: "distinct (map o_id (w_objects w))" using assms(1) by (simp add: sound_def schema_ok_def)
  have "schema_ok ?v"
    using maintains_wp [OF schema_delete_object, of w "o_id obj"] assms(1)
    by (simp add: wp_def delete_row_run sound_def)
  moreover have t: "tenant_ok ?v"
    using assms(1) by (auto simp: sound_def tenant_ok_def local_defs without_object_def)
  moreover have "exact (erase env obj w)"
    unfolding erase_def
  proof (rule exact_charge)
    show "0 \<le> company_bytes (o_company_id obj) (w_objects ?v)" using t by (rule company_bytes_nonneg)
    show "company_used ?v c + (if c = o_company_id obj then - o_size obj else 0) = company_bytes c (w_objects ?v)" for c
      using sum_rows_delete_key [OF ids assms(2), of "\<lambda>x. if o_company_id x = c then o_size x else 0"] assms(1)
      by (auto simp: company_bytes_def sound_def exact_def without_object_def company_used_def company_quota_row_def)
  qed
  ultimately show ?thesis by (simp add: sound_def erase_def schema_charge)
qed

lemma sound_effects [simp]: "sound (w\<lparr>w_blobs := bl\<rparr>) = sound w" "sound (w\<lparr>w_events := ev\<rparr>) = sound w"
  by (simp_all add: sound_def schema_ok_def grant_shape_def tenant_ok_def local_defs exact_def company_used_def
      company_quota_row_def)

section \<open>Removing a list of objects\<close>

lemma delete_all_rows:
  assumes "distinct (map o_id objs)" "set objs \<subseteq> set (w_objects w)" "sound w"
  shows "wp (delete_all env objs req)
     (\<lambda>_ w'. sound w' \<and> w_buckets w' = w_buckets w \<and>
        w_objects w' = filter (\<lambda>x. o_id x \<notin> o_id ` set objs) (w_objects w) \<and>
        w_grants w' = filter (\<lambda>g. g_object g \<notin> Some ` o_id ` set objs) (w_grants w) \<and>
        w_links w' = filter (\<lambda>l. l_object l \<notin> o_id ` set objs) (w_links w))
     (\<lambda>_ w'. sound w' \<and> w_buckets w' = w_buckets w) w"
  using assms
proof (induction objs arbitrary: w)
  case Nil
  then show ?case by (simp add: delete_all_def wp_ret)
next
  case (Cons obj objs)
  let ?step = "\<lambda>bl ev. (erase env obj w)\<lparr>w_blobs := bl, w_events := ev\<rparr>"
  have s: "sound (?step bl ev)" for bl ev
    using Cons.prems by (simp add: erase_sound)
  have "o_id x \<noteq> o_id obj" if "x \<in> set objs" for x
    using Cons.prems(1) that by (metis distinct.simps(2) image_eqI list.map(2) list.set_map)
  then have sub: "set objs \<subseteq> set (w_objects (?step bl ev))" for bl ev
    using Cons.prems by auto
  have rest: "wp (delete_all env objs req)
     (\<lambda>_ w'. sound w' \<and> w_buckets w' = w_buckets w \<and>
        w_objects w' = filter (\<lambda>x. o_id x \<notin> o_id ` set (obj # objs)) (w_objects w) \<and>
        w_grants w' = filter (\<lambda>g. g_object g \<notin> Some ` o_id ` set (obj # objs)) (w_grants w) \<and>
        w_links w' = filter (\<lambda>l. l_object l \<notin> o_id ` set (obj # objs)) (w_links w))
     (\<lambda>_ w'. sound w' \<and> w_buckets w' = w_buckets w) (?step bl ev)" for bl ev
    using Cons.prems(1)
    by (intro wp_mono [OF Cons.IH [OF _ sub s]])
      (force simp: delete_where_def conj_commute cong: filter_cong)+
  show ?case
    unfolding delete_all_def forE.simps wp_seqE
    by (rule wp_delete_object) (use rest Cons.prems in \<open>simp_all add: delete_all_def\<close>)
qed

lemma objects_under_prefix_set:
  "set (objects_under_prefix w b path) =
     {obj \<in> set (w_objects w). o_bucket obj = b_id b \<and> prefix (prefix_filter path) (o_name obj)}"
  by (auto simp: objects_under_prefix_def)

lemma distinct_selection:
  "schema_ok w \<Longrightarrow> distinct (map o_id (sort_key o_name (filter P (w_objects w))))"
proof -
  assume "schema_ok w"
  then have "distinct (map o_id (filter P (w_objects w)))" by (simp add: schema_ok_def distinct_map_filter)
  then show ?thesis by (simp add: distinct_map)
qed

section \<open>The checks in front of a removal\<close>

lemma assert_all_run:
  "assert_can_write_all b p objs w =
     (if \<forall>obj \<in> set objs. can_access_path w p b (o_name obj) (Some (o_id obj)) True False then Inr ()
      else Inl (StorageErr 403 ''path_access_denied''), w)"
  by (induction objs)
    (simp_all add: assert_can_write_all_def ret_def seqE_def bindE_def assert_can_access_path_def gets_def guardE_def throw_def)

definition found_path :: "world \<Rightarrow> bucket \<Rightarrow> string \<Rightarrow> (string \<times> storage_object) option" where
  "found_path w bucket raw =
     (case safe_object_path raw of Inl _ \<Rightarrow> None
      | Inr name \<Rightarrow> map_option (Pair name) (find_object w bucket name))"

definition may_delete :: "world \<Rightarrow> principal \<Rightarrow> bucket \<Rightarrow> string \<Rightarrow> bool" where
  "may_delete w p bucket raw =
     (case found_path w bucket raw of None \<Rightarrow> True
      | Some (name, obj) \<Rightarrow> can_access_path w p bucket name (Some (o_id obj)) True False)"

lemma select_path_run:
  "select_path b p raw w =
     (if may_delete w p b raw then Inr (found_path w b raw) else Inl (StorageErr 403 ''path_access_denied''), w)"
  by (simp add: select_path_def may_delete_def found_path_def ret_def bindE_def gets_def seqE_def
      assert_can_access_path_def guardE_def throw_def split: sum.splits option.splits)

lemma select_paths_run:
  "mapE (select_path b p) paths w =
     (if \<forall>raw \<in> set paths. may_delete w p b raw then Inr (map (found_path w b) paths)
      else Inl (StorageErr 403 ''path_access_denied''), w)"
  by (induction paths) (simp_all add: select_path_run bindE_def ret_def)

lemma rollback_same: "rollback w w = w"
  by (simp add: rollback_def)

lemma find_object_self:
  "schema_ok w \<Longrightarrow> obj \<in> set (w_objects w) \<Longrightarrow> o_bucket obj = b_id b \<Longrightarrow> find_object w b (o_name obj) = Some obj"
proof -
  assume w: "schema_ok w" and obj: "obj \<in> set (w_objects w)" "o_bucket obj = b_id b"
  then have "first_where (\<lambda>x. object_key x = object_key obj) (w_objects w) = Some obj"
    by (intro first_where_key) (simp_all add: schema_ok_def)
  then show ?thesis using obj by (simp add: find_object_def object_key_def)
qed

section \<open>Blobs\<close>

lemma delete_key_removes:
  "removes env \<Longrightarrow> delete_storage_key env k w = (Inr (), w') \<Longrightarrow> w_blobs w' = (w_blobs w)(k := None)"
proof -
  assume env: "removes env" and run: "delete_storage_key env k w = (Inr (), w')"
  have has: "storage_has env k bl = Inr (k \<in> dom bl)" for bl using env by (simp add: removes_def)
  show ?thesis
  proof (cases "k \<in> dom (w_blobs w)")
    case True
    then obtain bl where "storage_delete env k (w_blobs w) = (Inr (), bl)" "w' = w\<lparr>w_blobs := bl\<rparr>"
      using run by (auto simp: delete_storage_key_def storage_exists_def bindE_def has split: sum.splits prod.splits)
    then show ?thesis using env by (simp add: removes_def)
  next
    case False
    then have "w' = w" using run by (simp add: delete_storage_key_def storage_exists_def bindE_def has ret_def)
    then show ?thesis using False by (auto simp: fun_eq_iff dom_def)
  qed
qed

lemma delete_all_blobs:
  "removes env \<Longrightarrow> delete_all env objs req w = (Inr (), w') \<Longrightarrow>
   w_blobs w' = w_blobs w |` (- o_storage_key ` set objs)"
proof (induction objs arbitrary: w)
  case Nil
  then show ?case by (simp add: delete_all_def ret_def)
next
  case (Cons obj objs)
  show ?case
  proof (cases rule: delete_object_cases [of env obj req w])
    case (Failed e bl)
    then show ?thesis using Cons.prems by (simp add: delete_all_def seqE_def bindE_def)
  next
    case (Done bl ev)
    let ?v = "(erase env obj w)\<lparr>w_blobs := bl, w_events := ev\<rparr>"
    have "bl = (w_blobs w)(o_storage_key obj := None)"
      using delete_key_removes [OF Cons.prems(1) Done(2)] by (simp add: without_object_def)
    moreover have "delete_all env objs req ?v = (Inr (), w')"
      using Cons.prems(2) Done(1) by (simp add: delete_all_def seqE_def bindE_def)
    then have "w_blobs w' = bl |` (- o_storage_key ` set objs)"
      using Cons.IH [OF Cons.prems(1), of ?v] by simp
    ultimately show ?thesis by (auto simp: restrict_map_def fun_eq_iff)
  qed
qed

section \<open>What a folder removal does\<close>

lemma delete_under_prefix_Inr:
  "delete_under_prefix env b path p req w = (Inr names, w') \<longleftrightarrow>
     (\<forall>obj \<in> set (objects_under_prefix w b path). can_access_path w p b (o_name obj) (Some (o_id obj)) True False) \<and>
     delete_all env (objects_under_prefix w b path) req w = (Inr (), w') \<and>
     names = map o_name (objects_under_prefix w b path)"
  by (auto simp: delete_under_prefix_def run_Inr assert_all_run split: if_splits)

lemma map_sort_key: "map f (sort_key f xs) = sort (map f xs)"
proof -
  have "map f (insort_key f x ys) = insort (f x) (map f ys)" for x ys by (induction ys) auto
  then show ?thesis by (induction xs) simp_all
qed

text \<open>
  What deleting a folder does: when the request succeeds, the caller may write to every
  object under the prefix, the answer lists their names, exactly those objects are gone from
  the table and their blobs from the store, every other object and blob is still there, and
  the counters agree with the rows that are left.
\<close>

theorem delete_under_prefix_exact:
  assumes "sound w" "removes env" "delete_under_prefix env b path p req w = (Inr names, w')"
  defines "gone \<equiv> \<lambda>obj. o_bucket obj = b_id b \<and>
     (strip_slashes path = [] \<or> prefix (strip_slashes path @ [slash]) (o_name obj))"
  shows "(\<forall>obj \<in> set (w_objects w). gone obj \<longrightarrow>
            can_access_path w p b (o_name obj) (Some (o_id obj)) True False) \<and>
     names = sort (map o_name (filter gone (w_objects w))) \<and>
     w_objects w' = filter (\<lambda>obj. \<not> gone obj) (w_objects w) \<and>
     w_blobs w' = w_blobs w |` (- o_storage_key ` set (filter gone (w_objects w))) \<and> sound w'"
proof -
  let ?objs = "objects_under_prefix w b path"
  have objs: "?objs = sort_key o_name (filter gone (w_objects w))"
    by (simp add: objects_under_prefix_def prefix_filter_def gone_def Let_def)
  have run: "delete_all env ?objs req w = (Inr (), w')" using assms(3) by (simp add: delete_under_prefix_Inr)
  have schema: "schema_ok w" using assms(1) by (simp add: sound_def)
  have "distinct (map o_id ?objs)" using distinct_selection [OF schema] by (simp add: objects_under_prefix_def)
  moreover have sub: "set ?objs = set (filter gone (w_objects w))" by (auto simp: objs)
  ultimately have post: "sound w'" "w_objects w' = filter (\<lambda>x. o_id x \<notin> o_id ` set ?objs) (w_objects w)"
    using wp_Inr [OF delete_all_rows run] assms(1) by auto
  have "o_id x \<in> o_id ` set ?objs \<longleftrightarrow> gone x" if "x \<in> set (w_objects w)" for x
    using that sub distinct_key_unique [of o_id "w_objects w" x] schema by (auto simp: schema_ok_def)
  then have "w_objects w' = filter (\<lambda>x. \<not> gone x) (w_objects w)"
    unfolding post(2) by (intro filter_cong) auto
  moreover have "w_blobs w' = w_blobs w |` (- o_storage_key ` set ?objs)"
    by (rule delete_all_blobs [OF assms(2) run])
  ultimately show ?thesis
    using assms(3) post(1) by (simp add: delete_under_prefix_Inr sub map_sort_key [of o_name] objs)
qed

section \<open>Refused and failed removals\<close>

text \<open>
  C8. All or nothing: one object the caller may not write to refuses the whole request. Emptying
  the bucket, deleting a folder that contains the object, and deleting a list of paths one of
  which names it all answer 403, and nothing at all has changed, in the database or in the store.
\<close>

theorem denied_removal_changes_nothing:
  assumes "schema_ok w" "obj \<in> set (w_objects w)" "o_bucket obj = b_id b"
    "\<not> can_access_path w p b (o_name obj) (Some (o_id obj)) True False"
  shows "empty_bucket env b p req w = (Inl (StorageErr 403 ''path_access_denied''), w) \<and>
     (prefix (prefix_filter path) (o_name obj) \<longrightarrow>
        delete_under_prefix env b path p req w = (Inl (StorageErr 403 ''path_access_denied''), w)) \<and>
     ((\<exists>raw \<in> set paths. safe_object_path raw = Inr (o_name obj)) \<longrightarrow>
        delete_paths env b paths p req w = (Inl (StorageErr 403 ''path_access_denied''), w))"
proof -
  let ?e = "StorageErr 403 ''path_access_denied''"
  have refuse: "assert_can_write_all b p objs w = (Inl ?e, w)" if "obj \<in> set objs" for objs
    using that assms(4) by (auto simp: assert_all_run)
  have "obj \<in> set (bucket_files w b)" using assms(2,3) by (simp add: bucket_files_def)
  then have "empty_bucket env b p req w = (Inl ?e, w)"
    by (simp add: empty_bucket_def atomic_def bindE_def gets_def seqE_def refuse rollback_same)
  moreover have "delete_under_prefix env b path p req w = (Inl ?e, w)" if "prefix (prefix_filter path) (o_name obj)"
  proof -
    have "obj \<in> set (objects_under_prefix w b path)" using that assms(2,3) by (simp add: objects_under_prefix_set)
    then show ?thesis
      by (simp add: delete_under_prefix_def atomic_def bindE_def gets_def seqE_def refuse rollback_same)
  qed
  moreover have "delete_paths env b paths p req w = (Inl ?e, w)"
    if raw: "raw \<in> set paths" "safe_object_path raw = Inr (o_name obj)" for raw
  proof -
    have "\<not> may_delete w p b raw"
      using raw(2) assms(4) find_object_self [OF assms(1-3)] by (simp add: may_delete_def found_path_def)
    then have "mapE (select_path b p) paths w = (Inl ?e, w)" using raw(1) by (auto simp: select_paths_run)
    then show ?thesis by (simp add: delete_paths_def atomic_def bindE_def rollback_same)
  qed
  ultimately show ?thesis by blast
qed

text \<open>
  A folder removal that fails half-way loses data. The deletion runs in one transaction, but
  the blob store is not part of it: when the blob of the second object cannot be deleted, the
  request fails and every row is restored, while the blob of the first object is gone. The row
  is left without its bytes.
\<close>

theorem failed_removal_loses_blobs:
  assumes "sound w" "removes env" "objects_under_prefix w b path = [o1, o2]"
    "can_access_path w p b (o_name o1) (Some (o_id o1)) True False"
    "can_access_path w p b (o_name o2) (Some (o_id o2)) True False"
    "o_storage_key o1 \<noteq> o_storage_key o2" "o_storage_key o2 \<in> dom (w_blobs w)"
    "\<And>bl. \<exists>bl'. storage_delete env (o_storage_key o1) bl = (Inr (), bl')"
    "\<And>bl. storage_delete env (o_storage_key o2) bl = (Inl code, bl)"
  shows "delete_under_prefix env b path p req w =
     (Inl (BlobErr code), w\<lparr>w_blobs := (w_blobs w)(o_storage_key o1 := None)\<rparr>)"
proof -
  have has: "storage_has env k bl = Inr (k \<in> dom bl)" for k bl using assms(2) by (simp add: removes_def)
  have "\<exists>w'. delete_storage_key env (o_storage_key o1) v = (Inr (), w')" for v
  proof -
    obtain bl where "storage_delete env (o_storage_key o1) (w_blobs v) = (Inr (), bl)" using assms(8) by blast
    then show ?thesis by (simp add: delete_storage_key_def storage_exists_def bindE_def ret_def has)
  qed
  then have "\<not> (\<exists>e v. delete_storage_key env (o_storage_key o1) (without_object (o_id o1) w) = (Inl e, v))"
    by (metis Pair_inject sum.distinct(1))
  then obtain bl ev where first: "delete_object env o1 req w = (Inr (), (erase env o1 w)\<lparr>w_blobs := bl, w_events := ev\<rparr>)"
    and gone: "delete_storage_key env (o_storage_key o1) (without_object (o_id o1) w) =
      (Inr (), without_object (o_id o1) w\<lparr>w_blobs := bl\<rparr>)"
    by (cases rule: delete_object_cases [of env o1 req w]) auto
  have bl: "bl = (w_blobs w)(o_storage_key o1 := None)"
    using delete_key_removes [OF assms(2) gone] by (simp add: without_object_def)
  let ?v = "(erase env o1 w)\<lparr>w_blobs := bl, w_events := ev\<rparr>"
  have fails: "delete_storage_key env (o_storage_key o2) u = (Inl (BlobErr code), u)" if "w_blobs u = bl" for u
    using that bl assms(6,7,9) by (auto simp: delete_storage_key_def storage_exists_def bindE_def has)
  have "delete_object env o2 req ?v = (Inl (BlobErr code), ?v)"
    by (simp add: delete_object_def atomic_def bindE_def seqE_def gets_def delete_row_run fails without_object_def
        rollback_def)
  then have "delete_all env [o1, o2] req w = (Inl (BlobErr code), ?v)"
    using first by (simp add: delete_all_def seqE_def bindE_def)
  then show ?thesis
    using assms(3-5) bl
    by (simp add: delete_under_prefix_def atomic_def bindE_def gets_def seqE_def assert_all_run rollback_def)
qed

section \<open>Removals keep the invariant\<close>

lemma sound_stable [simp]: "sound (rollback w w') = sound w"
  using stable_rollback [OF stable_sound] .

lemma delete_object_sound:
  "sound w \<Longrightarrow> obj \<in> set (w_objects w) \<Longrightarrow> wp (delete_object env obj req) (\<lambda>_. sound) (\<lambda>_. sound) w"
  by (rule wp_delete_object) (simp_all add: erase_sound)

lemma delete_all_sound:
  assumes "distinct (map o_id objs)" "set objs \<subseteq> set (w_objects w)" "sound w"
  shows "wp (delete_all env objs req) (\<lambda>_. sound) (\<lambda>_. sound) w"
  by (rule wp_mono [OF delete_all_rows [OF assms]]) simp_all

lemma assert_all_wp:
  "Q () w \<Longrightarrow> R (StorageErr 403 ''path_access_denied'') w \<Longrightarrow> wp (assert_can_write_all b p objs) Q R w"
  by (simp add: wp_def assert_all_run)

lemma delete_under_prefix_sound: "maintains sound (delete_under_prefix env b path p req)"
proof (intro maintainsI)
  fix w
  assume w: "sound w"
  have "wp (delete_all env (objects_under_prefix w b path) req) (\<lambda>_. sound) (\<lambda>_. sound) w"
    using w distinct_selection
    by (intro delete_all_sound) (auto simp: objects_under_prefix_def sound_def)
  then show "wp (delete_under_prefix env b path p req) (\<lambda>_. sound) (\<lambda>_. sound) w"
    using w unfolding delete_under_prefix_def wp_atomic wp_bindE wp_gets wp_seqE wp_ret
    by (intro assert_all_wp) (auto elim: wp_mono)
qed

lemma empty_bucket_sound: "maintains sound (empty_bucket env b p req)"
proof (intro maintainsI)
  fix w
  assume w: "sound w"
  have "wp (delete_all env (bucket_files w b) req) (\<lambda>_. sound) (\<lambda>_. sound) w"
    using w distinct_selection
    by (intro delete_all_sound) (auto simp: bucket_files_def sound_def)
  then show "wp (empty_bucket env b p req) (\<lambda>_. sound) (\<lambda>_. sound) w"
    using w unfolding empty_bucket_def wp_atomic wp_bindE wp_gets wp_seqE
    by (intro assert_all_wp) (auto elim: wp_mono)
qed

text \<open>The list of paths: the invariant is kept when no object is named twice.\<close>

definition path_names :: "string list \<Rightarrow> string list" where
  "path_names paths =
     List.map_filter (\<lambda>raw. case safe_object_path raw of Inl _ \<Rightarrow> None | Inr name \<Rightarrow> Some name) paths"

definition selected_objects :: "world \<Rightarrow> bucket \<Rightarrow> string list \<Rightarrow> storage_object list" where
  "selected_objects w b paths = List.map_filter (find_object w b) (path_names paths)"

lemma map_filter_simps2:
  "List.map_filter f [] = []"
  "List.map_filter f (x # xs) = (case f x of None \<Rightarrow> List.map_filter f xs | Some y \<Rightarrow> y # List.map_filter f xs)"
  by (simp_all add: List.map_filter_def split: option.splits)

lemma selected_found:
  "map snd (List.map_filter id (map (found_path w b) paths)) = selected_objects w b paths"
  "map fst (List.map_filter id (map (found_path w b) paths)) = map o_name (selected_objects w b paths)"
  by (induction paths)
    (auto simp: map_filter_simps2 selected_objects_def path_names_def found_path_def
      dest: find_objectD split: sum.splits option.splits)

lemma selected_objects_rows:
  assumes "schema_ok w"
  shows "set (selected_objects w b paths) \<subseteq> set (w_objects w)"
    and "distinct (path_names paths) \<Longrightarrow> distinct (map o_id (selected_objects w b paths))"
proof -
  have sub: "set (List.map_filter (find_object w b) ns) \<subseteq> set (w_objects w)" for ns
    by (induction ns) (auto simp: map_filter_simps2 dest: find_objectD split: option.splits)
  have names: "o_name ` set (List.map_filter (find_object w b) ns) \<subseteq> set ns" for ns
    by (induction ns) (auto simp: map_filter_simps2 dest: find_objectD split: option.splits)
  have "distinct (map o_name (List.map_filter (find_object w b) ns))" if "distinct ns" for ns
    using that by (induction ns) (use names in \<open>auto simp: map_filter_simps2 dest: find_objectD split: option.splits\<close>)
  moreover have ids: "distinct (map o_id (w_objects w))" using assms by (simp add: schema_ok_def)
  moreover have "distinct (map o_id xs)" if "distinct (map o_name xs)" "set xs \<subseteq> set (w_objects w)" for xs
    using that distinct_key_unique [OF ids] by (auto simp: distinct_map inj_on_def) blast
  ultimately show "distinct (path_names paths) \<Longrightarrow> distinct (map o_id (selected_objects w b paths))"
    using sub by (simp add: selected_objects_def)
  show "set (selected_objects w b paths) \<subseteq> set (w_objects w)" using sub by (simp add: selected_objects_def)
qed

lemma wp_ret_eta: "wp (ret x) Q R = Q x"
  by (simp add: fun_eq_iff wp_ret)

lemma wp_delete_paths:
  assumes "\<forall>raw \<in> set paths. may_delete w p b raw \<Longrightarrow> wp (delete_all env (selected_objects w b paths) req)
      (\<lambda>_. Q (map o_name (selected_objects w b paths))) (\<lambda>e w'. R e (rollback w w')) w"
    and "R (StorageErr 403 ''path_access_denied'') w"
  shows "wp (delete_paths env b paths p req) Q R w"
  using assms
  unfolding delete_paths_def wp_atomic wp_bindE wp_def [of "mapE _ _"] Let_def
  by (simp add: select_paths_run wp_seqE selected_found rollback_same wp_ret_eta split: if_splits)

lemma delete_paths_sound:
  assumes "sound w" "distinct (path_names paths)"
  shows "wp (delete_paths env b paths p req) (\<lambda>_. sound) (\<lambda>_. sound) w"
proof (rule wp_delete_paths)
  have "wp (delete_all env (selected_objects w b paths) req) (\<lambda>_. sound) (\<lambda>_. sound) w"
    using assms selected_objects_rows [of w] by (intro delete_all_sound) (simp_all add: sound_def)
  then show "wp (delete_all env (selected_objects w b paths) req) (\<lambda>_. sound) (\<lambda>e w'. sound (rollback w w')) w"
    using assms(1) by (auto elim: wp_mono)
qed (rule assms(1))

section \<open>A path given twice\<close>

lemma delete_all_same:
  assumes "0 \<le> o_size obj" "0 \<le> company_used w (o_company_id obj)" "delete_all env (replicate n obj) req w = (Inr (), w')"
  shows "company_used w' (o_company_id obj) = max 0 (company_used w (o_company_id obj) - int n * o_size obj) \<and>
     w_objects w' = (if n = 0 then w_objects w else delete_where (\<lambda>x. o_id x = o_id obj) (w_objects w))"
  using assms(2,3)
proof (induction n arbitrary: w)
  case 0
  then show ?case by (simp add: delete_all_def ret_def)
next
  case (Suc n)
  show ?case
  proof (cases rule: delete_object_cases [of env obj req w])
    case (Failed e bl)
    then show ?thesis using Suc.prems by (simp add: delete_all_def seqE_def bindE_def)
  next
    case (Done bl ev)
    let ?v = "(erase env obj w)\<lparr>w_blobs := bl, w_events := ev\<rparr>"
    have used: "company_used ?v (o_company_id obj) = max 0 (company_used w (o_company_id obj) - o_size obj)"
      using company_used_erase [of env obj w "o_company_id obj"] Suc.prems(1)
      by (auto simp: company_used_def company_quota_row_def)
    have rest: "delete_all env (replicate n obj) req ?v = (Inr (), w')"
      using Suc.prems(2) Done(1) by (simp add: delete_all_def seqE_def bindE_def)
    have "0 \<le> int n * o_size obj" using assms(1) by simp
    then show ?thesis
      using Suc.IH [OF _ rest] used by (auto simp: delete_where_def algebra_simps max_def)
  qed
qed

text \<open>
  A path given twice is counted twice. When every path of the request normalises to the name
  of one object, the object is deleted once, and the usage counter of the company is
  lowered by its size once for every path: the counter no longer agrees with the bytes that are
  stored, and the quota check lets the company store more than its limit.
\<close>

theorem repeated_path_undercounts:
  assumes "sound w" "find_object w b name = Some obj" "paths \<noteq> []"
    "\<forall>raw \<in> set paths. safe_object_path raw = Inr name"
    "delete_paths env b paths p req w = (Inr names, w')"
  shows "company_used w' (o_company_id obj) =
       max 0 (company_used w (o_company_id obj) - int (length paths) * o_size obj) \<and>
     company_bytes (o_company_id obj) (w_objects w') = company_used w (o_company_id obj) - o_size obj"
proof -
  have obj: "obj \<in> set (w_objects w)" using find_objectD [OF assms(2)] by simp
  have "path_names xs = replicate (length xs) name" if "\<forall>raw \<in> set xs. safe_object_path raw = Inr name" for xs
    using that by (induction xs) (auto simp: path_names_def map_filter_simps2)
  moreover have "List.map_filter (find_object w b) (replicate n name) = replicate n obj" for n
    using assms(2) by (induction n) (simp_all add: map_filter_simps2)
  ultimately have "selected_objects w b paths = replicate (length paths) obj"
    using assms(4) by (simp add: selected_objects_def)
  then have run: "delete_all env (replicate (length paths) obj) req w = (Inr (), w')"
    using assms(5) by (auto simp: delete_paths_def run_Inr select_paths_run Let_def selected_found split: if_splits)
  have ids: "distinct (map o_id (w_objects w))" and t: "tenant_ok w" and "exact w"
    using assms(1) by (simp_all add: sound_def schema_ok_def)
  then have "0 \<le> o_size obj" "0 \<le> company_used w (o_company_id obj)"
    using obj company_bytes_nonneg [OF t] by (auto simp: tenant_ok_def object_local_def exact_def)
  then show ?thesis
    using delete_all_same [OF _ _ run] assms(3) sum_rows_delete_key [OF ids obj,
        of "\<lambda>x. if o_company_id x = o_company_id obj then o_size x else 0"] \<open>exact w\<close>
    by (simp add: company_bytes_def exact_def)
qed

section \<open>Instances\<close>

lemma private_world_sound: "sound private_world"
proof -
  have "schema_ok private_world" "tenant_ok private_world"
    by (simp_all add: schema_ok_def tenant_ok_def local_defs bucket_company_def sample_defs object_key_def
        grant_shape_def)
  moreover have "exact private_world"
    by (simp add: exact_def company_used_def company_quota_row_def company_bytes_def sample_defs)
  ultimately show ?thesis by (simp add: sound_def)
qed

lemma secret_objects: "objects_under_prefix private_world company_bucket ''secret/'' = [marker_row, secret_file]"
  by code_simp

lemma denied_removal_changes_nothing_witness:
  "empty_bucket s3_env company_bucket bob (Some bob) private_world =
     (Inl (StorageErr 403 ''path_access_denied''), private_world) \<and>
   delete_paths s3_env company_bucket [''a'', ''secret/./plan.txt''] bob (Some bob) private_world =
     (Inl (StorageErr 403 ''path_access_denied''), private_world)"
proof -
  have "\<not> can_access_path private_world bob company_bucket (o_name secret_file) (Some (o_id secret_file)) True False"
    "safe_object_path ''secret/./plan.txt'' = Inr (o_name secret_file)"
    by code_simp+
  moreover have "schema_ok private_world" using private_world_sound by (simp add: sound_def)
  moreover have "secret_file \<in> set (w_objects private_world)" "o_bucket secret_file = b_id company_bucket"
    by (simp_all add: sample_defs)
  ultimately show ?thesis
    using denied_removal_changes_nothing [of private_world secret_file company_bucket bob s3_env "Some bob" "[]"
        "[''a'', ''secret/./plan.txt'']"] by simp
qed

lemma delete_under_prefix_exact_witness:
  "\<exists>w'. delete_under_prefix s3_env company_bucket ''secret/'' ann (Some ann) private_world =
     (Inr [''secret/.emptyFolderPlaceholder'', ''secret/plan.txt''], w') \<and> w_objects w' = [] \<and>
     w_blobs w' (blob_key 3) = None \<and> sound w'"
proof -
  let ?run = "delete_under_prefix s3_env company_bucket ''secret/'' ann (Some ann) private_world"
  have "(case ?run of (Inl _, _) \<Rightarrow> False | (Inr _, _) \<Rightarrow> True)" by code_simp
  then obtain names w' where run: "?run = (Inr names, w')" by (auto split: prod.splits sum.splits)
  have "strip_slashes ''secret/'' = ''secret''" by code_simp
  then show ?thesis
    using delete_under_prefix_exact [OF private_world_sound s3_env_removes run] run by (simp add: sample_defs)
qed

text \<open>A store in which the blob of the private file cannot be deleted.\<close>

definition stuck_env :: env where
  "stuck_env = s3_env\<lparr>storage_delete := (\<lambda>k bl.
     if k = blob_key 3 then (Inl ''AccessDenied'', bl) else (Inr (), bl(k := None)))\<rparr>"

lemma failed_removal_loses_blobs_witness:
  "delete_under_prefix stuck_env company_bucket ''secret/'' ann None private_world =
     (Inl (BlobErr ''AccessDenied''), private_world\<lparr>w_blobs := (w_blobs private_world)(blob_key 2 := None)\<rparr>)"
proof -
  have "removes stuck_env" by (auto simp: removes_def stuck_env_def s3_env_def)
  moreover have "can_access_path private_world ann company_bucket (o_name marker_row) (Some (o_id marker_row)) True False"
    "can_access_path private_world ann company_bucket (o_name secret_file) (Some (o_id secret_file)) True False"
    by code_simp+
  moreover have "o_storage_key marker_row = blob_key 2" "o_storage_key secret_file = blob_key 3" "blob_key 2 \<noteq> blob_key 3"
    "blob_key 3 \<in> dom (w_blobs private_world)"
    by (simp_all add: sample_defs blob_key_def digit_char_def)
  ultimately show ?thesis
    using failed_removal_loses_blobs [OF private_world_sound, of stuck_env company_bucket "''secret/''" marker_row
        secret_file ann "''AccessDenied''" None] secret_objects
    by (simp add: stuck_env_def)
qed

text \<open>Two files of Bob's; deleting the first with its path given twice.\<close>

definition two_files :: world where
  "two_files = empty_world\<lparr>w_objects := [file_row 2 ''a'' 5 2, file_row 3 ''b'' 7 2],
     w_cquotas := [\<lparr>cq_company_id = 7, cq_max_bytes = 100, cq_used_bytes = 12, cq_max_bytes_per_user = None\<rparr>],
     w_blobs := [blob_key 2 \<mapsto> [1, 2, 3, 4, 5], blob_key 3 \<mapsto> [1, 2, 3, 4, 5, 6, 7]]\<rparr>"

lemma two_files_sound: "sound two_files"
proof -
  have "schema_ok two_files" "tenant_ok two_files"
    by (simp_all add: two_files_def schema_ok_def tenant_ok_def local_defs bucket_company_def sample_defs object_key_def)
  moreover have "exact two_files"
    by (simp add: two_files_def exact_def company_used_def company_quota_row_def company_bytes_def sample_defs)
  ultimately show ?thesis by (simp add: sound_def)
qed

lemma repeated_path_undercounts_witness:
  "\<exists>names w'. delete_paths s3_env company_bucket [''a'', ''./a''] bob (Some bob) two_files = (Inr names, w') \<and>
     company_used w' 7 = 2 \<and> company_bytes 7 (w_objects w') = 7"
proof -
  let ?run = "delete_paths s3_env company_bucket [''a'', ''./a''] bob (Some bob) two_files"
  have "(case ?run of (Inl _, _) \<Rightarrow> False | (Inr _, _) \<Rightarrow> True)" by code_simp
  then obtain names w' where run: "?run = (Inr names, w')" by (auto split: prod.splits sum.splits)
  have "find_object two_files company_bucket ''a'' = Some (file_row 2 ''a'' 5 2)"
    by (simp add: find_object_def two_files_def sample_defs)
  moreover have "\<forall>raw \<in> set [''a'', ''./a'']. safe_object_path raw = Inr ''a''" by code_simp
  moreover have "o_company_id (file_row 2 ''a'' 5 2) = 7" "o_size (file_row 2 ''a'' 5 2) = 5" by (simp_all add: file_row_def)
  ultimately have "company_used w' 7 = max 0 (company_used two_files 7 - 10) \<and>
      company_bytes 7 (w_objects w') = company_used two_files 7 - 5"
    using repeated_path_undercounts [OF two_files_sound, of company_bucket "''a''" "file_row 2 ''a'' 5 2"
        "[''a'', ''./a'']" s3_env bob "Some bob" names w'] run by simp
  then show ?thesis using run
    by (simp add: company_used_def company_quota_row_def two_files_def)
qed

end
