(* ===== verification/Relocate.thy ===== *)
theory Relocate
  imports Removal
begin

text \<open>
  \<open>apps/storage/services.py\<close>, objects that change place: renaming a folder (every name under
  the prefix is rewritten, row by row), moving one object, copying one. The folder rename is
  shown to be the map it stands for: all rows under the source prefix are renamed and nothing
  else changes, and its row-by-row collision check cannot fire.
\<close>

section \<open>Operations\<close>

record rename_result =
  rn_from :: string
  rn_to :: string
  rn_moved :: nat
  rn_grants_updated :: nat

definition rename_row :: "bucket \<Rightarrow> string \<Rightarrow> string \<Rightarrow> storage_object \<Rightarrow> string option act" where
  "rename_row bucket src dst obj =
     (if \<not> prefix (src @ [slash]) (o_name obj) then ret None
      else
        let new_name = dst @ drop (length src) (o_name obj) in
        bindE (gets (\<lambda>w. \<exists>x \<in> set (w_objects w). o_bucket x = b_id bucket \<and> o_name x = new_name \<and> o_id x \<noteq> o_id obj)) (\<lambda>taken.
        seqE (guardE (\<not> taken) (StorageErr 400 ''resource_already_exists''))
        (bindE (gets w_clock) (\<lambda>now.
         seqE (update_object (o_id obj) (\<lambda>x. x\<lparr>o_name := new_name, o_updated_at := now\<rparr>))
         (ret (Some new_name))))))"

definition deepest_first :: "storage_object list \<Rightarrow> storage_object list" where
  "deepest_first objs = sort_key (\<lambda>obj. - int (count_list (o_name obj) slash)) objs"

definition rename_folder :: "bucket \<Rightarrow> string \<Rightarrow> string \<Rightarrow> rename_result act" where
  "rename_folder bucket source_path dest_path = atomic (
     bindE (lift_sum (safe_object_path source_path)) (\<lambda>src0.
     bindE (lift_sum (safe_object_path dest_path)) (\<lambda>dst0.
     let src = strip_slashes src0; dst = strip_slashes dst0 in
     seqE (guardE (src \<noteq> [] \<and> dst \<noteq> []) (StorageErr 400 ''invalid_prefix''))
     (if src = dst then ret \<lparr>rn_from = src, rn_to = dst, rn_moved = 0, rn_grants_updated = 0\<rparr>
      else seqE (guardE (\<not> prefix (src @ [slash]) dst) (StorageErr 400 ''invalid_destination''))
      (bindE (gets (\<lambda>w. objects_under_prefix w bucket src)) (\<lambda>objs.
       seqE (guardE (objs \<noteq> []) (StorageErr 404 ''folder_not_found''))
       (bindE (gets (\<lambda>w. objects_under_prefix w bucket dst \<noteq> [] \<or> find_object w bucket dst \<noteq> None)) (\<lambda>taken.
        seqE (guardE (\<not> taken) (StorageErr 400 ''resource_already_exists''))
        (bindE (mapE (rename_row bucket src dst) (deepest_first objs)) (\<lambda>renamed.
         bindE (gets (\<lambda>w. length (filter (\<lambda>g. \<exists>i \<in> o_id ` set objs. g_object g = Some i) (w_grants w)))) (\<lambda>grants_updated.
         ret \<lparr>rn_from = src, rn_to = dst, rn_moved = length (List.map_filter id renamed),
              rn_grants_updated = grants_updated\<rparr>)))))))))))"

definition move_object :: "bucket \<Rightarrow> string \<Rightarrow> bucket \<Rightarrow> string \<Rightarrow> storage_object act" where
  "move_object bucket source_path dest_bucket dest_path = atomic (
     bindE (lift_sum (safe_object_path source_path)) (\<lambda>source_name.
     bindE (lift_sum (safe_object_path dest_path)) (\<lambda>dest_name.
     bindE (gets (\<lambda>w. find_object w bucket source_name)) (\<lambda>found.
     case found of None \<Rightarrow> throw (StorageErr 404 ''object_not_found'')
     | Some obj \<Rightarrow>
       bindE (gets (\<lambda>w. find_object w dest_bucket dest_name)) (\<lambda>taken.
       seqE (guardE (taken = None) (StorageErr 400 ''resource_already_exists''))
       (bindE (gets w_clock) (\<lambda>now.
        if b_id bucket = b_id dest_bucket
        then (let upd = (\<lambda>x. x\<lparr>o_name := dest_name, o_updated_at := now\<rparr>) in
          seqE (update_object (o_id obj) upd) (ret (upd obj)))
        else
          seqE (guardE (b_company_id bucket = b_company_id dest_bucket) (StorageErr 403 ''forbidden''))
          (let upd = (\<lambda>x. x\<lparr>o_bucket := b_id dest_bucket, o_name := dest_name, o_updated_at := now\<rparr>) in
           seqE (update_object (o_id obj) upd)
           (seqE (modify (\<lambda>w. w\<lparr>w_grants := update_where (\<lambda>g. g_object g = Some (o_id obj))
                    (\<lambda>g. g\<lparr>g_bucket := b_id dest_bucket\<rparr>) (w_grants w)\<rparr>))
           (ret (upd obj)))))))))))"

definition copy_object ::
  "env \<Rightarrow> bucket \<Rightarrow> string \<Rightarrow> bucket \<Rightarrow> string \<Rightarrow> int option \<Rightarrow> principal option \<Rightarrow> storage_object act" where
  "copy_object env bucket source_path dest_bucket dest_path owner_id request = atomic (
     bindE (lift_sum (safe_object_path source_path)) (\<lambda>source_name.
     bindE (lift_sum (safe_object_path dest_path)) (\<lambda>dest_name.
     bindE (gets (\<lambda>w. find_object w bucket source_name)) (\<lambda>found.
     case found of None \<Rightarrow> throw (StorageErr 404 ''object_not_found'')
     | Some src \<Rightarrow>
       bindE (gets (\<lambda>w. find_object w dest_bucket dest_name)) (\<lambda>taken.
       seqE (guardE (taken = None) (StorageErr 400 ''resource_already_exists''))
       (seqE (guardE (b_company_id bucket = b_company_id dest_bucket) (StorageErr 403 ''forbidden''))
       (seqE (check_quota env (b_company_id dest_bucket) owner_id (o_size src) 0)
       (bindE (open_blob env (o_storage_key src)) (\<lambda>data.
        bindE fresh_uuid (\<lambda>i.
        let key = build_storage_key env (b_company_id dest_bucket) (b_name dest_bucket) dest_name i;
            owner = (case owner_id of None \<Rightarrow> o_owner_id src | Some u \<Rightarrow> Some u) in
        seqE (save_blob env key data)
        (bindE (gets w_clock) (\<lambda>now.
         bindE (insert_object (new_object i dest_bucket dest_name owner (o_size src) (o_etag src)
                  (o_mime_type src) (o_metadata src) key now)) (\<lambda>obj.
         seqE (apply_usage_delta env (b_company_id dest_bucket) owner (o_size src))
         (bindE (apply_default_private_on_create obj owner False) (\<lambda>_.
          send_uploaded env dest_bucket obj True request)))))))))))))))"

section \<open>They keep the invariant\<close>

lemma sound_rename:
  assumes "\<And>x. o_id (f x) = o_id x \<and> o_bucket (f x) = o_bucket x \<and> o_company_id (f x) = o_company_id x \<and> o_size (f x) = o_size x"
  shows "maintains sound (update_object i f)"
proof (intro maintainsI)
  fix w
  assume w: "sound w"
  let ?w = "w\<lparr>w_objects := update_where (\<lambda>x. o_id x = i) f (w_objects w)\<rparr>"
  have "schema_ok ?w" if "\<not> object_conflict i f w"
    using maintains_wp [OF schema_update_object, of f w i] assms that w by (simp add: wp_update_object sound_def)
  moreover have "tenant_ok ?w"
    using assms w by (intro tenant_update_object) (auto simp: sound_def tenant_ok_def object_local_def)
  moreover have "map (\<lambda>obj. if o_company_id obj = c then o_size obj else 0) (w_objects ?w) =
      map (\<lambda>obj. if o_company_id obj = c then o_size obj else 0) (w_objects w)" for c
    using assms by (simp add: map_update_where)
  then have "exact ?w"
    using w by (auto simp: sound_def company_bytes_def sum_rows_def intro: exact_frame [of w])
  ultimately show "wp (update_object i f) (\<lambda>_. sound) (\<lambda>_. sound) w"
    using w by (simp add: wp_update_object sound_def)
qed

lemma rename_folder_sound: "maintains sound (rename_folder b src dst)"
  unfolding rename_folder_def Let_def rename_row_def
  by (intro maintains_rules stable_sound sound_rename) simp_all

text \<open>Moving to another bucket rewrites the bucket of the row and of its grants.\<close>

definition rebucket :: "storage_object \<Rightarrow> uuid \<Rightarrow> (storage_object \<Rightarrow> storage_object) \<Rightarrow> world \<Rightarrow> world" where
  "rebucket obj dest upd w = w\<lparr>w_objects := update_where (\<lambda>x. o_id x = o_id obj) upd (w_objects w),
     w_grants := update_where (\<lambda>g. g_object g = Some (o_id obj)) (\<lambda>g. g\<lparr>g_bucket := dest\<rparr>) (w_grants w)\<rparr>"

lemma bucket_company_unique:
  "bucket_company bs i c \<Longrightarrow> bucket_company bs i c' \<Longrightarrow> i \<in> b_id ` set bs \<Longrightarrow> c = c'"
  by (auto simp: bucket_company_def)

lemma rebucket_tenant:
  assumes "schema_ok w" "tenant_ok w" "obj \<in> set (w_objects w)" "bucket_company (w_buckets w) dest (o_company_id obj)"
    and upd: "\<And>x. o_id (upd x) = o_id x \<and> o_bucket (upd x) = dest \<and> o_company_id (upd x) = o_company_id x \<and> o_size (upd x) = o_size x"
  shows "tenant_ok (rebucket obj dest upd w)"
proof -
  have ids: "distinct (map o_id (w_objects w))" using assms(1) by (simp add: schema_ok_def)
  define F where "F x = (if o_id x = o_id obj then upd x else x)" for x
  define G where "G g = (if g_object g = Some (o_id obj) then g\<lparr>g_bucket := dest\<rparr> else g)" for g :: access_grant
  have rows: "w_objects (rebucket obj dest upd w) = map F (w_objects w)" "w_grants (rebucket obj dest upd w) = map G (w_grants w)"
    "w_buckets (rebucket obj dest upd w) = w_buckets w" "w_links (rebucket obj dest upd w) = w_links w"
    by (simp_all add: rebucket_def update_where_def F_def G_def fun_eq_iff)
  have F: "o_id (F x) = o_id x" "o_company_id (F x) = o_company_id x" "o_size (F x) = o_size x" for x
    using upd by (simp_all add: F_def)
  have self: "x = obj" if "x \<in> set (w_objects w)" "o_id x = o_id obj" for x
    using distinct_key_unique [OF ids that(1) assms(3) that(2)] .
  have "object_local (rebucket obj dest upd w) (F x)" if "x \<in> set (w_objects w)" for x
    using that assms(2,4) self upd by (auto simp: tenant_ok_def object_local_def rows F_def)
  moreover have "grant_local (rebucket obj dest upd w) (G g)" if g: "g \<in> set (w_grants w)" for g
  proof (cases "g_object g = Some (o_id obj)")
    case True
    have "grant_local w g" using assms(2) g by (simp add: tenant_ok_def)
    then have "bucket_company (w_buckets w) (o_bucket obj) (g_company_id g)"
      using True assms(3) by (auto simp: grant_local_def)
    moreover have "bucket_company (w_buckets w) (o_bucket obj) (o_company_id obj)" "o_bucket obj \<in> b_id ` set (w_buckets w)"
      using assms(1-3) by (simp_all add: tenant_ok_def object_local_def schema_ok_def)
    ultimately have "g_company_id g = o_company_id obj" using bucket_company_unique by blast
    then show ?thesis
      using True assms(4) self upd by (auto simp: grant_local_def rows F G_def F_def)
  next
    case False
    then show ?thesis
      using g assms(2) upd by (auto simp: grant_local_def rows G_def tenant_ok_def F_def)
  qed
  moreover have "link_local (rebucket obj dest upd w) l" if "l \<in> set (w_links w)" for l
    using that assms(2) F by (auto simp: link_local_def rows tenant_ok_def)
  ultimately show ?thesis by (simp add: tenant_ok_def rows)
qed

lemma rebucket_sound:
  assumes "sound w" "obj \<in> set (w_objects w)" "bucket_company (w_buckets w) dest (o_company_id obj)"
    "\<not> object_conflict (o_id obj) upd w"
    and upd: "\<And>x. o_id (upd x) = o_id x \<and> o_bucket (upd x) = dest \<and> o_company_id (upd x) = o_company_id x \<and> o_size (upd x) = o_size x"
  shows "sound (rebucket obj dest upd w)"
proof -
  let ?v = "w\<lparr>w_objects := update_where (\<lambda>x. o_id x = o_id obj) upd (w_objects w)\<rparr>"
  have "schema_ok ?v"
    using maintains_wp [OF schema_update_object, of upd w "o_id obj"] assms(1,4) upd
    by (simp add: wp_update_object sound_def)
  moreover have "dest \<in> b_id ` set (w_buckets w)"
    using assms(2,4) upd by (auto simp: object_conflict_def)
  moreover have "map g_id (w_grants (rebucket obj dest upd w)) = map g_id (w_grants w)"
    by (simp add: rebucket_def map_update_where)
  ultimately have "schema_ok (rebucket obj dest upd w)"
    by (auto simp: schema_ok_def rebucket_def set_update_where grant_shape_def)
  moreover have "company_bytes c (w_objects (rebucket obj dest upd w)) = company_bytes c (w_objects w)" for c
    unfolding company_bytes_def sum_rows_def rebucket_def using upd by (simp add: map_update_where)
  then have "exact (rebucket obj dest upd w)"
    using assms(1) by (auto simp: sound_def rebucket_def intro: exact_frame [of w])
  ultimately show ?thesis
    using rebucket_tenant [OF _ _ assms(2,3) upd] assms(1) by (simp add: sound_def)
qed

lemma move_object_sound:
  assumes "sound w" "bucket_company (w_buckets w) (b_id b) (b_company_id b)"
    "bucket_company (w_buckets w) (b_id d) (b_company_id d)"
  shows "wp (move_object b src d dst) (\<lambda>_. sound) (\<lambda>_. sound) w"
proof -
  have same: "sound (w\<lparr>w_objects := update_where (\<lambda>x. o_id x = o_id obj) (\<lambda>x. x\<lparr>o_name := n, o_updated_at := t\<rparr>) (w_objects w)\<rparr>)"
    if "\<not> object_conflict (o_id obj) (\<lambda>x. x\<lparr>o_name := n, o_updated_at := t\<rparr>) w" for obj n t
    using maintains_wp [OF sound_rename, of "\<lambda>x. x\<lparr>o_name := n, o_updated_at := t\<rparr>" w "o_id obj"] assms(1) that
    by (simp add: wp_update_object)
  have cross: "sound (rebucket obj (b_id d) (\<lambda>x. x\<lparr>o_bucket := b_id d, o_name := n, o_updated_at := t\<rparr>) w)"
    if "find_object w b m = Some obj" "b_company_id b = b_company_id d"
      "\<not> object_conflict (o_id obj) (\<lambda>x. x\<lparr>o_bucket := b_id d, o_name := n, o_updated_at := t\<rparr>) w" for obj m n t
  proof -
    have obj: "obj \<in> set (w_objects w)" "o_bucket obj = b_id b" using find_objectD [OF that(1)] by simp_all
    have "bucket_company (w_buckets w) (o_bucket obj) (o_company_id obj)" "o_bucket obj \<in> b_id ` set (w_buckets w)"
      using obj(1) assms(1) by (simp_all add: sound_def tenant_ok_def object_local_def schema_ok_def)
    then have "bucket_company (w_buckets w) (b_id b) (o_company_id obj)" "b_id b \<in> b_id ` set (w_buckets w)"
      unfolding obj(2) .
    then have "o_company_id obj = b_company_id d" using assms(2) bucket_company_unique that(2) by metis
    then show ?thesis using assms(1,3) obj(1) that(3) by (intro rebucket_sound) simp_all
  qed
  show ?thesis
    using assms(1) same cross
    by (auto simp: move_object_def wp_simps Let_def wp_update_object rebucket_def split: sum.splits option.splits)
qed

lemma copy_object_known: "maintains (known d) (copy_object env b src d dst u req)"
proof -
  have tail: "wp (bindE (apply_default_private_on_create obj v False) (\<lambda>_. send_uploaded env d obj True req))
      (\<lambda>_. known d) (\<lambda>_ _. True) w'" if "known d w'" "obj \<in> set (w_objects w')" for obj v w'
  proof -
    have "wp (apply_default_private_on_create obj v False) (\<lambda>_. known d) (\<lambda>_ _. True) w'"
      using maintains_wp [OF known_private, of d w' obj v False] that by (auto elim: wp_mono)
    moreover have "wp (send_uploaded env d obj True req) (\<lambda>_. known d) (\<lambda>_ _. True) x" if "known d x" for x
      using known_signals that by (rule maintains_post)
    ultimately show ?thesis by (auto simp: wp_bindE elim: wp_mono)
  qed
  have store: "wp (bindE fresh_uuid (\<lambda>i. seqE (save_blob env (key i) data) (bindE (gets w_clock) (\<lambda>now.
      bindE (insert_object (new_object i d name v s e m md (key i) now)) (\<lambda>obj.
      seqE (apply_usage_delta env (b_company_id d) v s)
      (bindE (apply_default_private_on_create obj v False) (\<lambda>_. send_uploaded env d obj True req)))))))
      (\<lambda>_. known d) (\<lambda>_ _. True) w" if "known d w" "0 \<le> s" for key data name v s e m md w
  proof -
    have "known d (w\<lparr>w_next_uuid := n\<rparr>)" for n using that(1) stable_next [OF stable_known] by simp
    then show ?thesis
      unfolding wp_bindE [of fresh_uuid] wp_fresh_uuid wp_seqE [of "save_blob _ _ _"] wp_bindE [of "gets _"] wp_gets
      using that(2) by (intro wp_save_blob wp_insert_then_charge tail) simp_all
  qed
  have size: "0 \<le> o_size obj" if "known d w" "find_object w b name = Some obj" for w name obj
    using that find_objectD [OF that(2)] by (auto simp: known_def sound_def tenant_ok_def object_local_def)
  have "wp (copy_object env b src d dst u req) (\<lambda>_. known d) (\<lambda>_. known d) w" if "known d w" for w
    unfolding copy_object_def Let_def wp_atomic
    using that size store known_with_quota [OF that]
    by (auto simp: wp_bindE [of "lift_sum _"] wp_lift_sum wp_bindE [of "gets _"] wp_gets wp_seqE wp_guardE wp_throw
        wp_check_quota wp_bindE [of "open_blob _ _"] stable_rollback [OF stable_known]
        split: sum.splits option.splits intro!: wp_same_db [OF open_blob_db] elim!: wp_mono)
  then show ?thesis by (rule maintainsI)
qed

section \<open>Renaming a folder is one map over the rows\<close>

definition under :: "bucket \<Rightarrow> string \<Rightarrow> storage_object \<Rightarrow> bool" where
  "under b src x \<longleftrightarrow> o_bucket x = b_id b \<and> prefix (src @ [slash]) (o_name x)"

definition renamed :: "string \<Rightarrow> string \<Rightarrow> int \<Rightarrow> storage_object \<Rightarrow> storage_object" where
  "renamed src dst now x = x\<lparr>o_name := dst @ drop (length src) (o_name x), o_updated_at := now\<rparr>"

definition rename_ids :: "string \<Rightarrow> string \<Rightarrow> uuid set \<Rightarrow> world \<Rightarrow> world" where
  "rename_ids src dst S w =
     w\<lparr>w_objects := map (\<lambda>x. if o_id x \<in> S then renamed src dst (w_clock w) x else x) (w_objects w)\<rparr>"

lemma renamed_fields [simp]:
  "o_id (renamed src dst t x) = o_id x" "o_bucket (renamed src dst t x) = o_bucket x"
  "o_name (renamed src dst t x) = dst @ drop (length src) (o_name x)"
  by (simp_all add: renamed_def)

lemma canonical_not_Nil: "canonical n \<Longrightarrow> n \<noteq> []"
  by (cases "n = []") (simp_all add: canonical_def canonical_segment_def)

lemma canonical_strip: "canonical n \<Longrightarrow> strip_slashes n = n"
proof -
  assume n: "canonical n"
  let ?ps = "split_on slash n"
  have seg: "s \<noteq> []" "slash \<notin> set s" if "s \<in> set ?ps" for s
    using n that by (auto simp: canonical_def canonical_segment_def)
  have hl: "hd ?ps \<in> set ?ps" "last ?ps \<in> set ?ps" by simp_all
  then have ne: "hd ?ps \<noteq> []" "last ?ps \<noteq> []" using seg(1) by blast+
  moreover have "hd (hd ?ps) \<noteq> slash" using seg(2) [OF hl(1)] ne(1) hd_in_set by metis
  moreover have "last (last ?ps) \<noteq> slash" using seg(2) [OF hl(2)] ne(2) last_in_set by metis
  ultimately have "hd n \<noteq> slash" "last n \<noteq> slash"
    using hd_join_on [of ?ps slash] last_join_on [of ?ps slash] by simp_all
  then show ?thesis unfolding strip_slashes_def by (intro strip_where_id) (simp add: stripped_def)
qed

lemma prefix_filter_canonical: "canonical n \<Longrightarrow> prefix_filter n = n @ [slash]"
  by (simp add: prefix_filter_def canonical_strip canonical_not_Nil)

lemma objects_under_canonical:
  "canonical n \<Longrightarrow> set (objects_under_prefix w b n) = {x \<in> set (w_objects w). under b n x}"
  by (auto simp: objects_under_prefix_set prefix_filter_canonical under_def)

lemma under_new_name: "under b src x \<Longrightarrow> prefix (dst @ [slash]) (dst @ drop (length src) (o_name x))"
  by (auto simp: under_def prefix_def)

lemma under_same_tail:
  "under b src x \<Longrightarrow> under b src y \<Longrightarrow> drop (length src) (o_name x) = drop (length src) (o_name y) \<Longrightarrow> object_key x = object_key y"
  by (auto simp: under_def prefix_def object_key_def)

lemma rename_row_eq:
  assumes "prefix (src @ [slash]) (o_name obj)"
    "\<not> (\<exists>x \<in> set (w_objects w). o_bucket x = b_id b \<and> o_name x = dst @ drop (length src) (o_name obj) \<and> o_id x \<noteq> o_id obj)"
    "update_object (o_id obj) (\<lambda>x. x\<lparr>o_name := dst @ drop (length src) (o_name obj), o_updated_at := w_clock w\<rparr>) w = (Inr (), w')"
  shows "rename_row b src dst obj w = (Inr (Some (dst @ drop (length src) (o_name obj))), w')"
  using assms by (simp add: rename_row_def Let_def bindE_def seqE_def gets_def guardE_def ret_def)

text \<open>One step, after the rows \<open>S\<close> have been renamed: the checks pass and one more is renamed.\<close>

lemma rename_row_step:
  assumes "schema_ok w" "obj \<in> set (w_objects w)" "under b src obj" "o_id obj \<notin> S"
    and S: "\<And>x. x \<in> set (w_objects w) \<Longrightarrow> o_id x \<in> S \<Longrightarrow> under b src x"
    and clear: "\<And>x. x \<in> set (w_objects w) \<Longrightarrow> \<not> under b dst x"
  shows "rename_row b src dst obj (rename_ids src dst S w) =
     (Inr (Some (dst @ drop (length src) (o_name obj))), rename_ids src dst (insert (o_id obj) S) w)"
proof -
  let ?new = "dst @ drop (length src) (o_name obj)"
  let ?v = "rename_ids src dst S w"
  let ?F = "\<lambda>x. if o_id x \<in> S then renamed src dst (w_clock w) x else x"
  let ?upd = "\<lambda>x. x\<lparr>o_name := ?new, o_updated_at := w_clock w\<rparr>"
  have keys: "distinct (map object_key (w_objects w))" and ids: "distinct (map o_id (w_objects w))"
    using assms(1) by (simp_all add: schema_ok_def)
  have rows: "w_objects ?v = map ?F (w_objects w)" "w_clock ?v = w_clock w" "w_buckets ?v = w_buckets w"
    by (simp_all add: rename_ids_def)
  have free: "o_id y = o_id obj" if y: "y \<in> set (w_objects ?v)" "o_bucket y = b_id b" "o_name y = ?new" for y
  proof -
    obtain x where x: "x \<in> set (w_objects w)" "y = ?F x" using y(1) by (auto simp: rows)
    show ?thesis
    proof (cases "o_id x \<in> S")
      case True
      then have "drop (length src) (o_name x) = drop (length src) (o_name obj)" using x(2) y(3) by simp
      moreover have "under b src x" using S x(1) True by blast
      ultimately have "object_key x = object_key obj" using under_same_tail assms(3) by blast
      then have "x = obj" using distinct_key_unique [OF keys x(1) assms(2)] by blast
      then show ?thesis using True assms(4) by blast
    next
      case False
      then have "under b dst x" using x y under_new_name [OF assms(3)] by (simp add: under_def)
      then show ?thesis using clear x(1) by blast
    qed
  qed
  have "o_bucket obj = b_id b" using assms(3) by (simp add: under_def)
  have self: "x = obj" if "x \<in> set (w_objects w)" "o_id x = o_id obj" for x
    using distinct_key_unique [OF ids that(1) assms(2) that(2)] .
  have "\<not> object_conflict (o_id obj) ?upd ?v"
  proof
    assume "object_conflict (o_id obj) ?upd ?v"
    then obtain x where x: "x \<in> set (w_objects w)" "o_id x = o_id obj"
      "o_bucket x \<notin> b_id ` set (w_buckets w) \<or>
       (\<exists>y \<in> set (w_objects ?v). o_id y \<noteq> o_id obj \<and> o_bucket y = o_bucket x \<and> o_name y = ?new)"
      by (fastforce simp: object_conflict_def rows object_key_def split: if_splits)
    moreover have "x = obj" using self x(1,2) by blast
    moreover have "o_bucket obj \<in> b_id ` set (w_buckets w)" using assms(1,2) by (simp add: schema_ok_def)
    ultimately show False using free \<open>o_bucket obj = b_id b\<close> by auto
  qed
  moreover have "update_where (\<lambda>x. o_id x = o_id obj) ?upd (w_objects ?v) =
      map (\<lambda>x. if o_id x \<in> insert (o_id obj) S then renamed src dst (w_clock w) x else x) (w_objects w)"
    using self assms(4) by (auto simp: update_where_def rows renamed_def)
  then have "?v\<lparr>w_objects := update_where (\<lambda>x. o_id x = o_id obj) ?upd (w_objects ?v)\<rparr> =
      rename_ids src dst (insert (o_id obj) S) w"
    by (simp add: rename_ids_def)
  ultimately have "update_object (o_id obj) ?upd ?v = (Inr (), rename_ids src dst (insert (o_id obj) S) w)"
    by (simp add: update_object_def)
  moreover have "\<not> (\<exists>x \<in> set (w_objects ?v). o_bucket x = b_id b \<and> o_name x = ?new \<and> o_id x \<noteq> o_id obj)"
    using free by blast
  ultimately show ?thesis
    using assms(3) rows(2) by (intro rename_row_eq) (simp_all add: under_def)
qed

lemma rename_rows_run:
  assumes "schema_ok w" "set objs \<subseteq> set (w_objects w)" "\<forall>obj \<in> set objs. under b src obj" "distinct (map o_id objs)"
    and "\<And>x. x \<in> set (w_objects w) \<Longrightarrow> o_id x \<in> S \<Longrightarrow> under b src x"
    and "\<And>x. x \<in> set (w_objects w) \<Longrightarrow> \<not> under b dst x"
    and "S \<inter> o_id ` set objs = {}"
  shows "mapE (rename_row b src dst) objs (rename_ids src dst S w) =
     (Inr (map (\<lambda>obj. Some (dst @ drop (length src) (o_name obj))) objs), rename_ids src dst (S \<union> o_id ` set objs) w)"
  using assms(2-5,7)
proof (induction objs arbitrary: S)
  case Nil
  then show ?case by (simp add: ret_def)
next
  case (Cons obj objs)
  have ids: "distinct (map o_id (w_objects w))" using assms(1) by (simp add: schema_ok_def)
  have "rename_row b src dst obj (rename_ids src dst S w) =
     (Inr (Some (dst @ drop (length src) (o_name obj))), rename_ids src dst (insert (o_id obj) S) w)"
    using Cons.prems assms(1,6) by (intro rename_row_step) auto
  moreover have "mapE (rename_row b src dst) objs (rename_ids src dst (insert (o_id obj) S) w) =
     (Inr (map (\<lambda>obj. Some (dst @ drop (length src) (o_name obj))) objs),
      rename_ids src dst (insert (o_id obj) S \<union> o_id ` set objs) w)"
  proof (rule Cons.IH)
    show "under b src x" if "x \<in> set (w_objects w)" "o_id x \<in> insert (o_id obj) S" for x
      using that Cons.prems distinct_key_unique [OF ids that(1), of obj] by auto
    show "insert (o_id obj) S \<inter> o_id ` set objs = {}" using Cons.prems by (auto simp: image_iff)
  qed (use Cons.prems in auto)
  ultimately show ?case by (simp add: bindE_def ret_def)
qed

lemma deepest_first_set [simp]: "set (deepest_first objs) = set objs" "length (deepest_first objs) = length objs"
  by (simp_all add: deepest_first_def)

lemma distinct_deepest: "distinct (map o_id objs) \<Longrightarrow> distinct (map o_id (deepest_first objs))"
  by (simp add: deepest_first_def distinct_map)

lemma map_filter_id_Some: "List.map_filter id (map (\<lambda>x. Some (f x)) xs) = map f xs"
  by (induction xs) (simp_all add: map_filter_simps2)

lemma rename_folder_rows:
  assumes "schema_ok w" "safe_object_path source = Inr src" "safe_object_path dest = Inr dst" "src \<noteq> dst"
    "\<not> prefix (src @ [slash]) dst"
    "\<exists>x \<in> set (w_objects w). under b src x" "\<forall>x \<in> set (w_objects w). \<not> under b dst x" "find_object w b dst = None"
  shows "\<exists>n. rename_folder b source dest w =
     (Inr \<lparr>rn_from = src, rn_to = dst, rn_moved = length (objects_under_prefix w b src), rn_grants_updated = n\<rparr>,
      w\<lparr>w_objects := map (\<lambda>x. if under b src x then renamed src dst (w_clock w) x else x) (w_objects w)\<rparr>)"
proof -
  have can: "canonical src" "canonical dst" using assms(2,3) safe_object_path_canonical by blast+
  let ?objs = "objects_under_prefix w b src"
  let ?S = "o_id ` set (deepest_first ?objs)"
  have ids: "distinct (map o_id (w_objects w))" using assms(1) by (simp add: schema_ok_def)
  have objs: "set ?objs = {x \<in> set (w_objects w). under b src x}" using can(1) by (rule objects_under_canonical)
  have "distinct (map o_id ?objs)" using distinct_selection [OF assms(1)] by (simp add: objects_under_prefix_def)
  then have run: "mapE (rename_row b src dst) (deepest_first ?objs) (rename_ids src dst {} w) =
     (Inr (map (\<lambda>obj. Some (dst @ drop (length src) (o_name obj))) (deepest_first ?objs)), rename_ids src dst ({} \<union> ?S) w)"
    using assms(1,7) objs by (intro rename_rows_run distinct_deepest) auto
  have start: "rename_ids src dst {} w = w" by (simp add: rename_ids_def)
  have "o_id x \<in> ?S \<longleftrightarrow> under b src x" if "x \<in> set (w_objects w)" for x
    using that objs distinct_key_unique [OF ids that] by auto
  then have final: "rename_ids src dst ?S w =
      w\<lparr>w_objects := map (\<lambda>x. if under b src x then renamed src dst (w_clock w) x else x) (w_objects w)\<rparr>"
    by (simp add: rename_ids_def)
  have "objects_under_prefix w b dst = []"
    using objects_under_canonical [OF can(2), of w b] assms(7) by (metis (no_types, lifting) Collect_empty_eq set_empty)
  moreover have "?objs \<noteq> []" using objs assms(6) by (metis (mono_tags, lifting) empty_iff mem_Collect_eq set_empty2)
  ultimately show ?thesis
    using assms(2-5,8) run start final can
    by (simp add: rename_folder_def atomic_def bindE_def seqE_def gets_def guardE_def ret_def lift_sum_def Let_def
        canonical_strip canonical_not_Nil map_filter_id_Some)
qed

text \<open>
  C9. Renaming a folder. For a source and a destination that normalise to different paths, the
  destination not below the source, the source with at least one object and the destination
  free, the rename always succeeds and is the map over the rows that replaces the source prefix:
  every object below the source gets its new name (and the time of the rename), every other row
  and every other table is unchanged, and the answer counts the rows renamed. In particular the
  collision check inside the loop never refuses a rename half-way.
\<close>

theorem rename_folder_exact:
  assumes "schema_ok w" "safe_object_path source = Inr src" "safe_object_path dest = Inr dst" "src \<noteq> dst"
    "\<not> prefix (src @ [slash]) dst"
    "\<exists>x \<in> set (w_objects w). under b src x" "\<forall>x \<in> set (w_objects w). \<not> under b dst x" "find_object w b dst = None"
  shows "\<exists>r. rename_folder b source dest w =
       (Inr r, w\<lparr>w_objects := map (\<lambda>x. if under b src x then renamed src dst (w_clock w) x else x) (w_objects w)\<rparr>) \<and>
     rn_moved r = length (filter (under b src) (w_objects w))"
proof -
  have can: "canonical src" using assms(2) safe_object_path_canonical by blast
  have "under b src = (\<lambda>x. o_bucket x = b_id b \<and> prefix (src @ [slash]) (o_name x))" by (simp add: fun_eq_iff under_def)
  then have "length (objects_under_prefix w b src) = length (filter (under b src) (w_objects w))"
    by (simp add: objects_under_prefix_def prefix_filter_canonical [OF can])
  then show ?thesis using rename_folder_rows [OF assms] by fastforce
qed

lemma rename_folder_exact_witness:
  "\<exists>r. rename_folder company_bucket ''secret'' ''a/b'' private_world =
       (Inr r, private_world\<lparr>w_objects := map (\<lambda>x. if under company_bucket ''secret'' x
          then renamed ''secret'' ''a/b'' (w_clock private_world) x else x) (w_objects private_world)\<rparr>) \<and> rn_moved r = 2"
proof -
  have "schema_ok private_world" using private_world_sound by (simp add: sound_def)
  moreover have "safe_object_path ''secret'' = Inr ''secret''" "safe_object_path ''a/b'' = Inr ''a/b''" by code_simp+
  moreover have "\<exists>x \<in> set (w_objects private_world). under company_bucket ''secret'' x"
    "\<forall>x \<in> set (w_objects private_world). \<not> under company_bucket ''a/b'' x"
    "find_object private_world company_bucket ''a/b'' = None"
    "length (filter (under company_bucket ''secret'') (w_objects private_world)) = 2"
    by (simp_all add: sample_defs under_def find_object_def)
  ultimately show ?thesis
    using rename_folder_exact [of private_world "''secret''" "''secret''" "''a/b''" "''a/b''" company_bucket]
    by (simp del: map_eq_conv)
qed

end
