(* ===== verification/Shares.thy ===== *)
theory Shares
  imports Grants
begin

text \<open>
  \<open>apps/storage/shares.py\<close>: share links, which give anyone who has the token a limited number
  of downloads. Creating, listing, revoking and redeeming a link; the form of the administration
  (\<open>ObjectShareLinkAdmin\<close> of \<open>apps/storage/admin.py\<close>), which adds, edits and deletes links; the life
  of a link as a step relation, in which any other handler of the service may run between the
  steps, and the limits a link keeps over every such run.
\<close>

section \<open>Operations\<close>

text \<open>\<open>int(value)\<close> of a JSON value.\<close>

definition py_int_of :: "json \<Rightarrow> exn + int" where
  "py_int_of v = (case v of JInt i \<Rightarrow> Inr i | JBool b \<Rightarrow> Inr (if b then 1 else 0)
     | JStr s \<Rightarrow> (case py_int 10 s of None \<Rightarrow> Inl ValueErr | Some i \<Rightarrow> Inr i)
     | _ \<Rightarrow> Inl TypeErr)"

text \<open>The object of a link: the bucket must be readable and the path writable.\<close>

definition shareable_object :: "principal \<Rightarrow> string \<Rightarrow> string \<Rightarrow> (bucket \<times> storage_object) act" where
  "shareable_object p bucket_name path =
     bindE (get_accessible_bucket p bucket_name False False) (\<lambda>bucket.
     bindE (lift_sum (safe_object_path path)) (\<lambda>name.
     bindE (gets (\<lambda>w. find_object w bucket name)) (\<lambda>found.
     case found of None \<Rightarrow> throw (StorageErr 404 ''object_not_found'')
     | Some obj \<Rightarrow> seqE (assert_can_access_path p bucket name (Some (o_id obj)) True False) (ret (bucket, obj)))))"

definition share_limit :: "json option \<Rightarrow> exn + int option" where
  "share_limit max_downloads =
     (case max_downloads of None \<Rightarrow> Inr None
      | Some v \<Rightarrow> (case py_int_of v of Inl e \<Rightarrow> Inl e
          | Inr m \<Rightarrow> if m < 1 then Inl (StorageErr 400 ''invalid_max_downloads'') else Inr (Some m)))"

definition create_share_link ::
  "env \<Rightarrow> principal \<Rightarrow> string \<Rightarrow> string \<Rightarrow> json option \<Rightarrow> json option \<Rightarrow> string \<Rightarrow> share_link act" where
  "create_share_link env p bucket_name path expires_at max_downloads notes =
     bindE (shareable_object p bucket_name path) (\<lambda>(bucket, obj).
     bindE (lift_sum (parse_expires_at env expires_at)) (\<lambda>expires.
     bindE (lift_sum (share_limit max_downloads)) (\<lambda>limit.
     seqE (guardE (expires \<noteq> None \<or> limit \<noteq> None) (StorageErr 400 ''share_limit_required''))
     (bindE (gets w_clock) (\<lambda>now.
      seqE (guardE (case expires of None \<Rightarrow> True | Some t \<Rightarrow> now < t) (StorageErr 400 ''invalid_expires_at''))
      (bindE (require_user_id p) (\<lambda>u.
       bindE fresh_uuid (\<lambda>i.
       insert_link \<lparr>l_id = i, l_token = share_token env i, l_object = o_id obj,
         l_company_id = b_company_id bucket, l_created_by_id = u, l_expires_at = expires,
         l_max_downloads = limit, l_download_count = 0, l_revoked_at = None, l_created_at = now,
         l_notes = take 255 notes\<rparr>))))))))"

definition list_share_links_for_object :: "principal \<Rightarrow> string \<Rightarrow> string \<Rightarrow> share_link list act" where
  "list_share_links_for_object p bucket_name path =
     bindE (shareable_object p bucket_name path) (\<lambda>(bucket, obj).
     bindE (gets (\<lambda>w. filter (\<lambda>l. l_object l = o_id obj \<and> l_company_id l = b_company_id bucket)
       (sort_key (\<lambda>l. - l_created_at l) (w_links w)))) (\<lambda>links.
     if is_company_admin p then ret links
     else bindE (require_user_id p) (\<lambda>u. ret (filter (\<lambda>l. l_created_by_id l = u) links))))"

definition link_by_token :: "world \<Rightarrow> string \<Rightarrow> share_link option" where
  "link_by_token w token = first_where (\<lambda>l. l_token l = token) (w_links w)"

definition get_share_link :: "string \<Rightarrow> share_link act" where
  "get_share_link token =
     bindE (gets (\<lambda>w. link_by_token w token)) (\<lambda>found.
       case found of None \<Rightarrow> throw (StorageErr 404 ''share_not_found'') | Some l \<Rightarrow> ret l)"

definition revoke_share_link :: "principal \<Rightarrow> string \<Rightarrow> share_link act" where
  "revoke_share_link p token =
     bindE (get_share_link token) (\<lambda>link.
     seqE (guardE (p_company_id p = Some (l_company_id link)) (StorageErr 404 ''share_not_found''))
     (bindE (require_user_id p) (\<lambda>u.
      seqE (guardE (l_created_by_id link = u \<or> is_company_admin p) (StorageErr 403 ''share_revoke_denied''))
      (if l_revoked_at link \<noteq> None then ret link
       else bindE (gets w_clock) (\<lambda>now.
         seqE (update_link token (\<lambda>l. l\<lparr>l_revoked_at := Some now\<rparr>))
           (ret (link\<lparr>l_revoked_at := Some now\<rparr>)))))))"

definition redeem_share_link :: "string \<Rightarrow> (share_link \<times> storage_object) act" where
  "redeem_share_link token = atomic (
     bindE (get_share_link token) (\<lambda>link.
     bindE (gets w_clock) (\<lambda>now.
     seqE (guardE (link_is_active now link) (StorageErr 410 ''share_inactive''))
     (seqE (update_link token (\<lambda>l. l\<lparr>l_download_count := l_download_count l + 1\<rparr>))
     (bindE (gets (\<lambda>w. object_by_id w (l_object link))) (\<lambda>found.
      case found of None \<Rightarrow> throw DoesNotExist
      | Some obj \<Rightarrow>
        seqE (update_object (o_id obj) (\<lambda>x. x\<lparr>o_last_accessed_at := Some now\<rparr>))
          (ret (link\<lparr>l_download_count := l_download_count link + 1\<rparr>,
                obj\<lparr>o_last_accessed_at := Some now\<rparr>))))))))"

record share_view =
  sv_id :: string
  sv_object_id :: string
  sv_bucket :: string
  sv_path :: string
  sv_company_id :: int
  sv_created_by_id :: int
  sv_expires_at :: "string option"
  sv_max_downloads :: "int option"
  sv_download_count :: int
  sv_revoked_at :: "string option"
  sv_created_at :: string
  sv_notes :: string
  sv_active :: bool
  sv_path_url :: string
  sv_token :: "string option"

definition serialize_share_link :: "world \<Rightarrow> share_link \<Rightarrow> bool \<Rightarrow> share_view" where
  "serialize_share_link w link include_token =
     \<lparr>sv_id = str_uuid (l_id link), sv_object_id = str_uuid (l_object link),
      sv_bucket = (case object_by_id w (l_object link) of None \<Rightarrow> [] | Some obj \<Rightarrow> bucket_name_of w (o_bucket obj)),
      sv_path = object_name_of w (Some (l_object link)), sv_company_id = l_company_id link,
      sv_created_by_id = l_created_by_id link, sv_expires_at = map_option iso_z (l_expires_at link),
      sv_max_downloads = l_max_downloads link, sv_download_count = l_download_count link,
      sv_revoked_at = map_option iso_z (l_revoked_at link), sv_created_at = iso_z (l_created_at link),
      sv_notes = l_notes link, sv_active = link_is_active (w_clock w) link,
      sv_path_url = ''/storage/v1/share/link/'' @ l_token link,
      sv_token = (if include_token then Some (l_token link) else None)\<rparr>"

section \<open>What a redemption does\<close>

lemma link_by_token_Some:
  "link_by_token w token = Some l \<Longrightarrow> l \<in> set (w_links w) \<and> l_token l = token"
  by (auto simp: link_by_token_def dest: first_where_Some)

lemma touch_no_conflict:
  assumes "schema_ok w"
  shows "\<not> object_conflict i (\<lambda>x. x\<lparr>o_last_accessed_at := t\<rparr>) (w\<lparr>w_links := ls\<rparr>)"
proof -
  have keys: "distinct (map object_key (w_objects w))" and placed: "\<forall>x \<in> set (w_objects w). o_bucket x \<in> b_id ` set (w_buckets w)"
    using assms by (simp_all add: schema_ok_def)
  have "object_key (x\<lparr>o_last_accessed_at := t\<rparr>) = object_key x" for x by (simp add: object_key_def)
  then show ?thesis using distinct_key_unique [OF keys] placed by (auto simp: object_conflict_def)
qed

text \<open>
  C12. Redeeming a token. An unknown token answers 404, an expired, exhausted or revoked link 410,
  and neither changes anything; every other redemption succeeds, adds one to the counter of that
  link, notes the access on its object, and changes nothing else.
\<close>

theorem redeem_share_link_exact:
  assumes "schema_ok w"
  shows "redeem_share_link token w =
    (case link_by_token w token of None \<Rightarrow> (Inl (StorageErr 404 ''share_not_found''), w)
     | Some l \<Rightarrow>
        if \<not> link_is_active (w_clock w) l then (Inl (StorageErr 410 ''share_inactive''), w)
        else (Inr (l\<lparr>l_download_count := l_download_count l + 1\<rparr>,
               (the (object_by_id w (l_object l)))\<lparr>o_last_accessed_at := Some (w_clock w)\<rparr>),
          w\<lparr>w_links := update_where (\<lambda>x. l_token x = token) (\<lambda>x. x\<lparr>l_download_count := l_download_count x + 1\<rparr>) (w_links w),
            w_objects := update_where (\<lambda>x. o_id x = l_object l) (\<lambda>x. x\<lparr>o_last_accessed_at := Some (w_clock w)\<rparr>) (w_objects w)\<rparr>))"
proof (cases "link_by_token w token")
  case None
  then show ?thesis
    by (simp add: redeem_share_link_def get_share_link_def atomic_def bindE_def gets_def throw_def rollback_def)
next
  case (Some l)
  then have "l_object l \<in> o_id ` set (w_objects w)" using link_by_token_Some assms by (auto simp: schema_ok_def)
  then obtain obj where obj: "object_by_id w (l_object l) = Some obj"
    unfolding object_by_id_def by (metis (mono_tags, lifting) first_where_None image_iff option.exhaust)
  then have "o_id obj = l_object l" by (auto simp: object_by_id_def dest: first_where_Some)
  then show ?thesis
    using Some obj touch_no_conflict [OF assms]
    by (simp add: redeem_share_link_def get_share_link_def atomic_def bindE_def seqE_def gets_def ret_def guardE_def
        throw_def rollback_def update_link_def modify_def update_object_def object_by_id_def)
qed

section \<open>What a creation has checked\<close>

lemma shareable_object_frame: "keeps only_buckets (shareable_object p n path)"
  unfolding shareable_object_def
  by (intro keeps_rules keeps_asserts only_buckets_rel get_accessible_bucket_frame)

lemma shareable_object_post:
  assumes "shareable_object p n path w = (Inr (b, obj), v)"
  shows "only_buckets w v" "b_name b = n" "p_company_id p = Some (b_company_id b)" "obj \<in> set (w_objects w)"
    "o_bucket obj = b_id b" "can_access_path w p b (o_name obj) (Some (o_id obj)) True False"
proof -
  show frame: "only_buckets w v" using shareable_object_frame assms by (rule keepsD)
  have same: "find_object v = find_object w" "evaluate_access v = evaluate_access w"
    using frame evaluate_access_frame [of v w] by (simp_all add: fun_eq_iff find_object_def only_buckets_def)
  obtain name v1 where run: "get_accessible_bucket p n False False w = (Inr b, v1)" "find_object v b name = Some obj"
      "can_access_path v p b name (Some (o_id obj)) True False"
    using assms by (auto simp: shareable_object_def run_Inr assert_can_access_path_def split: option.splits)
  have "b_name b = n \<and> p_company_id p = Some (b_company_id b)"
    using wp_Inr [OF get_accessible_bucket_post run(1)] by simp
  then show "b_name b = n" "p_company_id p = Some (b_company_id b)" by simp_all
  have obj: "obj \<in> set (w_objects w)" "o_bucket obj = b_id b" "o_name obj = name"
    using run(2) same(1) by (auto simp: find_object_def dest: first_where_Some)
  then show "obj \<in> set (w_objects w)" "o_bucket obj = b_id b" by simp_all
  show "can_access_path w p b (o_name obj) (Some (o_id obj)) True False"
    using run(3) obj(3) same(2) by (simp add: can_access_path_def)
qed

lemma create_share_link_run:
  assumes "create_share_link env p n path ex mx notes w = (Inr l, w')"
  obtains b obj u v where "shareable_object p n path w = (Inr (b, obj), v)" "p_user_id p = Some u"
    "parse_expires_at env ex = Inr (l_expires_at l)" "share_limit mx = Inr (l_max_downloads l)"
    "l_expires_at l \<noteq> None \<or> l_max_downloads l \<noteq> None" "case l_expires_at l of None \<Rightarrow> True | Some t \<Rightarrow> w_clock v < t"
    "l = \<lparr>l_id = w_next_uuid v, l_token = share_token env (w_next_uuid v), l_object = o_id obj,
       l_company_id = b_company_id b, l_created_by_id = u, l_expires_at = l_expires_at l,
       l_max_downloads = l_max_downloads l, l_download_count = 0, l_revoked_at = None, l_created_at = w_clock v,
       l_notes = take 255 notes\<rparr>"
    "w' = v\<lparr>w_next_uuid := Suc (w_next_uuid v), w_links := w_links v @ [l]\<rparr>" "l_token l \<notin> l_token ` set (w_links v)"
  using assms
  by (auto simp: create_share_link_def run_Inr require_user_id_def insert_link_def split: option.splits if_splits)

text \<open>
  Creating a link. A link is only made for an object of the caller's company that the caller
  may write to; it carries an expiry date in the future, or a number of downloads of at least one, or
  both; it has not been used or revoked, and it is the only change the creation makes to the
  links.
\<close>

theorem create_share_link_limited:
  assumes "create_share_link env p n path ex mx notes w = (Inr l, w')"
  shows "(\<exists>b obj. b_name b = n \<and> p_company_id p = Some (b_company_id b) \<and> obj \<in> set (w_objects w) \<and>
      o_bucket obj = b_id b \<and> l_object l = o_id obj \<and> l_company_id l = b_company_id b \<and>
      can_access_path w p b (o_name obj) (Some (o_id obj)) True False) \<and>
    p_user_id p = Some (l_created_by_id l) \<and>
    (l_expires_at l \<noteq> None \<or> l_max_downloads l \<noteq> None) \<and>
    (\<forall>t. l_expires_at l = Some t \<longrightarrow> w_clock w < t) \<and> (\<forall>m. l_max_downloads l = Some m \<longrightarrow> 1 \<le> m) \<and>
    link_is_active (w_clock w) l \<and> w_links w' = w_links w @ [l]"
proof -
  obtain b obj u v where run: "shareable_object p n path w = (Inr (b, obj), v)" "p_user_id p = Some u"
    "share_limit mx = Inr (l_max_downloads l)" "l_expires_at l \<noteq> None \<or> l_max_downloads l \<noteq> None"
    "case l_expires_at l of None \<Rightarrow> True | Some t \<Rightarrow> w_clock v < t"
    and l: "l = \<lparr>l_id = w_next_uuid v, l_token = share_token env (w_next_uuid v), l_object = o_id obj,
       l_company_id = b_company_id b, l_created_by_id = u, l_expires_at = l_expires_at l,
       l_max_downloads = l_max_downloads l, l_download_count = 0, l_revoked_at = None, l_created_at = w_clock v,
       l_notes = take 255 notes\<rparr>"
    and w': "w' = v\<lparr>w_next_uuid := Suc (w_next_uuid v), w_links := w_links v @ [l]\<rparr>"
    using assms by (elim create_share_link_run)
  have fields: "l_object l = o_id obj" "l_company_id l = b_company_id b" "l_created_by_id l = u" "l_download_count l = 0"
    "l_revoked_at l = None"
    by (subst l, simp)+
  have v: "only_buckets w v" by (rule shareable_object_post [OF run(1)])
  have limit: "\<forall>m. l_max_downloads l = Some m \<longrightarrow> 1 \<le> m"
    using run(3) by (auto simp: share_limit_def split: option.splits sum.splits if_splits)
  moreover have ex: "\<forall>t. l_expires_at l = Some t \<longrightarrow> w_clock w < t" using run(5) v by (auto simp: only_buckets_def)
  moreover have "link_is_active (w_clock w) l"
    using fields limit ex by (auto simp: link_is_active_def split: option.splits)
  ultimately show ?thesis
    using fields w' v run(2,4) shareable_object_post [OF run(1)] by (auto simp: only_buckets_def)
qed

section \<open>The form of the admin\<close>

text \<open>
  \<open>ObjectShareLinkAdmin\<close> (\<open>storage/admin.py\<close>): a superuser adds, edits and deletes links. The id, the token, the
  counter and the creation date are read-only; what is left of the row comes from the form, which checks
  each field by itself: neither that a link has a limit, nor that a date lies ahead; a form that is not accepted is shown
  again (\<open>None\<close>). Django's \<open>save()\<close> writes every
  column of the row the page has loaded, so the counter is the one of that moment, and a row that is gone
  since is inserted again.
\<close>

record link_form =
  lf_object :: uuid
  lf_company_id :: int
  lf_created_by_id :: int
  lf_expires_at :: "int option"
  lf_max_downloads :: "int option"
  lf_revoked_at :: "int option"
  lf_notes :: string

definition link_form_ok :: "world \<Rightarrow> link_form \<Rightarrow> bool" where
  "link_form_ok w f \<longleftrightarrow> lf_object f \<in> o_id ` set (w_objects w) \<and> 0 \<le> lf_company_id f \<and> 0 \<le> lf_created_by_id f \<and>
     (case lf_max_downloads f of None \<Rightarrow> True | Some m \<Rightarrow> 1 \<le> m) \<and> length (lf_notes f) \<le> 255"

definition edited_link :: "link_form \<Rightarrow> share_link \<Rightarrow> share_link" where
  "edited_link f l = l\<lparr>l_object := lf_object f, l_company_id := lf_company_id f, l_created_by_id := lf_created_by_id f,
     l_expires_at := lf_expires_at f, l_max_downloads := lf_max_downloads f, l_revoked_at := lf_revoked_at f,
     l_notes := lf_notes f\<rparr>"

definition link_admin_add :: "env \<Rightarrow> link_form \<Rightarrow> share_link option act" where
  "link_admin_add env f =
     bindE (gets (\<lambda>w. link_form_ok w f)) (\<lambda>ok.
     if \<not> ok then ret None
     else bindE (gets w_clock) (\<lambda>now.
       bindE (bindE fresh_uuid (\<lambda>i.
         insert_link (edited_link f \<lparr>l_id = i, l_token = share_token env i, l_object = 0, l_company_id = 0,
           l_created_by_id = 0, l_expires_at = None, l_max_downloads = None, l_download_count = 0, l_revoked_at = None,
           l_created_at = now, l_notes = []\<rparr>)))
       (\<lambda>link. ret (Some link))))"

definition link_admin_change :: "share_link \<Rightarrow> link_form \<Rightarrow> share_link option act" where
  "link_admin_change loaded f =
     bindE (gets (\<lambda>w. link_form_ok w f)) (\<lambda>ok.
     if \<not> ok then ret None
     else bindE (gets (\<lambda>w. l_id loaded \<in> l_id ` set (w_links w))) (\<lambda>there.
       if there
       then seqE (modify (\<lambda>w. w\<lparr>w_links := update_where (\<lambda>l. l_id l = l_id loaded) (\<lambda>l. edited_link f loaded) (w_links w)\<rparr>))
              (ret (Some (edited_link f loaded)))
       else bindE (insert_link (edited_link f loaded)) (\<lambda>link. ret (Some link))))"

definition link_admin_delete :: "uuid \<Rightarrow> unit act" where
  "link_admin_delete i = modify (\<lambda>w. w\<lparr>w_links := delete_where (\<lambda>l. l_id l = i) (w_links w)\<rparr>)"

section \<open>The life of a link\<close>

text \<open>
  One step of the service as a link sees it: a handler of this theory, the admin's form, or any other handler
  (\<open>Elsewhere\<close>), of which it is only assumed that it makes no link and changes none: uploads,
  deletions, which take the links of their objects with them, and time passing. A page of the admin may have loaded the
  row at any time before it saves it; it is only known that the id of a row always has the same token.
\<close>

datatype share_label = Redeemed string | Revoked string | Created string | Edited string | Refused | Elsewhere

inductive share_step :: "env \<Rightarrow> world \<Rightarrow> share_label \<Rightarrow> world \<Rightarrow> bool" for env where
  redeemed: "redeem_share_link token w = (Inr x, w') \<Longrightarrow> share_step env w (Redeemed token) w'"
| revoked: "revoke_share_link p token w = (Inr l, w') \<Longrightarrow> share_step env w (Revoked token) w'"
| created: "create_share_link env p n path ex mx notes w = (Inr l, w') \<Longrightarrow> share_step env w (Created (l_token l)) w'"
| added: "link_admin_add env f w = (Inr (Some l), w') \<Longrightarrow> share_step env w (Created (l_token l)) w'"
| edited: "link_admin_change loaded f w = (Inr (Some l), w') \<Longrightarrow>
    \<forall>l \<in> set (w_links w). l_id l = l_id loaded \<longrightarrow> l_token l = l_token loaded \<Longrightarrow>
    share_step env w (Edited (l_token loaded)) w'"
| erased: "link_admin_delete i w = (Inr (), w') \<Longrightarrow> share_step env w Elsewhere w'"
| not_redeemed: "redeem_share_link token w = (Inl e, w') \<Longrightarrow> share_step env w Refused w'"
| not_revoked: "revoke_share_link p token w = (Inl e, w') \<Longrightarrow> share_step env w Refused w'"
| not_created: "create_share_link env p n path ex mx notes w = (Inl e, w') \<Longrightarrow> share_step env w Refused w'"
| not_added: "link_admin_add env f w = (r, w') \<Longrightarrow> \<forall>l. r \<noteq> Inr (Some l) \<Longrightarrow> share_step env w Refused w'"
| not_edited: "link_admin_change loaded f w = (r, w') \<Longrightarrow> \<forall>l. r \<noteq> Inr (Some l) \<Longrightarrow> share_step env w Refused w'"
| elsewhere: "set (w_links w') \<subseteq> set (w_links w) \<Longrightarrow> w_clock w \<le> w_clock w' \<Longrightarrow> w_next_uuid w \<le> w_next_uuid w' \<Longrightarrow>
    share_step env w Elsewhere w'"

inductive_cases redeemed_step: "share_step env w (Redeemed token) w'"
inductive_cases revoked_step: "share_step env w (Revoked token) w'"

inductive share_run :: "env \<Rightarrow> world \<Rightarrow> share_label list \<Rightarrow> world \<Rightarrow> bool" for env where
  stop: "share_run env w [] w"
| go: "share_step env w a v \<Longrightarrow> share_run env v as w' \<Longrightarrow> share_run env w (a # as) w'"

lemma share_run_prefix: "share_run env w (as @ bs) w' \<Longrightarrow> \<exists>v. share_run env w as v"
proof (induction as arbitrary: w)
  case Nil
  then show ?case using share_run.stop by blast
next
  case (Cons a as)
  then obtain v where "share_step env w a v" "share_run env v (as @ bs) w'" by (auto elim: share_run.cases)
  then show ?case using Cons.IH share_run.go by blast
qed

text \<open>
  What a step other than an edit of it does to a link with a token that has been drawn: the token stays drawn, and a link
  with it afterwards comes from a link with it before, with the same limits, a counter that has not
  gone down, and a revocation that has not been taken back.
\<close>

definition drawn :: "env \<Rightarrow> string \<Rightarrow> world \<Rightarrow> bool" where
  "drawn env token w \<longleftrightarrow> (\<exists>i < w_next_uuid w. token = share_token env i)"

definition ages :: "share_link \<Rightarrow> share_link \<Rightarrow> bool" where
  "ages l l' \<longleftrightarrow> l_token l' = l_token l \<and> l_max_downloads l' = l_max_downloads l \<and> l_expires_at l' = l_expires_at l \<and>
     l_download_count l \<le> l_download_count l' \<and> (l_revoked_at l \<noteq> None \<longrightarrow> l_revoked_at l' \<noteq> None)"

lemma ages_refl [simp]: "ages l l"
  by (simp add: ages_def)

lemma ages_trans: "ages k l \<Longrightarrow> ages l m \<Longrightarrow> ages k m"
  by (auto simp: ages_def)

definition aged :: "env \<Rightarrow> string \<Rightarrow> world \<Rightarrow> world \<Rightarrow> bool" where
  "aged env token w w' \<longleftrightarrow> w_clock w \<le> w_clock w' \<and> w_next_uuid w \<le> w_next_uuid w' \<and>
     (drawn env token w \<longrightarrow> (\<forall>l' \<in> set (w_links w'). l_token l' = token \<longrightarrow> (\<exists>l \<in> set (w_links w). ages l l')))"

lemma drawn_mono: "drawn env token w \<Longrightarrow> w_next_uuid w \<le> w_next_uuid w' \<Longrightarrow> drawn env token w'"
  by (auto simp: drawn_def dest: order_less_le_trans)

lemma aged_rel: "reflp (aged env token)" "transp (aged env token)"
proof -
  show "reflp (aged env token)" by (auto simp: reflp_def aged_def intro!: bexI)
  show "transp (aged env token)"
  proof (rule transpI)
    fix x y z
    assume xy: "aged env token x y" and yz: "aged env token y z"
    have "\<exists>l \<in> set (w_links x). ages l l'" if a: "drawn env token x" and b: "l' \<in> set (w_links z)" "l_token l' = token" for l'
    proof -
      have "drawn env token y" using a xy drawn_mono by (auto simp: aged_def)
      then obtain k where k: "k \<in> set (w_links y)" "ages k l'" using yz b by (auto simp: aged_def)
      then have "l_token k = token" using b by (simp add: ages_def)
      then obtain l where "l \<in> set (w_links x)" "ages l k" using xy a k(1) by (auto simp: aged_def)
      then show ?thesis using k(2) ages_trans by blast
    qed
    then show "aged env token x z" using xy yz by (auto simp: aged_def)
  qed
qed

lemma aged_same_links:
  "w_links w' = w_links w \<Longrightarrow> w_clock w' = w_clock w \<Longrightarrow> w_next_uuid w \<le> w_next_uuid w' \<Longrightarrow> aged env token w w'"
  by (auto simp: aged_def intro!: bexI)

lemma aged_update:
  "(\<And>l. ages l (f l)) \<Longrightarrow> keeps (aged env token) (update_link tok f)"
  by (intro keepsI) (fastforce simp: update_link_def wp_modify aged_def set_update_where intro: ages_refl)

lemma aged_readers:
  "keeps (aged env token) (shareable_object p n path)" "keeps (aged env token) (update_object i f)"
  "keeps (aged env token) (get_share_link tok)" "keeps (aged env token) (require_user_id p)"
  "keeps (aged env token) fresh_uuid"
proof -
  show "keeps (aged env token) (shareable_object p n path)"
    using shareable_object_frame [of p n path] aged_same_links unfolding keeps_def only_buckets_def by metis
  show "keeps (aged env token) (update_object i f)"
    by (intro keepsI) (auto simp: wp_update_object intro: aged_same_links)
  show "keeps (aged env token) fresh_uuid"
    by (intro keepsI) (auto simp: wp_fresh_uuid intro: aged_same_links)
  show "keeps (aged env token) (get_share_link tok)" "keeps (aged env token) (require_user_id p)"
    unfolding get_share_link_def require_user_id_def by (intro keeps_rules aged_rel)+
qed

lemma aged_atomic: "keeps (aged env token) m \<Longrightarrow> keeps (aged env token) (atomic m)"
proof (intro keepsI)
  fix w :: world
  assume m: "keeps (aged env token) m"
  have "aged env token w (rollback w w')" if "aged env token w w'" for w'
    using that by (intro aged_same_links) (auto simp: rollback_def aged_def)
  then show "wp (atomic m) (\<lambda>_. aged env token w) (\<lambda>_. aged env token w) w"
    by (auto simp: wp_atomic intro: wp_mono [OF keeps_wp [OF m]])
qed

lemma aged_revoke: "keeps (aged env token) (revoke_share_link p tok)"
  unfolding revoke_share_link_def
  by (intro keeps_rules aged_rel aged_readers aged_update) (simp add: ages_def)

lemma aged_redeem: "keeps (aged env token) (redeem_share_link tok)"
  unfolding redeem_share_link_def
  by (intro keeps_rules aged_rel aged_readers aged_atomic aged_update) (simp add: ages_def)

lemma aged_insert:
  assumes "inj (share_token env)" "\<And>i. l_token (f i) = share_token env i"
  shows "keeps (aged env token) (bindE fresh_uuid (\<lambda>i. insert_link (f i)))"
proof (intro keepsI)
  fix w :: world
  have "l_token (f (w_next_uuid w)) \<noteq> token" if "drawn env token w"
    using that assms by (auto simp: drawn_def dest: injD)
  then show "wp (bindE fresh_uuid (\<lambda>i. insert_link (f i))) (\<lambda>_. aged env token w) (\<lambda>_. aged env token w) w"
    by (auto simp: wp_bindE wp_fresh_uuid wp_insert_link aged_def intro: ages_refl)
qed

lemma aged_create: "inj (share_token env) \<Longrightarrow> keeps (aged env token) (create_share_link env p n path ex mx notes)"
  unfolding create_share_link_def case_prod_unfold
  by (intro keeps_rules aged_rel aged_readers aged_insert) simp_all

lemma edited_link_token [simp]: "l_token (edited_link f l) = l_token l" "l_id (edited_link f l) = l_id l"
  by (simp_all add: edited_link_def)

lemma aged_admin_add: "inj (share_token env) \<Longrightarrow> keeps (aged env token) (link_admin_add env f)"
  unfolding link_admin_add_def by (intro keeps_rules aged_rel aged_insert) simp_all

lemma aged_admin_change:
  assumes "l_token loaded \<noteq> token"
  shows "aged env token w (snd (link_admin_change loaded f w))"
proof (cases "link_form_ok w f \<and> l_id loaded \<notin> l_id ` set (w_links w)")
  case True
  then show ?thesis
    using assms
    by (auto simp: link_admin_change_def bindE_def gets_def ret_def insert_link_def aged_def intro: ages_refl)
next
  case False
  then show ?thesis
    using assms
    by (auto simp: link_admin_change_def bindE_def seqE_def gets_def ret_def modify_def aged_def set_update_where intro: ages_refl)
qed

lemma admin_change_refused:
  "link_admin_change loaded f w = (r, w') \<Longrightarrow> \<forall>l. r \<noteq> Inr (Some l) \<Longrightarrow> w' = w"
  by (auto simp: link_admin_change_def bindE_def seqE_def gets_def ret_def modify_def insert_link_def split: if_splits)

lemma step_aged:
  assumes "inj (share_token env)" "share_step env w a w'" "a \<noteq> Edited token"
  shows "aged env token w w'"
  using assms(2)
proof cases
  case (edited loaded f l)
  then show ?thesis using aged_admin_change [of loaded token env w f] assms(3) by simp
next
  case erased
  then show ?thesis by (auto simp: link_admin_delete_def modify_def aged_def delete_where_def intro: ages_refl)
next
  case not_edited
  then show ?thesis using admin_change_refused aged_rel(1) by (metis reflpD)
next
  case elsewhere
  then show ?thesis by (auto simp: aged_def intro!: bexI)
qed (auto intro: keepsD [OF aged_redeem] keepsD [OF aged_revoke] keepsD [OF aged_create [OF assms(1)]]
       keepsD [OF aged_admin_add [OF assms(1)]])

lemma redeem_run:
  assumes "redeem_share_link token w = (Inr x, w')"
  obtains l where "link_by_token w token = Some l" "link_is_active (w_clock w) l" "w_next_uuid w' = w_next_uuid w"
    "w_links w' = update_where (\<lambda>x. l_token x = token) (\<lambda>x. x\<lparr>l_download_count := l_download_count x + 1\<rparr>) (w_links w)"
proof -
  obtain l v where l: "link_by_token w token = Some l" "link_is_active (w_clock w) l"
    and v: "update_link token (\<lambda>l. l\<lparr>l_download_count := l_download_count l + 1\<rparr>) w = (Inr (), v)"
    and w': "w_links w' = w_links v \<and> w_next_uuid w' = w_next_uuid v"
    using assms by (auto simp: redeem_share_link_def get_share_link_def run_Inr update_object_def split: option.splits if_splits)
  show ?thesis using that [OF l] v w' by (auto simp: update_link_def modify_def)
qed

lemma redeemed_active:
  assumes "share_step env w (Redeemed token) w'"
  obtains l where "l \<in> set (w_links w)" "l_token l = token" "link_is_active (w_clock w) l"
proof -
  obtain x where "redeem_share_link token w = (Inr x, w')" using assms by (rule redeemed_step)
  then obtain l where "link_by_token w token = Some l" "link_is_active (w_clock w) l" by (rule redeem_run)
  then show ?thesis using that link_by_token_Some by blast
qed

text \<open>A link that is not active never becomes active again.\<close>

definition inactive :: "env \<Rightarrow> string \<Rightarrow> world \<Rightarrow> bool" where
  "inactive env token w \<longleftrightarrow> drawn env token w \<and>
     (\<forall>l \<in> set (w_links w). l_token l = token \<longrightarrow> \<not> link_is_active (w_clock w) l)"

lemma ages_inactive:
  "ages l l' \<Longrightarrow> t \<le> t' \<Longrightarrow> link_is_active t' l' \<Longrightarrow> link_is_active t l"
  by (auto simp: ages_def link_is_active_def split: option.splits if_splits)

lemma aged_inactive: "aged env token w w' \<Longrightarrow> inactive env token w \<Longrightarrow> inactive env token w'"
  unfolding inactive_def using drawn_mono ages_inactive by (auto simp: aged_def ages_def) metis

text \<open>
  C13. A link that has been revoked, has expired or has been used up is dead: whatever the service does
  from then on, in any order and for any length of time, its token is not redeemed again unless an administrator has
  edited that very link in the admin before (whose form can take back a revocation and move the limits).
\<close>

theorem dead_link_stays_dead:
  assumes "inj (share_token env)" "l \<in> set (w_links w)" "l_token l = share_token env i" "i < w_next_uuid w"
    "distinct (map l_token (w_links w))" "\<not> link_is_active (w_clock w) l"
    "share_run env w (as @ Redeemed (l_token l) # bs) w'"
  shows "Edited (l_token l) \<in> set as"
proof -
  have "x = l" if "x \<in> set (w_links w)" "l_token x = l_token l" for x
    using distinct_key_unique [OF assms(5) that(1) assms(2) that(2)] .
  moreover have "drawn env (l_token l) w" using assms(3,4) unfolding drawn_def by blast
  ultimately have "inactive env (l_token l) w" using assms(6) unfolding inactive_def by blast
  with assms(1,7) show ?thesis
  proof (induction as arbitrary: w)
    case Nil
    then obtain v where "share_step env w (Redeemed (l_token l)) v" by (auto elim: share_run.cases)
    then show ?case using Nil.prems(3) redeemed_active by (metis inactive_def)
  next
    case (Cons a as)
    then obtain v where v: "share_step env w a v" "share_run env v (as @ Redeemed (l_token l) # bs) w'"
      by (auto elim: share_run.cases)
    show ?case
    proof (cases "a = Edited (l_token l)")
      case False
      then have "inactive env (l_token l) v" using aged_inactive [OF step_aged [OF assms(1) v(1)] Cons.prems(3)] by simp
      then show ?thesis using Cons.IH [OF assms(1) v(2)] by simp
    qed simp
  qed
qed

text \<open>\<open>counted\<close>: every link with the token has the limit \<open>m\<close> and has been used at least \<open>c\<close> times.\<close>

definition counted :: "env \<Rightarrow> string \<Rightarrow> int \<Rightarrow> int \<Rightarrow> world \<Rightarrow> bool" where
  "counted env token m c w \<longleftrightarrow> drawn env token w \<and>
     (\<forall>l \<in> set (w_links w). l_token l = token \<longrightarrow> l_max_downloads l = Some m \<and> c \<le> l_download_count l)"

lemma aged_counted: "aged env token w w' \<Longrightarrow> counted env token m c w \<Longrightarrow> counted env token m c w'"
  unfolding counted_def using drawn_mono by (auto simp: aged_def ages_def) (metis order_trans)+

lemma redeemed_counted:
  assumes "share_step env w (Redeemed token) w'" "counted env token m c w"
  shows "counted env token m (c + 1) w' \<and> c + 1 \<le> m"
proof -
  obtain l where "l \<in> set (w_links w)" "l_token l = token" "link_is_active (w_clock w) l"
    using assms(1) by (rule redeemed_active)
  then have "c + 1 \<le> m" using assms(2) by (auto simp: counted_def link_is_active_def split: if_splits)
  moreover have "w_links w' = update_where (\<lambda>x. l_token x = token) (\<lambda>x. x\<lparr>l_download_count := l_download_count x + 1\<rparr>) (w_links w)
      \<and> w_next_uuid w' = w_next_uuid w"
  proof -
    obtain x where "redeem_share_link token w = (Inr x, w')" using assms(1) by (rule redeemed_step)
    then show ?thesis by (rule redeem_run) blast
  qed
  ultimately show ?thesis using assms(2) by (auto simp: counted_def drawn_def set_update_where)
qed

lemma run_counted:
  "share_run env w as w' \<Longrightarrow> inj (share_token env) \<Longrightarrow> Edited token \<notin> set as \<Longrightarrow> counted env token m c w \<Longrightarrow>
   c + int (length (filter (\<lambda>a. a = Redeemed token) as)) \<le> max m c"
proof (induction arbitrary: c rule: share_run.induct)
  case (go w a v as w')
  have as: "Edited token \<notin> set as" "a \<noteq> Edited token" using go.prems(2) by auto
  show ?case
  proof (cases "a = Redeemed token")
    case True
    have "counted env token m (c + 1) v" "c + 1 \<le> m" using redeemed_counted go.hyps(1) go.prems(3) True by blast+
    then show ?thesis using go.IH [OF go.prems(1) as(1)] True by fastforce
  next
    case False
    then show ?thesis
      using go.IH [OF go.prems(1) as(1) aged_counted [OF step_aged [OF go.prems(1) go.hyps(1) as(2)] go.prems(3)]] by simp
  qed
qed simp

text \<open>
  C14. A download limit holds until an administrator changes it. From any state, whatever the service does, however the
  redemptions of a link interleave with everything else, the downloads made through a link with the limit \<open>m\<close> before
  an administrator edits that link in the admin, together with those counted before, are at most \<open>m\<close>, and there is none
  when \<open>m\<close> are already counted: a link made with the limit \<open>m\<close> gives at most \<open>m\<close> downloads.
\<close>

theorem link_downloads_capped:
  assumes "inj (share_token env)" "l \<in> set (w_links w)" "l_token l = share_token env i" "i < w_next_uuid w"
    "distinct (map l_token (w_links w))" "l_max_downloads l = Some m" "share_run env w (as @ bs) w'"
    "Edited (l_token l) \<notin> set as"
  shows "l_download_count l + int (length (filter (\<lambda>a. a = Redeemed (l_token l)) as)) \<le> max m (l_download_count l)"
proof -
  obtain v where v: "share_run env w as v" using share_run_prefix [OF assms(7)] by blast
  have "x = l" if "x \<in> set (w_links w)" "l_token x = l_token l" for x
    using distinct_key_unique [OF assms(5) that(1) assms(2) that(2)] .
  moreover have "drawn env (l_token l) w" using assms(3,4) unfolding drawn_def by blast
  ultimately have "counted env (l_token l) m (l_download_count l) w" using assms(6) unfolding counted_def by blast
  from run_counted [OF v assms(1,8) this] show ?thesis .
qed

section \<open>Concrete links\<close>

definition token_env :: env where
  "token_env = s3_env\<lparr>share_token := show_base 10\<rparr>"

definition one_link :: share_link where
  "one_link = \<lparr>l_id = 4, l_token = ''4'', l_object = 3, l_company_id = 7, l_created_by_id = 1,
     l_expires_at = None, l_max_downloads = Some 1, l_download_count = 0, l_revoked_at = None, l_created_at = 0, l_notes = []\<rparr>"

definition shared_world :: "share_link \<Rightarrow> world" where
  "shared_world l = private_world\<lparr>w_links := [l]\<rparr>"

lemma token_env_inj: "inj (share_token token_env)"
  by (auto simp: token_env_def inj_def show_base_inject)

lemma one_link_token: "l_token one_link = share_token token_env 4"
  by (simp add: one_link_def token_env_def) code_simp

lemma shared_schema: "l_object l = 3 \<Longrightarrow> schema_ok (shared_world l)"
  using private_world_sound by (auto simp: sound_def schema_ok_def shared_world_def grant_shape_def sample_defs)

lemma redeem_share_link_exact_witness:
  "\<exists>x w'. redeem_share_link ''4'' (shared_world one_link) = (Inr x, w') \<and> l_download_count (fst x) = 1"
proof -
  have "schema_ok (shared_world one_link)" by (rule shared_schema) (simp add: one_link_def)
  moreover have "link_by_token (shared_world one_link) ''4'' = Some one_link"
    by (simp add: link_by_token_def shared_world_def one_link_def)
  moreover have "link_is_active (w_clock (shared_world one_link)) one_link" by (simp add: link_is_active_def one_link_def)
  moreover have "l_download_count one_link = 0" by (simp add: one_link_def)
  ultimately show ?thesis using redeem_share_link_exact [of "shared_world one_link" "''4''"] by simp
qed

lemma link_downloads_capped_witness:
  "\<exists>w'. share_run token_env (shared_world one_link) [Redeemed ''4''] w' \<and>
     l_download_count one_link + int (length (filter (\<lambda>a. a = Redeemed ''4'') [Redeemed ''4''])) \<le> 1"
proof -
  have "\<not> isl (fst (redeem_share_link ''4'' (shared_world one_link)))" by code_simp
  then obtain x w' where "redeem_share_link ''4'' (shared_world one_link) = (Inr x, w')"
    using succeeds [of "redeem_share_link ''4''" "shared_world one_link"] by blast
  then have run: "share_run token_env (shared_world one_link) ([Redeemed ''4''] @ []) w'"
    using share_run.go [OF share_step.redeemed share_run.stop] by simp
  have "l_download_count one_link + int (length (filter (\<lambda>a. a = Redeemed (l_token one_link)) [Redeemed ''4'']))
      \<le> max 1 (l_download_count one_link)"
    by (rule link_downloads_capped [OF token_env_inj _ one_link_token _ _ _ run])
      (simp_all add: shared_world_def one_link_def private_world_def empty_world_def)
  then show ?thesis using run by (auto simp: one_link_def)
qed

text \<open>A revoked link that an administrator brings back: the form takes the revocation back, and the link is redeemed.\<close>

definition revived_form :: link_form where
  "revived_form = \<lparr>lf_object = 3, lf_company_id = 7, lf_created_by_id = 1, lf_expires_at = None, lf_max_downloads = None,
     lf_revoked_at = None, lf_notes = []\<rparr>"

lemma dead_link_stays_dead_witness:
  "\<exists>w'. share_run token_env (shared_world (one_link\<lparr>l_revoked_at := Some 5\<rparr>)) ([Edited ''4''] @ Redeemed ''4'' # []) w' \<and>
     Edited ''4'' \<in> set [Edited ''4'']"
proof -
  let ?l = "one_link\<lparr>l_revoked_at := Some 5\<rparr>" and ?v = "shared_world (edited_link revived_form one_link)"
  have one: "link_admin_change ?l revived_form (shared_world ?l) = (Inr (Some (edited_link revived_form ?l)), ?v)"
    by (simp add: link_admin_change_def link_form_ok_def revived_form_def edited_link_def bindE_def seqE_def gets_def ret_def
        modify_def shared_world_def update_where_def sample_defs one_link_def)
  have "\<not> isl (fst (redeem_share_link ''4'' ?v))" by code_simp
  then obtain x w' where "redeem_share_link ''4'' ?v = (Inr x, w')" using succeeds [of "redeem_share_link ''4''" ?v] by blast
  then have step: "share_step token_env ?v (Redeemed ''4'') w'" by (rule share_step.redeemed)
  have "share_step token_env (shared_world ?l) (Edited (l_token ?l)) ?v"
    by (rule share_step.edited [OF one]) (simp add: shared_world_def)
  then have "share_step token_env (shared_world ?l) (Edited ''4'') ?v" by (simp add: one_link_def)
  then have run: "share_run token_env (shared_world ?l) ([Edited ''4''] @ Redeemed ''4'' # []) w'"
    using step share_run.go [OF _ share_run.go [OF _ share_run.stop]] by simp
  then have run': "share_run token_env (shared_world ?l) ([Edited ''4''] @ Redeemed (l_token ?l) # []) w'"
    by (simp add: one_link_def)
  have "Edited (l_token ?l) \<in> set [Edited ''4'']"
    by (rule dead_link_stays_dead [OF token_env_inj _ _ _ _ _ run', of 4])
      (simp_all add: shared_world_def one_link_token link_is_active_def private_world_def empty_world_def)
  then show ?thesis using run by (simp add: one_link_def) blast
qed

lemma create_share_link_limited_witness:
  "\<exists>l w'. create_share_link token_env ann ''company'' ''secret/plan.txt'' None (Some (JInt 2)) [] private_world = (Inr l, w') \<and>
     l_company_id l = 7 \<and> (l_expires_at l \<noteq> None \<or> l_max_downloads l \<noteq> None) \<and> w_links w' = w_links private_world @ [l]"
proof -
  have b: "bucket_by_name private_world 7 ''company'' = Some company_bucket" and prov: "provisioned 7 company_bucket private_world"
    and can: "can_access_bucket private_world ann company_bucket False False"
    and path: "can_access_path private_world ann company_bucket ''secret/plan.txt'' (Some 3) True False"
    and name: "safe_object_path ''secret/plan.txt'' = Inr ''secret/plan.txt''"
    and obj: "find_object private_world company_bucket ''secret/plan.txt'' = Some secret_file" by code_simp+
  have c: "p_company_id ann = Some 7" "p_user_id ann = Some 1" "o_id secret_file = 3" "w_links private_world = []"
    "secret_file \<in> set (w_objects private_world)" by (simp_all add: sample_defs)
  have "shareable_object ann ''company'' ''secret/plan.txt'' private_world = (Inr (company_bucket, secret_file), private_world)"
    by (simp add: shareable_object_def bindE_def seqE_def gets_def ret_def lift_sum_def guardE_def throw_def
        get_bucket_again [OF c(1) prov b] can path name obj c(3) assert_can_access_path_def)
  then have "\<not> isl (fst (create_share_link token_env ann ''company'' ''secret/plan.txt'' None (Some (JInt 2)) [] private_world))"
    using c by (auto simp: create_share_link_def bindE_def seqE_def gets_def ret_def lift_sum_def guardE_def throw_def
        parse_expires_at_def share_limit_def py_int_of_def require_user_id_def fresh_uuid_def insert_link_def)
  then obtain l w' where run: "create_share_link token_env ann ''company'' ''secret/plan.txt'' None (Some (JInt 2)) [] private_world = (Inr l, w')"
    using succeeds [of "create_share_link token_env ann ''company'' ''secret/plan.txt'' None (Some (JInt 2)) []" private_world] by blast
  from create_share_link_limited [OF run] have "p_company_id ann = Some (l_company_id l)" by auto
  then have "l_company_id l = 7" using c(1) by simp
  then show ?thesis using create_share_link_limited [OF run] run by blast
qed

end
