(* ===== verification/Listing.thy ===== *)
theory Listing
  imports Shares
begin

text \<open>
  What members see of a bucket: \<open>serialize_bucket\<close>, \<open>serialize_object\<close>, \<open>list_objects\<close>,
  \<open>summarize_prefix\<close> and \<open>resolve_item_by_id\<close> of \<open>apps/storage/services.py\<close>. A listing is
  characterised as a set (which files and folders appear) and as a sequence of pages, the summary of a
  folder by the readable rows it counts.
\<close>

section \<open>Buckets and objects as the API shows them\<close>

record bucket_view =
  bv_name :: string
  bv_display_name :: string
  bv_kind :: BucketKind
  bv_owner :: "string option"
  bv_file_size_limit :: "int option"
  bv_allowed_mime_types :: "string list option"
  bv_connector_provider :: "string option"
  bv_access :: access_descr
  bv_can_write :: bool
  bv_created_at :: string
  bv_updated_at :: string

text \<open>\<open>str(x) if x else None\<close>: a user id of 0 is shown as no owner.\<close>

definition shown_owner :: "int option \<Rightarrow> string option" where
  "shown_owner u = (case u of None \<Rightarrow> None | Some i \<Rightarrow> if i = 0 then None else Some (str_int i))"

definition serialize_bucket :: "world \<Rightarrow> bucket \<Rightarrow> principal option \<Rightarrow> bucket_view" where
  "serialize_bucket w b p =
     \<lparr>bv_name = b_name b, bv_display_name = display_name_for_bucket b, bv_kind = b_kind b,
      bv_owner = shown_owner (b_owner_id b), bv_file_size_limit = b_file_size_limit b,
      bv_allowed_mime_types = (if b_allowed_mime_types b = [] then None else Some (b_allowed_mime_types b)),
      bv_connector_provider = (if b_connector_provider b = [] then None else Some (b_connector_provider b)),
      bv_access = access_summary b,
      bv_can_write = (case p of Some q \<Rightarrow> can_access_bucket w q b True False
        | None \<Rightarrow> ad_writers (access_summary b) \<noteq> NOBODY),
      bv_created_at = iso_z (b_created_at b), bv_updated_at = iso_z (b_updated_at b)\<rparr>"

record object_view =
  ov_id :: string
  ov_name :: string
  ov_bucket_id :: string
  ov_owner :: "string option"
  ov_created_at :: string
  ov_updated_at :: string
  ov_last_accessed_at :: "string option"
  ov_metadata :: dict
  ov_access :: access_descr

definition shown_metadata :: "storage_object \<Rightarrow> dict" where
  "shown_metadata obj =
     foldl (\<lambda>d (k, v). dict_set k v d)
       [(''eTag'', if o_etag obj = [] then JNull else JStr ([double_quote] @ o_etag obj @ [double_quote])),
        (''size'', JInt (o_size obj)), (''mimetype'', JStr (o_mime_type obj)),
        (''cacheControl'', case map_of (o_metadata obj) ''cacheControl'' of None \<Rightarrow> JStr ''max-age=3600'' | Some v \<Rightarrow> v),
        (''lastModified'', JStr (iso_z (o_updated_at obj))), (''contentLength'', JInt (o_size obj)),
        (''httpStatusCode'', JInt 200)]
       (filter (\<lambda>(k, v). k \<noteq> ''cacheControl'') (o_metadata obj))"

text \<open>Without \<open>grants\<close>, the grants of the company of the bucket are fetched.\<close>

definition serialize_object :: "world \<Rightarrow> bucket \<Rightarrow> storage_object \<Rightarrow> bool \<Rightarrow> access_grant list option \<Rightarrow> object_view" where
  "serialize_object w b obj base_name_only grants =
     \<lparr>ov_id = str_uuid (o_id obj), ov_name = (if base_name_only then obj_basename obj else o_name obj),
      ov_bucket_id = b_name b, ov_owner = shown_owner (o_owner_id obj),
      ov_created_at = iso_z (o_created_at obj), ov_updated_at = iso_z (o_updated_at obj),
      ov_last_accessed_at = map_option iso_z (o_last_accessed_at obj), ov_metadata = shown_metadata obj,
      ov_access = path_access_summary w b (o_name obj) (Some (o_id obj))
        (case grants of Some gs \<Rightarrow> gs | None \<Rightarrow> active_grants w (b_company_id b))\<rparr>"

section \<open>Listing a folder\<close>

record folder_view =
  fv_folder_id :: "string option"
  fv_name :: string
  fv_bucket_id :: string
  fv_access :: access_descr

datatype list_entry = Folder folder_view | File object_view

definition icontains :: "string \<Rightarrow> string \<Rightarrow> bool" where
  "icontains s sub \<longleftrightarrow> sublist (lower sub) (lower s)"

definition visible :: "world \<Rightarrow> principal option \<Rightarrow> bucket \<Rightarrow> storage_object \<Rightarrow> bool" where
  "visible w p b obj \<longleftrightarrow>
     (case p of None \<Rightarrow> True | Some q \<Rightarrow> can_access_path w q b (o_name obj) (Some (o_id obj)) False False)"

text \<open>The rows of the query that the loop does not skip, each with the rest of its name.\<close>

definition listed_rows :: "world \<Rightarrow> bucket \<Rightarrow> string \<Rightarrow> string \<Rightarrow> principal option \<Rightarrow> (storage_object \<times> string) list" where
  "listed_rows w b pre search p =
     filter (\<lambda>(obj, rest). rest \<noteq> [])
       (map (\<lambda>obj. (obj, drop (length pre) (o_name obj)))
         (filter (visible w p b)
           (filter (\<lambda>obj. search = [] \<or> icontains (o_name obj) search)
             (sort_key o_name (filter (\<lambda>obj. o_bucket obj = b_id b \<and> prefix pre (o_name obj)) (w_objects w))))))"

definition head_segment :: "string \<Rightarrow> string" where
  "head_segment rest = takeWhile (\<lambda>c. c \<noteq> slash) rest"

definition tail_segments :: "string \<Rightarrow> string" where
  "tail_segments rest = drop 1 (dropWhile (\<lambda>c. c \<noteq> slash) rest)"

text \<open>The names of the folders (a set in the source) and the ids of their markers: the last row wins.\<close>

definition folder_names :: "(storage_object \<times> string) list \<Rightarrow> string list" where
  "folder_names rows = remdups (map (\<lambda>(obj, rest). head_segment rest) (filter (\<lambda>(obj, rest). slash \<in> set rest) rows))"

definition folder_ids :: "(storage_object \<times> string) list \<Rightarrow> string \<Rightarrow> string option" where
  "folder_ids rows name =
     map_option (\<lambda>(obj, rest). str_uuid (o_id obj))
       (first_where (\<lambda>(obj, rest). slash \<in> set rest \<and> head_segment rest = name \<and> tail_segments rest = FOLDER_PLACEHOLDER_NAME)
         (rev rows))"

definition folder_entry :: "world \<Rightarrow> bucket \<Rightarrow> string \<Rightarrow> (storage_object \<times> string) list \<Rightarrow> access_grant list \<Rightarrow> string \<Rightarrow> folder_view" where
  "folder_entry w b pre rows grants name =
     \<lparr>fv_folder_id = folder_ids rows name, fv_name = name, fv_bucket_id = b_name b,
      fv_access = path_access_summary w b (strip_slashes (pre @ name)) None grants\<rparr>"

datatype sort_column = Name | Updated_At | Created_At

definition parse_sort_column :: "string \<Rightarrow> sort_column" where
  "parse_sort_column s = (if s = ''updated_at'' then Updated_At else if s = ''created_at'' then Created_At else Name)"

definition folder_key :: "sort_column \<Rightarrow> folder_view \<Rightarrow> string" where
  "folder_key col f = (case col of Name \<Rightarrow> lower (fv_name f) | _ \<Rightarrow> [])"

definition file_key :: "sort_column \<Rightarrow> object_view \<Rightarrow> string" where
  "file_key col f = (case col of Name \<Rightarrow> lower (ov_name f) | Updated_At \<Rightarrow> ov_updated_at f | Created_At \<Rightarrow> ov_created_at f)"

text \<open>\<open>xs.sort(key=..., reverse=...)\<close>; a reversed sort keeps the order of equal elements too.\<close>

definition py_sort :: "('a \<Rightarrow> string) \<Rightarrow> bool \<Rightarrow> 'a list \<Rightarrow> 'a list" where
  "py_sort key reversed xs = (if reversed then rev (sort_key key (rev xs)) else sort_key key xs)"

definition all_entries :: "world \<Rightarrow> bucket \<Rightarrow> string \<Rightarrow> string \<Rightarrow> string \<Rightarrow> string \<Rightarrow> principal option \<Rightarrow> list_entry list" where
  "all_entries w b pre search sort_column sort_order p =
     (let rows = listed_rows w b pre search p;
          col = parse_sort_column sort_column;
          reversed = (lower sort_order = ''desc'');
          grants = active_grants w (b_company_id b);
          folder_entries = map (folder_entry w b pre rows grants) (folder_names rows);
          file_entries = map (\<lambda>(obj, rest). serialize_object w b obj True (Some grants))
            (filter (\<lambda>(obj, rest). slash \<notin> set rest) rows) in
      map Folder (py_sort (folder_key col) reversed folder_entries) @
      map File (py_sort (file_key col) reversed file_entries))"

definition list_objects ::
  "world \<Rightarrow> bucket \<Rightarrow> string \<Rightarrow> int \<Rightarrow> int \<Rightarrow> string \<Rightarrow> string \<Rightarrow> string \<Rightarrow> principal option \<Rightarrow> list_entry list" where
  "list_objects w b folder limit offset search sort_column sort_order p =
     py_slice offset (offset + limit) (all_entries w b (prefix_filter folder) search sort_column sort_order p)"

section \<open>Summaries and lookups by id\<close>

record prefix_summary =
  ps_prefix :: string
  ps_object_count :: int
  ps_file_count :: int
  ps_placeholder_count :: int
  ps_total_bytes :: int

definition count_row :: "world \<Rightarrow> principal option \<Rightarrow> bucket \<Rightarrow> prefix_summary \<Rightarrow> storage_object \<Rightarrow> prefix_summary" where
  "count_row w p b s obj =
     (if \<not> visible w p b obj then s
      else s\<lparr>ps_object_count := ps_object_count s + 1, ps_total_bytes := ps_total_bytes s + o_size obj,
        ps_placeholder_count := ps_placeholder_count s + (if is_placeholder_name (o_name obj) then 1 else 0)\<rparr>)"

definition summarize_prefix :: "world \<Rightarrow> bucket \<Rightarrow> string \<Rightarrow> principal option \<Rightarrow> prefix_summary" where
  "summarize_prefix w b folder p =
     (let s = foldl (count_row w p b)
          \<lparr>ps_prefix = strip_slashes folder, ps_object_count = 0, ps_file_count = 0, ps_placeholder_count = 0, ps_total_bytes = 0\<rparr>
          (objects_under_prefix w b folder) in
      s\<lparr>ps_file_count := max 0 (ps_object_count s - ps_placeholder_count s)\<rparr>)"

record item_view =
  iv_id :: string
  iv_bucket :: string
  iv_path :: string
  iv_name :: string
  iv_is_folder :: bool

definition item_view_of :: "bucket \<Rightarrow> storage_object \<Rightarrow> item_view" where
  "item_view_of b obj =
     (if is_placeholder_name (o_name obj)
      then let folder_path = (if o_name obj = FOLDER_PLACEHOLDER_NAME then []
              else take (length (o_name obj) - (length FOLDER_PLACEHOLDER_NAME + 1)) (o_name obj)) in
        \<lparr>iv_id = str_uuid (o_id obj), iv_bucket = b_name b, iv_path = folder_path,
         iv_name = (if folder_path = [] then display_name_for_bucket b else basename folder_path), iv_is_folder = True\<rparr>
      else \<lparr>iv_id = str_uuid (o_id obj), iv_bucket = b_name b, iv_path = o_name obj, iv_name = obj_basename obj,
         iv_is_folder = False\<rparr>)"

definition resolve_item_by_id :: "principal \<Rightarrow> string \<Rightarrow> item_view act" where
  "resolve_item_by_id p object_id =
     (case parse_uuid object_id of None \<Rightarrow> throw (StorageErr 400 ''invalid_id'')
      | Some uid \<Rightarrow>
        bindE (gets (\<lambda>w. object_by_id w uid)) (\<lambda>found.
        case found of None \<Rightarrow> throw (StorageErr 404 ''object_not_found'')
        | Some obj \<Rightarrow>
          seqE (guardE (case p_company_id p of None \<Rightarrow> True | Some c \<Rightarrow> o_company_id obj = c) (StorageErr 404 ''object_not_found''))
          (bindE (gets (\<lambda>w. bucket_by_id w (o_bucket obj))) (\<lambda>bucket.
           case bucket of None \<Rightarrow> throw DoesNotExist
           | Some b \<Rightarrow>
             seqE (assert_can_access_path p b (o_name obj) (Some (o_id obj)) False False)
               (ret (item_view_of b obj))))))"

section \<open>Which entries a listing has\<close>

lemma set_py_sort [simp]: "set (py_sort key r xs) = set xs"
  by (simp add: py_sort_def)

lemma set_py_slice: "set (py_slice lo hi xs) \<subseteq> set xs"
  using set_take_subset set_drop_subset unfolding py_slice_def Let_def by fast

lemma py_slice_all: "int (length xs) \<le> n \<Longrightarrow> py_slice 0 n xs = xs"
  by (simp add: py_slice_def slice_bound_def)

text \<open>\<open>in_folder\<close>: the object is readable, below the folder, and \<open>rest\<close> is its name relative to it.\<close>

definition in_folder :: "world \<Rightarrow> principal option \<Rightarrow> bucket \<Rightarrow> string \<Rightarrow> string \<Rightarrow> storage_object \<Rightarrow> string \<Rightarrow> bool" where
  "in_folder w p b folder search obj rest \<longleftrightarrow>
     obj \<in> set (w_objects w) \<and> o_bucket obj = b_id b \<and> o_name obj = prefix_filter folder @ rest \<and> rest \<noteq> [] \<and>
     visible w p b obj \<and> (search = [] \<or> icontains (o_name obj) search)"

lemma listed_rows_set:
  "(obj, rest) \<in> set (listed_rows w b (prefix_filter folder) search p) \<longleftrightarrow> in_folder w p b folder search obj rest"
  by (auto simp: listed_rows_def in_folder_def prefix_def)

lemma file_entry_iff:
  "File v \<in> set (all_entries w b (prefix_filter folder) search col ord p) \<longleftrightarrow>
     (\<exists>obj rest. in_folder w p b folder search obj rest \<and> slash \<notin> set rest \<and>
        v = serialize_object w b obj True (Some (active_grants w (b_company_id b))))"
  by (auto simp: all_entries_def Let_def image_iff listed_rows_set)

lemma head_tail:
  "slash \<in> set rest \<Longrightarrow> rest = head_segment rest @ slash # tail_segments rest"
  "slash \<notin> set (head_segment rest)"
proof -
  show "slash \<notin> set (head_segment rest)" by (auto simp: head_segment_def dest: set_takeWhileD)
  assume "slash \<in> set rest"
  then show "rest = head_segment rest @ slash # tail_segments rest"
    unfolding head_segment_def tail_segments_def by (induction rest) auto
qed

lemma head_segment_append: "slash \<notin> set name \<Longrightarrow> head_segment (name @ slash # r) = name"
  unfolding head_segment_def by (induction name) auto

lemma folder_names_set:
  "name \<in> set (folder_names rows) \<longleftrightarrow> (\<exists>obj rest. (obj, name @ slash # rest) \<in> set rows \<and> slash \<notin> set name)"
proof
  assume "name \<in> set (folder_names rows)"
  then obtain obj r where r: "(obj, r) \<in> set rows" "slash \<in> set r" "name = head_segment r" by (auto simp: folder_names_def)
  then show "\<exists>obj rest. (obj, name @ slash # rest) \<in> set rows \<and> slash \<notin> set name" using head_tail by metis
next
  assume "\<exists>obj rest. (obj, name @ slash # rest) \<in> set rows \<and> slash \<notin> set name"
  then show "name \<in> set (folder_names rows)" by (force simp: folder_names_def head_segment_append image_iff)
qed

lemma folder_entry_iff:
  "Folder v \<in> set (all_entries w b (prefix_filter folder) search col ord p) \<longleftrightarrow>
     (\<exists>obj rest. in_folder w p b folder search obj (fv_name v @ slash # rest) \<and> slash \<notin> set (fv_name v)) \<and>
     v = folder_entry w b (prefix_filter folder) (listed_rows w b (prefix_filter folder) search p)
           (active_grants w (b_company_id b)) (fv_name v)"
proof -
  let ?rows = "listed_rows w b (prefix_filter folder) search p"
  let ?f = "folder_entry w b (prefix_filter folder) ?rows (active_grants w (b_company_id b))"
  have "Folder v \<in> set (all_entries w b (prefix_filter folder) search col ord p) \<longleftrightarrow> v \<in> ?f ` set (folder_names ?rows)"
    by (auto simp: all_entries_def Let_def)
  also have "\<dots> \<longleftrightarrow> fv_name v \<in> set (folder_names ?rows) \<and> v = ?f (fv_name v)"
    by (auto simp: folder_entry_def)
  finally show ?thesis by (simp add: folder_names_set listed_rows_set)
qed

lemma folder_id_row:
  assumes "folder_ids (listed_rows w b (prefix_filter folder) search p) name = Some i"
  shows "\<exists>obj. in_folder w p b folder search obj (name @ slash # FOLDER_PLACEHOLDER_NAME) \<and> i = str_uuid (o_id obj)"
proof -
  obtain obj rest where row: "(obj, rest) \<in> set (listed_rows w b (prefix_filter folder) search p)" "slash \<in> set rest"
    "head_segment rest = name" "tail_segments rest = FOLDER_PLACEHOLDER_NAME" "i = str_uuid (o_id obj)"
    using assms by (auto simp: folder_ids_def dest!: first_where_Some)
  then show ?thesis using head_tail(1) [OF row(2)] by (auto simp: listed_rows_set)
qed

text \<open>
  C15. A listing shows nothing the caller may not read. On every page, for every search and order, a
  file is an object directly in the folder that the caller may read; a folder has a readable object
  below it, and the id it carries is that of a readable marker. Names of private files and folders,
  and their number, do not show.
\<close>

theorem listing_shows_readable:
  assumes "e \<in> set (list_objects w b folder limit offset search col ord (Some q))"
  shows "case e of
      File v \<Rightarrow> \<exists>obj rest. obj \<in> set (w_objects w) \<and> o_bucket obj = b_id b \<and> o_name obj = prefix_filter folder @ rest \<and>
        slash \<notin> set rest \<and> ov_id v = str_uuid (o_id obj) \<and> can_access_path w q b (o_name obj) (Some (o_id obj)) False False
    | Folder v \<Rightarrow>
        (\<exists>obj rest. obj \<in> set (w_objects w) \<and> o_bucket obj = b_id b \<and> o_name obj = prefix_filter folder @ fv_name v @ slash # rest \<and>
           can_access_path w q b (o_name obj) (Some (o_id obj)) False False) \<and>
        (\<forall>i. fv_folder_id v = Some i \<longrightarrow> (\<exists>obj. obj \<in> set (w_objects w) \<and> o_bucket obj = b_id b \<and> i = str_uuid (o_id obj) \<and>
           o_name obj = prefix_filter folder @ fv_name v @ slash # FOLDER_PLACEHOLDER_NAME \<and>
           can_access_path w q b (o_name obj) (Some (o_id obj)) False False))"
proof (cases e)
  case (File v)
  then have "File v \<in> set (all_entries w b (prefix_filter folder) search col ord (Some q))"
    using assms set_py_slice unfolding list_objects_def by fast
  then show ?thesis
    unfolding file_entry_iff using File by (auto simp: in_folder_def visible_def serialize_object_def)
next
  case (Folder v)
  then have "Folder v \<in> set (all_entries w b (prefix_filter folder) search col ord (Some q))"
    using assms set_py_slice unfolding list_objects_def by fast
  then have "\<exists>obj rest. in_folder w (Some q) b folder search obj (fv_name v @ slash # rest)"
    and id: "fv_folder_id v = folder_ids (listed_rows w b (prefix_filter folder) search (Some q)) (fv_name v)"
    unfolding folder_entry_iff folder_entry_def by (metis folder_view.select_convs(1))+
  then show ?thesis
    using Folder folder_id_row [of w b folder search "Some q" "fv_name v"] by (fastforce simp: in_folder_def visible_def)
qed

section \<open>Pages\<close>

lemma concat_pages:
  "concat (map (\<lambda>k. take n (drop (k * n) xs)) [0..<m]) = take (m * n) xs"
proof (induction m)
  case (Suc m)
  have "take (m * n) xs @ take n (drop (m * n) xs) = take (m * n + n) xs" by (simp add: take_add)
  then show ?case using Suc by (simp add: add.commute)
qed simp

lemma py_slice_page: "py_slice (int a) (int a + int n) xs = take n (drop a xs)"
proof -
  have lo: "slice_bound (int a) (length xs) = min a (length xs)" by (simp add: slice_bound_def)
  have hi: "slice_bound (int a + int n) (length xs) = min (a + n) (length xs)" by (simp add: slice_bound_def nat_add_distrib)
  show ?thesis unfolding py_slice_def Let_def lo hi by (cases "a \<le> length xs") (auto simp: take_all_iff min_def)
qed

text \<open>
  C16. Pages make up the listing. Asking for page after page of one size gives every entry exactly once, in
  the order of the whole listing; and every object directly in the folder that the caller may read is on
  one of the pages, as is the folder of every readable object further down.
\<close>

theorem listing_pages_complete:
  assumes "length (all_entries w b (prefix_filter folder) [] col ord (Some q)) \<le> m * n"
  shows "concat (map (\<lambda>k. list_objects w b folder (int n) (int (k * n)) [] col ord (Some q)) [0..<m]) =
      all_entries w b (prefix_filter folder) [] col ord (Some q) \<and>
    (\<forall>obj \<in> set (w_objects w). o_bucket obj = b_id b \<and> can_access_path w q b (o_name obj) (Some (o_id obj)) False False \<longrightarrow>
      (\<forall>name. name \<noteq> [] \<and> slash \<notin> set name \<longrightarrow>
        (o_name obj = prefix_filter folder @ name \<longrightarrow>
          (\<exists>k < m. \<exists>v. File v \<in> set (list_objects w b folder (int n) (int (k * n)) [] col ord (Some q)) \<and> ov_id v = str_uuid (o_id obj))) \<and>
        (\<forall>rest. o_name obj = prefix_filter folder @ name @ slash # rest \<longrightarrow>
          (\<exists>k < m. \<exists>v. Folder v \<in> set (list_objects w b folder (int n) (int (k * n)) [] col ord (Some q)) \<and> fv_name v = name))))"
    (is "?pages = ?all \<and> _")
proof -
  have page: "list_objects w b folder (int n) (int (k * n)) [] col ord (Some q) = take n (drop (k * n) ?all)" for k
    unfolding list_objects_def by (rule py_slice_page)
  have pages: "?pages = ?all" unfolding page concat_pages using assms by simp
  have on_page: "\<exists>k < m. e \<in> set (list_objects w b folder (int n) (int (k * n)) [] col ord (Some q))" if "e \<in> set ?all" for e
  proof -
    have "e \<in> set ?pages" using that pages by metis
    then show ?thesis by auto
  qed
  have "in_folder w (Some q) b folder [] obj rest"
    if "obj \<in> set (w_objects w)" "o_bucket obj = b_id b" "can_access_path w q b (o_name obj) (Some (o_id obj)) False False"
      "o_name obj = prefix_filter folder @ rest" "rest \<noteq> []" for obj rest
    using that by (simp add: in_folder_def visible_def)
  note inside = this
  have as_file: "\<exists>k < m. \<exists>v. File v \<in> set (list_objects w b folder (int n) (int (k * n)) [] col ord (Some q)) \<and> ov_id v = str_uuid (o_id obj)"
    if "in_folder w (Some q) b folder [] obj rest" "slash \<notin> set rest" for obj rest
  proof -
    let ?v = "serialize_object w b obj True (Some (active_grants w (b_company_id b)))"
    have name: "ov_id ?v = str_uuid (o_id obj)" by (simp add: serialize_object_def)
    have "File ?v \<in> set ?all" unfolding file_entry_iff using that by blast
    from on_page [OF this] show ?thesis using name by blast
  qed
  have as_folder: "\<exists>k < m. \<exists>v. Folder v \<in> set (list_objects w b folder (int n) (int (k * n)) [] col ord (Some q)) \<and> fv_name v = name"
    if "in_folder w (Some q) b folder [] obj (name @ slash # rest)" "slash \<notin> set name" for obj rest name
  proof -
    let ?v = "folder_entry w b (prefix_filter folder) (listed_rows w b (prefix_filter folder) [] (Some q)) (active_grants w (b_company_id b)) name"
    have name: "fv_name ?v = name" by (simp add: folder_entry_def)
    have "Folder ?v \<in> set ?all" unfolding folder_entry_iff name using that by blast
    from on_page [OF this] show ?thesis using name by blast
  qed
  show ?thesis using pages by (intro conjI ballI allI impI as_file as_folder) (auto intro!: inside)
qed

text \<open>
  The summary of a folder counts exactly the readable objects below it: their number, how many
  of them are files and how many are markers of folders, and their bytes.
\<close>

theorem summarize_prefix_exact:
  "summarize_prefix w b folder p =
    (let rows = filter (visible w p b) (objects_under_prefix w b folder);
         markers = filter (\<lambda>obj. is_placeholder_name (o_name obj)) rows in
     \<lparr>ps_prefix = strip_slashes folder, ps_object_count = int (length rows),
      ps_file_count = int (length (filter (\<lambda>obj. \<not> is_placeholder_name (o_name obj)) rows)),
      ps_placeholder_count = int (length markers), ps_total_bytes = sum_rows o_size rows\<rparr>)"
proof -
  have loop: "foldl (count_row w p b) s objs =
     s\<lparr>ps_object_count := ps_object_count s + int (length (filter (visible w p b) objs)),
       ps_placeholder_count := ps_placeholder_count s +
         int (length (filter (\<lambda>obj. is_placeholder_name (o_name obj)) (filter (visible w p b) objs))),
       ps_total_bytes := ps_total_bytes s + sum_rows o_size (filter (visible w p b) objs)\<rparr>" for s objs
    by (induction objs arbitrary: s) (simp_all add: count_row_def)
  have parts: "int (length xs) - int (length (filter P xs)) = int (length (filter (\<lambda>x. \<not> P x) xs))" for P :: "storage_object \<Rightarrow> bool" and xs
    using sum_length_filter_compl [of P xs] by simp
  show ?thesis by (simp add: summarize_prefix_def Let_def loop parts del: filter_filter)
qed

section \<open>A private folder, seen by its owner\<close>

text \<open>A listing is never longer than the table.\<close>

lemma length_py_sort [simp]: "length (py_sort key r xs) = length xs"
  by (simp add: py_sort_def)

lemma length_all_entries: "length (all_entries w b pre search col ord p) \<le> length (w_objects w)"
proof -
  let ?rows = "listed_rows w b pre search p"
  have "length (all_entries w b pre search col ord p) =
      length (folder_names ?rows) + length (filter (\<lambda>x. \<not> (case x of (obj, rest) \<Rightarrow> slash \<in> set rest)) ?rows)"
    by (simp add: all_entries_def Let_def case_prod_unfold)
  also have "\<dots> \<le> length (filter (\<lambda>(obj, rest). slash \<in> set rest) ?rows) + length (filter (\<lambda>x. \<not> (case x of (obj, rest) \<Rightarrow> slash \<in> set rest)) ?rows)"
    unfolding folder_names_def by (intro add_right_mono order_trans [OF length_remdups_leq]) simp
  also have "\<dots> = length ?rows" by (rule sum_length_filter_compl)
  also have "\<dots> \<le> length (w_objects w)"
    unfolding listed_rows_def
    by (intro order_trans [OF length_filter_le] order_trans [OF eq_imp_le [OF length_map]]
        order_trans [OF eq_imp_le [OF length_sort]] order_refl)
  finally show ?thesis .
qed

lemma secret_row:
  "secret_file \<in> set (w_objects private_world)" "o_bucket secret_file = b_id company_bucket"
  "o_name secret_file = prefix_filter [] @ ''secret'' @ slash # ''plan.txt''"
  "can_access_path private_world ann company_bucket (o_name secret_file) (Some (o_id secret_file)) False False"
proof -
  show "can_access_path private_world ann company_bucket (o_name secret_file) (Some (o_id secret_file)) False False"
    by code_simp
qed (simp_all add: sample_defs prefix_filter_def strip_slashes_def strip_where_def)

lemma private_world_size: "length (w_objects private_world) = 2"
  by (simp add: sample_defs)

lemma listing_pages_complete_witness:
  "\<exists>v. Folder v \<in> set (list_objects private_world company_bucket [] 2 0 [] ''name'' ''asc'' (Some ann)) \<and> fv_name v = ''secret''"
proof -
  have one: "length (all_entries private_world company_bucket (prefix_filter []) [] ''name'' ''asc'' (Some ann)) \<le> 1 * 2"
    using length_all_entries [of private_world] private_world_size by simp
  have "''secret'' \<noteq> []" "slash \<notin> set ''secret''" by simp_all
  then have "\<exists>k < 1. \<exists>v. Folder v \<in> set (list_objects private_world company_bucket [] (int 2) (int (k * 2)) [] ''name'' ''asc'' (Some ann)) \<and>
      fv_name v = ''secret''"
    using listing_pages_complete [OF one] secret_row by blast
  then show ?thesis by simp
qed

lemma listing_shows_readable_witness:
  "\<exists>e obj. e \<in> set (list_objects private_world company_bucket [] 100 0 [] ''name'' ''asc'' (Some ann)) \<and>
     obj \<in> set (w_objects private_world) \<and> can_access_path private_world ann company_bucket (o_name obj) (Some (o_id obj)) False False"
proof -
  let ?all = "all_entries private_world company_bucket (prefix_filter []) [] ''name'' ''asc'' (Some ann)"
  define v where "v = folder_entry private_world company_bucket (prefix_filter [])
      (listed_rows private_world company_bucket (prefix_filter []) [] (Some ann))
      (active_grants private_world (b_company_id company_bucket)) ''secret''"
  have "fv_name v = ''secret''" by (simp add: v_def folder_entry_def)
  moreover have "in_folder private_world (Some ann) company_bucket [] [] secret_file (''secret'' @ slash # ''plan.txt'')"
    using secret_row unfolding in_folder_def visible_def by simp
  ultimately have "Folder v \<in> set ?all" unfolding folder_entry_iff by (simp add: v_def) blast
  moreover have "int (length ?all) \<le> 100" using length_all_entries [of private_world company_bucket "prefix_filter []" "[]" "''name''" "''asc''" "Some ann"] private_world_size by simp
  ultimately have e: "Folder v \<in> set (list_objects private_world company_bucket [] 100 0 [] ''name'' ''asc'' (Some ann))"
    by (simp add: list_objects_def py_slice_all)
  from listing_shows_readable [OF this] obtain obj where "obj \<in> set (w_objects private_world)"
    "can_access_path private_world ann company_bucket (o_name obj) (Some (o_id obj)) False False" by auto
  then show ?thesis using e by blast
qed

end
