(* ===== verification/Stats.thy ===== *)
theory Stats
  imports Listing
begin

text \<open>
  The statistics of \<open>apps/storage/stats.py\<close> and the gauges of \<open>apps/storage/metrics.py\<close>: sums and
  counts over the object table, of one company or of all. The byte counts as text and the
  percentages, which the source computes with floating point numbers, are left out. A
  statistic of a company is shown to depend on the rows of that company only; within the company it
  does not ask what the caller may read.
\<close>

section \<open>Grouped sums\<close>

text \<open>\<open>values(k).annotate(Count, Sum)\<close>: a group per value, in the order of first occurrence.\<close>

record 'k stat_row =
  st_key :: 'k
  st_object_count :: int
  st_total_bytes :: int

definition group_rows :: "('a \<Rightarrow> 'k) \<Rightarrow> ('a \<Rightarrow> int) \<Rightarrow> 'a list \<Rightarrow> 'k stat_row list" where
  "group_rows key v xs =
     map (\<lambda>k. let members = filter (\<lambda>x. key x = k) xs in
            \<lparr>st_key = k, st_object_count = int (length members), st_total_bytes = sum_rows v members\<rparr>)
       (remdups (map key xs))"

section \<open>Types of content\<close>

definition contains :: "string \<Rightarrow> string \<Rightarrow> bool" where
  "contains sub s \<longleftrightarrow> sublist sub s"

definition mime_family :: "string \<Rightarrow> string" where
  "mime_family mime0 =
     (let mime = lower (if mime0 = [] then ''application/octet-stream'' else mime0) in
      if prefix ''image/'' mime then ''Images''
      else if prefix ''video/'' mime then ''Video''
      else if prefix ''audio/'' mime then ''Audio''
      else if mime \<in> {''text/markdown'', ''text/x-markdown''} \<or> prefix ''text/'' mime then ''Text / Markdown''
      else if mime = ''application/pdf'' \<or> contains ''document'' mime \<or> contains ''msword'' mime \<or> contains ''officedocument'' mime
      then ''Office / PDF''
      else if prefix ''application/json'' mime \<or> mime \<in> {''application/yaml'', ''application/toml'', ''application/xml''}
      then ''Data'' else ''Other'')"

definition DOCUMENT_MIME_PREFIXES :: "string list" where
  "DOCUMENT_MIME_PREFIXES =
     [''application/pdf'', ''application/msword'', ''application/vnd.openxmlformats'', ''application/vnd.ms-'',
      ''application/rtf'', ''text/'', ''application/json'', ''application/xml'', ''application/yaml'',
      ''application/toml'', ''application/epub'']"

definition is_document :: "string \<Rightarrow> bool" where
  "is_document mime \<longleftrightarrow> list_ex (\<lambda>pre. prefix pre (lower mime)) DOCUMENT_MIME_PREFIXES"

section \<open>Statistics\<close>

record recent_row =
  rr_id :: string
  rr_name :: string
  rr_basename :: string
  rr_bucket :: string
  rr_company_id :: int
  rr_owner_id :: "int option"
  rr_mime_type :: string
  rr_size :: int
  rr_created_at :: string
  rr_is_document :: bool

definition recent_row_of :: "world \<Rightarrow> storage_object \<Rightarrow> recent_row" where
  "recent_row_of w obj =
     \<lparr>rr_id = str_uuid (o_id obj), rr_name = o_name obj, rr_basename = obj_basename obj,
      rr_bucket = bucket_name_of w (o_bucket obj), rr_company_id = o_company_id obj, rr_owner_id = o_owner_id obj,
      rr_mime_type = o_mime_type obj, rr_size = o_size obj, rr_created_at = iso_z (o_created_at obj),
      rr_is_document = is_document (o_mime_type obj)\<rparr>"

record storage_stats =
  ss_scope_company_id :: "int option"
  ss_object_count :: int
  ss_total_bytes :: int
  ss_bucket_count :: int
  ss_company_count :: int
  ss_document_count :: int
  ss_document_bytes :: int
  ss_uploads_24h :: int
  ss_uploads_7d :: int
  ss_uploads_30d :: int
  ss_bytes_7d :: int
  ss_by_company :: "int stat_row list"
  ss_by_bucket :: "(int \<times> string) stat_row list"
  ss_by_mime :: "string stat_row list"
  ss_by_family :: "string stat_row list"
  ss_quotas :: "(int \<times> int \<times> int) list"
  ss_daily_series :: "(int \<times> int \<times> int) list"
  ss_recent :: "recent_row list"
  ss_generated_at :: string

definition scoped :: "int option \<Rightarrow> ('r \<Rightarrow> int) \<Rightarrow> 'r list \<Rightarrow> 'r list" where
  "scoped company_id company rows = (case company_id of None \<Rightarrow> rows | Some c \<Rightarrow> filter (\<lambda>r. company r = c) rows)"

definition since :: "int \<Rightarrow> storage_object list \<Rightarrow> storage_object list" where
  "since t objs = filter (\<lambda>obj. t \<le> o_created_at obj) objs"

text \<open>The families: the groups of the type merged, those with the most objects first.\<close>

definition merge_families :: "string stat_row list \<Rightarrow> string stat_row list" where
  "merge_families rows =
     rev (sort_key st_object_count (rev
       (map (\<lambda>f. let members = filter (\<lambda>r. mime_family (st_key r) = f) rows in
              \<lparr>st_key = f, st_object_count = sum_rows st_object_count members, st_total_bytes = sum_rows st_total_bytes members\<rparr>)
         (remdups (map (\<lambda>r. mime_family (st_key r)) rows)))))"

text \<open>One entry per day, oldest first: the day since the epoch (UTC), its objects and bytes.\<close>

definition day_of :: "int \<Rightarrow> int" where
  "day_of t = t div day_microseconds"

definition daily_series :: "int \<Rightarrow> nat \<Rightarrow> storage_object list \<Rightarrow> (int \<times> int \<times> int) list" where
  "daily_series now days objs =
     map (\<lambda>k. let day = day_of (now - int (days - k) * day_microseconds);
              rows = filter (\<lambda>obj. day_of (o_created_at obj) = day) (since (now - int days * day_microseconds) objs) in
            (day, int (length rows), sum_rows o_size rows))
       [0..<Suc days]"

definition build_storage_stats :: "world \<Rightarrow> nat \<Rightarrow> nat \<Rightarrow> int option \<Rightarrow> storage_stats" where
  "build_storage_stats w recent_limit days company_id =
     (let now = w_clock w;
          objects = scoped company_id o_company_id (w_objects w);
          buckets = scoped company_id b_company_id (w_buckets w);
          quotas = scoped company_id cq_company_id (w_cquotas w);
          documents = filter (\<lambda>obj. is_document (o_mime_type obj)) objects;
          week = since (now - 7 * day_microseconds) objects;
          by_mime_raw = sort_key (\<lambda>r. - st_object_count r) (group_rows o_mime_type o_size objects) in
      \<lparr>ss_scope_company_id = company_id,
       ss_object_count = int (length objects), ss_total_bytes = sum_rows o_size objects,
       ss_bucket_count = int (length buckets),
       ss_company_count = int (length (remdups (map o_company_id objects))),
       ss_document_count = int (length documents), ss_document_bytes = sum_rows o_size documents,
       ss_uploads_24h = int (length (since (now - day_microseconds) objects)),
       ss_uploads_7d = int (length week),
       ss_uploads_30d = int (length (since (now - 30 * day_microseconds) objects)),
       ss_bytes_7d = sum_rows o_size week,
       ss_by_company = take 20 (sort_key (\<lambda>r. - st_total_bytes r) (group_rows o_company_id o_size objects)),
       ss_by_bucket = take 20 (sort_key (\<lambda>r. - st_total_bytes r)
         (group_rows (\<lambda>obj. case bucket_by_id w (o_bucket obj) of None \<Rightarrow> (0, []) | Some b \<Rightarrow> (b_company_id b, b_name b))
           o_size objects)),
       ss_by_mime = take 15 by_mime_raw, ss_by_family = merge_families by_mime_raw,
       ss_quotas = map (\<lambda>q. (cq_company_id q, cq_used_bytes q, cq_max_bytes q)) (sort_key cq_company_id quotas),
       ss_daily_series = daily_series now days objects,
       ss_recent = map (recent_row_of w) (take recent_limit (sort_key (\<lambda>obj. - o_created_at obj) objects)),
       ss_generated_at = iso_z now\<rparr>)"

section \<open>Metrics\<close>

record gauges =
  gg_objects_total :: int
  gg_bytes_total :: int
  gg_buckets_total :: int
  gg_documents_total :: int
  gg_document_bytes :: int
  gg_uploads_24h :: int
  gg_uploads_7d :: int
  gg_uploads_30d :: int
  gg_bytes_7d :: int
  gg_quota_used_bytes :: int
  gg_quota_max_bytes :: int

definition metrics_snapshot :: "world \<Rightarrow> int \<Rightarrow> gauges" where
  "metrics_snapshot w c =
     (let objects = filter (\<lambda>obj. o_company_id obj = c) (w_objects w);
          documents = filter (\<lambda>obj. is_document (o_mime_type obj)) objects;
          now = w_clock w; week = since (now - 7 * day_microseconds) objects;
          quota = first_where (\<lambda>q. cq_company_id q = c) (w_cquotas w) in
      \<lparr>gg_objects_total = int (length objects), gg_bytes_total = sum_rows o_size objects,
       gg_buckets_total = int (length (filter (\<lambda>b. b_company_id b = c) (w_buckets w))),
       gg_documents_total = int (length documents), gg_document_bytes = sum_rows o_size documents,
       gg_uploads_24h = int (length (since (now - day_microseconds) objects)), gg_uploads_7d = int (length week),
       gg_uploads_30d = int (length (since (now - 30 * day_microseconds) objects)), gg_bytes_7d = sum_rows o_size week,
       gg_quota_used_bytes = (case quota of None \<Rightarrow> 0 | Some q \<Rightarrow> cq_used_bytes q),
       gg_quota_max_bytes = (case quota of None \<Rightarrow> 0 | Some q \<Rightarrow> cq_max_bytes q)\<rparr>)"

definition metrics_company_ids :: "world \<Rightarrow> int list" where
  "metrics_company_ids w =
     sorted_list_of_set (b_company_id ` set (w_buckets w) \<union> o_company_id ` set (w_objects w) \<union> cq_company_id ` set (w_cquotas w))"

text \<open>The body: the values of the gauges labelled with their company.\<close>

definition metrics_body :: "world \<Rightarrow> int option \<Rightarrow> (string \<times> gauges) list" where
  "metrics_body w company_id =
     map (\<lambda>c. (str_int c, metrics_snapshot w c)) (case company_id of None \<Rightarrow> metrics_company_ids w | Some c \<Rightarrow> [c])"

section \<open>Views\<close>

text \<open>\<open>StatsView.get\<close>: \<open>days\<close> is the query parameter; staff see all companies.\<close>

definition stats_view :: "principal \<Rightarrow> string option \<Rightarrow> storage_stats act" where
  "stats_view p days_param =
     bindE (if p_is_staff p then ret None else bindE (require_company_id p) (\<lambda>c. ret (Some c))) (\<lambda>company_id.
     bindE (case days_param of None \<Rightarrow> ret 14 | Some s \<Rightarrow> if s = [] then ret 14
        else (case py_int 10 s of None \<Rightarrow> throw ValueErr | Some d \<Rightarrow> ret d)) (\<lambda>days.
     gets (\<lambda>w. build_storage_stats w 25 (nat (max 1 (min days 90))) company_id)))"

definition metrics_view :: "principal \<Rightarrow> string \<Rightarrow> (string \<times> gauges) list act" where
  "metrics_view p company_param =
     seqE (guardE (p_is_staff p \<or> p_is_company_owner p) (StorageErr 403 ''Forbidden''))
     (seqE (guardE (strip company_param = []) (StorageErr 400 ''company_id in query''))
     (case p_company_id p of None \<Rightarrow> throw (StorageErr 400 ''Missing company_id'')
      | Some c \<Rightarrow> gets (\<lambda>w. metrics_body w (Some c))))"

section \<open>Statistics stay inside the company, and go across it\<close>

text \<open>What a world says about one company.\<close>

definition company_slice :: "int \<Rightarrow> world \<Rightarrow> storage_object list \<times> bucket list \<times> company_quota list \<times> int" where
  "company_slice c w =
     (filter (\<lambda>obj. o_company_id obj = c) (w_objects w), filter (\<lambda>b. b_company_id b = c) (w_buckets w),
      filter (\<lambda>q. cq_company_id q = c) (w_cquotas w), w_clock w)"

lemma first_where_filter: "first_where P (filter Q xs) = first_where (\<lambda>x. Q x \<and> P x) xs"
  by (induction xs) auto

lemma bucket_in_slice:
  assumes "schema_ok w" "tenant_ok w" "obj \<in> set (w_objects w)" "o_company_id obj = c"
  shows "bucket_by_id w (o_bucket obj) = first_where (\<lambda>b. b_id b = o_bucket obj) (filter (\<lambda>b. b_company_id b = c) (w_buckets w))"
proof -
  have "bucket_company (w_buckets w) (o_bucket obj) c" using assms by (auto simp: tenant_ok_def object_local_def)
  then show ?thesis
    unfolding bucket_by_id_def first_where_filter by (intro first_where_cong) (auto simp: bucket_company_def)
qed

lemma group_rows_cong: "(\<And>x. x \<in> set xs \<Longrightarrow> key x = key' x) \<Longrightarrow> group_rows key v xs = group_rows key' v xs"
  unfolding group_rows_def Let_def
  by (intro map_cong arg_cong [of _ _ remdups]) (auto cong: filter_cong)

text \<open>
  C17. The statistics and the metrics of a company depend on that company alone: two states of the
  service that agree on the objects, the buckets and the quota of the company, and on the time, give
  the same answer, whatever other companies have stored.
\<close>

theorem statistics_tenant_isolation:
  assumes "sound w" "sound w'" "company_slice c w = company_slice c w'"
  shows "build_storage_stats w n d (Some c) = build_storage_stats w' n d (Some c) \<and>
     metrics_body w (Some c) = metrics_body w' (Some c)"
proof -
  let ?objs = "filter (\<lambda>obj. o_company_id obj = c) (w_objects w)"
  have same: "filter (\<lambda>obj. o_company_id obj = c) (w_objects w') = ?objs"
    "filter (\<lambda>b. b_company_id b = c) (w_buckets w') = filter (\<lambda>b. b_company_id b = c) (w_buckets w)"
    "filter (\<lambda>q. cq_company_id q = c) (w_cquotas w') = filter (\<lambda>q. cq_company_id q = c) (w_cquotas w)" "w_clock w' = w_clock w"
    using assms(3) by (simp_all add: company_slice_def)
  have bucket: "bucket_by_id w' (o_bucket obj) = bucket_by_id w (o_bucket obj)" if "obj \<in> set ?objs" for obj
  proof -
    have "obj \<in> set (filter (\<lambda>obj. o_company_id obj = c) (w_objects w'))" using that unfolding same(1) .
    then show ?thesis using that assms(1,2) bucket_in_slice same(2) by (auto simp: sound_def)
  qed
  then have "group_rows (\<lambda>obj. case bucket_by_id w' (o_bucket obj) of None \<Rightarrow> (0, []) | Some b \<Rightarrow> (b_company_id b, b_name b)) o_size ?objs =
      group_rows (\<lambda>obj. case bucket_by_id w (o_bucket obj) of None \<Rightarrow> (0, []) | Some b \<Rightarrow> (b_company_id b, b_name b)) o_size ?objs"
    by (intro group_rows_cong) simp
  moreover have "map (recent_row_of w') (take n (sort_key (\<lambda>obj. - o_created_at obj) ?objs)) =
      map (recent_row_of w) (take n (sort_key (\<lambda>obj. - o_created_at obj) ?objs))"
  proof (intro map_cong refl)
    fix obj assume "obj \<in> set (take n (sort_key (\<lambda>obj. - o_created_at obj) ?objs))"
    then have "obj \<in> set ?objs" by (auto dest: in_set_takeD)
    then show "recent_row_of w' obj = recent_row_of w obj" using bucket by (simp add: recent_row_of_def bucket_name_of_def)
  qed
  moreover have "metrics_body w (Some c) = metrics_body w' (Some c)"
  proof -
    have q: "first_where (\<lambda>q. cq_company_id q = c) xs = first_where (\<lambda>_. True) (filter (\<lambda>q. cq_company_id q = c) xs)" for xs
      by (simp add: first_where_filter)
    show ?thesis using same by (simp add: metrics_body_def metrics_snapshot_def q Let_def del: filter_filter)
  qed
  ultimately show ?thesis using same by (simp add: build_storage_stats_def scoped_def Let_def del: filter_filter)
qed

text \<open>
  Inside the company the statistics ignore access grants: every member is shown the id, the name, the
  owner and the size of the newest objects, the private ones too. With at most 25 objects in the
  company, that is every object.
\<close>

theorem statistics_show_private_objects:
  assumes "p_company_id p = Some c" "\<not> p_is_staff p" "obj \<in> set (w_objects w)" "o_company_id obj = c"
    "length (filter (\<lambda>x. o_company_id x = c) (w_objects w)) \<le> 25"
  shows "\<exists>stats row. stats_view p None w = (Inr stats, w) \<and> row \<in> set (ss_recent stats) \<and>
     rr_id row = str_uuid (o_id obj) \<and> rr_name row = o_name obj \<and> rr_owner_id row = o_owner_id obj \<and> rr_size row = o_size obj"
proof -
  let ?stats = "build_storage_stats w 25 14 (Some c)"
  have "stats_view p None w = (Inr ?stats, w)"
    using assms(1,2) by (simp add: stats_view_def require_company_id_def bindE_def ret_def gets_def)
  moreover have "recent_row_of w obj \<in> set (ss_recent ?stats)"
    using assms(3-5) by (simp add: build_storage_stats_def scoped_def Let_def)
  ultimately show ?thesis by (intro exI [of _ ?stats] exI [of _ "recent_row_of w obj"]) (simp add: recent_row_of_def)
qed

lemma statistics_show_private_objects_witness:
  "\<not> can_access_path private_world bob company_bucket ''secret/plan.txt'' (Some 3) False False \<and>
   (\<exists>stats row. stats_view bob None private_world = (Inr stats, private_world) \<and> row \<in> set (ss_recent stats) \<and>
      rr_name row = ''secret/plan.txt'')"
proof -
  have hidden: "\<not> can_access_path private_world bob company_bucket ''secret/plan.txt'' (Some 3) False False" by code_simp
  have "p_company_id bob = Some 7" "\<not> p_is_staff bob" "o_company_id secret_file = 7" "o_name secret_file = ''secret/plan.txt''"
    "length (filter (\<lambda>x. o_company_id x = 7) (w_objects private_world)) \<le> 25"
    by (simp_all add: sample_defs)
  then show ?thesis
    using statistics_show_private_objects [of bob 7 secret_file private_world] secret_row(1) hidden by auto
qed

lemma statistics_tenant_isolation_witness:
  "build_storage_stats private_world 25 14 (Some 8) = build_storage_stats two_files 25 14 (Some 8)"
proof -
  have "company_slice 8 private_world = company_slice 8 two_files"
    by (simp add: company_slice_def two_files_def sample_defs)
  then show ?thesis using statistics_tenant_isolation [OF private_world_sound two_files_sound] by blast
qed

end
