(* ===== verification/Auth.thy ===== *)
theory Auth
  imports Shares
begin

text \<open>
  \<open>apps/authapi\<close>: from the \<open>Authorization\<close> header to the principal of a request. PyJWT and the
  HTTP client are parameters; the key cache (\<open>JWKSClient\<close>), the choice of the key, the fallback
  for development and the reading of the claims are modelled. The last section is the second kind of
  token, the signed assertion with which identity-service asks for the deletion of a company.
\<close>

section \<open>Libraries\<close>

text \<open>
  \<open>jwt_header\<close> is \<open>get_unverified_header\<close> (\<open>kid\<close> and \<open>alg\<close>), \<open>jwt_decode\<close> is \<open>jwt.decode\<close> with a
  key, the algorithms and what it has to verify; \<open>b64_utf8\<close> decodes the credentials of HTTP Basic.
\<close>

datatype jwt_error = Expired | Invalid_Token | Other_Error

record verification =
  v_algorithms :: "string list"
  v_require :: "string list"
  v_audience :: "string option"
  v_issuer :: "string option"

record jwt_lib =
  jwt_header :: "string \<Rightarrow> jwt_error + string option \<times> string option"
  jwt_decode :: "string \<Rightarrow> string \<Rightarrow> verification \<Rightarrow> jwt_error + dict"
  b64_utf8 :: "string \<Rightarrow> string option"

text \<open>Settings.\<close>

record auth_settings =
  IDENTITY_ISSUER :: "string option"
  IDENTITY_AUDIENCE :: "string option"
  JWT_ALGORITHMS :: "string list"
  JWT_HS256_FALLBACK_SECRET :: "string option"
  ALLOW_JWT_HS256_FALLBACK :: bool
  DEBUG :: bool

text \<open>What PyJWT documents: a decoded token has every claim asked for, and the audience and issuer asked for.\<close>

definition audiences :: "dict \<Rightarrow> string set" where
  "audiences claims = (case map_of claims ''aud'' of
     Some (JStr s) \<Rightarrow> {s} | Some (JList xs) \<Rightarrow> {s. JStr s \<in> set xs} | _ \<Rightarrow> {})"

definition verifies :: "jwt_lib \<Rightarrow> bool" where
  "verifies lib \<longleftrightarrow> (\<forall>raw key v claims. jwt_decode lib raw key v = Inr claims \<longrightarrow>
     (\<forall>k \<in> set (v_require v). map_of claims k \<noteq> None) \<and>
     (\<forall>a. v_audience v = Some a \<longrightarrow> a \<in> audiences claims) \<and>
     (\<forall>i. v_issuer v = Some i \<longrightarrow> map_of claims ''iss'' = Some (JStr i)))"

section \<open>The key cache\<close>

text \<open>
  The keys by name in the order of the document, when they were fetched (monotonic time in
  milliseconds), and the answers the network will give, one per request. A document is the list of its
  entries: the \<open>kid\<close>, if there is one, and the key, if the entry is valid.
\<close>

type_synonym key_document = "(string option \<times> string option) list"

datatype fetch = Fetched key_document | Failed "int option"

record jwks =
  jk_ttl :: int
  jk_retries :: nat
  jk_static :: "key_document option"
  jk_keys :: "(string \<times> string) list"
  jk_fetched_at :: int
  jk_now :: int
  jk_network :: "fetch list"

definition add_jwk :: "(string \<times> string) list \<Rightarrow> string option \<times> string option \<Rightarrow> (string \<times> string) list" where
  "add_jwk keys entry =
     (case entry of (_, None) \<Rightarrow> keys
      | (kid, Some jwk) \<Rightarrow>
          (case kid of Some k \<Rightarrow> if k \<noteq> [] then AList.update k jwk keys
             else AList.update (''_anon_'' @ show_base 10 (length keys)) jwk keys
           | None \<Rightarrow> AList.update (''_anon_'' @ show_base 10 (length keys)) jwk keys))"

definition apply_document :: "key_document \<Rightarrow> jwks \<Rightarrow> jwks" where
  "apply_document doc c = c\<lparr>jk_keys := foldl add_jwk [] doc, jk_fetched_at := jk_now c\<rparr>"

definition is_retryable :: "int option \<Rightarrow> bool" where
  "is_retryable status = (case status of None \<Rightarrow> True | Some s \<Rightarrow> 500 \<le> s \<or> s = 408 \<or> s = 429)"

text \<open>
  \<open>_fetch_document\<close> from attempt \<open>attempt\<close> on, with \<open>left\<close> attempts left; a network that has no more
  answers fails.
\<close>

fun fetch_document :: "nat \<Rightarrow> nat \<Rightarrow> jwks \<Rightarrow> key_document option \<times> jwks" where
  "fetch_document attempt 0 c = (None, c)"
| "fetch_document attempt (Suc left) c =
     (case jk_network c of
        [] \<Rightarrow> (None, c)
      | Fetched doc # rest \<Rightarrow> (Some doc, c\<lparr>jk_network := rest\<rparr>)
      | Failed status # rest \<Rightarrow>
          (if 0 < left \<and> is_retryable status
           then fetch_document (Suc attempt) left (c\<lparr>jk_network := rest, jk_now := jk_now c + 250 * int attempt\<rparr>)
           else (None, c\<lparr>jk_network := rest\<rparr>)))"

text \<open>\<open>_refresh\<close>: \<open>False\<close> when the request error is raised.\<close>

definition refresh :: "bool \<Rightarrow> jwks \<Rightarrow> bool \<times> jwks" where
  "refresh force c =
     (case jk_static c of
        Some doc \<Rightarrow> (True, if jk_keys c = [] then apply_document doc c else c)
      | None \<Rightarrow>
          if \<not> force \<and> jk_keys c \<noteq> [] \<and> jk_now c - jk_fetched_at c < jk_ttl c then (True, c)
          else (case fetch_document 1 (jk_retries c + 1) c of
             (None, c') \<Rightarrow> (jk_keys c' \<noteq> [], c')
           | (Some doc, c') \<Rightarrow> (True, apply_document doc c')))"

datatype key_result = Key string | No_Keys | Key_Error jwt_error

text \<open>\<open>get_signing_key\<close> after the header has been read; an empty \<open>kid\<close> counts as none.\<close>

definition sole_key :: "jwks \<Rightarrow> key_result" where
  "sole_key c = (case jk_keys c of [(_, jwk)] \<Rightarrow> Key jwk | [] \<Rightarrow> No_Keys | _ \<Rightarrow> Key_Error Invalid_Token)"

definition get_signing_key :: "jwt_lib \<Rightarrow> string \<Rightarrow> jwks \<Rightarrow> key_result \<times> jwks" where
  "get_signing_key lib raw c =
     (case jwt_header lib raw of Inl e \<Rightarrow> (Key_Error e, c)
      | Inr (kid, alg) \<Rightarrow>
          (case refresh False c of (False, c1) \<Rightarrow> (Key_Error Other_Error, c1)
           | (True, c1) \<Rightarrow>
             (case kid of None \<Rightarrow> (sole_key c1, c1)
              | Some k \<Rightarrow>
                 if k = [] then (sole_key c1, c1)
                 else (case map_of (jk_keys c1) k of Some jwk \<Rightarrow> (Key jwk, c1)
                    | None \<Rightarrow>
                      (case refresh True c1 of (False, c2) \<Rightarrow> (Key_Error Other_Error, c2)
                       | (True, c2) \<Rightarrow>
                          (case map_of (jk_keys c2) k of Some jwk \<Rightarrow> (Key jwk, c2)
                           | None \<Rightarrow> (Key_Error Invalid_Token, c2)))))))"

section \<open>Claims\<close>

definition claims_dict :: "json option \<Rightarrow> dict" where
  "claims_dict v = (case v of Some (JObj d) \<Rightarrow> d | _ \<Rightarrow> [])"

definition flag_claim :: "dict \<Rightarrow> string \<Rightarrow> bool" where
  "flag_claim d k = (case map_of d k of None \<Rightarrow> False | Some v \<Rightarrow> truthy v)"

definition principal_from_claims :: "dict \<Rightarrow> unit + principal" where
  "principal_from_claims claims =
     (let user_metadata = claims_dict (map_of claims ''user_metadata'');
          raw_uid = (case map_of claims ''user_id'' of Some v \<Rightarrow> Some v | None \<Rightarrow> map_of claims ''sub'') in
      case (case raw_uid of None \<Rightarrow> Inl TypeErr | Some v \<Rightarrow> py_int_of v) of
        Inl _ \<Rightarrow> Inl ()
      | Inr user_id \<Rightarrow>
        (case (case map_of claims ''company_id'' of None \<Rightarrow> Inr None
           | Some v \<Rightarrow> if v = JNull \<or> v = JStr [] then Inr None
               else (case py_int_of v of Inl e \<Rightarrow> Inl e | Inr i \<Rightarrow> Inr (Some i))) of
           Inl _ \<Rightarrow> Inl ()
         | Inr company_id \<Rightarrow>
             Inr \<lparr>p_user_id = Some user_id, p_company_id = company_id,
               p_is_company_owner = flag_claim user_metadata ''is_company_owner'',
               p_is_staff = flag_claim user_metadata ''is_staff'',
               p_email = get_or claims ''email'' (get_or user_metadata ''email'' []),
               p_username = get_or claims ''username'' (get_or user_metadata ''username'' []),
               p_access_global_metrics = flag_claim claims ''pat_agm''\<rparr>))"

section \<open>Authentication\<close>

datatype auth_result = Anonymous | Authenticated principal | Auth_Failed | Auth_Crash

definition user_checks :: "auth_settings \<Rightarrow> string list \<Rightarrow> verification" where
  "user_checks st algs =
     \<lparr>v_algorithms = algs, v_require = [''exp''],
      v_audience = (case IDENTITY_AUDIENCE st of None \<Rightarrow> None | Some a \<Rightarrow> if a = [] then None else Some a),
      v_issuer = (case IDENTITY_ISSUER st of None \<Rightarrow> None | Some i \<Rightarrow> if i = [] then None else Some i)\<rparr>"

definition fallback_secret :: "auth_settings \<Rightarrow> string option" where
  "fallback_secret st =
     (case JWT_HS256_FALLBACK_SECRET st of None \<Rightarrow> None
      | Some s \<Rightarrow> if s \<noteq> [] \<and> (DEBUG st \<or> ALLOW_JWT_HS256_FALLBACK st) then Some s else None)"

definition decode_token :: "jwt_lib \<Rightarrow> auth_settings \<Rightarrow> string \<Rightarrow> jwks \<Rightarrow> (jwt_error + dict) \<times> jwks" where
  "decode_token lib st raw c =
     (let (k, c') = get_signing_key lib raw c;
          first = (case k of Key_Error e \<Rightarrow> Inl e | No_Keys \<Rightarrow> Inl Invalid_Token
            | Key jwk \<Rightarrow> jwt_decode lib raw jwk (user_checks st (JWT_ALGORITHMS st))) in
      (case first of
         Inr claims \<Rightarrow> Inr claims
       | Inl Expired \<Rightarrow> Inl Expired
       | Inl _ \<Rightarrow>
           (case fallback_secret st of None \<Rightarrow> Inl Invalid_Token
            | Some secret \<Rightarrow> jwt_decode lib raw secret (user_checks st [''HS256''])), c'))"

text \<open>An error of the fallback that is not one of PyJWT's escapes as a crash of the request.\<close>

definition authenticate_credentials :: "jwt_lib \<Rightarrow> auth_settings \<Rightarrow> string \<Rightarrow> jwks \<Rightarrow> auth_result \<times> jwks" where
  "authenticate_credentials lib st raw c =
     (let (r, c') = decode_token lib st raw c in
      (case r of
         Inl Other_Error \<Rightarrow> Auth_Crash
       | Inl _ \<Rightarrow> Auth_Failed
       | Inr claims \<Rightarrow> (case principal_from_claims claims of Inl _ \<Rightarrow> Auth_Failed | Inr p \<Rightarrow> Authenticated p), c'))"

text \<open>\<open>s.split()\<close>.\<close>

fun split_words :: "string \<Rightarrow> string \<Rightarrow> string list" where
  "split_words word [] = (if word = [] then [] else [word])"
| "split_words word (c # cs) =
     (if is_space c then (if word = [] then split_words [] cs else word # split_words [] cs)
      else split_words (word @ [c]) cs)"

definition count_char :: "char \<Rightarrow> string \<Rightarrow> nat" where
  "count_char c s = length (filter (\<lambda>x. x = c) s)"

definition authenticate :: "jwt_lib \<Rightarrow> auth_settings \<Rightarrow> string \<Rightarrow> jwks \<Rightarrow> auth_result \<times> jwks" where
  "authenticate lib st header c =
     (case split_words [] header of
        [] \<Rightarrow> (Anonymous, c)
      | scheme # rest \<Rightarrow>
          if scheme \<noteq> ''Bearer'' then
            (if rest = [] \<and> count_char CHR ''.'' scheme = 2 then authenticate_credentials lib st scheme c else (Anonymous, c))
          else (case rest of [raw] \<Rightarrow> authenticate_credentials lib st raw c | _ \<Rightarrow> (Auth_Failed, c)))"

text \<open>WebDAV clients may also send the token as the password of HTTP Basic.\<close>

definition webdav_authenticate :: "jwt_lib \<Rightarrow> auth_settings \<Rightarrow> string \<Rightarrow> jwks \<Rightarrow> auth_result \<times> jwks" where
  "webdav_authenticate lib st header c =
     (let (r, c') = authenticate lib st header c in
      case r of
        Anonymous \<Rightarrow>
          if prefix ''basic '' (lower header)
          then (case b64_utf8 lib (drop 1 (dropWhile (\<lambda>x. x \<noteq> CHR '' '') header)) of
              None \<Rightarrow> (Auth_Failed, c')
            | Some decoded \<Rightarrow>
                let password = drop 1 (dropWhile (\<lambda>x. x \<noteq> CHR '':'') decoded) in
                if password = [] then (Auth_Failed, c')
                else (case authenticate_credentials lib st (strip password) c' of
                    (Auth_Crash, c2) \<Rightarrow> (Auth_Failed, c2) | res \<Rightarrow> res))
          else (Auth_Failed, c')
      | _ \<Rightarrow> (r, c'))"

section \<open>Permissions\<close>

definition is_authenticated_principal :: "principal option \<Rightarrow> bool" where
  "is_authenticated_principal user \<longleftrightarrow> user \<noteq> None"

definition is_staff_or_company_owner :: "principal option \<Rightarrow> bool" where
  "is_staff_or_company_owner user = (case user of None \<Rightarrow> False | Some p \<Rightarrow> p_is_staff p \<or> p_is_company_owner p)"

section \<open>Deletion assertions\<close>

definition DELETION_AUDIENCE :: string where "DELETION_AUDIENCE = ''shellui-company-deletion''"
definition DELETION_SCOPE :: string where "DELETION_SCOPE = ''company.delete''"
definition MAX_LIFETIME :: int where "MAX_LIFETIME = 120"

definition deletion_checks :: "auth_settings \<Rightarrow> string list \<Rightarrow> verification" where
  "deletion_checks st algs =
     \<lparr>v_algorithms = algs, v_require = [''exp'', ''iat'', ''aud'', ''company_id''], v_audience = Some DELETION_AUDIENCE,
      v_issuer = (case IDENTITY_ISSUER st of None \<Rightarrow> None | Some i \<Rightarrow> if i = [] then None else Some i)\<rparr>"

text \<open>
  \<open>verify_deletion_assertion\<close>: the error is \<open>None\<close> for a rejected assertion, \<open>Some e\<close> for an exception
  that escapes. Without a key there are no claims, and the fallback is not tried.
\<close>

definition decode_assertion :: "jwt_lib \<Rightarrow> auth_settings \<Rightarrow> string \<Rightarrow> key_result \<Rightarrow> exn option + dict" where
  "decode_assertion lib st raw k =
     (let fallback = (case fallback_secret st of None \<Rightarrow> Inl None
            | Some secret \<Rightarrow> (case jwt_decode lib raw secret (deletion_checks st [''HS256'']) of
                Inr claims \<Rightarrow> Inr claims | Inl Other_Error \<Rightarrow> Inl (Some TypeErr) | Inl _ \<Rightarrow> Inl None)) in
      case k of
        No_Keys \<Rightarrow> Inl None
      | Key_Error _ \<Rightarrow> fallback
      | Key jwk \<Rightarrow> (case jwt_decode lib raw jwk (deletion_checks st [''RS256'']) of Inr claims \<Rightarrow> Inr claims | Inl _ \<Rightarrow> fallback))"

definition claim_int :: "dict \<Rightarrow> string \<Rightarrow> exn + int" where
  "claim_int claims k = (case map_of claims k of None \<Rightarrow> Inl DoesNotExist | Some v \<Rightarrow> py_int_of v)"

definition check_assertion :: "dict \<Rightarrow> exn option + int" where
  "check_assertion claims =
     (if map_of claims ''scope'' \<noteq> Some (JStr DELETION_SCOPE) then Inl None
      else case (claim_int claims ''exp'', claim_int claims ''iat'') of
        (Inr t, Inr t0) \<Rightarrow>
          if MAX_LIFETIME < t - t0 then Inl None
          else (case map_of claims ''company_id'' of
              Some (JInt c) \<Rightarrow> if c \<le> 0 then Inl None else Inr c
            | _ \<Rightarrow> Inl None)
      | (Inl e, _) \<Rightarrow> Inl (Some e)
      | (_, Inl e) \<Rightarrow> Inl (Some e))"

definition verify_deletion_assertion :: "jwt_lib \<Rightarrow> auth_settings \<Rightarrow> string \<Rightarrow> jwks \<Rightarrow> (exn option + int) \<times> jwks" where
  "verify_deletion_assertion lib st raw c =
     (let (k, c') = get_signing_key lib raw c in
      (case decode_assertion lib st raw k of Inl e \<Rightarrow> Inl e | Inr claims \<Rightarrow> check_assertion claims, c'))"

section \<open>Which key verifies a token\<close>

lemma fetch_uses:
  "length (jk_network c) \<le> length (jk_network (snd (fetch_document a n c))) + n"
proof (induction a n c rule: fetch_document.induct)
  case (2 a n c)
  show ?case
  proof (cases "jk_network c")
    case (Cons f rest)
    then show ?thesis using "2.IH" by (cases f) (fastforce split: if_splits)+
  qed simp
qed simp

lemma fetch_keeps: "jk_retries (snd (fetch_document a n c)) = jk_retries c \<and> jk_static (snd (fetch_document a n c)) = jk_static c"
  by (induction a n c rule: fetch_document.induct) (auto split: list.splits fetch.splits)

lemma refresh_uses:
  "length (jk_network c) \<le> length (jk_network (snd (refresh f c))) + (jk_retries c + 1) \<and>
   jk_retries (snd (refresh f c)) = jk_retries c"
  using fetch_uses [of c 1 "jk_retries c + 1"] fetch_keeps [of 1 "jk_retries c + 1" c]
  by (auto simp: refresh_def apply_document_def split: option.splits prod.splits)

text \<open>
  The key of a token. A token that names a key is verified with the key of that name or not at all, however
  often the keys have been rotated; a token that names none is verified with the only key there is; and
  looking for a key asks the network at most twice the number of attempts that is configured.
\<close>

theorem signing_key_exact:
  assumes "get_signing_key lib raw c = (r, c')"
  shows "(\<forall>k alg jwk. jwt_header lib raw = Inr (Some k, alg) \<and> k \<noteq> [] \<and> r = Key jwk \<longrightarrow> map_of (jk_keys c') k = Some jwk) \<and>
     (\<forall>alg jwk. jwt_header lib raw = Inr (None, alg) \<and> r = Key jwk \<longrightarrow> (\<exists>name. jk_keys c' = [(name, jwk)])) \<and>
     length (jk_network c) \<le> length (jk_network c') + 2 * (jk_retries c + 1)"
proof (intro conjI)
  show "\<forall>k alg jwk. jwt_header lib raw = Inr (Some k, alg) \<and> k \<noteq> [] \<and> r = Key jwk \<longrightarrow> map_of (jk_keys c') k = Some jwk"
    using assms by (auto simp: get_signing_key_def split: prod.splits bool.splits option.splits)
  show "\<forall>alg jwk. jwt_header lib raw = Inr (None, alg) \<and> r = Key jwk \<longrightarrow> (\<exists>name. jk_keys c' = [(name, jwk)])"
    using assms by (auto simp: get_signing_key_def sole_key_def split: prod.splits bool.splits list.splits)
  obtain ok1 c1 where one: "refresh False c = (ok1, c1)" by fastforce
  obtain ok2 c2 where two: "refresh True c1 = (ok2, c2)" by fastforce
  have "length (jk_network c) \<le> length (jk_network c1) + (jk_retries c + 1)" "jk_retries c1 = jk_retries c"
    using refresh_uses [of c False] one by simp_all
  moreover have "length (jk_network c1) \<le> length (jk_network c2) + (jk_retries c1 + 1)"
    using refresh_uses [of c1 True] two by simp
  moreover have "c' = c \<or> c' = c1 \<or> c' = c2"
    using assms one two by (auto simp: get_signing_key_def split: prod.splits bool.splits option.splits sum.splits if_splits)
  ultimately show "length (jk_network c) \<le> length (jk_network c') + 2 * (jk_retries c + 1)" by auto
qed

section \<open>What an accepted token says\<close>

lemma decode_token_checked:
  assumes "verifies lib" "decode_token lib st raw c = (Inr claims, c')"
  shows "map_of claims ''exp'' \<noteq> None"
    "IDENTITY_AUDIENCE st = Some a \<Longrightarrow> a \<noteq> [] \<Longrightarrow> a \<in> audiences claims"
    "IDENTITY_ISSUER st = Some i \<Longrightarrow> i \<noteq> [] \<Longrightarrow> map_of claims ''iss'' = Some (JStr i)"
    "fallback_secret st = None \<Longrightarrow> \<exists>jwk. fst (get_signing_key lib raw c) = Key jwk"
proof -
  have "\<exists>key algs. jwt_decode lib raw key (user_checks st algs) = Inr claims"
    using assms(2) unfolding decode_token_def Let_def case_prod_unfold
    by (cases "fst (get_signing_key lib raw c)"; cases "fallback_secret st")
      (auto split: sum.splits jwt_error.splits)
  then obtain key algs where run: "jwt_decode lib raw key (user_checks st algs) = Inr claims" by blast
  note checked = assms(1) [unfolded verifies_def, rule_format, OF run]
  show "map_of claims ''exp'' \<noteq> None" using checked by (simp add: user_checks_def)
  show "a \<in> audiences claims" if "IDENTITY_AUDIENCE st = Some a" "a \<noteq> []" using checked that by (simp add: user_checks_def)
  show "map_of claims ''iss'' = Some (JStr i)" if "IDENTITY_ISSUER st = Some i" "i \<noteq> []"
    using checked that by (simp add: user_checks_def)
  show "\<exists>jwk. fst (get_signing_key lib raw c) = Key jwk" if "fallback_secret st = None"
    using assms(2) that unfolding decode_token_def Let_def case_prod_unfold
    by (cases "fst (get_signing_key lib raw c)") (auto split: jwt_error.splits)
qed

lemma assertion_checked:
  assumes "verifies lib" "decode_assertion lib st raw k = Inr claims"
  shows "DELETION_AUDIENCE \<in> audiences claims"
proof -
  have "\<exists>key algs. jwt_decode lib raw key (deletion_checks st algs) = Inr claims"
    using assms(2) unfolding decode_assertion_def Let_def
    by (cases k; cases "fallback_secret st") (auto split: sum.splits jwt_error.splits)
  then show ?thesis using assms(1) unfolding verifies_def deletion_checks_def by fastforce
qed

lemma authenticated_claims:
  assumes "authenticate_credentials lib st raw c = (Authenticated p, c')"
  obtains claims where "decode_token lib st raw c = (Inr claims, c')" "principal_from_claims claims = Inr p"
  using assms unfolding authenticate_credentials_def Let_def case_prod_unfold
  by (cases "decode_token lib st raw c") (auto split: sum.splits jwt_error.splits)


section \<open>A library that checks, with two tokens\<close>

definition sample_claims :: "string \<Rightarrow> dict" where
  "sample_claims raw =
     (if raw = ''ask''
      then [(''exp'', JInt 160), (''iat'', JInt 100), (''aud'', JStr DELETION_AUDIENCE), (''company_id'', JInt 7),
            (''scope'', JStr DELETION_SCOPE)]
      else [(''exp'', JInt 900), (''aud'', JStr ''storage''), (''sub'', JStr ''2''), (''company_id'', JInt 7)])"

definition sample_lib :: jwt_lib where
  "sample_lib = \<lparr>jwt_header = (\<lambda>raw. Inr (Some ''k2'', Some ''RS256'')),
     jwt_decode = (\<lambda>raw key v.
       let claims = sample_claims raw in
       if key = ''rsa'' \<and> list_all (\<lambda>k. map_of claims k \<noteq> None) (v_require v) \<and>
          (case v_audience v of None \<Rightarrow> True | Some a \<Rightarrow> map_of claims ''aud'' = Some (JStr a)) \<and> v_issuer v = None
       then Inr claims else Inl Invalid_Token),
     b64_utf8 = (\<lambda>s. None)\<rparr>"

definition sample_settings :: auth_settings where
  "sample_settings = \<lparr>IDENTITY_ISSUER = None, IDENTITY_AUDIENCE = Some ''storage'', JWT_ALGORITHMS = [''RS256''],
     JWT_HS256_FALLBACK_SECRET = None, ALLOW_JWT_HS256_FALLBACK = False, DEBUG = False\<rparr>"

text \<open>The token names a new key: the cache is refreshed once, after a failed attempt.\<close>

definition sample_jwks :: jwks where
  "sample_jwks = \<lparr>jk_ttl = 900000, jk_retries = 2, jk_static = None, jk_keys = [(''k1'', ''old'')], jk_fetched_at = 0,
     jk_now = 1000, jk_network = [Failed (Some 503), Fetched [(Some ''k2'', Some ''rsa''), (Some ''bad'', None)]]\<rparr>"

lemma sample_lib_verifies: "verifies sample_lib"
  by (auto simp: verifies_def sample_lib_def Let_def list_all_iff audiences_def split: option.splits if_splits)

lemma sample_accepted:
  "fst (authenticate_credentials sample_lib sample_settings ''user'' sample_jwks) = Authenticated (user_of 7 2)"
  "fst (verify_deletion_assertion sample_lib sample_settings ''ask'' sample_jwks) = Inr 7"
  "fst (authenticate_credentials sample_lib sample_settings ''ask'' sample_jwks) = Auth_Failed"
  "fst (verify_deletion_assertion sample_lib sample_settings ''user'' sample_jwks) = Inl None"
  by code_simp+


lemma signing_key_exact_witness:
  "\<exists>c'. get_signing_key sample_lib ''user'' sample_jwks = (Key ''rsa'', c') \<and> map_of (jk_keys c') ''k2'' = Some ''rsa'' \<and>
     2 \<le> length (jk_network c') + 2 * 3"
proof -
  have "fst (get_signing_key sample_lib ''user'' sample_jwks) = Key ''rsa''" by code_simp
  then obtain c' where run: "get_signing_key sample_lib ''user'' sample_jwks = (Key ''rsa'', c')" by (metis prod.collapse)
  have "jwt_header sample_lib ''user'' = Inr (Some ''k2'', Some ''RS256'')" "''k2'' \<noteq> []" by (simp_all add: sample_lib_def)
  then have "map_of (jk_keys c') ''k2'' = Some ''rsa''" using signing_key_exact [OF run] by blast
  moreover have "length (jk_network sample_jwks) = 2" "jk_retries sample_jwks = 2" by (simp_all add: sample_jwks_def)
  then have "2 \<le> length (jk_network c') + 2 * 3" using signing_key_exact [OF run] by simp
  ultimately show ?thesis using run by blast
qed

end
