(* ===== verification/Storage_Views.thy ===== *)
theory Storage_Views
  imports Stats Auth
begin

text \<open>
  The REST views of \<open>apps/storage/views.py\<close>, one definition per method, for the principal of an
  authenticated request: the reading of the body, the checks in the order of the source, the call of
  the service, and what is answered. A \<open>StorageErr\<close> is an answer with its status; any other
  exception that a view does not catch is a crash (status 500). Parsing of multipart bodies, headers and
  URLs is Django's and arrives here as arguments.
\<close>

section \<open>Bodies and answers\<close>

text \<open>\<open>request.data if isinstance(request.data, dict) else {}\<close>.\<close>

definition body_dict :: "json \<Rightarrow> dict" where
  "body_dict v = (case v of JObj d \<Rightarrow> d | _ \<Rightarrow> [])"

text \<open>\<open>data.get(k1) or data.get(k2) or ... or ''\<close>.\<close>

fun first_given :: "dict \<Rightarrow> string list \<Rightarrow> json" where
  "first_given data [] = JStr []"
| "first_given data (k # ks) =
     (case map_of data k of None \<Rightarrow> first_given data ks | Some v \<Rightarrow> if truthy v then v else first_given data ks)"

text \<open>A value on which a string method is called: another type is an \<open>AttributeError\<close>.\<close>

definition as_text :: "json \<Rightarrow> exn + string" where
  "as_text v = (case v of JStr s \<Rightarrow> Inr s | _ \<Rightarrow> Inl TypeErr)"

definition given_text :: "dict \<Rightarrow> string list \<Rightarrow> string act" where
  "given_text data ks = lift_sum (as_text (first_given data ks))"

definition given_int :: "dict \<Rightarrow> string list \<Rightarrow> int \<Rightarrow> int act" where
  "given_int data ks dflt =
     (let v = first_given data ks in if truthy v then lift_sum (py_int_of v) else ret dflt)"

text \<open>\<open>except ValueError as exc: return _error_message(str(exc))\<close>.\<close>

definition bad_value :: "'a act \<Rightarrow> 'a act" where
  "bad_value m = catchE m (\<lambda>e. throw (if e = ValueErr then StorageErr 400 ''Error'' else e))"

definition error_status :: "exn \<Rightarrow> int" where
  "error_status e = (case e of StorageErr s _ \<Rightarrow> s | _ \<Rightarrow> 500)"

text \<open>\<open>s.partition('/')\<close> without the separator.\<close>

definition partition_slash :: "string \<Rightarrow> string \<times> string" where
  "partition_slash s = (head_segment s, tail_segments s)"

section \<open>Buckets\<close>

definition bucket_list_view :: "principal \<Rightarrow> bucket_view list act" where
  "bucket_list_view p =
     bindE (list_accessible_buckets p) (\<lambda>buckets. gets (\<lambda>w. map (\<lambda>b. serialize_bucket w b (Some p)) buckets))"

definition bucket_create_view :: "bucket_view act" where
  "bucket_create_view = throw (StorageErr 403 ''bucket_create_disabled'')"

definition bucket_detail_view :: "principal \<Rightarrow> string \<Rightarrow> bucket_view act" where
  "bucket_detail_view p bucket_id =
     bindE (get_accessible_bucket p bucket_id False False) (\<lambda>b. gets (\<lambda>w. serialize_bucket w b (Some p)))"

definition bucket_change_view :: "unit act" where
  "bucket_change_view = throw (StorageErr 403 ''bucket_immutable'')"

definition bucket_empty_view :: "env \<Rightarrow> principal \<Rightarrow> string \<Rightarrow> unit act" where
  "bucket_empty_view env p bucket_id =
     bindE (get_accessible_bucket p bucket_id True False) (\<lambda>b. empty_bucket env b p (Some p))"

section \<open>Objects\<close>

text \<open>The query parameter \<open>download\<close>: present for an attachment, its value the file name.\<close>

definition download_name :: "string option \<Rightarrow> string option" where
  "download_name download =
     (case download of None \<Rightarrow> None | Some s \<Rightarrow> if s \<in> {[], ''true'', ''1''} then None else Some s)"

definition object_get_view :: "env \<Rightarrow> principal \<Rightarrow> string \<Rightarrow> string \<Rightarrow> string option \<Rightarrow> download act" where
  "object_get_view env p bucket_id path download =
     bindE (bad_value (get_accessible_object p bucket_id path False False)) (\<lambda>(b, obj).
     build_download_response env obj (download \<noteq> None) (download_name download))"

definition object_delete_view :: "env \<Rightarrow> principal \<Rightarrow> string \<Rightarrow> string \<Rightarrow> unit act" where
  "object_delete_view env p bucket_id path = bad_value (
     bindE (get_accessible_object p bucket_id path True False) (\<lambda>(b, obj). delete_object env obj (Some p)))"

text \<open>
  An upload: the \<open>x-upsert\<close> header, the content type of the request, what the parser that Django REST Framework picks has made
  of the body (\<open>request.data\<close> and \<open>request.FILES\<close>), and the decoded \<open>x-metadata\<close> header. The parsers of
  \<open>parser_classes\<close> are tried in that order. No parser runs on an empty body. \<open>MultiPartParser\<close> and \<open>FormParser\<close> read
  the body for their content types and leave a form: its first file, if there is one, with the type of its part, and the form's
  cache control. \<open>OctetStreamParser\<close> and \<open>AnyBinaryParser\<close>, which takes every other content type, hand
  the request itself over unread; its attribute \<open>content_type\<close> is the content type without parameters.
\<close>

datatype request_data = Empty_Request | Raw_Request "string option" bytes | Form_Data "(string option \<times> bytes) option" "string option"

record upload_request =
  ur_upsert :: string
  ur_content_type :: "string option"
  ur_data :: request_data
  ur_metadata :: "dict option"

text \<open>
  The object that is read and its content type: a file of the form, the request, or \<open>BytesIO(request.body)\<close>, which has no type
  and raises \<open>RawPostDataException\<close> once a form parser has read the body.
\<close>

definition uploaded_data :: "request_data \<Rightarrow> exn + string option \<times> bytes" where
  "uploaded_data d = (case d of Empty_Request \<Rightarrow> Inr (None, []) | Raw_Request t body \<Rightarrow> Inr (t, body)
     | Form_Data (Some part) cc \<Rightarrow> Inr part | Form_Data None cc \<Rightarrow> Inl RawPostDataErr)"

definition form_cache_control :: "request_data \<Rightarrow> string option" where
  "form_cache_control d = (case d of Form_Data (Some part) cc \<Rightarrow> cc | _ \<Rightarrow> None)"

definition upload_view :: "env \<Rightarrow> principal \<Rightarrow> string \<Rightarrow> string \<Rightarrow> bool \<Rightarrow> upload_request \<Rightarrow> (string \<times> string) act" where
  "upload_view env p bucket_id path default_upsert r = bad_value (
     bindE (get_accessible_bucket p bucket_id True False) (\<lambda>b.
     bindE (lift_sum (safe_object_path path)) (\<lambda>name.
     seqE (assert_can_access_path p b name None True False)
     (let upsert = (default_upsert \<or> lower (ur_upsert r) \<in> {''true'', ''1'', ''yes''}) in
      bindE (lift_sum (uploaded_data (ur_data r))) (\<lambda>(part_type, body).
      let content_type = (case ur_content_type r of None \<Rightarrow> None
            | Some t \<Rightarrow> if prefix ''multipart/'' t then part_type else Some t) in
      bindE (upload_object env b path body (p_user_id p) content_type upsert (ur_metadata r) (form_cache_control (ur_data r)) (Some p)) (\<lambda>obj.
      ret (str_uuid (o_id obj), bucket_id @ slash # o_name obj)))))))"

text \<open>A body that a form parser has read without finding a file, as for the content type of an HTML form, is not stored.\<close>

lemma upload_view_form_refused:
  assumes "ur_data r = Form_Data None cc"
  shows "\<exists>e. fst (upload_view env p bucket_id path up r w) = Inl e \<and>
    w_objects (snd (upload_view env p bucket_id path up r w)) = w_objects w \<and>
    w_blobs (snd (upload_view env p bucket_id path up r w)) = w_blobs w"
proof -
  obtain res v where run: "get_accessible_bucket p bucket_id True False w = (res, v)" by fastforce
  have "only_buckets w v" using get_accessible_bucket_frame run by (rule keepsD)
  then show ?thesis
    using run by (cases res; cases "safe_object_path path")
      (auto simp: upload_view_def assms uploaded_data_def bad_value_def bindE_def seqE_def catchE_def ret_def throw_def gets_def guardE_def lift_sum_def Let_def assert_can_access_path_def only_buckets_def
        split: exn.splits)
qed

definition object_info_view :: "principal \<Rightarrow> string \<Rightarrow> string \<Rightarrow> object_view act" where
  "object_info_view p bucket_id path = bad_value (
     bindE (get_accessible_object p bucket_id path False False) (\<lambda>(b, obj).
     gets (\<lambda>w. serialize_object w b obj False None)))"

definition public_download_view :: "download act" where
  "public_download_view = throw (StorageErr 403 ''public_download_disabled'')"

definition sort_field :: "json \<Rightarrow> string \<Rightarrow> string \<Rightarrow> string act" where
  "sort_field sort_by k dflt =
     (case sort_by of JObj d \<Rightarrow> (let v = first_given d [k] in if truthy v then lift_sum (as_text v) else ret dflt)
      | _ \<Rightarrow> ret dflt)"

text \<open>A sort column of another simple type is no known column, so the name is used.\<close>

definition sort_column_field :: "json \<Rightarrow> string act" where
  "sort_column_field sort_by =
     (case sort_by of JObj d \<Rightarrow>
        (case first_given d [''column''] of JStr s \<Rightarrow> ret (if s = [] then ''name'' else s)
         | JList xs \<Rightarrow> throw TypeErr | JObj kvs \<Rightarrow> throw TypeErr | _ \<Rightarrow> ret ''name'')
      | _ \<Rightarrow> ret ''name'')"

definition object_list_view :: "principal \<Rightarrow> string \<Rightarrow> json \<Rightarrow> list_entry list act" where
  "object_list_view p bucket_id data =
     (let body = body_dict data; sort_by = first_given body [''sortBy''] in
      bindE (get_accessible_bucket p bucket_id False False) (\<lambda>b.
      bindE (given_int body [''limit''] 100) (\<lambda>limit.
      bindE (given_int body [''offset''] 0) (\<lambda>offset.
      bindE (given_text body [''prefix'']) (\<lambda>folder.
      bindE (given_text body [''search'']) (\<lambda>search.
      bindE (sort_column_field sort_by) (\<lambda>col.
      bindE (sort_field sort_by ''order'' ''asc'') (\<lambda>ord.
      gets (\<lambda>w. list_objects w b folder limit offset search col ord (Some p))))))))))"

definition delete_many_view :: "env \<Rightarrow> principal \<Rightarrow> string \<Rightarrow> json \<Rightarrow> string list act" where
  "delete_many_view env p bucket_id data =
     bindE (get_accessible_bucket p bucket_id True False) (\<lambda>b.
     let paths = (case data of
           JObj d \<Rightarrow> (let v = first_given d [''prefixes'', ''paths''] in if truthy v then v else JList [])
         | v \<Rightarrow> v) in
     case paths of JList xs \<Rightarrow> delete_paths env b (map py_str xs) p (Some p)
     | _ \<Rightarrow> throw (StorageErr 400 ''Error''))"

section \<open>Folders\<close>

definition prefix_summary_view :: "principal \<Rightarrow> string \<Rightarrow> string \<Rightarrow> prefix_summary act" where
  "prefix_summary_view p bucket_id folder = bad_value (
     bindE (get_accessible_bucket p bucket_id False False) (\<lambda>b.
     seqE (if folder = [] then ret () else bindE (lift_sum (safe_object_path folder)) (\<lambda>_. ret ()))
     (gets (\<lambda>w. summarize_prefix w b folder (Some p)))))"

definition prefix_rename_view :: "principal \<Rightarrow> string \<Rightarrow> json \<Rightarrow> rename_result act" where
  "prefix_rename_view p bucket_id data = bad_value (
     bindE (get_accessible_bucket p bucket_id True False) (\<lambda>b.
     let body = body_dict data;
         source = strip_slashes (py_str (first_given body [''from'', ''prefix'', ''source'']));
         dest = strip_slashes (py_str (first_given body [''to'', ''destination''])) in
     seqE (guardE (source \<noteq> [] \<and> dest \<noteq> []) (StorageErr 400 ''Error''))
     (bindE (lift_sum (safe_object_path source)) (\<lambda>_.
      bindE (lift_sum (safe_object_path dest)) (\<lambda>_.
      seqE (assert_can_access_path p b source None True False)
      (seqE (assert_can_access_path p b dest None True False)
        (rename_folder b source dest)))))))"

definition prefix_delete_view :: "env \<Rightarrow> principal \<Rightarrow> string \<Rightarrow> json \<Rightarrow> string \<Rightarrow> (string \<times> string list) act" where
  "prefix_delete_view env p bucket_id data query = bad_value (
     bindE (get_accessible_bucket p bucket_id True False) (\<lambda>b.
     let given = first_given (body_dict data) [''prefix'']; folder = (if truthy given then given else JStr query) in
     seqE (guardE (strip_slashes (py_str folder) \<noteq> []) (StorageErr 400 ''Error''))
     (bindE (lift_sum (as_text folder)) (\<lambda>path.
      bindE (lift_sum (safe_object_path path)) (\<lambda>_.
      bindE (delete_under_prefix env b path p (Some p)) (\<lambda>deleted.
      ret (strip_slashes path, deleted)))))))"

section \<open>Moving, copying, signing\<close>

text \<open>Keys are \<open>bucket/path\<close>; both halves have to be there.\<close>

definition transfer_keys :: "json \<Rightarrow> ((string \<times> string) \<times> (string \<times> string)) act" where
  "transfer_keys data =
     (let body = body_dict data in
      bindE (given_text body [''sourceKey'', ''from'']) (\<lambda>from.
      bindE (given_text body [''destinationKey'', ''to'']) (\<lambda>to.
      let (sb, sp) = partition_slash from; (db, dp) = partition_slash to in
      seqE (guardE (sb \<noteq> [] \<and> sp \<noteq> [] \<and> db \<noteq> [] \<and> dp \<noteq> []) (StorageErr 400 ''Error''))
        (ret ((sb, sp), (db, dp))))))"

definition object_move_view :: "principal \<Rightarrow> json \<Rightarrow> storage_object act" where
  "object_move_view p data =
     bindE (require_company_id p) (\<lambda>_.
     bindE (transfer_keys data) (\<lambda>((sb, sp), (db, dp)).
     bindE (get_accessible_bucket p sb True False) (\<lambda>src.
     bindE (get_accessible_bucket p db True False) (\<lambda>dst.
     seqE (assert_can_access_path p src sp None True False)
     (seqE (assert_can_access_path p dst dp None True False)
       (move_object src sp dst dp))))))"

definition object_copy_view :: "env \<Rightarrow> principal \<Rightarrow> json \<Rightarrow> string act" where
  "object_copy_view env p data =
     bindE (require_company_id p) (\<lambda>_.
     bindE (transfer_keys data) (\<lambda>((sb, sp), (db, dp)).
     bindE (get_accessible_bucket p sb False False) (\<lambda>src.
     bindE (get_accessible_bucket p db True False) (\<lambda>dst.
     seqE (assert_can_access_path p src sp None False False)
     (seqE (assert_can_access_path p dst dp None True False)
       (bindE (copy_object env src sp dst dp (p_user_id p) (Some p)) (\<lambda>obj. ret (db @ slash # o_name obj))))))))"

definition object_sign_view :: "env \<Rightarrow> principal \<Rightarrow> string \<Rightarrow> string \<Rightarrow> json \<Rightarrow> string act" where
  "object_sign_view env p bucket_id object_path data = bad_value (
     let body = body_dict data in
     bindE (if object_path \<noteq> [] then ret object_path else given_text body [''path'']) (\<lambda>path.
     bindE (given_int body [''expiresIn'', ''expires_in''] (SIGNED_URL_EXPIRES env)) (\<lambda>expires.
     bindE (get_accessible_object p bucket_id path False False) (\<lambda>(b, obj).
     ret (build_signed_url env obj (Some expires))))))"

section \<open>Quotas and metrics\<close>

record quota_view =
  qv_snapshot :: quota_snapshot
  qv_company_remaining :: int
  qv_user_remaining :: "int option"

definition quota_get_view :: "env \<Rightarrow> principal \<Rightarrow> quota_view act" where
  "quota_get_view env p =
     bindE (require_company_id p) (\<lambda>c.
     bindE (snapshot env c (p_user_id p)) (\<lambda>s.
     ret \<lparr>qv_snapshot = s, qv_company_remaining = max 0 (qs_company_max s - qs_company_used s),
       qv_user_remaining = map_option (\<lambda>m. max 0 (m - qs_user_used s)) (qs_user_max s)\<rparr>))"

text \<open>Staff manage every company, owners their own; a company id of 0 counts as none.\<close>

definition manages_company :: "principal \<Rightarrow> int \<Rightarrow> bool" where
  "manages_company p company_id \<longleftrightarrow> p_is_staff p \<or>
     company_id = (case p_company_id p of None \<Rightarrow> -1 | Some c \<Rightarrow> if c = 0 then -1 else c)"

definition company_quota_view :: "env \<Rightarrow> principal \<Rightarrow> int \<Rightarrow> json \<Rightarrow> company_quota act" where
  "company_quota_view env p company_id data =
     seqE (guardE (is_staff_or_company_owner (Some p)) (StorageErr 403 ''permission_denied''))
     (seqE (guardE (manages_company p company_id) (StorageErr 403 ''forbidden''))
     (let body = body_dict data in
      bindE (get_or_create_company_quota env company_id) (\<lambda>quota.
      bindE (case map_of body ''max_bytes'' of None \<Rightarrow> ret (cq_max_bytes quota) | Some v \<Rightarrow> lift_sum (py_int_of v)) (\<lambda>m.
      bindE (case map_of body ''max_bytes_per_user'' of None \<Rightarrow> ret (cq_max_bytes_per_user quota)
         | Some v \<Rightarrow> if v = JNull \<or> v = JStr [] then ret None else bindE (lift_sum (py_int_of v)) (\<lambda>i. ret (Some i))) (\<lambda>per_user.
      let saved = quota\<lparr>cq_max_bytes := m, cq_max_bytes_per_user := per_user\<rparr> in
      seqE (modify (\<lambda>w. w\<lparr>w_cquotas := update_where (\<lambda>q. cq_company_id q = company_id) (\<lambda>_. saved) (w_cquotas w)\<rparr>))
        (ret saved))))))"

definition user_quota_view :: "principal \<Rightarrow> int \<Rightarrow> int \<Rightarrow> json \<Rightarrow> user_quota act" where
  "user_quota_view p company_id user_id data =
     seqE (guardE (is_staff_or_company_owner (Some p)) (StorageErr 403 ''permission_denied''))
     (seqE (guardE (manages_company p company_id) (StorageErr 403 ''forbidden''))
     (case map_of (body_dict data) ''max_bytes'' of
        None \<Rightarrow> throw (StorageErr 400 ''Error'')
      | Some v \<Rightarrow>
        bindE (lift_sum (py_int_of v)) (\<lambda>m.
        bindE (gets (\<lambda>w. user_quota_row w company_id user_id)) (\<lambda>found.
        case found of
          Some q \<Rightarrow>
            seqE (modify (\<lambda>w. w\<lparr>w_uquotas := update_where (\<lambda>q. uq_company_id q = company_id \<and> uq_user_id q = user_id)
                (\<lambda>q. q\<lparr>uq_max_bytes := m\<rparr>) (w_uquotas w)\<rparr>))
              (ret (q\<lparr>uq_max_bytes := m\<rparr>))
        | None \<Rightarrow>
            seqE (modify (create_user_quota company_id user_id m))
              (ret \<lparr>uq_company_id = company_id, uq_user_id = user_id, uq_max_bytes = m, uq_used_bytes = 0\<rparr>)))))"

definition global_metrics_view :: "principal \<Rightarrow> (string \<times> gauges) list act" where
  "global_metrics_view p =
     seqE (guardE (p_is_staff p \<or> p_access_global_metrics p) (StorageErr 403 ''Forbidden'')) (gets (\<lambda>w. metrics_body w None))"

section \<open>Grants and share links\<close>

definition grant_list_view :: "principal \<Rightarrow> string \<Rightarrow> string \<Rightarrow> string \<Rightarrow> string \<Rightarrow> (grant_view list \<times> string option) act" where
  "grant_list_view p resource_type resource_id bucket include_effective =
     (if lower include_effective \<in> {''1'', ''true'', ''yes''} then list_grants_effective p resource_type resource_id bucket
      else bindE (list_grants p resource_type resource_id bucket) (\<lambda>gs. ret (gs, None)))"

definition grant_create_view :: "env \<Rightarrow> principal \<Rightarrow> json \<Rightarrow> grant_view act" where
  "grant_create_view env p data =
     bindE (create_grant env p (body_dict data)) (\<lambda>g. gets (\<lambda>w. serialize_grant w g))"

definition grant_delete_view :: "principal \<Rightarrow> uuid \<Rightarrow> unit act" where
  "grant_delete_view p grant_id = delete_grant p grant_id"

definition share_list_view :: "principal \<Rightarrow> string \<Rightarrow> string \<Rightarrow> share_view list act" where
  "share_list_view p bucket_id path = bad_value (
     bindE (list_share_links_for_object p bucket_id path) (\<lambda>links.
     gets (\<lambda>w. map (\<lambda>l. serialize_share_link w l False) links)))"

definition share_create_view :: "env \<Rightarrow> principal \<Rightarrow> string \<Rightarrow> string \<Rightarrow> json \<Rightarrow> share_view act" where
  "share_create_view env p bucket_id path data = bad_value (
     let body = body_dict data;
         limit = (case map_of body ''max_downloads'' of Some v \<Rightarrow> Some v | None \<Rightarrow> map_of body ''maxDownloads'');
         expires = (case map_of body ''expires_at'' of Some v \<Rightarrow> if truthy v then Some v else map_of body ''expiresAt''
           | None \<Rightarrow> map_of body ''expiresAt'') in
     bindE (create_share_link env p bucket_id path expires
         (if limit \<in> {Some JNull, Some (JStr [])} then None else limit) (get_or body ''notes'' [])) (\<lambda>link.
     gets (\<lambda>w. serialize_share_link w link True)))"

definition share_redeem_view :: "env \<Rightarrow> string \<Rightarrow> string option \<Rightarrow> download act" where
  "share_redeem_view env token download =
     bindE (redeem_share_link token) (\<lambda>(link, obj).
     build_download_response env obj (download \<noteq> None) (download_name download))"

definition share_revoke_view :: "principal \<Rightarrow> string \<Rightarrow> share_view act" where
  "share_revoke_view p token =
     bindE (revoke_share_link p token) (\<lambda>link. gets (\<lambda>w. serialize_share_link w link False))"

section \<open>A path the check does not recognise\<close>

text \<open>
  \<open>plain_grants\<close>: no grant that concerns the caller is on the bucket as a whole or on its root, and none is on a
  path that begins with a dot.
\<close>

definition plain_grants :: "world \<Rightarrow> principal \<Rightarrow> bucket \<Rightarrow> bool" where
  "plain_grants w p b \<longleftrightarrow>
     (\<forall>g \<in> set (active_grants w (b_company_id b)). subject_matches g p \<and> g_bucket g = b_id b \<longrightarrow>
        g_resource_type g \<noteq> RESOURCE_BUCKET \<and>
        (let q = normalize_path (Some (resource_path w g)) in q \<noteq> [] \<and> hd q \<noteq> CHR ''.''))"

lemma dot_head: "\<exists>r. normalize_path (Some (CHR ''.'' # s)) = CHR ''.'' # r"
proof -
  have keep: "\<exists>r. strip_where P (c # s) = c # r" if "\<not> P c" for P :: "char \<Rightarrow> bool" and c s
  proof -
    have "dropWhile P (xs @ [c]) = dropWhile P xs @ [c]" for xs using that by (induction xs) auto
    then show ?thesis using that by (simp add: strip_where_def)
  qed
  have "\<not> is_space CHR ''.''" by code_simp
  then obtain r where "strip (CHR ''.'' # s) = CHR ''.'' # r" unfolding strip_def using keep by blast
  then show ?thesis using keep [of "\<lambda>c. c = slash" "CHR ''.''" r] by (simp add: normalize_path_def strip_slashes_def)
qed

lemma dot_path_unmatched:
  assumes "plain_grants w p b" "p_company_id p = Some (b_company_id b)"
  shows "matching_grants w p b (Some (CHR ''.'' # s)) None = []"
proof -
  obtain r where path: "normalize_path (Some (CHR ''.'' # s)) = CHR ''.'' # r" using dot_head by blast
  have "\<not> (subject_matches g p \<and> resource_matches_grant w g b (Some (CHR ''.'' # s)) None)"
    if g: "g \<in> set (active_grants w (b_company_id b))" for g
  proof
    assume match: "subject_matches g p \<and> resource_matches_grant w g b (Some (CHR ''.'' # s)) None"
    then have bucket: "g_bucket g = b_id b" by (auto simp: resource_matches_grant_def split: if_splits)
    define q where "q = normalize_path (Some (resource_path w g))"
    have plain: "g_resource_type g \<noteq> RESOURCE_BUCKET" "q \<noteq> []" "hd q \<noteq> CHR ''.''"
      using assms(1) g match bucket unfolding plain_grants_def q_def Let_def by blast+
    show False
    proof (cases "g_resource_type g")
      case RESOURCE_FOLDER
      then have "g_object g \<noteq> None" "resource_path w g = folder_path_from_placeholder (object_name_of w (g_object g))"
        using match bucket by (auto simp: resource_matches_grant_def resource_path_def Let_def split: if_splits)
      moreover obtain r' where "normalize_path (Some (CHR ''.'' # r)) = CHR ''.'' # r'" using dot_head by blast
      ultimately have "CHR ''.'' # r' = q \<or> prefix (q @ [slash]) (CHR ''.'' # r')"
        using match bucket path plain(2) RESOURCE_FOLDER
        by (auto simp: resource_matches_grant_def folder_matches_def Let_def q_def split: if_splits)
      then show False using plain(2,3) by (cases q) auto
    next
      case RESOURCE_OBJECT
      then have "normalize_path (Some (object_name_of w (g_object g))) = CHR ''.'' # r" "g_object g \<noteq> None"
        using match bucket path by (auto simp: resource_matches_grant_def Let_def split: if_splits)
      moreover have "resource_path w g = normalize_slashes (object_name_of w (g_object g))"
        using RESOURCE_OBJECT calculation(2) by (auto simp: resource_path_def)
      ultimately show False using plain(3) dot_head unfolding q_def normalize_slashes_def normalize_path_def
        by (metis list.sel(1) option.simps(5))
    qed (use plain in simp)
  qed
  then show ?thesis using assms(2) by (simp add: matching_grants_def filter_empty_conv)
qed

lemma dot_path_default:
  assumes "plain_grants w p b" "p_company_id p = Some (b_company_id b)" "p_user_id p \<noteq> None" "b_kind b = COMPANY_KIND"
  shows "can_access_path w p b (CHR ''.'' # s) None wr False"
  using assms dot_path_unmatched [OF assms(1,2)]
  by (auto simp: can_access_path_def evaluate_access_def kind_default_allows_def required_permission_def Let_def)

text \<open>The normal form of \<open>./p\<close> is that of \<open>p\<close>.\<close>

lemma safe_dot_path [simp]: "safe_object_path (CHR ''.'' # slash # p) = safe_object_path p"
proof -
  have "forward_slashes (CHR ''.'' # slash # p) = CHR ''.'' # slash # forward_slashes p"
    by (simp add: forward_slashes_def backslash_def)
  moreover have "posix_parts (CHR ''.'' # slash # q) = posix_parts q" for q
    using split_on_append [of slash "''.''" q] by (simp add: posix_parts_def)
  ultimately show ?thesis by (simp add: safe_object_path_eq)
qed

text \<open>Renaming an object no grant points at leaves every decision as it was, and its id opens nothing.\<close>

lemma evaluate_access_unpointed:
  assumes "w_grants w' = w_grants w" "w_clock w' = w_clock w" "i \<noteq> None"
    "\<forall>g \<in> set (w_grants w). g_object g \<noteq> i \<and> object_name_of w' (g_object g) = object_name_of w (g_object g)"
  shows "evaluate_access w' p b path i wr ad = evaluate_access w p b path None wr ad"
proof -
  have active: "active_grants w' = active_grants w" using assms(1,2) by (simp add: fun_eq_iff active_grants_def)
  have matching: "matching_grants w' p b path i = matching_grants w p b path None"
  proof (cases "p_company_id p")
    case (Some c)
    have "resource_matches_grant w' g b path i = resource_matches_grant w g b path None"
      if "g \<in> set (active_grants w c)" for g
      using assms(3,4) that by (auto simp: resource_matches_grant_def active_grants_def Let_def split: ResourceType.splits)
    then show ?thesis using Some active by (auto simp: matching_grants_def intro!: filter_cong)
  qed (simp add: matching_grants_def)
  have "grant_specificity w' g = grant_specificity w g" if "g \<in> set (matching_grants w p b path None)" for g
    using assms(4) that by (auto simp: grant_specificity_def matching_grants_def active_grants_def split: option.splits ResourceType.splits)
  note score = this
  have "map (grant_specificity w') (matching_grants w p b path None) = map (grant_specificity w) (matching_grants w p b path None)"
    using score by simp
  then have "top_grants w' (matching_grants w p b path None) = top_grants w (matching_grants w p b path None)"
    unfolding top_grants_def Let_def by (intro filter_cong refl) (simp only: score)
  then show ?thesis by (simp only: evaluate_access_eq matching)
qed

lemma find_object_unique:
  assumes "x \<in> set (w_objects w)" "o_bucket x = b_id b" "o_name x = n"
    and "\<And>y. y \<in> set (w_objects w) \<Longrightarrow> o_bucket y = b_id b \<Longrightarrow> o_name y = n \<Longrightarrow> y = x"
  shows "find_object w b n = Some x"
proof (cases "find_object w b n")
  case None
  then show ?thesis using assms(1-3) by (auto simp: find_object_def first_where_None)
next
  case (Some y)
  then have "y = x" using assms(4) by (auto simp: find_object_def dest!: first_where_Some)
  then show ?thesis using Some by simp
qed

definition move_body :: "string \<Rightarrow> string \<Rightarrow> json" where
  "move_body from to = JObj [(''sourceKey'', JStr (''company/'' @ from)), (''destinationKey'', JStr (''company/'' @ to))]"

lemma move_body_keys:
  "from \<noteq> [] \<Longrightarrow> to \<noteq> [] \<Longrightarrow> transfer_keys (move_body from to) w = (Inr ((''company'', from), (''company'', to)), w)"
  by (simp add: transfer_keys_def move_body_def body_dict_def given_text_def as_text_def bindE_def seqE_def lift_sum_def
      ret_def guardE_def partition_slash_def head_segment_def tail_segments_def)

text \<open>
  A private file can be moved out of its folder by any member. The move checks the path as it was sent and moves
  the object at the normalised path: \<open>company/./secret/plan.txt\<close> is checked as a path below \<open>.\<close>, which no grant
  is about, and taken from \<open>secret\<close>. A member who may write a free path in the bucket of the company
  therefore moves any object there whose protection comes from its folder, and may then read and
  overwrite it.
\<close>

theorem move_bypasses_private_folder:
  assumes "schema_ok w" "provisioned c b w" "p_company_id p = Some c" "p_user_id p \<noteq> None" "plain_grants w p b"
    and "find_object w b n = Some obj" "safe_object_path n = Inr n" "\<forall>g \<in> set (w_grants w). g_object g \<noteq> Some (o_id obj)"
    and "safe_object_path d = Inr d" "d \<noteq> []" "find_object w b d = None" "can_access_path w p b d None True False"
    and "can_access_bucket w p b True False"
  shows "\<exists>obj' w'. object_move_view p (move_body (''./'' @ n) d) w = (Inr obj', w') \<and> o_id obj' = o_id obj \<and>
     o_storage_key obj' = o_storage_key obj \<and> find_object w' b d = Some obj' \<and> find_object w' b n = None \<and>
     can_access_path w' p b d (Some (o_id obj)) True False"
proof -
  let ?upd = "\<lambda>x. x\<lparr>o_name := d, o_updated_at := w_clock w\<rparr>"
  let ?w' = "w\<lparr>w_objects := update_where (\<lambda>x. o_id x = o_id obj) ?upd (w_objects w)\<rparr>"
  have b: "bucket_by_name w c ''company'' = Some b" "b_kind b = COMPANY_KIND"
    using assms(2) by (simp_all add: provisioned_def COMPANY_BUCKET_NAME_def)
  then have cb: "b_company_id b = c" by (auto simp: bucket_by_name_def dest: first_where_Some)
  have obj: "obj \<in> set (w_objects w)" "o_bucket obj = b_id b" "o_name obj = n"
    using assms(6) by (auto simp: find_object_def dest: first_where_Some)
  have src: "can_access_path w p b (''./'' @ n) None True False"
    using dot_path_default [OF assms(5) _ assms(4) b(2), of "slash # n"] assms(3) cb by simp
  have ids: "distinct (map o_id (w_objects w))" and keys: "distinct (map object_key (w_objects w))"
    and placed: "\<forall>x \<in> set (w_objects w). o_bucket x \<in> b_id ` set (w_buckets w)" using assms(1) by (simp_all add: schema_ok_def)
  have one: "x = obj" if "x \<in> set (w_objects w)" "o_id x = o_id obj" for x
    using distinct_key_unique [OF ids that(1) obj(1) that(2)] .
  have free: "\<not> (o_bucket y = b_id b \<and> o_name y = d)" if "y \<in> set (w_objects w)" for y
    using assms(11) that by (auto simp: find_object_def first_where_None)
  have clear: "\<not> object_conflict (o_id obj) ?upd w"
    using free obj(2) one placed by (fastforce simp: object_conflict_def object_key_def)
  have run: "move_object b (''./'' @ n) b d w = (Inr (?upd obj), ?w')"
    using assms(6,7,9,11) clear
    by (simp add: move_object_def atomic_def bindE_def seqE_def lift_sum_def gets_def guardE_def ret_def update_object_def)
  have "object_move_view p (move_body (''./'' @ n) d) w = (Inr (?upd obj), ?w')"
    using assms(10,12,13) run src
    by (simp add: object_move_view_def require_company_id_def assms(3) bindE_def seqE_def move_body_keys ret_def gets_def guardE_def
        get_bucket_again [OF assms(3,2) b(1)] assert_can_access_path_def)
  moreover have "find_object ?w' b d = Some (?upd obj)"
  proof -
    have mem: "?upd obj \<in> set (w_objects ?w')" using obj(1) by (auto simp: set_update_where image_iff)
    have uniq: "x = ?upd obj" if "x \<in> set (w_objects ?w')" "o_bucket x = b_id b" "o_name x = d" for x
      using that free one by (auto simp: set_update_where split: if_splits)
    show ?thesis
    proof (rule find_object_unique [OF mem])
      show "o_bucket (?upd obj) = b_id b" "o_name (?upd obj) = d" using obj(2) by simp_all
    qed (rule uniq)
  qed
  moreover have "find_object ?w' b n = None"
  proof -
    have only: "x = obj" if "x \<in> set (w_objects w)" "o_bucket x = b_id b" "o_name x = n" for x
      using distinct_key_unique [OF keys that(1) obj(1)] that obj by (simp add: object_key_def)
    have "d \<noteq> n" using free [OF obj(1)] obj by auto
    have "\<not> (o_bucket x = b_id b \<and> o_name x = n)" if x: "x \<in> set (w_objects ?w')" for x
    proof -
      obtain y where y: "y \<in> set (w_objects w)" "x = (if o_id y = o_id obj then ?upd y else y)"
        using x by (auto simp: set_update_where)
      show ?thesis
      proof (cases "o_id y = o_id obj")
        case True
        then show ?thesis using y(2) \<open>d \<noteq> n\<close> by simp
      next
        case False
        then show ?thesis using y only by auto
      qed
    qed
    then show ?thesis by (simp add: find_object_def first_where_None)
  qed
  moreover have "can_access_path ?w' p b d (Some (o_id obj)) True False"
  proof -
    have "object_name_of ?w' j = object_name_of w j" if "j \<noteq> Some (o_id obj)" for j
    proof -
      have "first_where (\<lambda>x. o_id x = k) (update_where (\<lambda>x. o_id x = o_id obj) ?upd (w_objects w)) =
          map_option (\<lambda>x. if o_id x = o_id obj then ?upd x else x) (first_where (\<lambda>x. o_id x = k) (w_objects w))" for k
        by (intro first_where_update_key) simp
      then show ?thesis using that
        by (auto simp: object_name_of_def object_by_id_def split: option.splits dest!: first_where_Some)
    qed
    then have "evaluate_access ?w' p b (Some d) (Some (o_id obj)) True False = evaluate_access w p b (Some d) None True False"
      using assms(8) by (intro evaluate_access_unpointed) auto
    then show ?thesis using assms(12) by (simp add: can_access_path_def)
  qed
  ultimately show ?thesis by (intro exI [of _ "?upd obj"] exI [of _ ?w']) simp
qed

lemma move_bypasses_private_folder_witness:
  "\<not> can_access_path private_world bob company_bucket ''secret/plan.txt'' (Some 3) False False \<and>
   (\<exists>obj' w'. object_move_view bob (move_body ''./secret/plan.txt'' ''loot.txt'') private_world = (Inr obj', w') \<and>
      o_id obj' = 3 \<and> can_access_path w' bob company_bucket ''loot.txt'' (Some 3) True False)"
proof -
  have who: "p_company_id bob = Some 7" "p_user_id bob \<noteq> None" "o_id secret_file = 3" by (simp_all add: sample_defs)
  have schema: "schema_ok private_world" using private_world_sound by (simp add: sound_def)
  have prov: "provisioned 7 company_bucket private_world" and plain: "plain_grants private_world bob company_bucket"
    and found: "find_object private_world company_bucket ''secret/plan.txt'' = Some secret_file"
    and src: "safe_object_path ''secret/plan.txt'' = Inr ''secret/plan.txt''"
    and dst: "safe_object_path ''loot.txt'' = Inr ''loot.txt''"
    and free: "find_object private_world company_bucket ''loot.txt'' = None"
    and writable: "can_access_path private_world bob company_bucket ''loot.txt'' None True False"
    and enter: "can_access_bucket private_world bob company_bucket True False"
    and hidden: "\<not> can_access_path private_world bob company_bucket ''secret/plan.txt'' (Some 3) False False"
    by code_simp+
  have loose: "\<forall>g \<in> set (w_grants private_world). g_object g \<noteq> Some (o_id secret_file)" by (simp add: sample_defs)
  show ?thesis
    using move_bypasses_private_folder [OF schema prov who(1,2) plain found src loose dst _ free writable enter] hidden who(3) by auto
qed

end
