(* ===== verification/Net_Address.thy ===== *)
theory Net_Address
  imports Py_Values
begin

text \<open>
  What \<open>apps/actions/ssrf.py\<close> and \<open>apps/actions/webhook_transport.py\<close> use of Python's
  \<open>ipaddress\<close> and \<open>urllib.parse\<close>: addresses read from text, the networks that are not
  globally reachable, and the parts of a URL. A 32-bit word is an IPv4 address and a 128-bit
  word an IPv6 address. \<open>internal_address\<close> is the contract a webhook target must avoid: it
  names the internal ranges by their octets, independently of the library's table.
\<close>

section \<open>Addresses from text\<close>

datatype ip = V4 "32 word" | V6 "128 word"

definition is_ascii_digit :: "char \<Rightarrow> bool" where
  "is_ascii_digit c = (48 \<le> code_point c \<and> code_point c \<le> 57)"

definition parse_octet :: "string \<Rightarrow> nat option" where
  "parse_octet s =
     (if s = [] \<or> \<not> list_all is_ascii_digit s \<or> 3 < length s \<or> s \<noteq> ''0'' \<and> prefix ''0'' s then None
      else case read_base 10 0 s of None \<Rightarrow> None | Some n \<Rightarrow> if 255 < n then None else Some n)"

definition parse_ipv4 :: "string \<Rightarrow> 32 word option" where
  "parse_ipv4 s =
     (case map parse_octet (split_on CHR ''.'' s) of
        [Some a, Some b, Some c, Some d] \<Rightarrow> Some (of_int (((int a * 256 + int b) * 256 + int c) * 256 + int d))
      | _ \<Rightarrow> None)"

definition parse_hextet :: "string \<Rightarrow> nat option" where
  "parse_hextet s = (if s = [] \<or> 4 < length s then None else read_base 16 0 s)"

fun hextets :: "int \<Rightarrow> string list \<Rightarrow> int option" where
  "hextets acc [] = Some acc"
| "hextets acc (p # ps) =
     (case parse_hextet p of None \<Rightarrow> None | Some n \<Rightarrow> hextets (acc * 65536 + int n) ps)"

text \<open>The parts between colons; one empty part inside is the run of zeroes \<open>::\<close>.\<close>

definition ipv6_parts :: "string list \<Rightarrow> int option" where
  "ipv6_parts parts =
     (if length parts < 3 \<or> 9 < length parts then None
      else case filter (\<lambda>i. parts ! i = []) [1..<length parts - 1] of
        [] \<Rightarrow> if length parts \<noteq> 8 then None else hextets 0 parts
      | [k] \<Rightarrow>
          (let hi = take k parts; lo = drop (Suc k) parts;
               hi' = (if hd hi = [] then [] else hi); lo' = (if last lo = [] then [] else lo) in
           if hd hi = [] \<and> k \<noteq> 1 \<or> last lo = [] \<and> length lo \<noteq> 1 \<or> 7 < length hi' + length lo' then None
           else hextets 0 (hi' @ replicate (8 - (length hi' + length lo')) ''0'' @ lo'))
      | _ \<Rightarrow> None)"

definition parse_ipv6 :: "string \<Rightarrow> 128 word option" where
  "parse_ipv6 s =
     (let addr = takeWhile (\<lambda>c. c \<noteq> CHR ''%'') s; scope = dropWhile (\<lambda>c. c \<noteq> CHR ''%'') s;
          parts = split_on CHR '':'' addr in
      if slash \<in> set s \<or> scope = ''%'' \<or> CHR ''%'' \<in> set (drop 1 scope) then None
      else if length parts < 3 then None
      else if CHR ''.'' \<in> set (last parts)
      then (case parse_ipv4 (last parts) of None \<Rightarrow> None
            | Some v \<Rightarrow> map_option of_int (ipv6_parts (butlast parts @
                [show_base 16 (nat (uint v div 65536)), show_base 16 (nat (uint v mod 65536))])))
      else map_option of_int (ipv6_parts parts))"

definition ip_address :: "string \<Rightarrow> ip option" where
  "ip_address s =
     (case parse_ipv4 s of Some v \<Rightarrow> Some (V4 v) | None \<Rightarrow> map_option V6 (parse_ipv6 s))"

section \<open>Globally reachable addresses\<close>

definition in_net4 :: "32 word \<Rightarrow> 32 word \<times> nat \<Rightarrow> bool" where
  "in_net4 ip net = (drop_bit (32 - snd net) ip = drop_bit (32 - snd net) (fst net))"

definition in_net6 :: "128 word \<Rightarrow> 128 word \<times> nat \<Rightarrow> bool" where
  "in_net6 ip net = (drop_bit (128 - snd net) ip = drop_bit (128 - snd net) (fst net))"

definition quad :: "int \<Rightarrow> int \<Rightarrow> int \<Rightarrow> int \<Rightarrow> 32 word" where
  "quad a b c d = of_int (((a * 256 + b) * 256 + c) * 256 + d)"

definition PRIVATE_NETWORKS4 :: "(32 word \<times> nat) list" where
  "PRIVATE_NETWORKS4 = [(quad 0 0 0 0, 8), (quad 10 0 0 0, 8), (quad 127 0 0 0, 8),
     (quad 169 254 0 0, 16), (quad 172 16 0 0, 12), (quad 192 0 0 0, 24), (quad 192 0 0 170, 31),
     (quad 192 0 2 0, 24), (quad 192 168 0 0, 16), (quad 198 18 0 0, 15), (quad 198 51 100 0, 24),
     (quad 203 0 113 0, 24), (quad 240 0 0 0, 4), (quad 255 255 255 255, 32)]"

definition PRIVATE_EXCEPTIONS4 :: "(32 word \<times> nat) list" where
  "PRIVATE_EXCEPTIONS4 = [(quad 192 0 0 9, 32), (quad 192 0 0 10, 32)]"

definition is_private4 :: "32 word \<Rightarrow> bool" where
  "is_private4 ip =
     (list_ex (in_net4 ip) PRIVATE_NETWORKS4 \<and> \<not> list_ex (in_net4 ip) PRIVATE_EXCEPTIONS4)"

definition is_global4 :: "32 word \<Rightarrow> bool" where
  "is_global4 ip = (\<not> in_net4 ip (quad 100 64 0 0, 10) \<and> \<not> is_private4 ip)"

text \<open>The IPv6 tables, each network as its address and prefix length.\<close>

definition PRIVATE_NETWORKS6 :: "(128 word \<times> nat) list" where
  "PRIVATE_NETWORKS6 = [(1, 128),
     (0, 128),
     (0xffff00000000, 96),
     (0x64ff9b000100000000000000000000, 48),
     (0x1000000000000000000000000000000, 64),
     (0x20010000000000000000000000000000, 23),
     (0x20010db8000000000000000000000000, 32),
     (0x20020000000000000000000000000000, 16),
     (0x3fff0000000000000000000000000000, 20),
     (0xfc000000000000000000000000000000, 7),
     (0xfe800000000000000000000000000000, 10)]"

definition PRIVATE_EXCEPTIONS6 :: "(128 word \<times> nat) list" where
  "PRIVATE_EXCEPTIONS6 = [(0x20010001000000000000000000000001, 128),
     (0x20010001000000000000000000000002, 128),
     (0x20010003000000000000000000000000, 32),
     (0x20010004011200000000000000000000, 48),
     (0x20010020000000000000000000000000, 28),
     (0x20010030000000000000000000000000, 28)]"

definition ipv4_mapped :: "128 word \<Rightarrow> 32 word option" where
  "ipv4_mapped ip = (if drop_bit 32 ip = 0xFFFF then Some (ucast ip) else None)"

definition is_private6 :: "128 word \<Rightarrow> bool" where
  "is_private6 ip =
     (case ipv4_mapped ip of Some v \<Rightarrow> is_private4 v
      | None \<Rightarrow> list_ex (in_net6 ip) PRIVATE_NETWORKS6 \<and> \<not> list_ex (in_net6 ip) PRIVATE_EXCEPTIONS6)"

definition is_global6 :: "128 word \<Rightarrow> bool" where
  "is_global6 ip = (case ipv4_mapped ip of Some v \<Rightarrow> is_global4 v | None \<Rightarrow> \<not> is_private6 ip)"

definition is_global :: "ip \<Rightarrow> bool" where
  "is_global ip = (case ip of V4 v \<Rightarrow> is_global4 v | V6 v \<Rightarrow> is_global6 v)"

section \<open>URLs\<close>

record parsed_url =
  u_scheme :: string
  u_netloc :: string
  u_path :: string
  u_query :: string

definition before :: "char \<Rightarrow> string \<Rightarrow> string" where
  "before c s = takeWhile (\<lambda>x. x \<noteq> c) s"

definition behind :: "char \<Rightarrow> string \<Rightarrow> string" where
  "behind c s = drop 1 (dropWhile (\<lambda>x. x \<noteq> c) s)"

definition is_scheme_char :: "char \<Rightarrow> bool" where
  "is_scheme_char c = (let n = code_point c in
     97 \<le> n \<and> n \<le> 122 \<or> 65 \<le> n \<and> n \<le> 90 \<or> 48 \<le> n \<and> n \<le> 57 \<or> c \<in> {CHR ''+'', CHR ''-'', CHR ''.''})"

definition ascii_alpha :: "char \<Rightarrow> bool" where
  "ascii_alpha c = (let n = code_point c in 97 \<le> n \<and> n \<le> 122 \<or> 65 \<le> n \<and> n \<le> 90)"

text \<open>The host and port part of a network location, and the check of what is in brackets.\<close>

definition host_part :: "string \<Rightarrow> string" where
  "host_part netloc = last (split_on CHR ''@'' netloc)"

definition hostinfo :: "string \<Rightarrow> string \<times> string" where
  "hostinfo netloc =
     (let hp = host_part netloc in
      if CHR ''['' \<in> set hp
      then (before CHR '']'' (behind CHR ''['' hp), behind CHR '':'' (behind CHR '']'' (behind CHR ''['' hp)))
      else (before CHR '':'' hp, behind CHR '':'' hp))"

definition is_hex_char :: "char \<Rightarrow> bool" where
  "is_hex_char c = (case digit_value c of None \<Rightarrow> False | Some d \<Rightarrow> d < 16)"

definition newline :: char where "newline = char_of (10 :: nat)"

definition bracket_host_ok :: "string \<Rightarrow> bool" where
  "bracket_host_ok h =
     (if prefix ''v'' h
      then (let v = before CHR ''.'' (drop 1 h); r = behind CHR ''.'' (drop 1 h) in
        v \<noteq> [] \<and> list_all is_hex_char v \<and> r \<noteq> [] \<and> newline \<notin> set r)
      else (case ip_address h of Some (V6 _) \<Rightarrow> True | _ \<Rightarrow> False))"

definition brackets_ok :: "string \<Rightarrow> bool" where
  "brackets_ok netloc =
     (let open_br = CHR ''['' \<in> set netloc; close_br = CHR '']'' \<in> set netloc; hp = host_part netloc in
      if open_br \<noteq> close_br then False
      else if \<not> open_br then True
      else (CHR ''['' \<in> set hp \<longrightarrow> before CHR ''['' hp = [] \<and>
             (let tail_part = behind CHR '']'' (behind CHR ''['' hp) in
              tail_part = [] \<or> prefix '':'' tail_part)) \<and>
           bracket_host_ok (fst (hostinfo netloc)))"

definition split_scheme :: "string \<Rightarrow> string \<times> string" where
  "split_scheme url =
     (let sch = before CHR '':'' url in
      if CHR '':'' \<in> set url \<and> sch \<noteq> [] \<and> ascii_alpha (hd url) \<and> list_all is_scheme_char sch
      then (lower sch, behind CHR '':'' url) else ([], url))"

text \<open>\<open>urlsplit\<close>; \<open>None\<close> is its \<open>ValueError\<close>. The fragment is split off.\<close>

definition urlsplit :: "string \<Rightarrow> parsed_url option" where
  "urlsplit raw =
     (let url = filter (\<lambda>c. code_point c \<notin> {9, 10, 13}) (dropWhile (\<lambda>c. code_point c \<le> 32) raw);
          (sch, rest) = split_scheme url;
          delim = (\<lambda>c. c \<noteq> slash \<and> c \<noteq> CHR ''?'' \<and> c \<noteq> CHR ''#'');
          has_netloc = prefix ''//'' rest;
          netloc = (if has_netloc then takeWhile delim (drop 2 rest) else []);
          tail_part = (if has_netloc then dropWhile delim (drop 2 rest) else rest);
          no_fragment = before CHR ''#'' tail_part in
      if has_netloc \<and> \<not> brackets_ok netloc then None
      else Some \<lparr>u_scheme = sch, u_netloc = netloc, u_path = before CHR ''?'' no_fragment,
        u_query = behind CHR ''?'' no_fragment\<rparr>)"

text \<open>\<open>urlparse\<close> also splits the parameters of the last segment off.\<close>

definition strip_params :: "string \<Rightarrow> string" where
  "strip_params path =
     (let segments = split_on slash path in
      join_on slash (butlast segments @ [before CHR '';'' (last segments)]))"

definition PARAM_SCHEMES :: "string list" where
  "PARAM_SCHEMES = [[], ''ftp'', ''hdl'', ''prospero'', ''http'', ''https'', ''shttp'', ''rtsp'',
     ''rtsps'', ''rtspu'', ''sip'', ''sips'', ''mms'', ''sftp'', ''tel'']"

definition urlparse :: "string \<Rightarrow> parsed_url option" where
  "urlparse raw = map_option (\<lambda>u. if u_scheme u \<in> set PARAM_SCHEMES then u\<lparr>u_path := strip_params (u_path u)\<rparr> else u)
     (urlsplit raw)"

definition url_hostname :: "parsed_url \<Rightarrow> string" where
  "url_hostname u =
     (let h = fst (hostinfo (u_netloc u)) in
      lower (before CHR ''%'' h) @ dropWhile (\<lambda>c. c \<noteq> CHR ''%'') h)"

text \<open>\<open>parsed.port\<close>: \<open>Inl\<close> is the \<open>ValueError\<close> of a port that is not a number up to 65535.\<close>

definition url_port :: "parsed_url \<Rightarrow> unit + nat option" where
  "url_port u =
     (let p = snd (hostinfo (u_netloc u)) in
      if p = [] then Inr None
      else if \<not> list_all is_ascii_digit p then Inl ()
      else case read_base 10 0 p of None \<Rightarrow> Inl () | Some n \<Rightarrow> if n \<le> 65535 then Inr (Some n) else Inl ())"

section \<open>The internal ranges\<close>

definition octets :: "32 word \<Rightarrow> nat \<times> nat \<times> nat \<times> nat" where
  "octets v = (let n = unat v in
     (n div 16777216, n div 65536 mod 256, n div 256 mod 256, n mod 256))"

definition internal4 :: "32 word \<Rightarrow> bool" where
  "internal4 v = (case octets v of (a, b, c, d) \<Rightarrow>
     a = 0 \<or> a = 10 \<or> a = 127 \<or> 240 \<le> a \<or> a = 169 \<and> b = 254 \<or> a = 172 \<and> 16 \<le> b \<and> b < 32 \<or>
     a = 192 \<and> b = 168 \<or> a = 100 \<and> 64 \<le> b \<and> b < 128)"

text \<open>
  An IPv6 address is internal when it is the loopback or unspecified address, unique local or
  link local, or when it carries an internal IPv4 address: mapped (\<open>::ffff:a.b.c.d\<close>), compatible
  (\<open>::a.b.c.d\<close>), translated (\<open>64:ff9b::a.b.c.d\<close>) or 6to4 (\<open>2002:aabb:ccdd::\<close>).
\<close>

definition internal6 :: "128 word \<Rightarrow> bool" where
  "internal6 v = (let n = unat v in
     n = 0 \<or> n = 1 \<or> n div 2 ^ 121 = 0x7E \<or> n div 2 ^ 118 = 0x3FA \<or>
     (n div 2 ^ 32 \<in> {0, 0xFFFF, 0x64FF9B0000000000000000} \<and> internal4 (of_nat n)) \<or>
     (n div 2 ^ 112 = 0x2002 \<and> internal4 (of_nat (n div 2 ^ 80))))"

definition internal_address :: "ip \<Rightarrow> bool" where
  "internal_address ip = (case ip of V4 v \<Rightarrow> internal4 v | V6 v \<Rightarrow> internal6 v)"

lemma unat_drop_bit_div: "unat (drop_bit n (w :: 'a :: len word)) = unat w div 2 ^ n"
  unfolding unat_drop_bit_eq by (rule drop_bit_eq_div)

lemma in_net4_unat: "in_net4 ip (net, p) \<longleftrightarrow> unat ip div 2 ^ (32 - p) = unat net div 2 ^ (32 - p)"
  by (simp add: in_net4_def word_unat_eq_iff unat_drop_bit_div)

lemma in_net6_unat: "in_net6 ip (net, p) \<longleftrightarrow> unat ip div 2 ^ (128 - p) = unat net div 2 ^ (128 - p)"
  by (simp add: in_net6_def word_unat_eq_iff unat_drop_bit_div)

text \<open>The upper half of an address decides about the internal ranges.\<close>

definition internal_half :: "nat \<Rightarrow> bool" where
  "internal_half h \<longleftrightarrow> h div 256 = 0 \<or> h div 256 = 10 \<or> h div 256 = 127 \<or> 15 \<le> h div 4096 \<or>
     h = 43518 \<or> h div 16 = 2753 \<or> h = 49320 \<or> h div 64 = 401"

lemma base_digits:
  fixes a b c d r :: nat
  assumes "b < r" "d < r"
  shows "r * a + b = r * c + d \<longleftrightarrow> a = c \<and> b = d"
proof
  assume eq: "r * a + b = r * c + d"
  have "(r * a + b) div r = a" "(r * c + d) div r = c" using assms by simp_all
  then have "a = c" using eq by simp
  then show "a = c \<and> b = d" using eq by simp
qed simp

lemma internal4_half: "internal4 v \<longleftrightarrow> internal_half (unat v div 65536)"
proof -
  define h where "h = unat v div 65536"
  have top: "unat v div 16777216 = h div 256" using div_mult2_eq [of "unat v" 65536 256] by (simp add: h_def)
  define a b where "a = h div 256" and "b = h mod 256"
  have h: "h = 256 * a + b" and b: "b < 256" by (simp_all add: a_def b_def)
  have parts: "h div 4096 = a div 16" "h div 16 = 16 * a + b div 16" "h div 64 = 4 * a + b div 64"
    using div_mult2_eq [of h 256 16] b by (simp_all add: h)
  have "(a = 169 \<and> b = 254) = (h = 43518)" "(a = 192 \<and> b = 168) = (h = 49320)"
    using base_digits [of b 256 254 a 169] base_digits [of b 256 168 a 192] b by (simp_all add: h)
  moreover have "(240 \<le> a) = (15 \<le> a div 16)" by (simp add: less_eq_div_iff_mult_less_eq)
  moreover have "(a = 172 \<and> 16 \<le> b \<and> b < 32) = (h div 16 = 2753)"
  proof -
    have "(16 \<le> b \<and> b < 32) = (b div 16 = 1)" "b div 16 < 16" using b by auto
    moreover have "(a = 172 \<and> c = 1) = (16 * a + c = 2753)" if "c < 16" for c
      using base_digits [of c 16 1 a 172] that by simp
    ultimately show ?thesis unfolding parts by metis
  qed
  moreover have "(a = 100 \<and> 64 \<le> b \<and> b < 128) = (h div 64 = 401)"
  proof -
    have "(64 \<le> b \<and> b < 128) = (b div 64 = 1)" "b div 64 < 4" using b by auto
    moreover have "(a = 100 \<and> c = 1) = (4 * a + c = 401)" if "c < 4" for c
      using base_digits [of c 4 1 a 100] that by simp
    ultimately show ?thesis unfolding parts by metis
  qed
  moreover have "h div 256 = a" "h mod 256 = b" by (simp_all add: a_def b_def)
  ultimately show ?thesis
    by (simp add: internal4_def octets_def Let_def internal_half_def top parts(1) flip: h_def)
qed

lemma global4_not_internal:
  assumes "is_global4 v"
  shows "\<not> internal4 v"
proof
  assume "internal4 v"
  define h where "h = unat v div 65536"
  have bad: "internal_half h" using \<open>internal4 v\<close> by (simp add: internal4_half h_def)
  have "unat v < 4294967296" using unsigned_less [of v] by simp
  then have bound: "h < 65536" by (simp add: h_def)
  have shifts: "unat v div 16777216 = h div 256" "unat v div 4194304 = h div 64"
    "unat v div 1048576 = h div 16" "unat v div 268435456 = h div 4096" "unat v div 65536 = h"
    using div_mult2_eq [of "unat v" 65536 256] div_mult2_eq [of "unat v" 65536 64]
      div_mult2_eq [of "unat v" 65536 16] div_mult2_eq [of "unat v" 65536 4096] by (simp_all add: h_def)
  have "h div 4096 = 15" if "15 \<le> h div 4096" using that bound by linarith
  then have "in_net4 v (quad 100 64 0 0, 10) \<or>
    list_ex (in_net4 v) [(quad 0 0 0 0, 8), (quad 10 0 0 0, 8), (quad 127 0 0 0, 8),
     (quad 169 254 0 0, 16), (quad 172 16 0 0, 12), (quad 192 168 0 0, 16), (quad 240 0 0 0, 4)]"
    using bad unfolding internal_half_def by (auto simp: in_net4_unat quad_def shifts)
  moreover have "\<not> in_net4 v (quad 192 0 0 9, 32)" "\<not> in_net4 v (quad 192 0 0 10, 32)"
    using bad shifts(5) unfolding internal_half_def by (auto simp: in_net4_unat quad_def)
  ultimately show False
    using assms by (auto simp: is_global4_def is_private4_def PRIVATE_NETWORKS4_def PRIVATE_EXCEPTIONS4_def)
qed

end
