(* ===== verification/Webhook_Url.thy ===== *)
theory Webhook_Url
  imports Net_Address
begin

text \<open>
  \<open>apps/actions/ssrf.py\<close> and the server name of \<open>apps/actions/webhook_transport.py\<close>: a
  webhook URL is resolved once, and the address the connection is pinned to must not be
  internal. The resolver (\<open>socket.getaddrinfo\<close>) is a parameter: it answers with addresses and
  ports, with \<open>gaierror\<close>, or with the \<open>UnicodeError\<close> of a host name IDNA cannot encode.
\<close>

datatype url_error = SSRFError | UrlValueError

datatype lookup = Found "(string \<times> nat) list" | GaiError | UnicodeErr

type_synonym resolver = "string \<Rightarrow> nat \<Rightarrow> lookup"

record ResolvedWebhookEndpoint =
  ep_original_url :: string
  ep_scheme :: string
  ep_connect_host :: string
  ep_port :: nat
  ep_host_header :: string
  ep_path :: string

section \<open>Which addresses are accepted\<close>

definition NAT64 :: "128 word \<times> nat" where "NAT64 = (0x64ff9b000000000000000000000000, 96)"
definition SIX2FOUR :: "128 word \<times> nat" where "SIX2FOUR = (0x20020000000000000000000000000000, 16)"
definition IPV4_COMPAT :: "128 word \<times> nat" where "IPV4_COMPAT = (0, 96)"
definition IPV4_MAPPED :: "128 word \<times> nat" where "IPV4_MAPPED = (0xffff00000000, 96)"

definition embedded_ipv4 :: "128 word \<Rightarrow> 32 word option" where
  "embedded_ipv4 ip =
     (case ipv4_mapped ip of Some mapped \<Rightarrow> Some mapped
      | None \<Rightarrow>
          if in_net6 ip NAT64 then Some (ucast ip)
          else if in_net6 ip SIX2FOUR then Some (ucast (drop_bit 80 ip))
          else if in_net6 ip IPV4_COMPAT \<and> \<not> in_net6 ip IPV4_MAPPED then Some (ucast ip)
          else None)"

definition validate_ip :: "ip \<Rightarrow> bool \<Rightarrow> url_error + unit" where
  "validate_ip ip allow_private =
     (if allow_private then Inr ()
      else
        let checked = (case ip of
              V4 v \<Rightarrow> V4 v
            | V6 v \<Rightarrow> (case embedded_ipv4 v of Some embedded \<Rightarrow> V4 embedded | None \<Rightarrow> V6 v)) in
        if is_global checked then Inr () else Inl SSRFError)"

definition blocked_hostname :: "string \<Rightarrow> bool \<Rightarrow> url_error + unit" where
  "blocked_hostname host allow_private =
     (if host \<in> {''localhost'', ''metadata.google.internal''} \<and> \<not> allow_private
      then Inl SSRFError else Inr ())"

section \<open>Resolution\<close>

text \<open>The first address of the answer that is accepted, with its port.\<close>

fun first_public :: "bool \<Rightarrow> (string \<times> nat) list \<Rightarrow> url_error + (string \<times> nat)" where
  "first_public allow_private [] = Inl SSRFError"
| "first_public allow_private ((host, port) # infos) =
     (case ip_address host of
        None \<Rightarrow> Inl UrlValueError
      | Some candidate \<Rightarrow>
          (case validate_ip candidate allow_private of
             Inl _ \<Rightarrow> first_public allow_private infos
           | Inr _ \<Rightarrow> Inr (host, port)))"

definition default_port :: "parsed_url \<Rightarrow> nat option \<Rightarrow> nat" where
  "default_port u port =
     (case port of Some p \<Rightarrow> if p \<noteq> 0 then p else (if u_scheme u = ''https'' then 443 else 80)
      | None \<Rightarrow> if u_scheme u = ''https'' then 443 else 80)"

text \<open>The address and port to connect to: \<open>connect_host\<close> and \<open>port\<close> of the source.\<close>

definition connect_target ::
  "resolver \<Rightarrow> parsed_url \<Rightarrow> string \<Rightarrow> bool \<Rightarrow> url_error + (string \<times> nat)" where
  "connect_target getaddrinfo u hostname allow_private =
     (case ip_address hostname of
        Some literal \<Rightarrow>
          (case validate_ip literal allow_private of
             Inl e \<Rightarrow> Inl e
           | Inr _ \<Rightarrow>
               (case url_port u of Inl _ \<Rightarrow> Inl UrlValueError
                | Inr p \<Rightarrow> Inr (hostname, default_port u p)))
      | None \<Rightarrow>
          (case url_port u of Inl _ \<Rightarrow> Inl UrlValueError
           | Inr p \<Rightarrow>
               (let port = default_port u p in
                case getaddrinfo hostname port of
                  GaiError \<Rightarrow> Inl SSRFError
                | UnicodeErr \<Rightarrow> Inl UrlValueError
                | Found infos \<Rightarrow>
                    (case first_public allow_private infos of Inl e \<Rightarrow> Inl e
                     | Inr (host, info_port) \<Rightarrow> Inr (host, if info_port \<noteq> 0 then info_port else port)))))"

definition host_header_of :: "parsed_url \<Rightarrow> string \<Rightarrow> string" where
  "host_header_of u hostname =
     (case url_port u of
        Inr (Some p) \<Rightarrow> if p \<noteq> 0 \<and> p \<noteq> 80 \<and> p \<noteq> 443 then hostname @ '':'' @ str_int (int p) else hostname
      | _ \<Rightarrow> hostname)"

definition resolve_webhook_endpoint ::
  "resolver \<Rightarrow> string \<Rightarrow> bool \<Rightarrow> url_error + ResolvedWebhookEndpoint" where
  "resolve_webhook_endpoint getaddrinfo url allow_private =
     (case urlparse (strip url) of
        None \<Rightarrow> Inl UrlValueError
      | Some u \<Rightarrow>
          if u_scheme u \<notin> {''http'', ''https''} then Inl SSRFError
          else
            let hostname = lower (url_hostname u) in
            if hostname = [] then Inl SSRFError
            else (case blocked_hostname hostname allow_private of
              Inl e \<Rightarrow> Inl e
            | Inr _ \<Rightarrow>
                (case connect_target getaddrinfo u hostname allow_private of
                   Inl e \<Rightarrow> Inl e
                 | Inr (host, port) \<Rightarrow>
                     (let path = (if u_path u = [] then ''/'' else u_path u) in
                      Inr \<lparr>ep_original_url = strip url, ep_scheme = u_scheme u,
                        ep_connect_host = host, ep_port = port,
                        ep_host_header = host_header_of u hostname,
                        ep_path = (if u_query u = [] then path else path @ ''?'' @ u_query u)\<rparr>))))"

definition validate_webhook_url :: "resolver \<Rightarrow> string \<Rightarrow> bool \<Rightarrow> url_error + string" where
  "validate_webhook_url getaddrinfo url allow_private =
     (case resolve_webhook_endpoint getaddrinfo url allow_private of
        Inl e \<Rightarrow> Inl e | Inr _ \<Rightarrow> Inr (strip url))"

section \<open>The name a TLS certificate is checked against\<close>

definition str_isdigit :: "string \<Rightarrow> bool" where
  "str_isdigit s \<longleftrightarrow> s \<noteq> [] \<and> list_all (\<lambda>c. is_ascii_digit c \<or> code_point c \<in> {178, 179, 185}) s"

definition tls_server_name :: "ResolvedWebhookEndpoint \<Rightarrow> string" where
  "tls_server_name endpoint =
     (let host_header = ep_host_header endpoint in
      if prefix ''['' host_header
      then (if CHR '']'' \<in> set host_header then before CHR '']'' (drop 1 host_header) else host_header)
      else
        let segments = split_on CHR '':'' host_header in
        if 1 < length segments \<and> str_isdigit (last segments)
        then join_on CHR '':'' (butlast segments) else host_header)"

section \<open>No accepted address is internal\<close>

lemma ucast_of_nat: "ucast (v :: 128 word) = (of_nat (unat v) :: 32 word)"
  by simp

lemma in_net6_prefix:
  assumes "in_net6 v (net, p)" "16 \<le> p" "p \<le> 128"
  shows "unat v div 2 ^ 112 = unat net div 2 ^ 112"
proof -
  have "(2 :: nat) ^ 112 = 2 ^ (128 - p) * 2 ^ (p - 16)" using assms(2,3) by (simp flip: power_add)
  moreover have "unat v div 2 ^ (128 - p) = unat net div 2 ^ (128 - p)" using assms(1) by (simp only: in_net6_unat)
  ultimately show ?thesis by (simp only: div_mult2_eq)
qed

lemma validated_not_internal:
  assumes ok: "validate_ip ip False = Inr x"
  shows "\<not> internal_address ip"
proof (cases ip)
  case (V4 v)
  then show ?thesis using ok global4_not_internal
    by (auto simp: validate_ip_def is_global_def internal_address_def split: if_splits)
next
  case (V6 v)
  define n where "n = unat v"
  have nets: "(drop_bit 32 v = 0xFFFF) = (n div 2 ^ 32 = 0xFFFF)"
    "in_net6 v NAT64 = (n div 2 ^ 32 = 0x64ff9b0000000000000000)"
    "in_net6 v SIX2FOUR = (n div 2 ^ 112 = 0x2002)"
    "in_net6 v IPV4_COMPAT = (n div 2 ^ 32 = 0)" "in_net6 v IPV4_MAPPED = (n div 2 ^ 32 = 0xFFFF)"
    "in_net6 v (0xfc000000000000000000000000000000, 7) = (n div 2 ^ 121 = 0x7E)"
    "in_net6 v (0xfe800000000000000000000000000000, 10) = (n div 2 ^ 118 = 0x3FA)"
    by (simp_all add: in_net6_unat NAT64_def SIX2FOUR_def IPV4_COMPAT_def IPV4_MAPPED_def n_def
        word_unat_eq_iff unat_drop_bit_div)
  have tops: "n div 2 ^ 112 = n div 2 ^ 32 div 2 ^ 80" "n div 2 ^ 118 = n div 2 ^ 112 div 64"
    "n div 2 ^ 121 = n div 2 ^ 112 div 512"
    by (simp_all add: div_mult2_eq [symmetric])
  have embedded: "embedded_ipv4 v =
     (if n div 2 ^ 32 = 0xFFFF \<or> n div 2 ^ 32 = 0x64ff9b0000000000000000 then Some (of_nat n)
      else if n div 2 ^ 112 = 0x2002 then Some (of_nat (n div 2 ^ 80))
      else if n div 2 ^ 32 = 0 then Some (of_nat n) else None)"
    unfolding embedded_ipv4_def ipv4_mapped_def nets ucast_of_nat unat_drop_bit_div n_def [symmetric] by simp
  have unmapped: "ipv4_mapped v = None" if "embedded_ipv4 v = None"
    using that by (simp add: embedded_ipv4_def split: option.splits)
  have carried: "\<not> internal4 e" if "embedded_ipv4 v = Some e" for e
    using ok that V6 global4_not_internal by (auto simp: validate_ip_def is_global_def split: if_splits)
  have local_net: "n div 2 ^ 121 \<noteq> 0x7E \<and> n div 2 ^ 118 \<noteq> 0x3FA" if none: "embedded_ipv4 v = None"
  proof -
    have "is_global6 v" using ok V6 none by (auto simp: validate_ip_def is_global_def split: if_splits)
    then have "\<not> list_ex (in_net6 v) PRIVATE_NETWORKS6 \<or> list_ex (in_net6 v) PRIVATE_EXCEPTIONS6"
      by (simp add: is_global6_def is_private6_def unmapped [OF none])
    moreover have "n div 2 ^ 112 = 0x2001" if "list_ex (in_net6 v) PRIVATE_EXCEPTIONS6"
    proof -
      obtain net where "net \<in> set PRIVATE_EXCEPTIONS6" "in_net6 v net" using \<open>list_ex _ _\<close> by (auto simp: list_ex_iff)
      then show ?thesis using in_net6_prefix [of v "fst net" "snd net"]
        by (auto simp: PRIVATE_EXCEPTIONS6_def n_def)
    qed
    moreover have "n div 2 ^ 121 \<noteq> 0x7E \<and> n div 2 ^ 118 \<noteq> 0x3FA" if "n div 2 ^ 112 = 0x2001"
      unfolding tops(2,3) that by simp
    moreover have "list_ex (in_net6 v) PRIVATE_NETWORKS6" if "n div 2 ^ 121 = 0x7E \<or> n div 2 ^ 118 = 0x3FA"
      using that unfolding PRIVATE_NETWORKS6_def nets(6,7) [symmetric] by auto
    ultimately show ?thesis by blast
  qed
  have "\<not> internal6 v"
  proof
    assume "internal6 v"
    then consider "n = 0 \<or> n = 1"
      | "n div 2 ^ 32 \<in> {0, 0xFFFF, 0x64FF9B0000000000000000} \<and> internal4 (of_nat n)"
      | "n div 2 ^ 112 = 0x2002 \<and> internal4 (of_nat (n div 2 ^ 80))"
      | "n div 2 ^ 121 = 0x7E \<or> n div 2 ^ 118 = 0x3FA"
      unfolding internal6_def Let_def n_def [symmetric] by blast
    then show False
    proof cases
      case 1
      then have "n div 2 ^ 32 = 0" "n div 2 ^ 112 = 0" by (elim disjE; simp)+
      then have "embedded_ipv4 v = Some (of_nat n)" unfolding embedded by simp
      moreover have "internal4 (of_nat n)" using 1 by (auto simp: internal4_def octets_def)
      ultimately show False using carried by blast
    next
      case 2
      then have "embedded_ipv4 v = Some (of_nat n)" using tops(1) by (auto simp: embedded)
      then show False using 2 carried by blast
    next
      case 3
      then have "embedded_ipv4 v = Some (of_nat (n div 2 ^ 80))" using tops(1) by (auto simp: embedded)
      then show False using 3 carried by blast
    next
      case 4
      define g where "g = n div 2 ^ 112"
      have "g div 512 = 0x7E \<or> g div 64 = 0x3FA" using 4 unfolding tops(2,3) g_def .
      then have g: "g \<noteq> 0x2002" "g \<noteq> 0" "g \<noteq> 0x64" by auto
      have "n div 2 ^ 32 = m \<Longrightarrow> g = m div 2 ^ 80" for m unfolding g_def tops(1) by simp
      from this [of "0xFFFF"] this [of "0x64ff9b0000000000000000"] this [of 0]
      have "n div 2 ^ 32 \<notin> {0, 0xFFFF, 0x64ff9b0000000000000000}" using g by auto
      then have "embedded_ipv4 v = None" using g(1) unfolding embedded g_def by simp
      then show False using 4 local_net by blast
    qed
  qed
  then show ?thesis by (simp add: V6 internal_address_def)
qed

section \<open>What resolution guarantees\<close>

lemma first_public_valid:
  "first_public ap infos = Inr (host, port) \<Longrightarrow>
     \<exists>ip. ip_address host = Some ip \<and> validate_ip ip ap = Inr () \<and> (host, port) \<in> set infos"
  by (induction infos) (auto split: option.splits sum.splits)

lemma connect_target_valid:
  "connect_target r u hostname ap = Inr (host, port) \<Longrightarrow>
     \<exists>ip. ip_address host = Some ip \<and> validate_ip ip ap = Inr ()"
  unfolding connect_target_def
  by (auto simp: Let_def dest!: first_public_valid split: option.splits sum.splits lookup.splits)

lemma resolved_target:
  "resolve_webhook_endpoint r url ap = Inr ep \<Longrightarrow>
     \<exists>ip. ip_address (ep_connect_host ep) = Some ip \<and> validate_ip ip ap = Inr ()"
  unfolding resolve_webhook_endpoint_def
  by (auto simp: Let_def dest!: connect_target_valid split: option.splits sum.splits if_splits)

text \<open>
  C20. Unless private targets are allowed, the address a webhook or email delivery connects to
  is an address, and none of the internal ones: not loopback, private, link local, shared or
  reserved, nor an IPv6 address that carries such an IPv4 address.
\<close>

theorem webhook_target_not_internal:
  assumes "resolve_webhook_endpoint getaddrinfo url False = Inr endpoint"
  shows "\<exists>ip. ip_address (ep_connect_host endpoint) = Some ip \<and> \<not> internal_address ip"
  using resolved_target [OF assms] validated_not_internal by blast

definition sample_resolver :: resolver where
  "sample_resolver host port = Found [(''10.0.0.1'', port), (''93.184.216.34'', port)]"

lemma sample_endpoint:
  "resolve_webhook_endpoint sample_resolver ''https://hooks.example.com/x'' False = Inr
     \<lparr>ep_original_url = ''https://hooks.example.com/x'', ep_scheme = ''https'',
       ep_connect_host = ''93.184.216.34'', ep_port = 443,
       ep_host_header = ''hooks.example.com'', ep_path = ''/x''\<rparr>"
  by code_simp

lemma webhook_target_not_internal_witness:
  "(\<exists>ip. ip_address ''93.184.216.34'' = Some ip \<and> \<not> internal_address ip) \<and>
     internal_address (V4 (quad 10 0 0 1))"
proof -
  have "internal_address (V4 (quad 10 0 0 1))"
    by (simp add: internal_address_def internal4_def octets_def quad_def)
  then show ?thesis using webhook_target_not_internal [OF sample_endpoint] by simp
qed

text \<open>
  A URL with an IPv6 literal loses its brackets in the Host header, and the certificate is then
  checked against the address without its last group. Parameters of the last path segment are
  dropped.
\<close>

lemma ipv6_literal_server_name:
  "map_sum id (\<lambda>ep. (ep_host_header ep, tls_server_name ep))
     (resolve_webhook_endpoint sample_resolver ''https://[2606:2800::1]/x'' False) =
   Inr (''2606:2800::1'', ''2606:2800:'')"
  by code_simp

lemma path_parameters_dropped:
  "map_sum id ep_path (resolve_webhook_endpoint sample_resolver ''https://hooks.example.com/x;v=1'' False) =
   Inr ''/x''"
  by code_simp

end
