(* ===== verification/Webhook_Signing.thy ===== *)
theory Webhook_Signing
  imports Py_Values
begin

text \<open>
  \<open>apps/actions/webhook_signing.py\<close>: the compact JSON body, the signing secret and the
  signature headers of a webhook, with what it uses of \<open>json.dumps\<close>, UTF-8 and \<open>base64\<close>.
  The HMAC is a parameter. \<open>Inl ()\<close> is a \<open>ValueError\<close>.
\<close>

section \<open>JSON bodies\<close>

definition json_escape :: "char \<Rightarrow> string" where
  "json_escape c = (let n = code_point c in
     if c = double_quote \<or> c = backslash_char then [backslash_char, c]
     else if n = 10 then [backslash_char, CHR ''n'']
     else if n = 13 then [backslash_char, CHR ''r'']
     else if n = 9 then [backslash_char, CHR ''t'']
     else if n = 12 then [backslash_char, CHR ''f'']
     else if n = 8 then [backslash_char, CHR ''b'']
     else if n < 32 then backslash_char # ''u00'' @ [digit_char (n div 16), digit_char (n mod 16)]
     else [c])"

definition json_quoted :: "string \<Rightarrow> string" where
  "json_quoted s = double_quote # concat (map json_escape s) @ [double_quote]"

fun less_text :: "string \<Rightarrow> string \<Rightarrow> bool" where
  "less_text [] t = (t \<noteq> [])"
| "less_text (c # s) [] = False"
| "less_text (c # s) (d # t) = (code_point c < code_point d \<or> c = d \<and> less_text s t)"

fun insert_field :: "string \<times> string \<Rightarrow> (string \<times> string) list \<Rightarrow> (string \<times> string) list" where
  "insert_field kv [] = [kv]"
| "insert_field kv (x # xs) = (if less_text (fst x) (fst kv) then x # insert_field kv xs else kv # x # xs)"

definition sort_fields :: "(string \<times> string) list \<Rightarrow> (string \<times> string) list" where
  "sort_fields kvs = foldr insert_field kvs []"

fun json_dumps :: "json \<Rightarrow> string" where
  "json_dumps JNull = ''null''"
| "json_dumps (JBool b) = (if b then ''true'' else ''false'')"
| "json_dumps (JInt i) = str_int i"
| "json_dumps (JStr s) = json_quoted s"
| "json_dumps (JList xs) = ''['' @ join_with '','' (map json_dumps xs) @ '']''"
| "json_dumps (JObj kvs) = ''{'' @ join_with '',''
     (map (\<lambda>(k, v). json_quoted k @ '':'' @ v)
       (sort_fields (map (\<lambda>(k, v). (k, json_dumps v)) kvs))) @ ''}''"

definition utf8_char :: "char \<Rightarrow> bytes" where
  "utf8_char c = (let n = code_point c in
     if n < 128 then [of_nat n] else [of_nat (192 + n div 64), of_nat (128 + n mod 64)])"

definition utf8 :: "string \<Rightarrow> bytes" where
  "utf8 s = concat (map utf8_char s)"

definition encode_webhook_envelope :: "dict \<Rightarrow> bytes" where
  "encode_webhook_envelope envelope = utf8 (json_dumps (JObj envelope))"

section \<open>Base 64\<close>

definition b64_char :: "nat \<Rightarrow> char" where
  "b64_char i = (if i < 26 then char_of (65 + i) else if i < 52 then char_of (71 + i)
     else if i < 62 then char_of (i - 4) else if i = 62 then CHR ''+'' else slash)"

definition b64_value :: "char \<Rightarrow> nat option" where
  "b64_value c = (let n = code_point c in
     if 65 \<le> n \<and> n \<le> 90 then Some (n - 65) else if 97 \<le> n \<and> n \<le> 122 then Some (n - 71)
     else if 48 \<le> n \<and> n \<le> 57 then Some (n + 4) else if c = CHR ''+'' then Some 62
     else if c = slash then Some 63 else None)"

definition pad_char :: char where "pad_char = CHR ''=''"

fun b64encode :: "bytes \<Rightarrow> string" where
  "b64encode [] = []"
| "b64encode [a] =
     [b64_char (unat a div 4), b64_char (unat a mod 4 * 16), pad_char, pad_char]"
| "b64encode [a, b] =
     [b64_char (unat a div 4), b64_char (unat a mod 4 * 16 + unat b div 16),
      b64_char (unat b mod 16 * 4), pad_char]"
| "b64encode (a # b # c # bs) =
     b64_char (unat a div 4) # b64_char (unat a mod 4 * 16 + unat b div 16) #
     b64_char (unat b mod 16 * 4 + unat c div 64) # b64_char (unat c mod 64) # b64encode bs"

text \<open>Strict decoding: groups of four, padding only at the end of the last one.\<close>

fun b64decode :: "string \<Rightarrow> bytes option" where
  "b64decode [] = Some []"
| "b64decode (p # q # r # s # rest) =
     (case (b64_value p, b64_value q) of
        (Some w, Some x) \<Rightarrow>
          if rest = [] \<and> s = pad_char
          then (if r = pad_char then Some [of_nat (w * 4 + x div 16)]
                else case b64_value r of None \<Rightarrow> None
                  | Some y \<Rightarrow> Some [of_nat (w * 4 + x div 16), of_nat (x mod 16 * 16 + y div 4)])
          else (case (b64_value r, b64_value s, b64decode rest) of
                 (Some y, Some z, Some bs) \<Rightarrow>
                   Some (of_nat (w * 4 + x div 16) # of_nat (x mod 16 * 16 + y div 4) #
                     of_nat (y mod 4 * 64 + z) # bs)
               | _ \<Rightarrow> None)
      | _ \<Rightarrow> None)"
| "b64decode _ = None"

section \<open>Secrets and signatures\<close>

definition generate_webhook_signing_secret :: "bytes \<Rightarrow> string" where
  "generate_webhook_signing_secret raw = ''whsec_'' @ b64encode raw"

definition normalize_webhook_signing_secret :: "string \<Rightarrow> unit + bytes" where
  "normalize_webhook_signing_secret secret0 =
     (let secret = strip secret0 in
      if prefix ''whsec_'' secret
      then
        let payload = strip (drop 6 secret) in
        if payload = [] then Inl ()
        else case b64decode payload of
          None \<Rightarrow> Inl ()
        | Some key \<Rightarrow> if key = [] then Inl () else Inr key
      else Inr (utf8 secret))"

definition sign_webhook_body ::
  "(bytes \<Rightarrow> bytes \<Rightarrow> bytes) \<Rightarrow> int \<Rightarrow> string \<Rightarrow> bytes \<Rightarrow> string \<Rightarrow> unit + (string \<times> string) list" where
  "sign_webhook_body hmac_sha256 now secret body webhook_id =
     (case normalize_webhook_signing_secret secret of
        Inl e \<Rightarrow> Inl e
      | Inr key \<Rightarrow>
          (let ts = str_int (now div 1000000);
               signed_content = utf8 (webhook_id @ ''.'' @ ts @ ''.'') @ body in
           Inr [(''webhook-id'', webhook_id), (''webhook-timestamp'', ts),
             (''webhook-signature'', ''v1,'' @ b64encode (hmac_sha256 key signed_content))]))"

section \<open>Decoding inverts encoding\<close>

lemma b64_value_char: "i < 64 \<Longrightarrow> b64_value (b64_char i) = Some i"
  by (auto simp: b64_value_def b64_char_def code_char_of Let_def) (simp_all add: code_point_def)

lemma b64_char_not_pad: "i < 64 \<Longrightarrow> b64_char i \<noteq> pad_char"
  using b64_value_char [of i] by (auto simp: pad_char_def b64_value_def code_point_def)

lemma byte_bound: "unat (a :: 8 word) < 256"
  using unsigned_less [of a] by simp

lemma b64_parts:
  "unat (a :: 8 word) div 4 < 64" "unat a div 16 < 16" "unat a div 64 < 4"
  using byte_bound [of a] by (auto intro: less_mult_imp_div_less)

lemma b64_digits:
  "unat (a :: 8 word) div 4 < 64" "unat a mod 4 * 16 < 64" "unat a mod 4 * 16 + unat (b :: 8 word) div 16 < 64"
  "unat b mod 16 * 4 < 64" "unat b mod 16 * 4 + unat (c :: 8 word) div 64 < 64" "unat c mod 64 < 64"
proof -
  have "unat a mod 4 < 4" "unat b mod 16 < 16" by simp_all
  then show "unat a mod 4 * 16 < 64" "unat a mod 4 * 16 + unat b div 16 < 64"
    "unat b mod 16 * 4 < 64" "unat b mod 16 * 4 + unat c div 64 < 64"
    using b64_parts(2) [of b] b64_parts(3) [of c] by linarith+
qed (simp_all add: b64_parts)

lemma byte_split: "of_nat (unat (a :: 8 word) div k) * of_nat k + of_nat (unat a mod k) = a"
proof -
  have "of_nat (unat a) = a" by simp
  then have "of_nat (unat a div k * k + unat a mod k) = a" by (simp only: div_mult_mod_eq)
  then show ?thesis by (simp only: of_nat_add of_nat_mult)
qed

lemma byte_high:
  "unat (a :: 8 word) div 16 div 16 = 0" "unat a div 16 mod 16 = unat a div 16"
  "unat a div 64 div 4 = 0" "unat a div 64 mod 4 = unat a div 64"
  using b64_parts [of a] by simp_all

lemma b64decode_encode: "b64decode (b64encode bs) = Some bs"
  using byte_split [of _ 4] byte_split [of _ 16] byte_split [of _ 64]
  by (induction bs rule: b64encode.induct)
    (simp_all add: b64_value_char b64_char_not_pad b64_digits byte_high)

lemma b64encode_not_Nil: "bs \<noteq> [] \<Longrightarrow> b64encode bs \<noteq> []"
  by (cases bs rule: b64encode.cases) simp_all

lemma b64_char_no_space: "i < 64 \<Longrightarrow> \<not> is_space (b64_char i)"
  by (auto simp: is_space_def b64_char_def code_char_of Let_def) (simp_all add: code_point_def)

lemma pad_no_space: "\<not> is_space pad_char"
  by code_simp

lemma b64encode_no_space: "c \<in> set (b64encode bs) \<Longrightarrow> \<not> is_space c"
proof (induction bs rule: b64encode.induct)
  case 1
  then show ?case by simp
qed (auto simp: b64_char_no_space b64_digits pad_no_space)

text \<open>
  A generated signing secret reads back as the random bytes it was made from.
\<close>

theorem signing_secret_roundtrip:
  assumes "raw \<noteq> []"
  shows "normalize_webhook_signing_secret (generate_webhook_signing_secret raw) = Inr raw"
proof -
  let ?b = "b64encode raw"
  have no_space: "\<forall>c \<in> set ?b. \<not> is_space c" using b64encode_no_space by blast
  then have body: "strip ?b = ?b" unfolding strip_def by (rule strip_where_clean)
  have "\<forall>c \<in> set ''whsec_''. \<not> is_space c" by code_simp
  then have "\<forall>c \<in> set (''whsec_'' @ ?b). \<not> is_space c" using no_space by auto
  then have "strip (''whsec_'' @ ?b) = ''whsec_'' @ ?b" unfolding strip_def by (rule strip_where_clean)
  then show ?thesis
    using assms body b64encode_not_Nil [OF assms]
    by (simp add: normalize_webhook_signing_secret_def generate_webhook_signing_secret_def b64decode_encode)
qed

lemma signing_secret_roundtrip_witness:
  "normalize_webhook_signing_secret (generate_webhook_signing_secret [1, 2, 255, 7]) = Inr [1, 2, 255, 7]"
  by (rule signing_secret_roundtrip) simp

end
