(* ===== verification/Webdav.thy ===== *)
theory Webdav
  imports Storage_Views Webhook_Url Webhook_Signing
begin

text \<open>
  \<open>apps/webdav/views.py\<close>: the WebDAV surface. Percent encoding of paths (\<open>quote\<close> and \<open>unquote\<close>
  of \<open>urllib.parse\<close>), the methods of \<open>WebDAVView\<close> with their guards, and the dispatcher that
  authenticates and maps exceptions to answers. The answer to PROPFIND is the list of its entries; its
  XML text is left out. A character above U+00FF, the replacement character of a broken encoding
  included, is read as a question mark, since strings here have code points up to 255.
\<close>

section \<open>Percent encoding\<close>

definition quote_safe :: "char \<Rightarrow> bool" where
  "quote_safe c \<longleftrightarrow> ascii_alpha c \<or> is_ascii_digit c \<or> c \<in> set ''_.-~''"

definition upper_hex :: "nat \<Rightarrow> char" where
  "upper_hex d = (if d < 10 then char_of (48 + d) else char_of (55 + d))"

definition percent :: "8 word \<Rightarrow> string" where
  "percent b = [CHR ''%'', upper_hex (unat b div 16), upper_hex (unat b mod 16)]"

text \<open>\<open>quote(s, safe='')\<close>.\<close>

definition quote :: "string \<Rightarrow> string" where
  "quote s = concat (map (\<lambda>c. if quote_safe c then [c] else concat (map percent (utf8_char c))) s)"

text \<open>
  Decoding UTF-8 with \<open>errors='replace'\<close>. \<open>lead_byte b\<close> is the number of bytes that must follow \<open>b\<close>
  and the range of the first of them.
\<close>

definition lead_byte :: "8 word \<Rightarrow> nat \<times> 8 word \<times> 8 word" where
  "lead_byte b =
     (if 0xC2 \<le> b \<and> b \<le> 0xDF then (1, 0x80, 0xBF) else if b = 0xE0 then (2, 0xA0, 0xBF)
      else if b = 0xED then (2, 0x80, 0x9F) else if 0xE1 \<le> b \<and> b \<le> 0xEF then (2, 0x80, 0xBF)
      else if b = 0xF0 then (3, 0x90, 0xBF) else if 0xF1 \<le> b \<and> b \<le> 0xF3 then (3, 0x80, 0xBF)
      else if b = 0xF4 then (3, 0x80, 0x8F) else (0, 0, 0))"

definition followers :: "8 word \<Rightarrow> bytes \<Rightarrow> nat" where
  "followers b bs =
     (case lead_byte b of (n, low, high) \<Rightarrow>
        if n = 0 \<or> bs = [] \<or> \<not> (low \<le> hd bs \<and> hd bs \<le> high) then 0
        else Suc (length (takeWhile (\<lambda>x. 0x80 \<le> x \<and> x \<le> 0xBF) (take (n - 1) (tl bs)))))"

fun utf8_decode :: "bytes \<Rightarrow> string" where
  "utf8_decode [] = []"
| "utf8_decode (b # bs) =
     (if b < 0x80 then char_of (unat b) # utf8_decode bs
      else if (b = 0xC2 \<or> b = 0xC3) \<and> followers b bs = 1
      then char_of ((unat b - 192) * 64 + (unat (hd bs) - 128)) # utf8_decode (drop 1 bs)
      else CHR ''?'' # utf8_decode (drop (followers b bs) bs))"

definition hex_value :: "char \<Rightarrow> nat option" where
  "hex_value c = (if is_hex_char c then digit_value c else None)"

definition escaped_byte :: "string \<Rightarrow> (8 word \<times> string) option" where
  "escaped_byte s =
     (case s of
        a # b # rest \<Rightarrow>
          (case (hex_value a, hex_value b) of
             (Some x, Some y) \<Rightarrow> Some (of_nat (16 * x + y), rest) | _ \<Rightarrow> None)
      | _ \<Rightarrow> None)"

lemma escaped_byte_shorter: "escaped_byte s = Some (b, rest) \<Longrightarrow> length rest < length s"
  by (auto simp: escaped_byte_def split: list.splits option.splits)

text \<open>\<open>unquote(s)\<close>: each maximal run of ASCII characters becomes bytes, which are decoded.\<close>

function unquote_run :: "bytes \<Rightarrow> string \<Rightarrow> string" where
  "unquote_run run [] = utf8_decode run"
| "unquote_run run (c # cs) =
     (if 128 \<le> code_point c then utf8_decode run @ c # unquote_run [] cs
      else case (if c = CHR ''%'' then escaped_byte cs else None) of
        None \<Rightarrow> unquote_run (run @ [of_nat (code_point c)]) cs
      | Some (b, rest) \<Rightarrow> unquote_run (run @ [b]) rest)"
  by pat_completeness auto

termination
  by (relation "measure (length \<circ> snd)")
    (auto dest!: escaped_byte_shorter split: if_splits)

definition unquote :: "string \<Rightarrow> string" where
  "unquote s = unquote_run [] s"

section \<open>Paths\<close>

definition parse_path :: "string \<Rightarrow> string option \<times> string" where
  "parse_path path =
     (let cleaned = strip_slashes (unquote path) in
      if cleaned = [] then (None, [])
      else let bucket = head_segment cleaned in
        (if bucket = [] then None else Some bucket, strip_slashes (tail_segments cleaned)))"

definition href :: "string option \<Rightarrow> string \<Rightarrow> bool \<Rightarrow> string" where
  "href bucket object_path collection =
     (let parts = [''/dav''] @ (case bucket of None \<Rightarrow> [] | Some b \<Rightarrow> if b = [] then [] else [quote b])
            @ map quote (filter (\<lambda>seg. seg \<noteq> []) (split_on slash object_path));
          h = join_on slash parts in
      if collection \<and> \<not> suffix [slash] h then h @ [slash] else h)"

text \<open>\<open>re.search(r'/dav/(.+)$', path)\<close>: no line feed in the group, one may end the text.\<close>

fun search_dav :: "string \<Rightarrow> string option" where
  "search_dav [] = None"
| "search_dav (c # cs) =
     (let rest = drop 5 (c # cs);
          group = (if rest \<noteq> [] \<and> last rest = newline then butlast rest else rest) in
      if prefix ''/dav/'' (c # cs) \<and> group \<noteq> [] \<and> newline \<notin> set group then Some group
      else search_dav cs)"

definition destination_dav_path :: "string \<Rightarrow> string option act" where
  "destination_dav_path destination =
     (let raw = strip destination in
      if raw = [] then ret None
      else case urlsplit raw of None \<Rightarrow> throw ValueErr
        | Some parsed \<Rightarrow> ret (search_dav (unquote (if u_path parsed = [] then raw else u_path parsed))))"

section \<open>Answers\<close>

datatype dav_entry =
  Collection string string
| Member string string int string "string option" int

datatype dav_body =
  No_Body
| Text
| Multistatus "dav_entry list"
| Head_Only string int "string option"
| Content download

type_synonym dav_answer = "int \<times> dav_body"

definition prop_for_object :: "string \<Rightarrow> storage_object \<Rightarrow> dav_entry" where
  "prop_for_object h obj = Member h (obj_basename obj) (o_size obj) (o_mime_type obj)
     (if o_etag obj = [] then None else Some (o_etag obj)) (o_updated_at obj)"

text \<open>\<open>try: check except StorageError: return 403\<close>, then the rest of the method.\<close>

definition or_forbidden :: "unit act \<Rightarrow> dav_answer act \<Rightarrow> dav_answer act" where
  "or_forbidden check rest =
     bindE (catchE (seqE check (ret True)) (\<lambda>e. case e of StorageErr _ _ \<Rightarrow> ret False | _ \<Rightarrow> throw e))
       (\<lambda>ok. if ok then rest else ret (403, Text))"

text \<open>The bucket and the path of a method that needs both.\<close>

definition with_object_path :: "string \<Rightarrow> int \<Rightarrow> (string \<Rightarrow> string \<Rightarrow> dav_answer act) \<Rightarrow> dav_answer act" where
  "with_object_path path missing rest =
     (case parse_path path of
        (Some bucket_name, object_path) \<Rightarrow>
          if object_path = [] then ret (missing, Text) else rest bucket_name object_path
      | (None, _) \<Rightarrow> ret (missing, Text))"

section \<open>PROPFIND\<close>

definition folder_prefix :: "string \<Rightarrow> string" where
  "folder_prefix name = rev (dropWhile (\<lambda>c. c = slash) (rev name)) @ [slash]"

definition rows_below :: "world \<Rightarrow> bucket \<Rightarrow> string \<Rightarrow> storage_object list" where
  "rows_below w b pre =
     sort_key o_name (filter (\<lambda>obj. o_bucket obj = b_id b \<and> prefix pre (o_name obj)) (w_objects w))"

definition children :: "world \<Rightarrow> bucket \<Rightarrow> string \<Rightarrow> principal \<Rightarrow> dav_entry list" where
  "children w b pre p =
     (let rows = filter (\<lambda>obj. can_access_path w p b (o_name obj) (Some (o_id obj)) False False) (rows_below w b pre);
          rests = filter (\<lambda>(obj, rest). rest \<noteq> []) (map (\<lambda>obj. (obj, drop (length pre) (o_name obj))) rows);
          folders = map (\<lambda>(obj, rest). head_segment rest) (filter (\<lambda>(obj, rest). slash \<in> set rest) rests);
          files = map fst (filter (\<lambda>(obj, rest). slash \<notin> set rest \<and> rest \<noteq> FOLDER_PLACEHOLDER_NAME) rests) in
      map (\<lambda>name. Collection (href (Some (b_name b)) (strip_slashes (pre @ name)) True) name) (sort (remdups folders))
      @ map (\<lambda>obj. prop_for_object (href (Some (b_name b)) (o_name obj) False) obj) files)"

definition children_if :: "string option \<Rightarrow> dav_entry list \<Rightarrow> dav_entry list" where
  "children_if depth_header entries = (if depth_header = Some ''0'' then [] else entries)"

text \<open>The depth header defaults to 1; every value but 0 lists the children.\<close>

definition propfind :: "principal \<Rightarrow> string option \<Rightarrow> string \<Rightarrow> dav_answer act" where
  "propfind p depth_header path =
     bindE (require_company_id p) (\<lambda>_.
     case parse_path path of
       (None, _) \<Rightarrow>
         (if depth_header = Some ''0'' then ret (207, Multistatus [Collection (href None [] True) ''dav''])
          else bindE (list_accessible_buckets p) (\<lambda>buckets.
            ret (207, Multistatus (Collection (href None [] True) ''dav''
              # map (\<lambda>b. Collection (href (Some (b_name b)) [] True) (b_name b)) buckets))))
     | (Some bucket_name, object_path) \<Rightarrow>
         bindE (get_accessible_bucket p bucket_name False False) (\<lambda>b.
         if object_path = [] then
           gets (\<lambda>w. (207, Multistatus (Collection (href (Some (b_name b)) [] True) (b_name b)
             # children_if depth_header (children w b [] p))))
         else
           bindE (lift_sum (safe_object_path object_path)) (\<lambda>name.
           gets (\<lambda>w.
             case find_object w b name of
               Some obj \<Rightarrow>
                 (if \<not> can_access_path w p b (o_name obj) (Some (o_id obj)) False False then (403, Text)
                  else (207, Multistatus [prop_for_object (href (Some (b_name b)) (o_name obj) False) obj]))
             | None \<Rightarrow>
                 (if \<not> can_access_path w p b name None False False then (403, Text)
                  else if rows_below w b (folder_prefix name) = [] then (404, Text)
                  else (207, Multistatus (Collection (href (Some (b_name b)) name True) (basename name)
                    # children_if depth_header (children w b (folder_prefix name) p))))))))"

section \<open>The other methods\<close>

definition dav_get :: "env \<Rightarrow> principal \<Rightarrow> bool \<Rightarrow> string \<Rightarrow> dav_answer act" where
  "dav_get env p is_head path =
     bindE (require_company_id p) (\<lambda>_.
     with_object_path path 404 (\<lambda>bucket_name object_path.
     bindE (get_accessible_bucket p bucket_name False False) (\<lambda>b.
     bindE (lift_sum (safe_object_path object_path)) (\<lambda>name.
     bindE (gets (\<lambda>w. find_object w b name)) (\<lambda>found.
     case found of None \<Rightarrow> ret (404, Text)
     | Some obj \<Rightarrow>
         or_forbidden (assert_can_access_path p b name (Some (o_id obj)) False False)
           (if is_head then ret (200, Head_Only (o_mime_type obj) (o_size obj)
                (if o_etag obj = [] then None else Some (o_etag obj)))
            else bindE (build_download_response env obj False None) (\<lambda>d. ret (200, Content d))))))))"

text \<open>
  The request that the receivers see is Django's: its user is the one of the session, not the
  principal of the token. \<open>session\<close> is that user, \<open>None\<close> for a client without a session. The body is read
  through \<open>request.body\<close>, which Django refuses above \<open>DATA_UPLOAD_MAX_MEMORY_SIZE\<close> by the declared length.
\<close>

definition dav_put ::
  "env \<Rightarrow> principal \<Rightarrow> principal option \<Rightarrow> string option \<Rightarrow> bytes \<Rightarrow> string \<Rightarrow> dav_answer act" where
  "dav_put env p session content_type body path =
     bindE (require_company_id p) (\<lambda>_.
     with_object_path path 400 (\<lambda>bucket_name object_path.
     bindE (get_accessible_bucket p bucket_name True False) (\<lambda>b.
     bindE (lift_sum (safe_object_path object_path)) (\<lambda>name.
     or_forbidden (assert_can_access_path p b name None True False)
       (seqE (guardE (int (length body) \<le> DATA_UPLOAD_MAX_MEMORY_SIZE env) RequestDataTooBig)
        (bindE (gets (\<lambda>w. find_object w b name = None)) (\<lambda>created.
         bindE (upload_object env b object_path body (p_user_id p) content_type True None None session) (\<lambda>_.
         ret (if created then 201 else 204, No_Body)))))))))"

definition delete_permitted :: "env \<Rightarrow> bucket \<Rightarrow> principal \<Rightarrow> principal option \<Rightarrow> storage_object list \<Rightarrow> unit act" where
  "delete_permitted env b p session objs =
     forE objs (\<lambda>item.
       bindE (gets (\<lambda>w. can_access_path w p b (o_name item) (Some (o_id item)) True False)) (\<lambda>ok.
       if ok then delete_object env item session else ret ()))"

definition dav_delete :: "env \<Rightarrow> principal \<Rightarrow> principal option \<Rightarrow> string \<Rightarrow> dav_answer act" where
  "dav_delete env p session path =
     bindE (require_company_id p) (\<lambda>_.
     with_object_path path 400 (\<lambda>bucket_name object_path.
     bindE (get_accessible_bucket p bucket_name True False) (\<lambda>b.
     bindE (lift_sum (safe_object_path object_path)) (\<lambda>name.
     bindE (gets (\<lambda>w. find_object w b name)) (\<lambda>found.
     case found of
       None \<Rightarrow>
         bindE (gets (\<lambda>w. rows_below w b (folder_prefix name))) (\<lambda>objs.
         if objs = [] then ret (404, Text)
         else seqE (delete_permitted env b p session objs) (ret (204, No_Body)))
     | Some obj \<Rightarrow>
         or_forbidden (assert_can_access_path p b name (Some (o_id obj)) True False)
           (seqE (delete_object env obj session) (ret (204, No_Body))))))))"

definition mkcol :: "env \<Rightarrow> principal \<Rightarrow> principal option \<Rightarrow> string \<Rightarrow> dav_answer act" where
  "mkcol env p session path =
     bindE (require_company_id p) (\<lambda>_.
     case parse_path path of
       (None, _) \<Rightarrow> ret (403, Text)
     | (Some bucket_name, object_path) \<Rightarrow>
         bindE (get_accessible_bucket p bucket_name True False) (\<lambda>b.
         if object_path = [] then ret (400, Text)
         else
           bindE (lift_sum (safe_object_path object_path)) (\<lambda>name.
           or_forbidden (assert_can_access_path p b name None True False)
             (let placeholder = name @ slash # FOLDER_PLACEHOLDER_NAME in
              bindE (gets (\<lambda>w. find_object w b placeholder \<noteq> None \<or> rows_below w b (name @ [slash]) \<noteq> [])) (\<lambda>there.
              if there then ret (405, Text)
              else bindE (upload_object env b placeholder [] (p_user_id p) (Some ''application/octet-stream'')
                       False None None session) (\<lambda>_. ret (201, No_Body)))))))"

definition move_or_copy ::
  "env \<Rightarrow> principal \<Rightarrow> principal option \<Rightarrow> bool \<Rightarrow> string \<Rightarrow> string \<Rightarrow> dav_answer act" where
  "move_or_copy env p session is_copy destination path =
     bindE (require_company_id p) (\<lambda>_.
     bindE (destination_dav_path destination) (\<lambda>dest_tail.
     case dest_tail of None \<Rightarrow> ret (400, Text)
     | Some tail_part \<Rightarrow>
         with_object_path tail_part 400 (\<lambda>dest_bucket_name dest_path.
         with_object_path path 400 (\<lambda>src_bucket_name src_path.
         bindE (get_accessible_bucket p src_bucket_name (\<not> is_copy) False) (\<lambda>src_bucket.
         bindE (get_accessible_bucket p dest_bucket_name True False) (\<lambda>dest_bucket.
         or_forbidden
           (seqE (assert_can_access_path p src_bucket src_path None (\<not> is_copy) False)
              (assert_can_access_path p dest_bucket dest_path None True False))
           (seqE
              (if is_copy
               then bindE (copy_object env src_bucket src_path dest_bucket dest_path (p_user_id p) session) (\<lambda>_. ret ())
               else bindE (move_object src_bucket src_path dest_bucket dest_path) (\<lambda>_. ret ()))
              (ret (201, No_Body)))))))))"

section \<open>The dispatcher\<close>

record dav_request =
  dr_method :: string
  dr_path :: string
  dr_authorization :: string
  dr_depth :: "string option"
  dr_destination :: string
  dr_content_type :: "string option"
  dr_body :: bytes
  dr_session :: "principal option"

definition dav_method :: "env \<Rightarrow> principal \<Rightarrow> dav_request \<Rightarrow> dav_answer act" where
  "dav_method env p r =
     (let m = lower (dr_method r); path = dr_path r; session = dr_session r in
      if m = ''get'' then dav_get env p False path
      else if m = ''head'' then dav_get env p True path
      else if m = ''put'' then dav_put env p session (dr_content_type r) (dr_body r) path
      else if m = ''delete'' then dav_delete env p session path
      else if m = ''propfind'' then propfind p (dr_depth r) path
      else if m = ''mkcol'' then mkcol env p session path
      else if m = ''move'' then move_or_copy env p session False (dr_destination r) path
      else if m = ''copy'' then move_or_copy env p session True (dr_destination r) path
      else ret (405, No_Body))"

definition dav_view :: "env \<Rightarrow> principal \<Rightarrow> dav_request \<Rightarrow> dav_answer act" where
  "dav_view env p r = catchE (dav_method env p r) (\<lambda>e.
     case e of StorageErr s _ \<Rightarrow> ret (s, Text) | ValueErr \<Rightarrow> ret (400, Text) | _ \<Rightarrow> throw e)"

text \<open>
  An exception that the dispatcher does not catch is a 500, but for Django's \<open>SuspiciousOperation\<close>, of which
  \<open>RequestDataTooBig\<close> is one: a 400. The key cache is part of the state.\<close>

definition dav_dispatch ::
  "env \<Rightarrow> jwt_lib \<Rightarrow> auth_settings \<Rightarrow> dav_request \<Rightarrow> jwks \<Rightarrow> world \<Rightarrow> (dav_answer \<times> jwks) \<times> world" where
  "dav_dispatch env lib st r keys w =
     (if lower (dr_method r) = ''options'' then (((200, No_Body), keys), w)
      else case webdav_authenticate lib st (dr_authorization r) keys of
        (Authenticated p, keys') \<Rightarrow>
          (case dav_view env p r w of
             (Inr answer, w') \<Rightarrow> ((answer, keys'), w')
           | (Inl RequestDataTooBig, w') \<Rightarrow> (((400, No_Body), keys'), w')
           | (Inl _, w') \<Rightarrow> (((500, No_Body), keys'), w'))
      | (Auth_Crash, keys') \<Rightarrow> (((500, No_Body), keys'), w)
      | (_, keys') \<Rightarrow> (((401, Text), keys'), w))"

section \<open>Encoding and decoding\<close>

lemma hex_value_upper_hex: "d < 16 \<Longrightarrow> hex_value (upper_hex d) = Some d"
  by (auto simp: hex_value_def is_hex_char_def digit_value_def upper_hex_def code_char_of Let_def)

lemma escaped_byte_percent: "escaped_byte (tl (percent b) @ rest) = Some (b, rest)"
proof -
  have "unat b < 2 ^ LENGTH(8)" by (rule unsigned_less)
  then have "unat b div 16 < 16" by simp
  then show ?thesis by (simp add: escaped_byte_def percent_def hex_value_upper_hex)
qed

lemma percent_code: "code_point CHR ''%'' = 37"
  by (simp add: code_point_def)

lemma unquote_percent: "unquote_run run (percent b @ rest) = unquote_run (run @ [b]) rest"
  using escaped_byte_percent [of b rest] by (simp add: percent_def percent_code)

lemma unquote_percents: "unquote_run run (concat (map percent bs) @ rest) = unquote_run (run @ bs) rest"
  by (induction bs arbitrary: run) (simp_all add: unquote_percent)

lemma unquote_plain:
  "code_point c < 128 \<Longrightarrow> c \<noteq> CHR ''%'' \<Longrightarrow> unquote_run run (c # rest) = unquote_run (run @ [of_nat (code_point c)]) rest"
  by simp

lemma quote_safe_plain: "quote_safe c \<Longrightarrow> code_point c < 128 \<and> c \<noteq> CHR ''%''"
  by (auto simp: quote_safe_def ascii_alpha_def is_ascii_digit_def Let_def percent_code) (auto simp: code_point_def)

lemma unquote_quote: "unquote_run run (quote s @ rest) = unquote_run (run @ utf8 s) rest"
proof (induction s arbitrary: run)
  case (Cons c s)
  then show ?case
    using quote_safe_plain [of c]
    by (cases "quote_safe c") (simp_all add: quote_def utf8_def unquote_percents utf8_char_def Let_def del: unquote_run.simps(2)
         add: unquote_plain)
qed (simp add: quote_def utf8_def)

lemma slash_plain: "code_point slash < 128" "of_nat (code_point slash) = (47 :: 8 word)" "utf8_char slash = [47]"
  by (simp_all add: code_point_def utf8_char_def)

lemma unquote_join:
  "unquote_run run (join_on slash (map quote segs)) = utf8_decode (run @ utf8 (join_on slash segs))"
proof (induction segs arbitrary: run rule: induct_list012)
  case (3 p q ps)
  then show ?case
    by (simp add: unquote_quote unquote_plain slash_plain utf8_def del: unquote_run.simps(2))
qed (use unquote_quote [where rest = "[]"] in \<open>simp_all add: utf8_def\<close>)

lemma char_of_code [simp]: "char_of (code_point c) = c"
  by (simp add: code_point_def)

lemma code_point_256: "code_point c < 256"
  by (simp add: code_point_def)

lemma utf8_decode_char: "utf8_decode (utf8_char c @ bs) = c # utf8_decode bs"
proof (cases "code_point c < 128")
  case True
  then have "unat (of_nat (code_point c) :: 8 word) = code_point c" by (simp add: unat_of_nat)
  with True show ?thesis by (simp add: utf8_char_def word_less_nat_alt)
next
  case False
  define n where "n = code_point c"
  have n: "128 \<le> n" "n < 256" using False code_point_256 [of c] by (simp_all add: n_def)
  define b :: "8 word" where "b = of_nat (192 + n div 64)"
  define d :: "8 word" where "d = of_nat (128 + n mod 64)"
  have ub: "unat b = 192 + n div 64" and ud: "unat d = 128 + n mod 64" using n unfolding b_def d_def unat_of_nat by (simp_all add: mod_less_eq_dividend)
  have "n div 64 = 2 \<or> n div 64 = 3" using n by linarith
  then have "b = 0xC2 \<or> b = 0xC3" by (auto simp: b_def)
  moreover have "0x80 \<le> d" "d \<le> 0xBF" using ud by (simp_all add: word_le_nat_alt)
  ultimately have "followers b (d # bs) = 1" "\<not> b < 0x80" "b = 0xC2 \<or> b = 0xC3"
    by (elim disjE; simp add: followers_def lead_byte_def)+
  moreover have "(unat b - 192) * 64 + (unat d - 128) = n" using ub ud by simp
  ultimately have "utf8_decode (b # d # bs) = char_of n # utf8_decode bs" by simp
  then show ?thesis using False by (simp add: utf8_char_def n_def b_def d_def Let_def)
qed

lemma utf8_decode_utf8: "utf8_decode (utf8 s) = s"
  by (induction s) (simp_all add: utf8_def utf8_decode_char)

lemma unquote_quoted_path: "unquote (join_on slash (map quote segs)) = join_on slash segs"
  by (simp add: unquote_def unquote_join utf8_decode_utf8)

lemma utf8_decode_ascii: "\<forall>b \<in> set bs. b < 0x80 \<Longrightarrow> utf8_decode (bs @ rest) = map (\<lambda>b. char_of (unat b)) bs @ utf8_decode rest"
  by (induction bs) auto

lemma unquote_run_plain:
  "CHR ''%'' \<notin> set s \<Longrightarrow> \<forall>b \<in> set run. b < 0x80 \<Longrightarrow>
   unquote_run run s = map (\<lambda>b. char_of (unat b)) run @ s"
proof (induction s arbitrary: run)
  case Nil
  then show ?case using utf8_decode_ascii [of run "[]"] by simp
next
  case (Cons c cs)
  show ?case
  proof (cases "code_point c < 128")
    case True
    then have "unat (of_nat (code_point c) :: 8 word) = code_point c" by (simp add: unat_of_nat)
    then have "of_nat (code_point c) < (0x80 :: 8 word)" using True by (simp add: word_less_nat_alt)
    moreover have "unquote_run run (c # cs) = unquote_run (run @ [of_nat (code_point c)]) cs"
      using True Cons.prems(1) by (intro unquote_plain) auto
    ultimately show ?thesis
      using Cons.IH [of "run @ [of_nat (code_point c)]"] Cons.prems \<open>unat _ = _\<close> by (simp del: unquote_run.simps(2))
  next
    case False
    with Cons show ?thesis using utf8_decode_ascii [of run "[]"] by simp
  qed
qed

lemma unquote_no_percent: "CHR ''%'' \<notin> set s \<Longrightarrow> unquote s = s"
  by (simp add: unquote_def unquote_run_plain)


lemma quote_not_empty [simp]: "quote s = [] \<longleftrightarrow> s = []"
  by (cases s) (auto simp: quote_def percent_def utf8_char_def Let_def)

lemma quote_no_slash: "slash \<notin> set (quote s)"
proof -
  have "upper_hex d \<noteq> slash" if "d < 16" for d
    using hex_value_upper_hex [OF that] by (auto simp: hex_value_def is_hex_char_def digit_value_def code_point_def)
  moreover have "unat b div 16 < 16" for b :: "8 word"
    using unsigned_less [of b, where ?'a = nat] by simp
  ultimately have "slash \<notin> set (percent b)" for b by (simp add: percent_def eq_commute [of slash])
  moreover have "\<not> quote_safe slash" by (simp add: quote_safe_def ascii_alpha_def is_ascii_digit_def code_point_def)
  ultimately show ?thesis by (auto simp: quote_def split: if_splits)
qed

lemma canonical_segments:
  assumes "canonical name"
  shows "\<forall>s \<in> set (split_on slash name). s \<noteq> []" "name \<noteq> []" "hd name \<noteq> slash" "last name \<noteq> slash"
proof -
  show ne: "\<forall>s \<in> set (split_on slash name). s \<noteq> []" using assms by (auto simp: canonical_def canonical_segment_def)
  then show "name \<noteq> []" by auto
  have ends: "hd (split_on slash name) \<in> set (split_on slash name)" "last (split_on slash name) \<in> set (split_on slash name)"
    by simp_all
  then have "hd name = hd (hd (split_on slash name))" "last name = last (last (split_on slash name))"
    "hd (split_on slash name) \<noteq> []" "last (split_on slash name) \<noteq> []"
    "slash \<notin> set (hd (split_on slash name))" "slash \<notin> set (last (split_on slash name))"
    using ne hd_join_on [of "split_on slash name" slash] last_join_on [of "split_on slash name" slash]
      split_on_parts [OF ends(1)] split_on_parts [OF ends(2)] by auto
  then show "hd name \<noteq> slash" "last name \<noteq> slash" by (metis hd_in_set, metis last_in_set)
qed

lemma href_path:
  assumes "canonical name" "b \<noteq> []"
  shows "href (Some b) name c = ''/dav/'' @ join_on slash (map quote (b # split_on slash name)) @ (if c then [slash] else [])"
proof -
  let ?segs = "split_on slash name"
  have all: "filter (\<lambda>seg. seg \<noteq> []) ?segs = ?segs"
    using canonical_segments(1) [OF assms(1)] by (simp add: filter_id_conv)
  let ?h = "join_on slash (''/dav'' # map quote (b # ?segs))"
  have "last ?segs \<in> set ?segs" by simp
  then have "last ?segs \<noteq> []" using canonical_segments(1) [OF assms(1)] by blast
  then have "last ?h = last (quote (last ?segs))" "quote (last ?segs) \<noteq> []"
    using last_join_on [of "''/dav'' # map quote (b # ?segs)" slash] by (simp_all add: last_map)
  then have "last ?h \<noteq> slash" using quote_no_slash last_in_set by metis
  then have "\<not> suffix [slash] ?h" by (auto simp del: join_on.simps simp: suffix_def)
  moreover have "?h = ''/dav/'' @ join_on slash (map quote (b # ?segs))" by simp
  ultimately show ?thesis using assms(2) all by (simp add: href_def Let_def del: join_on.simps)
qed



text \<open>
  The server has decoded the path once when the view decodes it again: with a percent sign in its name, a
  file is mistaken for another one.
\<close>

lemma percent_name_misread:
  "parse_path (unquote (drop 5 (href (Some ''company'') ''a%41'' False))) = (Some ''company'', ''aA'')"
  by code_simp

section \<open>The same checks as the REST views\<close>

text \<open>What a client sees of a view: its value as an answer, a \<open>StorageErr\<close> by its status.\<close>

definition as_answer :: "('a \<Rightarrow> dav_answer) \<Rightarrow> 'a act \<Rightarrow> dav_answer act" where
  "as_answer f m = catchE (bindE m (\<lambda>x. ret (f x))) (\<lambda>e.
     case e of StorageErr s _ \<Rightarrow> ret (s, Text) | _ \<Rightarrow> throw e)"

lemmas run_defs = bindE_def seqE_def catchE_def ret_def throw_def gets_def guardE_def lift_sum_def

lemma get_accessible_bucket_no_company:
  "p_company_id p = None \<Longrightarrow> get_accessible_bucket p n wr ad w = (Inl (StorageErr 403 ''missing_company''), w)"
  by (simp add: get_accessible_bucket_def require_company_id_def run_defs)

lemma build_download_errors:
  "build_download_response env obj a n w = (Inl e, w') \<Longrightarrow> e \<noteq> ValueErr"
  by (auto simp: build_download_response_def run_defs open_blob_def update_object_def split: prod.splits sum.splits if_splits)

lemma dav_get_as_rest:
  assumes "parse_path path = (Some bucket_name, object_path)" "object_path \<noteq> []"
  shows "catchE (dav_get env p False path) (\<lambda>e. case e of StorageErr s _ \<Rightarrow> ret (s, Text) | ValueErr \<Rightarrow> ret (400, Text) | _ \<Rightarrow> throw e) w =
    as_answer (\<lambda>d. (200, Content d)) (object_get_view env p bucket_name object_path None) w"
proof (cases "p_company_id p")
  case None
  then show ?thesis
    by (simp add: dav_get_def require_company_id_def as_answer_def object_get_view_def bad_value_def run_defs
        get_accessible_object_def get_accessible_bucket_no_company)
next
  case (Some c)
  note defs = Some assms dav_get_def require_company_id_def as_answer_def object_get_view_def bad_value_def run_defs
        get_accessible_object_def with_object_path_def or_forbidden_def assert_can_access_path_def download_name_def
  obtain res w1 where bucket: "get_accessible_bucket p bucket_name False False w = (res, w1)" by fastforce
  show ?thesis
  proof (cases res)
    case (Inl e)
    then show ?thesis using bucket by (cases e) (simp_all add: defs)
  next
    case (Inr b)
    note defs = defs bucket Inr
    show ?thesis
    proof (cases "safe_object_path object_path")
      case (Inr name)
      note defs = defs Inr
      show ?thesis
      proof (cases "find_object w1 b name")
        case (Some obj)
        obtain res2 w2 where "build_download_response env obj False None w1 = (res2, w2)" by fastforce
        then show ?thesis using Some build_download_errors [of env obj False None w1]
          by (cases res2; cases "can_access_path w1 p b name (Some (o_id obj)) False False") (auto simp: defs split: exn.splits)
      qed (simp add: defs)
    next
      case (Inl e)
      then show ?thesis by (cases e) (simp_all add: defs)
    qed
  qed
qed

text \<open>Two handlers that differ at most in the events they leave.\<close>

definition but_events :: "'a \<times> world \<Rightarrow> 'a \<times> world" where
  "but_events = (\<lambda>(r, w). (r, w\<lparr>w_events := []\<rparr>))"

definition same_but_events :: "'a act \<Rightarrow> 'a act \<Rightarrow> bool" where
  "same_but_events m n \<longleftrightarrow> (\<forall>w. but_events (m w) = but_events (n w))"

lemma same_refl: "same_but_events m m"
  by (simp add: same_but_events_def)

lemma same_bind: "(\<And>x. same_but_events (f x) (g x)) \<Longrightarrow> same_but_events (bindE m f) (bindE m g)"
  by (auto simp: same_but_events_def bindE_def split: prod.splits sum.splits)

lemma same_seq: "same_but_events n k \<Longrightarrow> same_but_events (seqE m n) (seqE m k)"
  by (simp add: seqE_def same_bind)

lemma but_events_cases:
  assumes "but_events (m w) = but_events (n w)"
  obtains res w1 w2 where "m w = (res, w1)" "n w = (res, w2)" "w1\<lparr>w_events := []\<rparr> = w2\<lparr>w_events := []\<rparr>"
  using assms by (cases "m w"; cases "n w") (auto simp: but_events_def)

lemma same_map: "same_but_events m n \<Longrightarrow> same_but_events (bindE m (\<lambda>x. ret (f x))) (bindE n (\<lambda>x. ret (f x)))"
  unfolding same_but_events_def
  by (intro allI, erule_tac x = w in allE, erule but_events_cases)
    (auto simp: bindE_def ret_def but_events_def split: sum.splits)

lemma same_catch:
  assumes "same_but_events m n" "\<And>e w. snd (h e w) = w" "\<And>e w w'. fst (h e w) = fst (h e w')"
  shows "same_but_events (catchE m h) (catchE n h)"
  unfolding same_but_events_def
proof
  fix w
  obtain res w1 w2 where "m w = (res, w1)" "n w = (res, w2)" "w1\<lparr>w_events := []\<rparr> = w2\<lparr>w_events := []\<rparr>"
    using assms(1) but_events_cases unfolding same_but_events_def by metis
  then show "but_events (catchE m h w) = but_events (catchE n h w)"
    using assms(2,3) by (cases res) (simp_all add: catchE_def but_events_def prod_eq_iff split_def)
qed

lemma same_atomic: "same_but_events m n \<Longrightarrow> same_but_events (atomic m) (atomic n)"
  unfolding same_but_events_def
proof
  fix w assume "\<forall>w. but_events (m w) = but_events (n w)"
  then obtain res w1 w2 where r: "m w = (res, w1)" "n w = (res, w2)" and e: "w1\<lparr>w_events := []\<rparr> = w2\<lparr>w_events := []\<rparr>"
    using but_events_cases by metis
  have "w_blobs w1 = w_blobs w2" "w_next_uuid w1 = w_next_uuid w2"
    using arg_cong [OF e, of w_blobs] arg_cong [OF e, of w_next_uuid] by simp_all
  then show "but_events (atomic m w) = but_events (atomic n w)"
    using r e by (cases res) (simp_all add: atomic_def but_events_def rollback_def)
qed

lemma send_uploaded_actor: "same_but_events (send_uploaded env b obj c r) (send_uploaded env b obj c r')"
  unfolding send_uploaded_def
  by (intro same_bind) (auto simp: same_but_events_def but_events_def actions_on_object_uploaded_def emit_event_def run_defs modify_def)

lemma upload_actor: "same_but_events (upload_object env b n d u ct up md cc r) (upload_object env b n d u ct up md cc r')"
  unfolding upload_object_def
  by (auto intro!: same_atomic same_bind same_seq send_uploaded_actor
      simp: Let_def overwrite_object_def create_object_def split: option.splits)

lemma dav_put_actor: "same_but_events (dav_put env p s ct d path) (dav_put env p s' ct d path)"
  unfolding dav_put_def with_object_path_def or_forbidden_def
  by (auto intro!: same_seq same_bind same_map upload_actor same_refl split: prod.splits option.splits)

text \<open>
  The REST request that carries a body as it is: no header but the content type, which is not one that a form parser takes.
\<close>

definition plain_upload :: "string option \<Rightarrow> string option \<Rightarrow> bytes \<Rightarrow> upload_request" where
  "plain_upload content_type media_type body =
     \<lparr>ur_upsert = [], ur_content_type = content_type,
      ur_data = (if body = [] then Empty_Request else Raw_Request media_type body), ur_metadata = None\<rparr>"

lemma plain_upload_fields [simp]:
  "ur_content_type (plain_upload ct mt d) = ct" "ur_metadata (plain_upload ct mt d) = None"
  "\<exists>t. uploaded_data (ur_data (plain_upload ct mt d)) = Inr (t, d)" "form_cache_control (ur_data (plain_upload ct mt d)) = None"
  by (auto simp: plain_upload_def uploaded_data_def form_cache_control_def)

lemma dav_put_as_rest:
  assumes "parse_path path = (Some bucket_name, object_path)" "object_path \<noteq> []"
    "\<forall>t. ct = Some t \<longrightarrow> \<not> prefix ''multipart/'' t" "int (length d) \<le> DATA_UPLOAD_MAX_MEMORY_SIZE env"
  shows "\<exists>ok \<in> {201, 204}.
    catchE (dav_put env p (Some p) ct d path) (\<lambda>e. case e of StorageErr s _ \<Rightarrow> ret (s, Text) | ValueErr \<Rightarrow> ret (400, Text) | _ \<Rightarrow> throw e) w =
    as_answer (\<lambda>_. (ok, No_Body)) (upload_view env p bucket_name object_path True (plain_upload ct mt d)) w"
proof (cases "p_company_id p")
  case None
  then show ?thesis
    by (intro bexI [of _ 201]) (simp_all add: dav_put_def require_company_id_def as_answer_def upload_view_def
        bad_value_def run_defs get_accessible_bucket_no_company)
next
  case (Some c)
  have ct: "(case ct of None \<Rightarrow> None | Some t \<Rightarrow> if prefix ''multipart/'' t then X t else Some t) = ct" for X
    using assms(3) by (auto split: option.splits)
  obtain part where part: "uploaded_data (ur_data (plain_upload ct mt d)) = Inr (part, d)" using plain_upload_fields(3) by blast
  note defs = Some assms(1,2,4) dav_put_def require_company_id_def as_answer_def upload_view_def bad_value_def run_defs
        with_object_path_def or_forbidden_def assert_can_access_path_def Let_def ct part
  obtain res w1 where bucket: "get_accessible_bucket p bucket_name True False w = (res, w1)" by fastforce
  show ?thesis
  proof (cases res)
    case (Inl e)
    then show ?thesis using bucket by (cases e) (auto simp: defs)
  next
    case (Inr b)
    note defs = defs bucket Inr
    show ?thesis
    proof (cases "safe_object_path object_path")
      case (Inr name)
      obtain res2 w2 where up: "upload_object env b object_path d (p_user_id p) ct True None None (Some p) w1 = (res2, w2)"
        by fastforce
      show ?thesis
      proof (cases "can_access_path w1 p b name None True False")
        case True
        show ?thesis
        proof (cases res2)
          case (Inl e)
          then show ?thesis using True up Inr by (cases e) (auto simp: defs)
        next
          case inr: (Inr obj)
          then show ?thesis using True up Inr by (auto simp: defs)
        qed
      qed (auto simp: defs Inr)
    next
      case (Inl e)
      then show ?thesis by (cases e) (auto simp: defs)
    qed
  qed
qed

lemma dav_put_too_big:
  assumes "parse_path path = (Some bucket_name, object_path)" "object_path \<noteq> []"
    "DATA_UPLOAD_MAX_MEMORY_SIZE env < int (length d)" "dav_put env p s ct d path w = (res, v)"
  shows "only_buckets w v \<and> ((\<exists>e. res = Inl e) \<or> res = Inr (403, Text))"
proof (cases "p_company_id p")
  case None
  then show ?thesis using assms(4) only_buckets_rel(1) by (auto simp: dav_put_def require_company_id_def run_defs reflpD)
next
  case (Some c)
  obtain r1 w1 where bucket: "get_accessible_bucket p bucket_name True False w = (r1, w1)" by fastforce
  have "only_buckets w w1" using get_accessible_bucket_frame bucket by (rule keepsD)
  moreover have "\<not> int (length d) \<le> DATA_UPLOAD_MAX_MEMORY_SIZE env" using assms(3) by simp
  ultimately show ?thesis
    using bucket assms(4) by (cases r1; cases "safe_object_path object_path")
      (auto simp: dav_put_def require_company_id_def run_defs with_object_path_def or_forbidden_def
        assert_can_access_path_def Some assms(1-3) split: if_splits)
qed

text \<open>
  C26. WebDAV goes through the checks of the REST views. A GET answers as the REST download of the same bucket and path, with the
  same effect. A PUT with a body of at most \<open>DATA_UPLOAD_MAX_MEMORY_SIZE\<close> bytes answers as the REST upload of that body with
  overwriting allowed, and leaves the same world
  but for the actor of the events, which for WebDAV is the user of the session. A PUT with a longer body stores nothing: it
  fails or answers 403, where the REST upload goes up to \<open>MAX_UPLOAD_BYTES\<close>. (The content types that the REST parsers
  read as a form or as multipart data are left out: see \<open>upload_view_form_refused\<close>.)
\<close>

theorem webdav_same_as_rest:
  assumes "parse_path (dr_path r) = (Some bucket_name, path)" "path \<noteq> []"
  shows "(lower (dr_method r) = ''get'' \<longrightarrow>
      dav_view env p r w = as_answer (\<lambda>d. (200, Content d)) (object_get_view env p bucket_name path None) w) \<and>
    (lower (dr_method r) = ''put'' \<and> int (length (dr_body r)) \<le> DATA_UPLOAD_MAX_MEMORY_SIZE env \<and>
       (\<forall>t. dr_content_type r = Some t \<longrightarrow> \<not> prefix ''multipart/'' t) \<longrightarrow>
      (\<exists>ok \<in> {201, 204}. but_events (dav_view env p r w) =
         but_events (as_answer (\<lambda>_. (ok, No_Body)) (upload_view env p bucket_name path True
           (plain_upload (dr_content_type r) media_type (dr_body r))) w))) \<and>
    (lower (dr_method r) = ''put'' \<and> DATA_UPLOAD_MAX_MEMORY_SIZE env < int (length (dr_body r)) \<longrightarrow>
      only_buckets w (snd (dav_view env p r w)) \<and> (\<forall>ok \<in> {201, 204}. fst (dav_view env p r w) \<noteq> Inr (ok, No_Body)))"
proof (intro conjI impI)
  assume "lower (dr_method r) = ''get''"
  then show "dav_view env p r w = as_answer (\<lambda>d. (200, Content d)) (object_get_view env p bucket_name path None) w"
    using dav_get_as_rest [OF assms] by (simp add: dav_view_def dav_method_def Let_def)
next
  let ?h = "\<lambda>e. case e of StorageErr s x \<Rightarrow> ret (s, Text) | ValueErr \<Rightarrow> ret (400, Text) | _ \<Rightarrow> throw e"
  let ?put = "\<lambda>s. catchE (dav_put env p s (dr_content_type r) (dr_body r) (dr_path r)) ?h"
  assume put: "lower (dr_method r) = ''put'' \<and> int (length (dr_body r)) \<le> DATA_UPLOAD_MAX_MEMORY_SIZE env \<and>
    (\<forall>t. dr_content_type r = Some t \<longrightarrow> \<not> prefix ''multipart/'' t)"
  have "same_but_events (?put (dr_session r)) (?put (Some p))"
    by (rule same_catch [OF dav_put_actor]) (simp_all add: ret_def throw_def split: exn.splits)
  then have "but_events (dav_view env p r w) = but_events (?put (Some p) w)"
    using put by (simp add: dav_view_def dav_method_def same_but_events_def)
  then show "\<exists>ok \<in> {201, 204}. but_events (dav_view env p r w) =
      but_events (as_answer (\<lambda>_. (ok, No_Body)) (upload_view env p bucket_name path True
        (plain_upload (dr_content_type r) media_type (dr_body r))) w)"
    using dav_put_as_rest [OF assms, of "dr_content_type r" "dr_body r" env p w media_type] put by auto
next
  assume put: "lower (dr_method r) = ''put'' \<and> DATA_UPLOAD_MAX_MEMORY_SIZE env < int (length (dr_body r))"
  obtain res v where run: "dav_put env p (dr_session r) (dr_content_type r) (dr_body r) (dr_path r) w = (res, v)" by fastforce
  note big = dav_put_too_big [OF assms conjunct2 [OF put] run]
  have view: "dav_view env p r w = catchE (dav_put env p (dr_session r) (dr_content_type r) (dr_body r) (dr_path r))
      (\<lambda>e. case e of StorageErr s x \<Rightarrow> ret (s, Text) | ValueErr \<Rightarrow> ret (400, Text) | _ \<Rightarrow> throw e) w"
    using put by (simp add: dav_view_def dav_method_def)
  show "only_buckets w (snd (dav_view env p r w))" "\<forall>ok \<in> {201, 204}. fst (dav_view env p r w) \<noteq> Inr (ok, No_Body)"
    using big unfolding view by (auto simp: catchE_def run ret_def throw_def split: exn.splits)
qed

definition get_plan :: dav_request where
  "get_plan = \<lparr>dr_method = ''GET'', dr_path = ''company/secret/plan.txt'', dr_authorization = [], dr_depth = None,
     dr_destination = [], dr_content_type = None, dr_body = [], dr_session = None\<rparr>"

lemma webdav_same_as_rest_witness:
  "dav_view s3_env ann get_plan private_world =
     as_answer (\<lambda>d. (200, Content d)) (object_get_view s3_env ann ''company'' ''secret/plan.txt'' None) private_world"
proof -
  have "parse_path (dr_path get_plan) = (Some ''company'', ''secret/plan.txt'')" "lower (dr_method get_plan) = ''get''"
    by code_simp+
  then show ?thesis using webdav_same_as_rest [of get_plan "''company''" "''secret/plan.txt''" s3_env ann private_world] by simp
qed

section \<open>Folder deletion\<close>

lemma object_name_without:
  assumes "i \<noteq> Some (o_id obj)"
  shows "object_name_of ((erase env obj w)\<lparr>w_blobs := bl, w_events := ev\<rparr>) i = object_name_of w i"
proof -
  have "first_where (\<lambda>x. o_id x = j) (delete_where (\<lambda>x. o_id x = o_id obj) xs) = first_where (\<lambda>x. o_id x = j) xs"
    if "j \<noteq> o_id obj" for j and xs :: "storage_object list"
    using that by (induction xs) (auto simp: delete_where_def)
  then show ?thesis using assms by (cases i) (simp_all add: object_name_of_def object_by_id_def)
qed

lemma access_without:
  assumes "\<forall>g \<in> set (w_grants w). g_object g \<noteq> Some (o_id obj)"
  shows "can_access_path ((erase env obj w)\<lparr>w_blobs := bl, w_events := ev\<rparr>) p b path i wr ad = can_access_path w p b path i wr ad"
    (is "can_access_path ?w p b path i wr ad = _")
proof -
  have grants: "w_grants ?w = w_grants w"
    using assms by (simp add: delete_where_def filter_id_conv)
  have name: "object_name_of ?w (g_object g) = object_name_of w (g_object g)" if "g \<in> set (w_grants w)" for g
    using that assms by (intro object_name_without) blast
  then have "resource_matches_grant ?w g b (Some path) i = resource_matches_grant w g b (Some path) i"
    "grant_specificity ?w g = grant_specificity w g" if "g \<in> set (w_grants w)" for g
    unfolding resource_matches_grant_def grant_specificity_def name [OF that] by simp_all
  note same = this
  have m: "matching_grants ?w p b (Some path) i = matching_grants w p b (Some path) i"
    unfolding matching_grants_def active_grants_def grants
    by (auto simp: same cong: filter_cong split: option.splits)
  have "set (matching_grants w p b (Some path) i) \<subseteq> set (w_grants w)"
    by (auto simp: matching_grants_def active_grants_def split: option.splits)
  then have "map (grant_specificity ?w) (matching_grants w p b (Some path) i) = map (grant_specificity w) (matching_grants w p b (Some path) i)"
    "filter (\<lambda>g. grant_specificity ?w g = x) (matching_grants w p b (Some path) i) = filter (\<lambda>g. grant_specificity w g = x) (matching_grants w p b (Some path) i)" for x
    using same(2) by (auto intro!: filter_cong)
  then have "top_grants ?w (matching_grants w p b (Some path) i) = top_grants w (matching_grants w p b (Some path) i)"
    by (simp add: top_grants_def)
  then show ?thesis by (simp add: can_access_path_def evaluate_access_eq m decide_def)
qed

lemma delete_permitted_rows:
  assumes "sound w" "distinct (map o_id objs)" "set objs \<subseteq> set (w_objects w)"
  shows "wp (delete_permitted env b p s objs)
    (\<lambda>_ w'. sound w' \<and> (\<exists>gone. gone \<subseteq> set objs \<and> w_objects w' = filter (\<lambda>x. x \<notin> gone) (w_objects w) \<and>
       ((\<forall>g \<in> set (w_grants w). g_object g \<notin> Some ` o_id ` set objs) \<longrightarrow>
          gone = {x \<in> set objs. can_access_path w p b (o_name x) (Some (o_id x)) True False})))
    (\<lambda>_ _. True) w"
  using assms
proof (induction objs arbitrary: w)
  case Nil
  show ?case using Nil(1) by (simp add: delete_permitted_def wp_ret)
next
  case (Cons obj objs)
  let ?ok = "can_access_path w p b (o_name obj) (Some (o_id obj)) True False"
  show ?case
  proof (cases ?ok)
    case False
    have "wp (delete_permitted env b p s objs) (\<lambda>_ w'. sound w' \<and> (\<exists>gone. gone \<subseteq> set (obj # objs) \<and> w_objects w' = filter (\<lambda>x. x \<notin> gone) (w_objects w) \<and>
       ((\<forall>g \<in> set (w_grants w). g_object g \<notin> Some ` o_id ` set (obj # objs)) \<longrightarrow>
          gone = {x \<in> set (obj # objs). can_access_path w p b (o_name x) (Some (o_id x)) True False}))) (\<lambda>_ _. True) w"
    proof (rule wp_mono [OF Cons.IH [of w]])
      fix u w'
      assume "sound w' \<and> (\<exists>gone. gone \<subseteq> set objs \<and> w_objects w' = filter (\<lambda>x. x \<notin> gone) (w_objects w) \<and>
          ((\<forall>g \<in> set (w_grants w). g_object g \<notin> Some ` o_id ` set objs) \<longrightarrow>
            gone = {x \<in> set objs. can_access_path w p b (o_name x) (Some (o_id x)) True False}))"
      then obtain gone where gone: "sound w'" "gone \<subseteq> set objs" "w_objects w' = filter (\<lambda>x. x \<notin> gone) (w_objects w)"
          "(\<forall>g \<in> set (w_grants w). g_object g \<notin> Some ` o_id ` set objs) \<Longrightarrow>
            gone = {x \<in> set objs. can_access_path w p b (o_name x) (Some (o_id x)) True False}" by blast
      show "sound w' \<and> (\<exists>gone. gone \<subseteq> set (obj # objs) \<and> w_objects w' = filter (\<lambda>x. x \<notin> gone) (w_objects w) \<and>
       ((\<forall>g \<in> set (w_grants w). g_object g \<notin> Some ` o_id ` set (obj # objs)) \<longrightarrow>
          gone = {x \<in> set (obj # objs). can_access_path w p b (o_name x) (Some (o_id x)) True False}))"
        by (rule conjI [OF gone(1)], rule exI [of _ gone]) (use gone False in auto)
    qed (use Cons.prems in simp_all)
    with False show ?thesis by (simp add: delete_permitted_def wp_simps)
  next
    case True
    have "wp (delete_permitted env b p s objs) (\<lambda>_ w'. sound w' \<and> (\<exists>gone. gone \<subseteq> set (obj # objs) \<and> w_objects w' = filter (\<lambda>x. x \<notin> gone) (w_objects w) \<and>
       ((\<forall>g \<in> set (w_grants w). g_object g \<notin> Some ` o_id ` set (obj # objs)) \<longrightarrow>
          gone = {x \<in> set (obj # objs). can_access_path w p b (o_name x) (Some (o_id x)) True False}))) (\<lambda>_ _. True)
       ((erase env obj w)\<lparr>w_blobs := bl, w_events := ev\<rparr>)" (is "wp _ ?Q _ ?w") for bl ev
    proof -
      have snd: "sound ?w" using Cons.prems by (simp add: erase_sound)
      have ids: "\<forall>x \<in> set objs. o_id x \<noteq> o_id obj" using Cons.prems(2) by (metis distinct.simps(2) image_eqI list.map(2) list.set_map)
      have sub: "set objs \<subseteq> set (w_objects ?w)" using Cons.prems(3) ids by auto
      have key: "filter (\<lambda>x. x \<notin> gone) (w_objects ?w) = filter (\<lambda>x. x \<notin> insert obj gone) (w_objects w)" for gone
      proof -
        have "o_id x = o_id obj \<longleftrightarrow> x = obj" if "x \<in> set (w_objects w)" for x
          using that Cons.prems(1,3) distinct_key_unique [of o_id "w_objects w" x obj] by (auto simp: sound_def schema_ok_def)
        then show ?thesis by (auto simp: delete_where_def conj_commute intro!: filter_cong)
      qed
      have "(\<forall>g \<in> set (w_grants w). g_object g \<notin> Some ` o_id ` set (obj # objs)) \<Longrightarrow>
         (\<forall>g \<in> set (w_grants ?w). g_object g \<notin> Some ` o_id ` set objs) \<and>
         can_access_path ?w p b path i wr ad = can_access_path w p b path i wr ad" for path i wr ad
        using access_without [of w obj] by auto
      note acc = this
      show ?thesis
      proof (rule wp_mono [OF Cons.IH [OF snd _ sub]])
        show "distinct (map o_id objs)" using Cons.prems(2) by simp
        fix u w'
        assume "sound w' \<and> (\<exists>gone. gone \<subseteq> set objs \<and> w_objects w' = filter (\<lambda>x. x \<notin> gone) (w_objects ?w) \<and>
          ((\<forall>g \<in> set (w_grants ?w). g_object g \<notin> Some ` o_id ` set objs) \<longrightarrow>
            gone = {x \<in> set objs. can_access_path ?w p b (o_name x) (Some (o_id x)) True False}))"
        then obtain gone where gone: "sound w'" "gone \<subseteq> set objs" "w_objects w' = filter (\<lambda>x. x \<notin> gone) (w_objects ?w)"
          "(\<forall>g \<in> set (w_grants ?w). g_object g \<notin> Some ` o_id ` set objs) \<Longrightarrow>
            gone = {x \<in> set objs. can_access_path ?w p b (o_name x) (Some (o_id x)) True False}" by blast
        show "?Q u w'"
          by (rule conjI [OF gone(1)], rule exI [of _ "insert obj gone"]) (use gone(2,3,4) True key [of gone] acc in \<open>auto simp del: erase_fields\<close>)
      qed simp
    qed
    then show ?thesis
      using True unfolding delete_permitted_def forE.simps wp_seqE
      by (simp add: wp_bindE wp_gets) (rule wp_delete_object, simp_all)
  qed
qed
lemma folder_prefix_canonical: "canonical name \<Longrightarrow> folder_prefix name = name @ [slash]"
  using canonical_segments(2,4) [of name] by (cases name rule: rev_cases) (auto simp: folder_prefix_def)

text \<open>
  The objects of a folder are taken one by one, each in the world that the ones before have left. \<open>turn\<close> says what
  happens at one of them.
\<close>

definition turn :: "bucket \<Rightarrow> principal \<Rightarrow> storage_object \<Rightarrow> world \<Rightarrow> world \<Rightarrow> bool" where
  "turn b p x u v =
     (if can_access_path u p b (o_name x) (Some (o_id x)) True False
      then w_objects v = delete_where (\<lambda>y. o_id y = o_id x) (w_objects u) \<and>
        w_grants v = delete_where (\<lambda>g. g_object g = Some (o_id x)) (w_grants u) \<and> w_buckets v = w_buckets u
      else v = u)"

lemma delete_permitted_turns:
  "delete_permitted env b p s objs w = (Inr (), w') \<Longrightarrow>
   \<exists>at. at 0 = w \<and> at (length objs) = w' \<and> (\<forall>k < length objs. turn b p (objs ! k) (at k) (at (Suc k)))"
proof (induction objs arbitrary: w)
  case Nil
  then show ?case by (intro exI [of _ "\<lambda>_. w"]) (simp add: delete_permitted_def ret_def)
next
  case (Cons obj objs)
  have "\<exists>v. turn b p obj w v \<and> delete_permitted env b p s objs v = (Inr (), w')"
  proof (cases "can_access_path w p b (o_name obj) (Some (o_id obj)) True False")
    case False
    then show ?thesis using Cons.prems by (auto simp: delete_permitted_def run_defs turn_def)
  next
    case True
    then obtain v where v: "delete_object env obj s w = (Inr (), v)" "delete_permitted env b p s objs v = (Inr (), w')"
      using Cons.prems by (auto simp: delete_permitted_def run_Inr)
    have "wp (delete_object env obj s) (\<lambda>_ v. turn b p obj w v) (\<lambda>_ _. True) w"
      by (rule wp_delete_object) (simp_all add: turn_def True)
    then show ?thesis using v by (auto simp: wp_def)
  qed
  then obtain v where v: "turn b p obj w v" "delete_permitted env b p s objs v = (Inr (), w')" by blast
  obtain at where at: "at 0 = v" "at (length objs) = w'" "\<forall>k < length objs. turn b p (objs ! k) (at k) (at (Suc k))"
    using Cons.IH [OF v(2)] by blast
  let ?at = "\<lambda>k. case k of 0 \<Rightarrow> w | Suc j \<Rightarrow> at j"
  have "turn b p ((obj # objs) ! k) (?at k) (?at (Suc k))" if "k < length (obj # objs)" for k
    using that v(1) at by (cases k) auto
  then show ?case using at by (intro exI [of _ ?at]) simp
qed

text \<open>The rows that such turns take away are the ones that were writable at their turn.\<close>

lemma turns_gone:
  assumes "\<forall>k < n. turn b p (objs ! k) (at k) (at (Suc k))"
  shows "w_objects (at n) = filter (\<lambda>x. \<not> (\<exists>k < n. o_id x = o_id (objs ! k) \<and>
    can_access_path (at k) p b (o_name (objs ! k)) (Some (o_id (objs ! k))) True False)) (w_objects (at 0))"
  using assms
proof (induction n)
  case (Suc n)
  have IH: "w_objects (at n) = filter (\<lambda>x. \<not> (\<exists>k < n. o_id x = o_id (objs ! k) \<and>
    can_access_path (at k) p b (o_name (objs ! k)) (Some (o_id (objs ! k))) True False)) (w_objects (at 0))"
    using Suc by simp
  have "turn b p (objs ! n) (at n) (at (Suc n))" using Suc.prems by simp
  then show ?case
    unfolding turn_def by (auto simp: IH delete_where_def less_Suc_eq intro!: filter_cong split: if_splits)
qed simp

lemma filter_out_inject:
  assumes "filter (\<lambda>x. x \<notin> A) xs = filter (\<lambda>x. x \<notin> B) xs" "A \<subseteq> set xs" "B \<subseteq> set xs"
  shows "A = B"
  using arg_cong [OF assms(1), of set] assms(2,3) by auto

text \<open>
  C27. DELETE on a folder takes the objects below it one by one, in the order of their names, and removes exactly those that the caller may write at their
  turn, in the world \<open>at k\<close> that the ones before have left (a removal takes the grants of its object with it);
  it leaves the others and everything outside the folder, and answers 204 whether or not anything was removed. Without
  grants of the objects themselves the objects that go are the ones that were writable at the start.
\<close>

theorem webdav_folder_delete:
  assumes "sound w" "parse_path path = (Some bucket_name, object_path)" "object_path \<noteq> []"
    and "get_accessible_bucket p bucket_name True False w = (Inr b, v)"
    and "safe_object_path object_path = Inr name" "find_object v b name = None"
    and "dav_delete env p session path w = (Inr answer, w')"
  defines "objs \<equiv> sort_key o_name
    (filter (\<lambda>obj. o_bucket obj = b_id b \<and> prefix (name @ [slash]) (o_name obj)) (w_objects v))"
  shows "if objs = [] then answer = (404, Text) \<and> w' = v
    else answer = (204, No_Body) \<and> sound w' \<and> (\<exists>at gone. at 0 = v \<and> at (length objs) = w' \<and>
      (\<forall>k < length objs. turn b p (objs ! k) (at k) (at (Suc k))) \<and>
      gone = {objs ! k | k. k < length objs \<and>
        can_access_path (at k) p b (o_name (objs ! k)) (Some (o_id (objs ! k))) True False} \<and>
      w_objects w' = filter (\<lambda>x. x \<notin> gone) (w_objects v) \<and>
      ((\<forall>g \<in> set (w_grants v). g_object g \<notin> Some ` o_id ` set objs) \<longrightarrow>
        gone = {obj \<in> set objs. can_access_path v p b (o_name obj) (Some (o_id obj)) True False}))"
proof -
  obtain c where c: "p_company_id p = Some c"
    using assms(4) get_accessible_bucket_no_company by (cases "p_company_id p") auto
  have v: "sound v" using maintains_wp [OF sound_get_accessible_bucket [of p bucket_name True False] assms(1)] assms(4) by (auto simp: wp_def split: prod.splits)
  have pre: "folder_prefix name = name @ [slash]"
    by (rule folder_prefix_canonical) (rule safe_object_path_canonical [OF assms(5)])
  have run: "dav_delete env p session path w =
     (if objs = [] then (Inr (404, Text), v)
      else seqE (delete_permitted env b p session objs) (ret (204, No_Body)) v)"
    using assms(2-6) c by (simp add: dav_delete_def require_company_id_def with_object_path_def run_defs objs_def pre rows_below_def)
  show ?thesis
  proof (cases "objs = []")
    case True
    then show ?thesis using run assms(7) by auto
  next
    case False
    then have del: "delete_permitted env b p session objs v = (Inr (), w')" "answer = (204, No_Body)"
      using run assms(7) by (auto simp: run_defs split: prod.splits sum.splits)
    have sub: "set objs \<subseteq> set (w_objects v)" by (auto simp: objs_def)
    have "distinct (map o_id objs)" using distinct_selection [of v] v by (simp add: sound_def objs_def)
    then obtain old where old: "sound w'" "old \<subseteq> set objs" "w_objects w' = filter (\<lambda>x. x \<notin> old) (w_objects v)"
      "(\<forall>g \<in> set (w_grants v). g_object g \<notin> Some ` o_id ` set objs) \<Longrightarrow>
        old = {obj \<in> set objs. can_access_path v p b (o_name obj) (Some (o_id obj)) True False}"
      using wp_Inr [OF delete_permitted_rows [OF v _ sub] del(1)] by blast
    obtain at where at: "at 0 = v" "at (length objs) = w'" "\<forall>k < length objs. turn b p (objs ! k) (at k) (at (Suc k))"
      using delete_permitted_turns [OF del(1)] by blast
    let ?gone = "{objs ! k | k. k < length objs \<and> can_access_path (at k) p b (o_name (objs ! k)) (Some (o_id (objs ! k))) True False}"
    have ids: "distinct (map o_id (w_objects v))" using v by (simp add: sound_def schema_ok_def)
    have "o_id x = o_id (objs ! k) \<longleftrightarrow> x = objs ! k" if "x \<in> set (w_objects v)" "k < length objs" for x k
      using distinct_key_unique [OF ids that(1)] sub nth_mem [OF that(2)] by blast
    then have "(\<exists>k < length objs. o_id x = o_id (objs ! k) \<and>
        can_access_path (at k) p b (o_name (objs ! k)) (Some (o_id (objs ! k))) True False) \<longleftrightarrow> x \<in> ?gone"
      if "x \<in> set (w_objects v)" for x
      using that by blast
    then have "filter (\<lambda>x. \<not> (\<exists>k < length objs. o_id x = o_id (objs ! k) \<and>
        can_access_path (at k) p b (o_name (objs ! k)) (Some (o_id (objs ! k))) True False)) (w_objects v) =
      filter (\<lambda>x. x \<notin> ?gone) (w_objects v)"
      by (intro filter_cong [OF refl]) blast
    then have rows: "w_objects w' = filter (\<lambda>x. x \<notin> ?gone) (w_objects v)"
      using turns_gone [OF at(3)] unfolding at(1,2) by simp
    have "?gone \<subseteq> set objs" by auto
    then have same: "old = ?gone" using filter_out_inject [of old "w_objects v" ?gone] old(2,3) rows sub by auto
    have "\<exists>at gone. at 0 = v \<and> at (length objs) = w' \<and>
      (\<forall>k < length objs. turn b p (objs ! k) (at k) (at (Suc k))) \<and>
      gone = {objs ! k | k. k < length objs \<and>
        can_access_path (at k) p b (o_name (objs ! k)) (Some (o_id (objs ! k))) True False} \<and>
      w_objects w' = filter (\<lambda>x. x \<notin> gone) (w_objects v) \<and>
      ((\<forall>g \<in> set (w_grants v). g_object g \<notin> Some ` o_id ` set objs) \<longrightarrow>
        gone = {obj \<in> set objs. can_access_path v p b (o_name obj) (Some (o_id obj)) True False})"
      using at same old(3,4) by (intro exI [of _ at] exI [of _ old] conjI) (fact | blast)+
    then show ?thesis using False del(2) old(1) by simp
  qed
qed

lemma webdav_folder_delete_witness:
  "\<exists>w'. dav_delete s3_env bob None ''company/secret'' private_world = (Inr (204, No_Body), w') \<and>
     sound w' \<and> w_objects w' = [marker_row, secret_file]"
proof -
  let ?run = "dav_delete s3_env bob None ''company/secret'' private_world"
  have ok: "(case ?run of (Inr _, w') \<Rightarrow> w_objects w' = [marker_row, secret_file] | _ \<Rightarrow> False)" by code_simp
  then obtain a w' where run: "?run = (Inr a, w')" and objs: "w_objects w' = [marker_row, secret_file]"
    by (auto split: prod.splits sum.splits)
  have facts: "parse_path ''company/secret'' = (Some ''company'', ''secret'')" "safe_object_path ''secret'' = Inr ''secret''"
    "find_object private_world company_bucket ''secret'' = None"
    by code_simp+
  have "bucket_by_name private_world 7 ''company'' = Some company_bucket" "COMPANY_BUCKET_NAME = ''company''"
    "can_access_bucket private_world bob company_bucket True False" "p_company_id bob = Some 7"
    "b_kind company_bucket = COMPANY_KIND" "\<not> b_public company_bucket" by code_simp+
  then have "get_accessible_bucket bob ''company'' True False private_world = (Inr company_bucket, private_world)"
    by (simp add: get_accessible_bucket_def require_company_id_def ensure_company_bucket_def get_bucket_for_company_def
        assert_can_access_bucket_def run_defs)
  note facts = facts this
  have "marker_row \<in> set (w_objects private_world)" "o_bucket marker_row = b_id company_bucket"
     "prefix (''secret'' @ [slash]) (o_name marker_row)" by (simp_all add: sample_defs)
  then show ?thesis
    using webdav_folder_delete [OF private_world_sound facts(1) _ facts(4,2,3) run] run objs by (auto split: if_splits)
qed

end
