(* ===== verification/Redaction.thy ===== *)
theory Redaction
  imports Py_Values
begin

text \<open>
  \<open>apps/actions/secret_redaction.py\<close>: secret-shaped fields and sign-in URLs are taken out of
  every payload before it is stored or sent. The regular expression \<open>_SIGN_IN_URL\<close> is written
  out: \<open>search\<close> tries every position of the lower-cased text. \<open>clean\<close> is the contract.
\<close>

section \<open>Keys and strings that must not leave the process\<close>

definition SENSITIVE_KEYS :: "string list" where
  "SENSITIVE_KEYS = [''magic_link'', ''magic_link_url'', ''token'', ''raw_token'', ''access_token'',
     ''refresh_token'', ''id_token'', ''setup_token'', ''sign_in_url'', ''sign_in_link'',
     ''signin_url'', ''signin_link'', ''password'', ''passwd'', ''pwd'', ''secret'',
     ''client_secret'', ''api_key'', ''apikey'', ''authorization'', ''authorization_header'',
     ''credential'', ''credentials'', ''private_key'', ''signing_secret'', ''signed_url'',
     ''signedurl'', ''presigned_url'', ''presignedurl'', ''share_token'', ''share_url'']"

definition sensitive_key :: "string \<Rightarrow> bool" where
  "sensitive_key key =
     (let name = map (\<lambda>c. if c = CHR ''-'' then CHR ''_'' else c) (lower (strip key)) in
      name \<in> set SENSITIVE_KEYS \<or> suffix ''_token'' name \<or> suffix ''_tokens'' name \<or>
      suffix ''_secret'' name \<or> suffix ''_password'' name \<or> suffix ''_api_key'' name)"

fun search :: "(string \<Rightarrow> bool) \<Rightarrow> string \<Rightarrow> bool" where
  "search P [] = P []"
| "search P (c # cs) = (P (c # cs) \<or> search P cs)"

text \<open>The alternatives of the pattern at one position of a lower-cased text.\<close>

definition sign_in_path :: "string \<Rightarrow> bool" where
  "sign_in_path s =
     (prefix ''/sign'' s \<and>
      (let r = drop 5 s; t = (if prefix ''-'' r then drop 1 r else r); rest = drop 2 t in
       prefix ''in'' t \<and>
       (rest = [] \<or> rest = [char_of (10 :: nat)] \<or>
        hd rest \<in> {CHR ''/'', CHR ''?'', CHR ''#''})))"

definition name_char :: "char \<Rightarrow> bool" where
  "name_char c = (let n = code_point c in
     97 \<le> n \<and> n \<le> 122 \<or> 48 \<le> n \<and> n \<le> 57 \<or> c = CHR ''_'' \<or> c = CHR ''.'' \<or> c = CHR ''-'')"

definition CREDENTIAL_WORDS :: "string list" where
  "CREDENTIAL_WORDS = [''token'', ''secret'', ''password'', ''apikey'', ''api_key'', ''api-key'',
     ''signature'', ''sig'']"

definition credential_parameter :: "string \<Rightarrow> bool" where
  "credential_parameter s =
     (case s of [] \<Rightarrow> False
      | c # cs \<Rightarrow> c \<in> {CHR ''?'', CHR ''&'', CHR ''#''} \<and>
          prefix ''='' (dropWhile name_char cs) \<and>
          (\<exists>word \<in> set CREDENTIAL_WORDS. suffix word (takeWhile name_char cs)))"

definition SIGN_IN_URL :: "string \<Rightarrow> bool" where
  "SIGN_IN_URL s =
     (prefix ''magic-link'' s \<or> prefix ''magic_link'' s \<or> sign_in_path s \<or>
      prefix ''/share/link/'' s \<or> credential_parameter s \<or>
      prefix ''x-amz-algorithm'' s \<or> prefix ''x-amz-credential'' s \<or>
      prefix ''x-amz-signature'' s \<or> prefix ''x-amz-security-token'' s \<or>
      prefix ''awsaccesskeyid='' s)"

definition sensitive_string :: "string \<Rightarrow> bool" where
  "sensitive_string value =
     (if \<not> search (prefix ''://'') value then False else search SIGN_IN_URL (lower value))"

section \<open>Redaction\<close>

text \<open>\<open>None\<close> is the sentinel \<open>_DROP\<close>.\<close>

fun without_secrets :: "json \<Rightarrow> json option" where
  "without_secrets (JObj kvs) =
     Some (JObj (concat (map (\<lambda>(key, item).
       if sensitive_key key then []
       else (case without_secrets item of None \<Rightarrow> [] | Some kept \<Rightarrow> [(key, kept)])) kvs)))"
| "without_secrets (JList items) =
     Some (JList (concat (map (\<lambda>item.
       case without_secrets item of None \<Rightarrow> [] | Some kept \<Rightarrow> [kept]) items)))"
| "without_secrets (JStr s) = (if sensitive_string s then None else Some (JStr s))"
| "without_secrets v = Some v"

definition redact_secrets :: "json \<Rightarrow> json" where
  "redact_secrets value =
     (case without_secrets value of
        Some cleaned \<Rightarrow> cleaned
      | None \<Rightarrow> (case value of JObj _ \<Rightarrow> JObj [] | JList _ \<Rightarrow> JList [] | _ \<Rightarrow> JStr []))"

text \<open>The payload of an event is a dictionary, and so is what is left of it.\<close>

definition redact_dict :: "dict \<Rightarrow> dict" where
  "redact_dict d = (case redact_secrets (JObj d) of JObj kvs \<Rightarrow> kvs | _ \<Rightarrow> [])"

section \<open>The contract\<close>

fun clean :: "json \<Rightarrow> bool" where
  "clean (JObj kvs) = (\<forall>(key, item) \<in> set kvs. \<not> sensitive_key key \<and> clean item)"
| "clean (JList items) = (\<forall>item \<in> set items. clean item)"
| "clean (JStr s) = (\<not> sensitive_string s)"
| "clean v = True"

lemma without_secrets_clean: "without_secrets v = Some u \<Longrightarrow> clean u"
  by (induction v arbitrary: u rule: without_secrets.induct)
    (fastforce split: option.splits if_splits)+

lemma concat_singletons: "(\<And>x. x \<in> set xs \<Longrightarrow> f x = [x]) \<Longrightarrow> concat (map f xs) = xs"
  by (induction xs) auto

lemma clean_without_secrets: "clean v \<Longrightarrow> without_secrets v = Some v"
proof (induction v rule: without_secrets.induct)
  case (1 kvs)
  have "concat (map (\<lambda>(key, item). if sensitive_key key then []
       else (case without_secrets item of None \<Rightarrow> [] | Some kept \<Rightarrow> [(key, kept)])) kvs) = kvs"
  proof (rule concat_singletons)
    fix kv assume kv: "kv \<in> set kvs"
    obtain key item where [simp]: "kv = (key, item)" by fastforce
    have ok: "\<not> sensitive_key key" "clean item" using 1(2) kv by auto
    have "without_secrets item = Some item" by (rule 1(1) [OF kv _ ok]) simp
    then show "(case kv of (key, item) \<Rightarrow> if sensitive_key key then []
       else (case without_secrets item of None \<Rightarrow> [] | Some kept \<Rightarrow> [(key, kept)])) = [kv]"
      using ok by simp
  qed
  then show ?case by simp
next
  case (2 items)
  have "concat (map (\<lambda>item. case without_secrets item of None \<Rightarrow> [] | Some kept \<Rightarrow> [kept]) items) = items"
    using 2 by (intro concat_singletons) auto
  then show ?case by simp
qed auto

lemma redact_secrets_dict: "redact_secrets (JObj kvs) = JObj (redact_dict kvs)"
  by (simp add: redact_dict_def redact_secrets_def)

lemma redact_dict_field:
  "(key, kept) \<in> set (redact_dict kvs) \<longleftrightarrow>
     (\<exists>item. (key, item) \<in> set kvs \<and> \<not> sensitive_key key \<and> without_secrets item = Some kept)"
  by (force simp: redact_dict_def redact_secrets_def split: option.splits if_splits)

lemma sensitive_string_empty [simp]: "\<not> sensitive_string []"
  by (simp add: sensitive_string_def)

text \<open>
  C19. What \<open>redact_secrets\<close> returns has no secret-shaped key and no sign-in or credential URL
  at any depth, and the payloads it leaves alone are exactly those that had none.
\<close>

theorem redaction_complete:
  "clean (redact_secrets v) \<and> (redact_secrets v = v \<longleftrightarrow> clean v)"
proof -
  have result: "clean (redact_secrets v)"
  proof (cases "without_secrets v")
    case None
    then show ?thesis by (cases v) (auto simp: redact_secrets_def)
  next
    case (Some u)
    then show ?thesis using without_secrets_clean by (simp add: redact_secrets_def)
  qed
  have "redact_secrets v = v" if "clean v"
    using clean_without_secrets [OF that] by (simp add: redact_secrets_def)
  then show ?thesis using result by metis
qed

end
