(* ===== verification/Outbox.thy ===== *)
theory Outbox
  imports Webhook_Signing Webhook_Url Redaction
begin

text \<open>
  The data of the actions app (\<open>apps/actions/models.py\<close>) and its settings. A rule says which
  events of a company are posted where, an outbox row is one delivery, an attempt one try of it.
  \<open>post\<close> is the connection of \<open>http.client\<close>: it answers with a status, the excerpt of the
  response and the Retry-After header, or raises \<open>OSError\<close> or another exception; what it is
  given is the endpoint, the body and the headers. Durations of attempts are left out.
\<close>

datatype OutboxStatus = PENDING | DELIVERED | FAILED | DEAD
datatype DeliveryKind = KIND_WEBHOOK | KIND_EMAIL
datatype Trigger = TRIGGER_DISPATCH | TRIGGER_AUTOMATIC_RETRY

record action_rule =
  r_id :: int
  r_company_id :: int
  r_name :: string
  r_description :: string
  r_event_type :: string
  r_enabled :: bool
  r_action_kind :: string
  r_config :: dict
  r_created_at :: int
  r_updated_at :: int

record outbox_row =
  ob_id :: uuid
  ob_company_id :: int
  ob_action_rule :: "int option"
  ob_delivery_kind :: DeliveryKind
  ob_event_type :: string
  ob_envelope :: json
  ob_status :: OutboxStatus
  ob_attempt_count :: nat
  ob_next_attempt_at :: "int option"
  ob_locked_until :: "int option"
  ob_last_error :: string
  ob_created_at :: int
  ob_updated_at :: int
  ob_delivered_at :: "int option"

record delivery_attempt =
  at_outbox :: uuid
  at_success :: bool
  at_http_status :: "int option"
  at_error_message :: string
  at_attempt_number :: nat
  at_trigger :: Trigger
  at_scheduled_job_run_id :: "int option"
  at_created_at :: int

record event_log =
  ev_id :: int
  ev_company_id :: "int option"
  ev_user_id :: "int option"
  ev_event_type :: string
  ev_data :: dict
  ev_created_at :: int

record actions =
  a_rules :: "action_rule list"
  a_outbox :: "outbox_row list"
  a_attempts :: "delivery_attempt list"
  a_log :: "event_log list"
  a_clock :: int
  a_next_uuid :: uuid
  a_next_id :: int

text \<open>A row that does not exist, or an exception no handler of the source catches.\<close>

datatype aexn = RowDoesNotExist | Uncaught string

type_synonym 'a job = "(actions, aexn, 'a) prog"

section \<open>Settings and the network\<close>

datatype http_outcome =
    Response int string "string option"
  | OSErr string
  | OtherExc string

record actions_settings =
  ACTIONS_OUTBOX_MAX_ATTEMPTS :: nat
  ACTIONS_WEBHOOK_RETRY_LEASE_SECONDS :: int
  ACTIONS_WEBHOOK_ALLOW_PRIVATE :: bool
  EMAIL_SERVICE_API_KEY :: string
  EMAIL_SERVICE_URL :: string
  EMAIL_SERVICE_ALLOW_PRIVATE :: bool
  EVENT_LOG_RETENTION_DAYS :: int
  request_id :: string
  getaddrinfo :: resolver
  hmac_sha256 :: "bytes \<Rightarrow> bytes \<Rightarrow> bytes"
  parsedate_to_utc :: "string \<Rightarrow> int option"
  json_loads :: "string \<Rightarrow> json option"
  post :: "ResolvedWebhookEndpoint \<Rightarrow> bytes \<Rightarrow> (string \<times> string) list \<Rightarrow> http_outcome"

section \<open>Rows\<close>

definition rule_by_id :: "actions \<Rightarrow> int \<Rightarrow> action_rule option" where
  "rule_by_id s i = first_where (\<lambda>r. r_id r = i) (a_rules s)"

definition outbox_by_id :: "actions \<Rightarrow> uuid \<Rightarrow> outbox_row option" where
  "outbox_by_id s i = first_where (\<lambda>r. ob_id r = i) (a_outbox s)"

definition update_outbox :: "uuid \<Rightarrow> (outbox_row \<Rightarrow> outbox_row) \<Rightarrow> unit job" where
  "update_outbox i f = modify (\<lambda>s. s\<lparr>a_outbox := update_where (\<lambda>r. ob_id r = i) f (a_outbox s)\<rparr>)"

definition insert_attempt :: "delivery_attempt \<Rightarrow> unit job" where
  "insert_attempt a = modify (\<lambda>s. s\<lparr>a_attempts := a_attempts s @ [a]\<rparr>)"

definition insert_outbox :: "outbox_row \<Rightarrow> outbox_row job" where
  "insert_outbox row s = (Inr row, s\<lparr>a_outbox := a_outbox s @ [row]\<rparr>)"

definition draw_uuid :: "uuid job" where
  "draw_uuid s = (Inr (a_next_uuid s), s\<lparr>a_next_uuid := Suc (a_next_uuid s)\<rparr>)"

text \<open>Deleting an outbox row deletes its attempts; deleting a rule deletes its outbox rows.\<close>

definition delete_outbox :: "(outbox_row \<Rightarrow> bool) \<Rightarrow> actions \<Rightarrow> actions" where
  "delete_outbox P s =
     (let gone = ob_id ` set (filter P (a_outbox s)) in
      s\<lparr>a_outbox := delete_where P (a_outbox s),
        a_attempts := delete_where (\<lambda>a. at_outbox a \<in> gone) (a_attempts s)\<rparr>)"

definition delete_rules :: "(action_rule \<Rightarrow> bool) \<Rightarrow> actions \<Rightarrow> actions" where
  "delete_rules P s =
     (let gone = r_id ` set (filter P (a_rules s)) in
      delete_outbox (\<lambda>r. ob_action_rule r \<in> Some ` gone) (s\<lparr>a_rules := delete_where P (a_rules s)\<rparr>))"

text \<open>A delivery and its rule belong to the same company.\<close>

definition rules_local :: "actions \<Rightarrow> bool" where
  "rules_local s \<longleftrightarrow> (\<forall>row \<in> set (a_outbox s). \<forall>r \<in> set (a_rules s).
     ob_action_rule row = Some (r_id r) \<longrightarrow> r_company_id r = ob_company_id row)"

section \<open>A sample deployment\<close>

definition sample_cfg :: actions_settings where
  "sample_cfg = \<lparr>ACTIONS_OUTBOX_MAX_ATTEMPTS = 8, ACTIONS_WEBHOOK_RETRY_LEASE_SECONDS = 120,
     ACTIONS_WEBHOOK_ALLOW_PRIVATE = False, EMAIL_SERVICE_API_KEY = ''esk_k'', EMAIL_SERVICE_URL = [],
     EMAIL_SERVICE_ALLOW_PRIVATE = False, EVENT_LOG_RETENTION_DAYS = 30, request_id = [],
     getaddrinfo = sample_resolver, hmac_sha256 = (\<lambda>key text. key), parsedate_to_utc = (\<lambda>s. None),
     json_loads = (\<lambda>s. None), post = (\<lambda>endpoint body headers. Response 500 [] None)\<rparr>"

definition empty_actions :: actions where
  "empty_actions = \<lparr>a_rules = [], a_outbox = [], a_attempts = [], a_log = [], a_clock = 1000,
     a_next_uuid = 1, a_next_id = 1\<rparr>"

end
