(* ===== verification/Webhook_Post.thy ===== *)
theory Webhook_Post
  imports Outbox
begin

text \<open>
  One HTTP delivery: the retry table and Retry-After of \<open>apps/actions/webhook_retry.py\<close>, the
  transport of \<open>apps/actions/webhook_transport.py\<close>, the webhook handler of
  \<open>apps/actions/handlers/webhook.py\<close> and the email client of \<open>apps/actions/email_service.py\<close>.
\<close>

section \<open>The retry table\<close>

definition PERMANENT_HTTP_STATUSES :: "int list" where
  "PERMANENT_HTTP_STATUSES = [400, 401, 403, 405, 410, 413, 422]"

definition RETRYABLE_HTTP_STATUSES :: "int list" where
  "RETRYABLE_HTTP_STATUSES = [404, 408, 409, 425, 429]"

definition MAX_BACKOFF_SECONDS :: int where
  "MAX_BACKOFF_SECONDS = 3600"

definition is_permanent_http_status :: "int option \<Rightarrow> bool" where
  "is_permanent_http_status code =
     (case code of None \<Rightarrow> False
      | Some c \<Rightarrow>
          if c \<in> set PERMANENT_HTTP_STATUSES then True
          else if c \<in> set RETRYABLE_HTTP_STATUSES then False
          else if 500 \<le> c \<and> c < 600 then False
          else if 400 \<le> c \<and> c < 500 then False
          else False)"

text \<open>
  \<open>Inl ()\<close> is the \<open>ValueError\<close> of \<open>int(raw)\<close>: superscript digits pass \<open>isdigit\<close>, and a number
  of more than 4300 digits is refused.
\<close>

definition parse_retry_after_header ::
  "actions_settings \<Rightarrow> int \<Rightarrow> string option \<Rightarrow> unit + int option" where
  "parse_retry_after_header cfg now value =
     (case value of None \<Rightarrow> Inr None
      | Some v \<Rightarrow>
          let raw = strip v in
          if raw = [] then Inr None
          else if str_isdigit raw
          then (if 4300 < length raw then Inl ()
                else (case py_int 10 raw of None \<Rightarrow> Inl ()
                  | Some seconds \<Rightarrow> Inr (if 0 \<le> seconds then Some (max 0 seconds) else None)))
          else (case parsedate_to_utc cfg raw of None \<Rightarrow> Inr None
            | Some target \<Rightarrow> Inr (Some (if target < now then 0 else (target - now) div 1000000))))"

definition compute_retry_delay_seconds :: "nat \<Rightarrow> int option \<Rightarrow> int option \<Rightarrow> int \<Rightarrow> int" where
  "compute_retry_delay_seconds attempt_number http_status retry_after_seconds base_backoff_seconds =
     (let delay =
        (if http_status \<in> {Some 429, Some 503}
         then (case retry_after_seconds of None \<Rightarrow> base_backoff_seconds
               | Some s \<Rightarrow> max base_backoff_seconds s)
         else base_backoff_seconds) in
      min MAX_BACKOFF_SECONDS (max 1 delay))"

section \<open>Posting to a resolved endpoint\<close>

text \<open>The exceptions of a post: \<open>WebhookHTTPError\<close>, \<open>OSError\<close>, and any other.\<close>

datatype post_error =
    WebhookHTTPError string "int option" string "int option" bool
  | PostOSError string
  | PostOther string

record WebhookPostResult =
  pr_status :: int
  pr_excerpt :: string
  pr_retry_after_seconds :: "int option"

fun set_header :: "string \<Rightarrow> string \<Rightarrow> (string \<times> string) list \<Rightarrow> (string \<times> string) list" where
  "set_header k v [] = [(k, v)]"
| "set_header k v ((x, y) # hs) = (if x = k then (k, v) # hs else (x, y) # set_header k v hs)"

definition post_resolved_webhook ::
  "actions_settings \<Rightarrow> int \<Rightarrow> ResolvedWebhookEndpoint \<Rightarrow> bytes \<Rightarrow> (string \<times> string) list
     \<Rightarrow> post_error + WebhookPostResult" where
  "post_resolved_webhook cfg now endpoint body headers =
     (case post cfg endpoint body (set_header ''Host'' (ep_host_header endpoint) headers) of
        OSErr msg \<Rightarrow> Inl (PostOSError msg)
      | OtherExc msg \<Rightarrow> Inl (PostOther msg)
      | Response status excerpt retry_raw \<Rightarrow>
          (case parse_retry_after_header cfg now retry_raw of
             Inl _ \<Rightarrow> Inl (PostOther [])
           | Inr retry_after \<Rightarrow> Inr \<lparr>pr_status = status, pr_excerpt = excerpt,
               pr_retry_after_seconds = retry_after\<rparr>))"

definition post_webhook_url ::
  "actions_settings \<Rightarrow> int \<Rightarrow> string \<Rightarrow> bytes \<Rightarrow> (string \<times> string) list \<Rightarrow> bool
     \<Rightarrow> post_error + WebhookPostResult" where
  "post_webhook_url cfg now url body headers allow_private =
     (case resolve_webhook_endpoint (getaddrinfo cfg) url allow_private of
        Inl SSRFError \<Rightarrow> Inl (WebhookHTTPError ''Webhook URL refused.'' None [] None True)
      | Inl UrlValueError \<Rightarrow> Inl (PostOther [])
      | Inr endpoint \<Rightarrow> post_resolved_webhook cfg now endpoint body headers)"

section \<open>Webhooks\<close>

text \<open>\<open>Inl\<close> is \<open>WebhookDeliveryError\<close> or (\<open>OtherDeliveryError\<close>) an exception it does not wrap.\<close>

datatype delivery_error =
    WebhookDeliveryError string "int option" string bool "int option"
  | OtherDeliveryError string

definition allow_private_webhook_urls :: "actions_settings \<Rightarrow> dict \<Rightarrow> bool" where
  "allow_private_webhook_urls cfg config =
     (if ACTIONS_WEBHOOK_ALLOW_PRIVATE cfg then True
      else (case map_of config ''allow_private_urls'' of None \<Rightarrow> False | Some v \<Rightarrow> truthy v))"

text \<open>\<open>(config.get(k) or '').strip()\<close>; a value that is not text has no \<open>strip\<close>.\<close>

definition config_text :: "dict \<Rightarrow> string \<Rightarrow> delivery_error + string" where
  "config_text config k =
     (case map_of config k of None \<Rightarrow> Inr []
      | Some v \<Rightarrow> if \<not> truthy v then Inr []
          else (case v of JStr s \<Rightarrow> Inr (strip s) | _ \<Rightarrow> Inl (OtherDeliveryError [])))"

definition webhook_headers ::
  "actions_settings \<Rightarrow> nat \<Rightarrow> string \<Rightarrow> (string \<times> string) list \<Rightarrow> string \<Rightarrow> (string \<times> string) list" where
  "webhook_headers cfg attempt_number event_type signature auth_header =
     [(''Content-Type'', ''application/json; charset=utf-8''),
      (''User-Agent'', ''shellui-storage-actions/1.0''),
      (''X-Shellui-Event'', event_type),
      (''X-Shellui-Delivery-Attempt'', str_int (max 1 (int attempt_number)))] @ signature @
     (if request_id cfg \<noteq> [] \<and> request_id cfg \<noteq> ''-'' then [(''X-Request-ID'', request_id cfg)] else []) @
     (if auth_header \<noteq> [] then [(''Authorization'', auth_header)] else [])"

definition webhook_result :: "post_error + WebhookPostResult \<Rightarrow> delivery_error + unit" where
  "webhook_result r =
     (case r of
        Inl (WebhookHTTPError msg status excerpt retry_after permanent) \<Rightarrow>
          Inl (WebhookDeliveryError msg status excerpt
            (permanent \<or> is_permanent_http_status status) retry_after)
      | Inl (PostOSError msg) \<Rightarrow> Inl (WebhookDeliveryError msg None [] False None)
      | Inl (PostOther msg) \<Rightarrow> Inl (OtherDeliveryError msg)
      | Inr result \<Rightarrow>
          if 400 \<le> pr_status result
          then Inl (WebhookDeliveryError (''Webhook returned HTTP '' @ str_int (pr_status result))
            (Some (pr_status result)) (pr_excerpt result)
            (is_permanent_http_status (Some (pr_status result))) (pr_retry_after_seconds result))
          else Inr ())"

text \<open>The id and type of an envelope are the strings \<open>build_envelope\<close> wrote.\<close>

definition deliver_webhook_action ::
  "actions_settings \<Rightarrow> int \<Rightarrow> dict \<Rightarrow> json \<Rightarrow> nat \<Rightarrow> delivery_error + unit" where
  "deliver_webhook_action cfg now config envelope attempt_number =
     (case config_text config ''url'' of Inl e \<Rightarrow> Inl e
      | Inr url \<Rightarrow>
      if url = [] then Inl (WebhookDeliveryError ''Webhook URL is not configured.'' None [] True None)
      else (case config_text config ''secret'' of Inl e \<Rightarrow> Inl e
      | Inr secret \<Rightarrow>
      if secret = [] then Inl (WebhookDeliveryError ''Webhook signing secret is not configured.'' None [] True None)
      else (case envelope of JObj pairs \<Rightarrow>
        (let webhook_id = get_or pairs ''id'' [] in
         if webhook_id = [] then Inl (WebhookDeliveryError ''Envelope id is required for webhook delivery.'' None [] True None)
         else
           let body = encode_webhook_envelope pairs in
           (case sign_webhook_body (hmac_sha256 cfg) now secret body webhook_id of
              Inl _ \<Rightarrow> Inl (OtherDeliveryError [])
            | Inr signature \<Rightarrow>
                (case config_text config ''authorization_header'' of Inl e \<Rightarrow> Inl e
                 | Inr auth_header \<Rightarrow>
                     webhook_result (post_webhook_url cfg now url body
                       (webhook_headers cfg attempt_number (get_or pairs ''type'' []) signature auth_header)
                       (allow_private_webhook_urls cfg config)))))
        | _ \<Rightarrow> Inl (OtherDeliveryError []))))"

section \<open>What an attempt reports\<close>

record attempt_meta =
  m_http_status :: "int option"
  m_response_excerpt :: string
  m_error_message :: string
  m_permanent :: bool
  m_retry_after_seconds :: "int option"

definition perform_http_delivery ::
  "actions_settings \<Rightarrow> int \<Rightarrow> action_rule \<Rightarrow> json \<Rightarrow> nat \<Rightarrow> bool \<times> attempt_meta" where
  "perform_http_delivery cfg now rule envelope attempt_number =
     (case deliver_webhook_action cfg now (r_config rule) envelope attempt_number of
        Inr _ \<Rightarrow> (True, \<lparr>m_http_status = None, m_response_excerpt = [], m_error_message = [],
          m_permanent = False, m_retry_after_seconds = None\<rparr>)
      | Inl (WebhookDeliveryError msg status excerpt permanent retry_after) \<Rightarrow>
          (False, \<lparr>m_http_status = status, m_response_excerpt = excerpt, m_error_message = msg,
            m_permanent = permanent, m_retry_after_seconds = retry_after\<rparr>)
      | Inl (OtherDeliveryError msg) \<Rightarrow>
          (False, \<lparr>m_http_status = None, m_response_excerpt = [],
            m_error_message = (if msg = [] then ''Exception'' else msg),
            m_permanent = False, m_retry_after_seconds = None\<rparr>))"

section \<open>Email events\<close>

definition email_service_api_key :: "actions_settings \<Rightarrow> string" where
  "email_service_api_key cfg = strip (EMAIL_SERVICE_API_KEY cfg)"

definition email_service_configured :: "actions_settings \<Rightarrow> bool" where
  "email_service_configured cfg = prefix ''esk_'' (email_service_api_key cfg)"

definition email_events_url :: "actions_settings \<Rightarrow> string" where
  "email_events_url cfg =
     (let raw = rev (dropWhile (\<lambda>c. c = slash) (rev (strip (EMAIL_SERVICE_URL cfg)))) in
      (if raw = [] then ''https://email.shellui.com'' else raw) @ ''/api/v1/events'')"

definition redact_email_service_secret :: "actions_settings \<Rightarrow> string \<Rightarrow> string" where
  "redact_email_service_secret cfg value =
     (let key = email_service_api_key cfg in
      if key = [] \<or> \<not> search (prefix key) value then value
      else replace_all key ''[redacted]'' value)"

definition email_failure_is_permanent :: "int option \<Rightarrow> bool" where
  "email_failure_is_permanent status =
     (if (case status of None \<Rightarrow> False | Some c \<Rightarrow> 200 \<le> c \<and> c < 300) then False
      else is_permanent_http_status status)"

definition error_code_from_excerpt :: "actions_settings \<Rightarrow> string \<Rightarrow> string" where
  "error_code_from_excerpt cfg excerpt =
     (case json_loads cfg excerpt of
        Some (JObj payload) \<Rightarrow> get_or payload ''error_code'' []
      | _ \<Rightarrow> [])"

definition failure_message :: "int option \<Rightarrow> string \<Rightarrow> string \<Rightarrow> string" where
  "failure_message status error_code detail =
     (case status of
        None \<Rightarrow> ''Email event request failed'' @ (if detail = [] then [] else '' ('' @ detail @ '')'') @ ''.''
      | Some c \<Rightarrow> ''Email event was not accepted (HTTP '' @ str_int c @
          (if error_code = [] then [] else '', '' @ error_code) @ '').'')"

definition email_service_error_message :: "actions_settings \<Rightarrow> string \<Rightarrow> string" where
  "email_service_error_message cfg msg =
     (let message = redact_email_service_secret cfg msg in
      if prefix ''Webhook URL'' message then ''Email service URL'' @ drop 11 message else message)"

definition email_meta ::
  "actions_settings \<Rightarrow> int option \<Rightarrow> string \<Rightarrow> bool \<Rightarrow> int option \<Rightarrow> attempt_meta" where
  "email_meta cfg status msg permanent retry_after =
     \<lparr>m_http_status = status, m_response_excerpt = [],
      m_error_message = redact_email_service_secret cfg msg, m_permanent = permanent,
      m_retry_after_seconds = retry_after\<rparr>"

definition email_headers :: "actions_settings \<Rightarrow> (string \<times> string) list" where
  "email_headers cfg =
     [(''Authorization'', ''Bearer '' @ email_service_api_key cfg),
      (''Content-Type'', ''application/json; charset=utf-8''), (''Accept'', ''application/json''),
      (''User-Agent'', ''shellui-storage-service/1.0'')] @
     (if request_id cfg \<noteq> [] \<and> request_id cfg \<noteq> ''-'' then [(''X-Request-ID'', request_id cfg)] else [])"

definition only_throttled :: "int option \<Rightarrow> int option \<Rightarrow> int option" where
  "only_throttled status retry_after = (if status \<in> {Some 429, Some 503} then retry_after else None)"

text \<open>\<open>Inl\<close> is an exception \<open>deliver_email_event\<close> does not catch.\<close>

definition deliver_email_event :: "actions_settings \<Rightarrow> int \<Rightarrow> dict \<Rightarrow> aexn + (bool \<times> attempt_meta)" where
  "deliver_email_event cfg now body =
     (if \<not> prefix ''esk_'' (email_service_api_key cfg)
      then Inr (False, email_meta cfg None ''Email service is not configured.'' True None)
      else
        case post_webhook_url cfg now (email_events_url cfg) (encode_webhook_envelope body)
          (email_headers cfg) (EMAIL_SERVICE_ALLOW_PRIVATE cfg) of
          Inl (WebhookHTTPError msg status excerpt retry_after permanent) \<Rightarrow>
            Inr (False, email_meta cfg status (email_service_error_message cfg msg)
              (permanent \<or> email_failure_is_permanent status) (only_throttled status retry_after))
        | Inl (PostOSError msg) \<Rightarrow>
            Inr (False, email_meta cfg None
              (failure_message None [] (redact_email_service_secret cfg
                (if msg = [] then ''OSError'' else msg))) False None)
        | Inl (PostOther msg) \<Rightarrow> Inl (Uncaught msg)
        | Inr result \<Rightarrow>
            (let status = pr_status result in
             if 200 \<le> status \<and> status < 300 then Inr (True, email_meta cfg (Some status) [] False None)
             else Inr (False, email_meta cfg (Some status)
               (failure_message (Some status) (error_code_from_excerpt cfg (pr_excerpt result)) [])
               (email_failure_is_permanent (Some status))
               (only_throttled (Some status) (pr_retry_after_seconds result)))))"

end
