(* ===== verification/Delivery.thy ===== *)
theory Delivery
  imports Webhook_Post
begin

text \<open>
  \<open>apps/actions/delivery.py\<close>: one attempt of an outbox row in two transactions with the HTTP
  call between them, the claim of the next due row, and the retry run.
  \<open>begin_delivery\<close> is the first transaction, \<open>complete_delivery\<close> the second;
  \<open>deliver_outbox_row\<close> puts them together.
\<close>

section \<open>Backoff\<close>

definition backoff_seconds :: "nat \<Rightarrow> int" where
  "backoff_seconds attempt_number = min 3600 (30 * 2 ^ (attempt_number - 1))"

section \<open>Recording an attempt\<close>

definition join_bar :: "string list \<Rightarrow> string" where
  "join_bar = join_with '' | ''"

definition format_attempt_error :: "string \<Rightarrow> int option \<Rightarrow> string \<Rightarrow> string" where
  "format_attempt_error error_message http_status response_excerpt =
     join_bar ([if strip error_message = [] then ''Delivery failed.'' else strip error_message] @
       (case http_status of None \<Rightarrow> [] | Some c \<Rightarrow> [''HTTP '' @ str_int c]) @
       (if response_excerpt = [] then [] else [''body: '' @ take 512 response_excerpt]))"

definition load_rule_for_delivery :: "actions \<Rightarrow> outbox_row \<Rightarrow> string + action_rule" where
  "load_rule_for_delivery s row =
     (case ob_action_rule row of
        None \<Rightarrow> Inl ''Action rule deleted.''
      | Some i \<Rightarrow>
          (case rule_by_id s i of
             None \<Rightarrow> Inl ''Action rule deleted.''
           | Some rule \<Rightarrow>
               if \<not> r_enabled rule then Inl ''Action rule disabled.''
               else if r_action_kind rule \<noteq> ''webhook'' then Inl ''Unsupported action kind (webhook only).''
               else Inr rule))"

text \<open>The outcome of an attempt: a terminal error before any HTTP call, or what the call gave.\<close>

datatype attempt_outcome = Terminal string | Attempted bool attempt_meta

definition attempt_success :: "attempt_outcome \<Rightarrow> bool" where
  "attempt_success out = (case out of Terminal _ \<Rightarrow> False | Attempted success _ \<Rightarrow> success)"

definition attempt_status :: "attempt_outcome \<Rightarrow> int option" where
  "attempt_status out = (case out of Terminal _ \<Rightarrow> None | Attempted _ meta \<Rightarrow> m_http_status meta)"

definition attempt_permanent :: "attempt_outcome \<Rightarrow> bool" where
  "attempt_permanent out = (case out of Terminal _ \<Rightarrow> True | Attempted _ meta \<Rightarrow> m_permanent meta)"

definition attempt_error :: "actions_settings \<Rightarrow> attempt_outcome \<Rightarrow> string" where
  "attempt_error cfg out = redact_email_service_secret cfg
     (case out of Terminal e \<Rightarrow> e
      | Attempted _ meta \<Rightarrow>
          format_attempt_error (m_error_message meta) (m_http_status meta) (m_response_excerpt meta))"

definition attempt_retry_after :: "attempt_outcome \<Rightarrow> int option" where
  "attempt_retry_after out = (case out of Terminal _ \<Rightarrow> None | Attempted _ meta \<Rightarrow> m_retry_after_seconds meta)"

text \<open>The row after an attempt, at time \<open>now\<close>.\<close>

definition row_after_attempt ::
  "actions_settings \<Rightarrow> int \<Rightarrow> attempt_outcome \<Rightarrow> outbox_row \<Rightarrow> outbox_row" where
  "row_after_attempt cfg now out row =
     (let attempt_number = Suc (ob_attempt_count row);
          row1 = row\<lparr>ob_attempt_count := attempt_number, ob_locked_until := None,
            ob_updated_at := now\<rparr> in
      if attempt_success out
      then row1\<lparr>ob_status := DELIVERED, ob_delivered_at := Some now, ob_last_error := [],
             ob_next_attempt_at := None\<rparr>
      else if attempt_permanent out \<or> ACTIONS_OUTBOX_MAX_ATTEMPTS cfg \<le> attempt_number
      then row1\<lparr>ob_status := DEAD, ob_last_error := attempt_error cfg out, ob_next_attempt_at := None\<rparr>
      else row1\<lparr>ob_status := FAILED, ob_last_error := attempt_error cfg out,
             ob_next_attempt_at := Some (now + 1000000 *
               compute_retry_delay_seconds attempt_number (attempt_status out) (attempt_retry_after out)
                 (backoff_seconds attempt_number))\<rparr>)"

definition attempt_record ::
  "actions_settings \<Rightarrow> int \<Rightarrow> attempt_outcome \<Rightarrow> Trigger \<Rightarrow> int option \<Rightarrow> outbox_row \<Rightarrow> delivery_attempt" where
  "attempt_record cfg now out trigger run row =
     \<lparr>at_outbox = ob_id row, at_success = attempt_success out, at_http_status = attempt_status out,
      at_error_message = (if attempt_success out then [] else attempt_error cfg out),
      at_attempt_number = Suc (ob_attempt_count row), at_trigger = trigger,
      at_scheduled_job_run_id = run, at_created_at = now\<rparr>"

definition apply_delivery_result ::
  "actions_settings \<Rightarrow> attempt_outcome \<Rightarrow> Trigger \<Rightarrow> int option \<Rightarrow> outbox_row \<Rightarrow> outbox_row job" where
  "apply_delivery_result cfg out trigger run row =
     bindE (gets a_clock) (\<lambda>now.
     seqE (insert_attempt (attempt_record cfg now out trigger run row))
    (seqE (update_outbox (ob_id row) (\<lambda>_. row_after_attempt cfg now out row))
          (ret (row_after_attempt cfg now out row))))"

section \<open>The two transactions of a delivery\<close>

text \<open>What the first transaction finds: nothing to do, or work with the attempt count it saw.\<close>

datatype delivery_work =
    NoRow
  | Finished outbox_row
  | TerminalWork string nat
  | EmailWork dict nat
  | WebhookWork action_rule json nat

definition email_event_body :: "outbox_row \<Rightarrow> dict option" where
  "email_event_body row =
     (if ob_delivery_kind row \<noteq> KIND_EMAIL then None
      else (case ob_envelope row of JObj body \<Rightarrow> Some body | _ \<Rightarrow> None))"

definition begin_delivery :: "actions_settings \<Rightarrow> uuid \<Rightarrow> actions \<Rightarrow> delivery_work" where
  "begin_delivery cfg outbox_id s =
     (case outbox_by_id s outbox_id of
        None \<Rightarrow> NoRow
      | Some row \<Rightarrow>
          if ob_status row = DELIVERED then Finished row
          else if ob_status row = DEAD then Finished row
          else (case email_event_body row of
              Some body \<Rightarrow>
                if email_service_configured cfg then EmailWork body (ob_attempt_count row)
                else TerminalWork ''Email service is not configured.'' (ob_attempt_count row)
            | None \<Rightarrow>
                (case load_rule_for_delivery s row of
                   Inl e \<Rightarrow> TerminalWork e (ob_attempt_count row)
                 | Inr rule \<Rightarrow> WebhookWork rule (ob_envelope row) (ob_attempt_count row))))"

definition complete_delivery ::
  "actions_settings \<Rightarrow> uuid \<Rightarrow> nat \<Rightarrow> attempt_outcome \<Rightarrow> Trigger \<Rightarrow> int option \<Rightarrow> outbox_row job" where
  "complete_delivery cfg outbox_id snapshot_attempt out trigger run =
     bindE (gets (\<lambda>s. outbox_by_id s outbox_id)) (\<lambda>found. case found of
         None \<Rightarrow> throw RowDoesNotExist
       | Some row \<Rightarrow>
           if ob_attempt_count row \<noteq> snapshot_attempt then ret row
           else apply_delivery_result cfg out trigger run row)"

definition deliver_outbox_row ::
  "actions_settings \<Rightarrow> uuid \<Rightarrow> Trigger \<Rightarrow> int option \<Rightarrow> outbox_row option job" where
  "deliver_outbox_row cfg outbox_id trigger run =
     bindE (gets (begin_delivery cfg outbox_id)) (\<lambda>work.
     bindE (gets a_clock) (\<lambda>now. case work of
         NoRow \<Rightarrow> ret None
       | Finished row \<Rightarrow> ret (Some row)
       | TerminalWork e n \<Rightarrow>
           bindE (complete_delivery cfg outbox_id n (Terminal e) trigger run) (\<lambda>row. ret (Some row))
       | EmailWork body n \<Rightarrow>
           bindE (lift_sum (deliver_email_event cfg now body)) (\<lambda>result.
           bindE (complete_delivery cfg outbox_id n (Attempted (fst result) (snd result)) trigger run)
             (\<lambda>row. ret (Some row)))
       | WebhookWork rule envelope n \<Rightarrow>
           (let result = perform_http_delivery cfg now rule envelope (Suc n) in
            bindE (complete_delivery cfg outbox_id n (Attempted (fst result) (snd result)) trigger run)
              (\<lambda>row. ret (Some row)))))"

text \<open>After the commit: every row once, an exception of one leaves the others alone.\<close>

definition safe_deliver_outbox_row :: "actions_settings \<Rightarrow> uuid \<Rightarrow> unit job" where
  "safe_deliver_outbox_row cfg outbox_id =
     catchE (bindE (deliver_outbox_row cfg outbox_id TRIGGER_DISPATCH None) (\<lambda>_. ret ())) (\<lambda>_. ret ())"

definition dispatch_outbox :: "actions_settings \<Rightarrow> uuid list \<Rightarrow> unit job" where
  "dispatch_outbox cfg outbox_ids = forE outbox_ids (safe_deliver_outbox_row cfg)"

section \<open>The retry run\<close>

definition pending_outbox :: "int \<Rightarrow> outbox_row \<Rightarrow> bool" where
  "pending_outbox now row \<longleftrightarrow>
     ob_status row \<in> {PENDING, FAILED} \<and>
     (case ob_next_attempt_at row of None \<Rightarrow> True | Some t \<Rightarrow> t \<le> now) \<and>
     (case ob_locked_until row of None \<Rightarrow> True | Some t \<Rightarrow> t \<le> now)"

text \<open>\<open>order_by('next_attempt_at', 'created_at')\<close>: PostgreSQL puts NULL last.\<close>

definition due_before :: "outbox_row \<Rightarrow> outbox_row \<Rightarrow> bool" where
  "due_before a b =
     (case (ob_next_attempt_at a, ob_next_attempt_at b) of
        (Some t, Some u) \<Rightarrow> t < u \<or> t = u \<and> ob_created_at a < ob_created_at b
      | (Some _, None) \<Rightarrow> True
      | (None, Some _) \<Rightarrow> False
      | (None, None) \<Rightarrow> ob_created_at a < ob_created_at b)"

fun earliest :: "outbox_row list \<Rightarrow> outbox_row option" where
  "earliest [] = None"
| "earliest (r # rs) =
     (case earliest rs of None \<Rightarrow> Some r | Some x \<Rightarrow> if due_before x r then Some x else Some r)"

definition claim_next_pending_outbox :: "actions_settings \<Rightarrow> int \<Rightarrow> outbox_row option job" where
  "claim_next_pending_outbox cfg now =
     bindE (gets (\<lambda>s. earliest (filter (pending_outbox now) (a_outbox s)))) (\<lambda>found. case found of
         None \<Rightarrow> ret None
       | Some row \<Rightarrow>
           bindE (gets a_clock) (\<lambda>clock.
           let claimed = row\<lparr>ob_locked_until := Some (now + 1000000 * ACTIONS_WEBHOOK_RETRY_LEASE_SECONDS cfg),
                 ob_updated_at := clock\<rparr> in
           seqE (update_outbox (ob_id row) (\<lambda>_. claimed)) (ret (Some claimed))))"

record retry_stats =
  st_processed :: nat
  st_delivered :: nat
  st_retried :: nat
  st_dead :: nat
  st_email_processed :: nat
  st_email_delivered :: nat
  st_email_retried :: nat
  st_email_dead :: nat

definition empty_retry_stats :: retry_stats where
  "empty_retry_stats = \<lparr>st_processed = 0, st_delivered = 0, st_retried = 0, st_dead = 0,
     st_email_processed = 0, st_email_delivered = 0, st_email_retried = 0, st_email_dead = 0\<rparr>"

definition summarize_delivery_result :: "OutboxStatus \<Rightarrow> outbox_row option \<Rightarrow> retry_stats" where
  "summarize_delivery_result before_status after =
     (case after of None \<Rightarrow> empty_retry_stats
      | Some row \<Rightarrow>
          (let d = empty_retry_stats\<lparr>st_processed := 1\<rparr>;
               d1 = (case ob_status row of
                   DELIVERED \<Rightarrow> d\<lparr>st_delivered := 1\<rparr>
                 | DEAD \<Rightarrow> d\<lparr>st_dead := 1\<rparr>
                 | FAILED \<Rightarrow> d\<lparr>st_retried := 1\<rparr>
                 | PENDING \<Rightarrow> if before_status \<in> {PENDING, FAILED} then d\<lparr>st_retried := 1\<rparr> else d) in
           if ob_delivery_kind row = KIND_EMAIL
           then d1\<lparr>st_email_processed := st_processed d1, st_email_delivered := st_delivered d1,
                  st_email_retried := st_retried d1, st_email_dead := st_dead d1\<rparr>
           else d1))"

definition merge_stats :: "retry_stats \<Rightarrow> retry_stats \<Rightarrow> retry_stats" where
  "merge_stats a d = \<lparr>st_processed = st_processed a + st_processed d,
     st_delivered = st_delivered a + st_delivered d, st_retried = st_retried a + st_retried d,
     st_dead = st_dead a + st_dead d, st_email_processed = st_email_processed a + st_email_processed d,
     st_email_delivered = st_email_delivered a + st_email_delivered d,
     st_email_retried = st_email_retried a + st_email_retried d,
     st_email_dead = st_email_dead a + st_email_dead d\<rparr>"

text \<open>
  The loop of \<open>retry_pending_webhooks\<close> with one worker. The deadline is read from a monotonic
  clock at the head of the loop; \<open>turns\<close> is the number of turns it allows.
\<close>

fun retry_loop ::
  "actions_settings \<Rightarrow> nat \<Rightarrow> bool \<Rightarrow> int \<Rightarrow> int option \<Rightarrow> nat \<Rightarrow> retry_stats \<Rightarrow> retry_stats job" where
  "retry_loop cfg batch_size dry_run now run 0 stats = ret stats"
| "retry_loop cfg batch_size dry_run now run (Suc turns) stats =
     (if batch_size \<le> st_processed stats then ret stats
      else bindE (claim_next_pending_outbox cfg now) (\<lambda>claimed. case claimed of
          None \<Rightarrow> ret stats
        | Some row \<Rightarrow>
            if dry_run
            then seqE (update_outbox (ob_id row) (\<lambda>r. r\<lparr>ob_locked_until := None\<rparr>))
              (retry_loop cfg batch_size dry_run now run turns
                (stats\<lparr>st_processed := Suc (st_processed stats),
                   st_email_processed := st_email_processed stats +
                     (if ob_delivery_kind row = KIND_EMAIL then 1 else 0)\<rparr>))
            else bindE (deliver_outbox_row cfg (ob_id row) TRIGGER_AUTOMATIC_RETRY run) (\<lambda>after.
              retry_loop cfg batch_size dry_run now run turns
                (merge_stats stats (summarize_delivery_result (ob_status row) after)))))"

definition retry_pending_webhooks ::
  "actions_settings \<Rightarrow> nat \<Rightarrow> nat \<Rightarrow> bool \<Rightarrow> int option \<Rightarrow> retry_stats job" where
  "retry_pending_webhooks cfg batch_size turns dry_run run =
     bindE (gets a_clock) (\<lambda>now. retry_loop cfg batch_size dry_run now run turns empty_retry_stats)"

end
