(* ===== verification/Delivery_Runs.thy ===== *)
theory Delivery_Runs
  imports Delivery
begin

text \<open>
  Deliveries as they interleave. A plant is the database with the attempts that are between
  their two transactions; \<open>plant_step\<close> is one transaction of a worker, of the retry run, of a
  request, of the retention purge, or of the clock. Workers may hold the same row at the same
  time. \<open>plant_ok\<close> is the invariant.
\<close>

section \<open>Steps\<close>

record flight =
  fl_id :: uuid
  fl_work :: delivery_work
  fl_snapshot :: nat
  fl_trigger :: Trigger
  fl_run :: "int option"

type_synonym plant = "actions \<times> flight list"

fun work_snapshot :: "delivery_work \<Rightarrow> nat option" where
  "work_snapshot (TerminalWork e n) = Some n"
| "work_snapshot (EmailWork body n) = Some n"
| "work_snapshot (WebhookWork rule envelope n) = Some n"
| "work_snapshot _ = None"

fun outcome_fits :: "delivery_work \<Rightarrow> attempt_outcome \<Rightarrow> bool" where
  "outcome_fits (TerminalWork e n) out = (out = Terminal e)"
| "outcome_fits (EmailWork body n) out = (\<exists>success meta. out = Attempted success meta)"
| "outcome_fits (WebhookWork rule envelope n) out = (\<exists>success meta. out = Attempted success meta)"
| "outcome_fits _ out = False"

text \<open>A new row as \<open>emit_event\<close> writes it, and a row as the requeue view leaves it.\<close>

definition new_outbox_row :: "outbox_row \<Rightarrow> bool" where
  "new_outbox_row row \<longleftrightarrow> ob_status row = PENDING \<and> ob_attempt_count row = 0 \<and>
     ob_next_attempt_at row = None \<and> ob_locked_until row = None \<and> ob_delivered_at row = None"

definition requeued :: "outbox_row \<Rightarrow> outbox_row" where
  "requeued row = row\<lparr>ob_status := PENDING, ob_next_attempt_at := None, ob_last_error := [],
     ob_locked_until := None\<rparr>"

definition requeue_outbox :: "uuid \<Rightarrow> actions \<Rightarrow> actions" where
  "requeue_outbox i s = s\<lparr>a_outbox := update_where (\<lambda>r. ob_id r = i) requeued (a_outbox s)\<rparr>"

inductive plant_step :: "actions_settings \<Rightarrow> plant \<Rightarrow> plant \<Rightarrow> bool" for cfg where
  start: "begin_delivery cfg i s = work \<Longrightarrow> work_snapshot work = Some n \<Longrightarrow>
    plant_step cfg (s, fs) (s, \<lparr>fl_id = i, fl_work = work, fl_snapshot = n, fl_trigger = tr, fl_run = run\<rparr> # fs)"
| finish: "f \<in> set fs \<Longrightarrow> outcome_fits (fl_work f) out \<Longrightarrow>
    complete_delivery cfg (fl_id f) (fl_snapshot f) out (fl_trigger f) (fl_run f) s = (Inr row, s') \<Longrightarrow>
    plant_step cfg (s, fs) (s', remove1 f fs)"
| lose: "plant_step cfg (s, fs) (s, remove1 f fs)"
| claim: "claim_next_pending_outbox cfg now s = (Inr found, s') \<Longrightarrow> plant_step cfg (s, fs) (s', fs)"
| release: "plant_step cfg (s, fs)
    (s\<lparr>a_outbox := update_where (\<lambda>r. ob_id r = i) (\<lambda>r. r\<lparr>ob_locked_until := None\<rparr>) (a_outbox s)\<rparr>, fs)"
| enqueue: "ob_id row = a_next_uuid s \<Longrightarrow> new_outbox_row row \<Longrightarrow>
    plant_step cfg (s, fs) (s\<lparr>a_outbox := a_outbox s @ [row], a_next_uuid := Suc (a_next_uuid s)\<rparr>, fs)"
| requeue: "plant_step cfg (s, fs) (requeue_outbox i s, fs)"
| remove: "plant_step cfg (s, fs) (delete_outbox P s, fs)"
| drop_rules: "plant_step cfg (s, fs) (delete_rules P s, fs)"
| edit: "plant_step cfg (s, fs) (s\<lparr>a_rules := rs, a_log := ev, a_clock := t\<rparr>, fs)"

inductive plant_reaches :: "actions_settings \<Rightarrow> plant \<Rightarrow> bool" for cfg where
  init: "a_outbox s = [] \<Longrightarrow> a_attempts s = [] \<Longrightarrow> plant_reaches cfg (s, [])"
| step: "plant_reaches cfg p \<Longrightarrow> plant_step cfg p q \<Longrightarrow> plant_reaches cfg q"

section \<open>The invariant\<close>

definition attempts_of :: "actions \<Rightarrow> uuid \<Rightarrow> delivery_attempt list" where
  "attempts_of s i = filter (\<lambda>a. at_outbox a = i) (a_attempts s)"

definition final_status :: "OutboxStatus \<Rightarrow> bool" where
  "final_status st \<longleftrightarrow> st = DELIVERED \<or> st = DEAD"

text \<open>The recorded attempts are numbered from one, and the status is what the last one left.\<close>

definition row_agrees :: "actions_settings \<Rightarrow> outbox_row \<Rightarrow> delivery_attempt list \<Rightarrow> bool" where
  "row_agrees cfg row atts \<longleftrightarrow>
     map at_attempt_number atts = [1..<Suc (ob_attempt_count row)] \<and>
     (case ob_status row of
        PENDING \<Rightarrow> ob_next_attempt_at row = None
      | DELIVERED \<Rightarrow> atts \<noteq> [] \<and> at_success (last atts) \<and> ob_delivered_at row \<noteq> None
      | DEAD \<Rightarrow> atts \<noteq> [] \<and> \<not> at_success (last atts)
      | FAILED \<Rightarrow> atts \<noteq> [] \<and> \<not> at_success (last atts) \<and> ob_next_attempt_at row \<noteq> None \<and>
          ob_attempt_count row < ACTIONS_OUTBOX_MAX_ATTEMPTS cfg)"

lemma row_agrees_lock [simp]:
  "row_agrees cfg (row\<lparr>ob_locked_until := l\<rparr>) atts = row_agrees cfg row atts"
  "row_agrees cfg (row\<lparr>ob_locked_until := l, ob_updated_at := t\<rparr>) atts = row_agrees cfg row atts"
  by (cases "ob_status row"; simp add: row_agrees_def)+

text \<open>An attempt under way has seen no more than the row's count, and less if the row is final.\<close>

definition flight_ok :: "actions \<Rightarrow> flight \<Rightarrow> bool" where
  "flight_ok s f \<longleftrightarrow> fl_id f < a_next_uuid s \<and>
     (\<forall>row \<in> set (a_outbox s). ob_id row = fl_id f \<longrightarrow>
        fl_snapshot f \<le> ob_attempt_count row \<and>
        (final_status (ob_status row) \<longrightarrow> fl_snapshot f < ob_attempt_count row))"

definition plant_ok :: "actions_settings \<Rightarrow> plant \<Rightarrow> bool" where
  "plant_ok cfg p \<longleftrightarrow> (case p of (s, fs) \<Rightarrow>
     distinct (map ob_id (a_outbox s)) \<and>
     (\<forall>row \<in> set (a_outbox s). ob_id row < a_next_uuid s \<and> row_agrees cfg row (attempts_of s (ob_id row))) \<and>
     (\<forall>a \<in> set (a_attempts s). at_outbox a \<in> ob_id ` set (a_outbox s)) \<and>
     (\<forall>f \<in> set fs. flight_ok s f))"

lemma plant_okD:
  assumes "plant_ok cfg (s, fs)"
  shows "distinct (map ob_id (a_outbox s))"
    "row \<in> set (a_outbox s) \<Longrightarrow> ob_id row < a_next_uuid s"
    "row \<in> set (a_outbox s) \<Longrightarrow> row_agrees cfg row (attempts_of s (ob_id row))"
    "a \<in> set (a_attempts s) \<Longrightarrow> at_outbox a \<in> ob_id ` set (a_outbox s)"
    "f \<in> set fs \<Longrightarrow> flight_ok s f"
  using assms by (auto simp: plant_ok_def)

section \<open>Rewriting one row\<close>

lemma attempts_of_simps [simp]:
  "attempts_of (s\<lparr>a_outbox := rs\<rparr>) i = attempts_of s i"
  "attempts_of (s\<lparr>a_next_uuid := n\<rparr>) i = attempts_of s i"
  "attempts_of (s\<lparr>a_rules := r, a_log := ev, a_clock := t\<rparr>) i = attempts_of s i"
  "attempts_of (s\<lparr>a_attempts := atts @ [a]\<rparr>) i =
     filter (\<lambda>a. at_outbox a = i) atts @ (if at_outbox a = i then [a] else [])"
  by (simp_all add: attempts_of_def)

text \<open>
  An update that keeps the id, keeps the count or raises it, and leaves a row that agrees with
  the attempts there are, keeps the invariant.
\<close>

lemma plant_ok_update:
  assumes ok: "plant_ok cfg (s, fs)"
    and keep: "\<And>row. row \<in> set (a_outbox s) \<Longrightarrow> ob_id row = i \<Longrightarrow>
      ob_id (g row) = i \<and> row_agrees cfg (g row) (attempts_of s i) \<and>
      ob_attempt_count (g row) = ob_attempt_count row \<and>
      (final_status (ob_status (g row)) \<longrightarrow> final_status (ob_status row))"
  shows "plant_ok cfg (s\<lparr>a_outbox := update_where (\<lambda>r. ob_id r = i) g (a_outbox s)\<rparr>, fs)"
proof -
  let ?rs = "update_where (\<lambda>r. ob_id r = i) g (a_outbox s)"
  have ids: "map ob_id ?rs = map ob_id (a_outbox s)"
    unfolding update_where_def using keep by (auto intro!: map_cong simp: o_def)
  then have ids_set: "ob_id ` set ?rs = ob_id ` set (a_outbox s)" by (metis set_map)
  have rows: "ob_id row < a_next_uuid s \<and> row_agrees cfg row (attempts_of s (ob_id row))" if "row \<in> set ?rs" for row
    using that keep plant_okD(2,3) [OF ok] by (fastforce simp: set_update_where)
  have flights: "flight_ok (s\<lparr>a_outbox := ?rs\<rparr>) f" if "f \<in> set fs" for f
    using plant_okD(5) [OF ok that] keep by (fastforce simp: flight_ok_def set_update_where)
  show ?thesis
    using plant_okD(1,4) [OF ok] rows flights by (auto simp: plant_ok_def ids ids_set)
qed

lemma plant_ok_fewer: "plant_ok cfg (s, fs) \<Longrightarrow> set gs \<subseteq> set fs \<Longrightarrow> plant_ok cfg (s, gs)"
  by (auto simp: plant_ok_def)

section \<open>The steps keep the invariant\<close>

lemma outbox_by_id_Some: "outbox_by_id s i = Some row \<Longrightarrow> row \<in> set (a_outbox s) \<and> ob_id row = i"
  unfolding outbox_by_id_def using first_where_Some by fastforce

lemma row_after_attempt_fields [simp]:
  "ob_id (row_after_attempt cfg now out row) = ob_id row"
  "ob_attempt_count (row_after_attempt cfg now out row) = Suc (ob_attempt_count row)"
  "ob_delivery_kind (row_after_attempt cfg now out row) = ob_delivery_kind row"
  by (simp_all add: row_after_attempt_def Let_def)

lemma row_after_attempt_agrees:
  assumes "map at_attempt_number atts = [1..<Suc (ob_attempt_count row)]"
  shows "row_agrees cfg (row_after_attempt cfg now out row)
    (atts @ [attempt_record cfg now out trigger run row])"
  using assms by (auto simp: row_agrees_def row_after_attempt_def attempt_record_def Let_def)

definition attempted ::
  "actions_settings \<Rightarrow> attempt_outcome \<Rightarrow> Trigger \<Rightarrow> int option \<Rightarrow> outbox_row \<Rightarrow> actions \<Rightarrow> actions" where
  "attempted cfg out trigger run row s = s\<lparr>
     a_attempts := a_attempts s @ [attempt_record cfg (a_clock s) out trigger run row],
     a_outbox := update_where (\<lambda>r. ob_id r = ob_id row) (\<lambda>_. row_after_attempt cfg (a_clock s) out row) (a_outbox s)\<rparr>"

lemma apply_delivery_result_eq:
  "apply_delivery_result cfg out trigger run row s =
     (Inr (row_after_attempt cfg (a_clock s) out row), attempted cfg out trigger run row s)"
  by (simp add: apply_delivery_result_def attempted_def bindE_def seqE_def gets_def modify_def ret_def
      insert_attempt_def update_outbox_def)

lemma complete_delivery_eq:
  "complete_delivery cfg i n out trigger run s =
     (case outbox_by_id s i of
        None \<Rightarrow> (Inl RowDoesNotExist, s)
      | Some row \<Rightarrow> if ob_attempt_count row \<noteq> n then (Inr row, s)
          else (Inr (row_after_attempt cfg (a_clock s) out row), attempted cfg out trigger run row s))"
  by (simp add: complete_delivery_def bindE_def gets_def throw_def ret_def apply_delivery_result_eq
      split: option.splits)

lemma plant_ok_attempted:
  assumes ok: "plant_ok cfg (s, fs)" and row: "row \<in> set (a_outbox s)"
  shows "plant_ok cfg (attempted cfg out trigger run row s, fs)"
proof -
  let ?new = "row_after_attempt cfg (a_clock s) out row"
  let ?s = "attempted cfg out trigger run row s"
  have ids: "map ob_id (a_outbox ?s) = map ob_id (a_outbox s)"
    unfolding attempted_def using map_update_where [of "\<lambda>r. ob_id r = ob_id row" ob_id "\<lambda>_. ?new"] by simp
  then have ids_set: "ob_id ` set (a_outbox ?s) = ob_id ` set (a_outbox s)" by (metis set_map)
  have atts: "attempts_of ?s j = attempts_of s j @
      (if j = ob_id row then [attempt_record cfg (a_clock s) out trigger run row] else [])" for j
    by (auto simp: attempted_def attempts_of_def attempt_record_def)
  have rows: "ob_id r < a_next_uuid s \<and> row_agrees cfg r (attempts_of ?s (ob_id r))"
    if "r \<in> set (a_outbox ?s)" for r
  proof -
    have "map at_attempt_number (attempts_of s (ob_id row)) = [1..<Suc (ob_attempt_count row)]"
      using plant_okD(3) [OF ok row] unfolding row_agrees_def by blast
    then have "row_agrees cfg ?new (attempts_of ?s (ob_id row))"
      using row_after_attempt_agrees by (simp only: atts simp_thms if_True)
    moreover have "r = ?new \<or> r \<in> set (a_outbox s) \<and> ob_id r \<noteq> ob_id row"
      using that by (auto simp: attempted_def set_update_where)
    ultimately show ?thesis using plant_okD(2,3) [OF ok] row by (auto simp: atts)
  qed
  have flights: "flight_ok ?s f" if "f \<in> set fs" for f
    using plant_okD(5) [OF ok that] row
    by (fastforce simp: flight_ok_def attempted_def set_update_where)
  show ?thesis
    using plant_okD(1,4) [OF ok] rows flights row
    by (auto simp: plant_ok_def ids ids_set) (auto simp: attempted_def attempt_record_def)
qed

lemma begin_delivery_snapshot:
  assumes "begin_delivery cfg i s = work" "work_snapshot work = Some n"
  shows "\<exists>row. outbox_by_id s i = Some row \<and> n = ob_attempt_count row \<and> \<not> final_status (ob_status row)"
  using assms unfolding begin_delivery_def final_status_def
  by (auto split: option.splits if_splits sum.splits)

lemma earliest_member: "earliest rs = Some r \<Longrightarrow> r \<in> set rs"
  by (induction rs arbitrary: r) (auto split: option.splits if_splits)

lemma earliest_None: "earliest rs = None \<longleftrightarrow> rs = []"
  by (cases rs) (auto split: option.splits if_splits)

lemma claim_eq:
  "claim_next_pending_outbox cfg now s =
     (case earliest (filter (pending_outbox now) (a_outbox s)) of
        None \<Rightarrow> (Inr None, s)
      | Some row \<Rightarrow>
          (let claimed = row\<lparr>ob_locked_until := Some (now + 1000000 * ACTIONS_WEBHOOK_RETRY_LEASE_SECONDS cfg),
                 ob_updated_at := a_clock s\<rparr> in
           (Inr (Some claimed),
            s\<lparr>a_outbox := update_where (\<lambda>r. ob_id r = ob_id row) (\<lambda>_. claimed) (a_outbox s)\<rparr>)))"
  by (simp add: claim_next_pending_outbox_def bindE_def seqE_def gets_def ret_def update_outbox_def modify_def
      Let_def split: option.splits)

lemma same_id: "distinct (map ob_id rs) \<Longrightarrow> r \<in> set rs \<Longrightarrow> q \<in> set rs \<Longrightarrow> ob_id r = ob_id q \<Longrightarrow> r = q"
  by (auto simp: distinct_map inj_on_def)

lemma plant_ok_claim:
  assumes ok: "plant_ok cfg (s, fs)" and "claim_next_pending_outbox cfg now s = (Inr found, s')"
  shows "plant_ok cfg (s', fs)"
proof (cases "earliest (filter (pending_outbox now) (a_outbox s))")
  case None
  then show ?thesis using assms by (simp add: claim_eq)
next
  case (Some row)
  then have row: "row \<in> set (a_outbox s)" using earliest_member by fastforce
  let ?claimed = "row\<lparr>ob_locked_until := Some (now + 1000000 * ACTIONS_WEBHOOK_RETRY_LEASE_SECONDS cfg),
      ob_updated_at := a_clock s\<rparr>"
  have "plant_ok cfg (s\<lparr>a_outbox := update_where (\<lambda>r. ob_id r = ob_id row) (\<lambda>_. ?claimed) (a_outbox s)\<rparr>, fs)"
    using plant_okD(3) [OF ok row] same_id [OF plant_okD(1) [OF ok] _ row]
    by (intro plant_ok_update [OF ok]) auto
  then show ?thesis using assms(2) Some by (simp add: claim_eq Let_def)
qed

lemma plant_ok_delete:
  assumes ok: "plant_ok cfg (s, fs)"
  shows "plant_ok cfg (delete_outbox P s, fs)"
proof -
  let ?gone = "ob_id ` set (filter P (a_outbox s))"
  have kept: "ob_id x \<noteq> ob_id row" if "row \<in> set (a_outbox s)" "\<not> P row" "x \<in> set (a_outbox s)" "P x" for row x
    using that same_id [OF plant_okD(1) [OF ok] that(1,3)] by auto
  then have atts: "attempts_of (delete_outbox P s) (ob_id row) = attempts_of s (ob_id row)"
    if "row \<in> set (a_outbox s)" "\<not> P row" for row
    using kept [OF that] by (force simp: attempts_of_def delete_outbox_def Let_def delete_where_def intro!: filter_cong)
  have left: "at_outbox a \<in> ob_id ` {row \<in> set (a_outbox s). \<not> P row}"
    if "a \<in> set (a_attempts s)" "at_outbox a \<notin> ?gone" for a
    using plant_okD(4) [OF ok that(1)] that(2) by auto
  have "distinct (map ob_id (a_outbox (delete_outbox P s)))"
    using plant_okD(1) [OF ok] by (simp add: delete_outbox_def Let_def distinct_delete_where)
  moreover have "set (a_outbox (delete_outbox P s)) = {row \<in> set (a_outbox s). \<not> P row}"
    "a_next_uuid (delete_outbox P s) = a_next_uuid s"
    by (simp_all add: delete_outbox_def Let_def)
  moreover have "set (a_attempts (delete_outbox P s)) = {a \<in> set (a_attempts s). at_outbox a \<notin> ?gone}"
    by (simp add: delete_outbox_def Let_def)
  ultimately show ?thesis
    using plant_okD(2,3,5) [OF ok] left atts by (auto simp: plant_ok_def flight_ok_def)
qed

lemma plant_ok_enqueue:
  assumes ok: "plant_ok cfg (s, fs)" and "ob_id row = a_next_uuid s" "new_outbox_row row"
  shows "plant_ok cfg (s\<lparr>a_outbox := a_outbox s @ [row], a_next_uuid := Suc (a_next_uuid s)\<rparr>, fs)"
proof -
  have fresh: "ob_id r \<noteq> a_next_uuid s" if "r \<in> set (a_outbox s)" for r
    using plant_okD(2) [OF ok that] by simp
  then have unused: "a_next_uuid s \<notin> ob_id ` set (a_outbox s)" by (metis imageE)
  then have none: "attempts_of s (a_next_uuid s) = []"
    using plant_okD(4) [OF ok] by (force simp: attempts_of_def filter_empty_conv)
  have "row_agrees cfg row []" using assms(3) by (simp add: row_agrees_def new_outbox_row_def)
  then have rows: "ob_id r < Suc (a_next_uuid s) \<and> row_agrees cfg r (attempts_of s (ob_id r))"
    if "r \<in> set (a_outbox s @ [row])" for r
    using that plant_okD(2,3) [OF ok, of r] none assms(2) by auto
  have flights: "flight_ok (s\<lparr>a_outbox := a_outbox s @ [row], a_next_uuid := Suc (a_next_uuid s)\<rparr>) f"
    if "f \<in> set fs" for f
    using plant_okD(5) [OF ok that] assms(2) by (auto simp: flight_ok_def)
  show ?thesis
    using plant_okD(1,4) [OF ok] rows flights unused assms(2) by (simp add: plant_ok_def)
qed

lemma delete_rules_eq:
  "delete_rules P s = delete_outbox (\<lambda>r. ob_action_rule r \<in> Some ` r_id ` set (filter P (a_rules s)))
     (s\<lparr>a_rules := delete_where P (a_rules s)\<rparr>)"
  by (simp add: delete_rules_def Let_def)

lemma plant_ok_rules:
  "plant_ok cfg (s, fs) \<Longrightarrow> plant_ok cfg (s\<lparr>a_rules := rs\<rparr>, fs)"
  "plant_ok cfg (s, fs) \<Longrightarrow> plant_ok cfg (s\<lparr>a_rules := rs, a_log := ev, a_clock := t\<rparr>, fs)"
  by (auto simp: plant_ok_def flight_ok_def attempts_of_def)

lemma plant_ok_requeue:
  assumes ok: "plant_ok cfg (s, fs)"
  shows "plant_ok cfg (requeue_outbox i s, fs)"
  unfolding requeue_outbox_def
proof (rule plant_ok_update [OF ok])
  fix row assume row: "row \<in> set (a_outbox s)" "ob_id row = i"
  then have "row_agrees cfg row (attempts_of s i)" using plant_okD(3) [OF ok row(1)] by simp
  then show "ob_id (requeued row) = i \<and> row_agrees cfg (requeued row) (attempts_of s i) \<and>
      ob_attempt_count (requeued row) = ob_attempt_count row \<and>
      (final_status (ob_status (requeued row)) \<longrightarrow> final_status (ob_status row))"
    using row by (simp add: row_agrees_def requeued_def final_status_def)
qed

lemma plant_step_ok: "plant_step cfg p q \<Longrightarrow> plant_ok cfg p \<Longrightarrow> plant_ok cfg q"
proof (induction rule: plant_step.induct)
  case (start i s work n fs tr run)
  then obtain row where row: "outbox_by_id s i = Some row" "n = ob_attempt_count row" "\<not> final_status (ob_status row)"
    using begin_delivery_snapshot by blast
  then have "row \<in> set (a_outbox s)" "ob_id row = i" using outbox_by_id_Some by blast+
  then have "flight_ok s \<lparr>fl_id = i, fl_work = work, fl_snapshot = n, fl_trigger = tr, fl_run = run\<rparr>"
    using row same_id [OF plant_okD(1) [OF start.prems]] plant_okD(2) [OF start.prems] by (auto simp: flight_ok_def)
  then show ?case using start.prems by (auto simp: plant_ok_def)
next
  case (finish f fs out s row s')
  then have "plant_ok cfg (s', fs)"
    using plant_ok_attempted outbox_by_id_Some
    by (auto simp: complete_delivery_eq split: option.splits if_splits)
  then show ?case using plant_ok_fewer set_remove1_subset by metis
next
  case (release i s fs)
  show ?case using plant_okD(3) [OF release] by (intro plant_ok_update [OF release]) auto
next
  case (drop_rules s fs P)
  show ?case unfolding delete_rules_eq by (intro plant_ok_delete plant_ok_rules drop_rules)
next
  case (lose s fs f)
  show ?case by (rule plant_ok_fewer [OF lose set_remove1_subset])
next
  case (claim now s found s' fs)
  show ?case by (rule plant_ok_claim [OF claim(2,1)])
next
  case (enqueue row s fs)
  show ?case by (rule plant_ok_enqueue [OF enqueue(3,1,2)])
qed (rule plant_ok_requeue plant_ok_delete plant_ok_rules; assumption)+

lemma plant_reaches_ok: "plant_reaches cfg p \<Longrightarrow> plant_ok cfg p"
proof (induction rule: plant_reaches.induct)
  case (init s)
  then show ?case by (simp add: plant_ok_def)
next
  case (step p q)
  then show ?case using plant_step_ok by blast
qed

section \<open>A plant with one row\<close>

definition orphan_row :: outbox_row where
  "orphan_row = \<lparr>ob_id = 1, ob_company_id = 7, ob_action_rule = None, ob_delivery_kind = KIND_WEBHOOK,
     ob_event_type = ''storage.object.uploaded'', ob_envelope = JObj [], ob_status = PENDING,
     ob_attempt_count = 0, ob_next_attempt_at = None, ob_locked_until = None, ob_last_error = [],
     ob_created_at = 1000, ob_updated_at = 1000, ob_delivered_at = None\<rparr>"

definition queued_state :: actions where
  "queued_state = empty_actions\<lparr>a_outbox := [orphan_row], a_next_uuid := 2\<rparr>"

definition orphan_flight :: flight where
  "orphan_flight = \<lparr>fl_id = 1, fl_work = TerminalWork ''Action rule deleted.'' 0, fl_snapshot = 0,
     fl_trigger = TRIGGER_DISPATCH, fl_run = None\<rparr>"

definition dead_row :: outbox_row where
  "dead_row = row_after_attempt sample_cfg 1000 (Terminal ''Action rule deleted.'') orphan_row"

definition dead_state :: actions where
  "dead_state = attempted sample_cfg (Terminal ''Action rule deleted.'') TRIGGER_DISPATCH None orphan_row queued_state"

lemmas plant_samples = orphan_row_def empty_actions_def queued_state_def orphan_flight_def

lemma dead_row_in: "a_outbox dead_state = [dead_row]"
  by (simp add: dead_state_def attempted_def dead_row_def plant_samples update_where_def)

lemma dead_row_status: "ob_status dead_row = DEAD" "ob_id dead_row = 1"
  by (simp_all add: dead_row_def orphan_row_def row_after_attempt_def attempt_success_def attempt_permanent_def Let_def)

text \<open>Two workers take the row, the first one finishes it, the second is still on its way.\<close>

lemma reaches_dead: "plant_reaches sample_cfg (dead_state, [orphan_flight])"
proof -
  have start: "plant_reaches sample_cfg (empty_actions, [])"
    by (rule plant_reaches.init) (simp_all add: empty_actions_def)
  have queue: "plant_step sample_cfg (empty_actions, []) (queued_state, [])"
    using plant_step.enqueue [of orphan_row empty_actions sample_cfg "[]"]
    by (simp add: plant_samples new_outbox_row_def numeral_2_eq_2)
  have go: "plant_step sample_cfg (queued_state, fs) (queued_state, orphan_flight # fs)" for fs
    unfolding orphan_flight_def
    by (rule plant_step.start)
      (simp_all add: begin_delivery_def outbox_by_id_def plant_samples email_event_body_def load_rule_for_delivery_def)
  have land: "plant_step sample_cfg (queued_state, [orphan_flight, orphan_flight])
      (dead_state, remove1 orphan_flight [orphan_flight, orphan_flight])"
  proof (rule plant_step.finish)
    show "orphan_flight \<in> set [orphan_flight, orphan_flight]" by simp
    show "outcome_fits (fl_work orphan_flight) (Terminal ''Action rule deleted.'')" by (simp add: orphan_flight_def)
    have "outbox_by_id queued_state 1 = Some orphan_row" by (simp add: outbox_by_id_def plant_samples)
    then show "complete_delivery sample_cfg (fl_id orphan_flight) (fl_snapshot orphan_flight)
        (Terminal ''Action rule deleted.'') (fl_trigger orphan_flight) (fl_run orphan_flight) queued_state =
        (Inr (row_after_attempt sample_cfg (a_clock queued_state) (Terminal ''Action rule deleted.'') orphan_row), dead_state)"
      unfolding orphan_flight_def complete_delivery_eq dead_state_def by (simp add: orphan_row_def)
  qed
  show ?thesis using plant_reaches.step [OF plant_reaches.step [OF plant_reaches.step [OF plant_reaches.step
      [OF start queue] go] go] land] by simp
qed

section \<open>What every reachable plant satisfies\<close>

text \<open>
  C21. Whatever workers, retry runs, requests and purges interleave, the attempts recorded for
  an outbox row are numbered 1, 2, ... up to its attempt count, even when several workers post
  the same row at once; a delivered row ends with a success, a dead or failed one with a
  failure, and a failed row has a next attempt and attempts left.
\<close>

theorem attempts_recorded_exactly:
  assumes "plant_reaches cfg (s, fs)" "row \<in> set (a_outbox s)"
  shows "map at_attempt_number (attempts_of s (ob_id row)) = [1..<Suc (ob_attempt_count row)] \<and>
    (ob_status row = DELIVERED \<longrightarrow>
       attempts_of s (ob_id row) \<noteq> [] \<and> at_success (last (attempts_of s (ob_id row)))) \<and>
    (ob_status row \<in> {DEAD, FAILED} \<longrightarrow>
       attempts_of s (ob_id row) \<noteq> [] \<and> \<not> at_success (last (attempts_of s (ob_id row)))) \<and>
    (ob_status row = FAILED \<longrightarrow>
       ob_next_attempt_at row \<noteq> None \<and> ob_attempt_count row < ACTIONS_OUTBOX_MAX_ATTEMPTS cfg)"
  using plant_okD(3) [OF plant_reaches_ok [OF assms(1)] assms(2)]
  by (cases "ob_status row") (simp_all add: row_agrees_def)

lemma attempts_recorded_exactly_witness:
  "map at_attempt_number (attempts_of dead_state 1) = [1] \<and> ob_attempt_count dead_row = 1"
  using attempts_recorded_exactly [OF reaches_dead, of dead_row]
  by (simp add: dead_row_in dead_row_status) (simp add: dead_row_def orphan_row_def)

lemma finished_row_step:
  assumes "plant_step cfg (s, fs) (s', fs')" "plant_ok cfg (s, fs)"
    "row \<in> set (a_outbox s)" "final_status (ob_status row)" "row' \<in> set (a_outbox s')" "ob_id row' = ob_id row"
  shows "ob_status row' = PENDING \<or>
    row' = row \<or> row' = row\<lparr>ob_locked_until := None\<rparr>"
proof -
  have unique: "r = row" if "r \<in> set (a_outbox s)" "ob_id r = ob_id row" for r
    using same_id [OF plant_okD(1) [OF assms(2)] that(1) assms(3)] that(2) by simp
  have used: "ob_id row \<noteq> a_next_uuid s" using plant_okD(2) [OF assms(2,3)] by simp
  show ?thesis
  using assms(1)
proof (cases rule: plant_step.cases)
  case (finish f out row1)
  show ?thesis
  proof (cases "outbox_by_id s (fl_id f)")
    case None
    then show ?thesis using finish by (simp add: complete_delivery_eq)
  next
    case (Some r)
    then have r: "r \<in> set (a_outbox s)" "ob_id r = fl_id f" using outbox_by_id_Some by blast+
    have "row \<noteq> r \<or> ob_attempt_count r \<noteq> fl_snapshot f"
      using plant_okD(5) [OF assms(2), of f] finish assms(3,4) r by (auto simp: flight_ok_def)
    then show ?thesis
      using finish Some same_id [OF plant_okD(1) [OF assms(2)]] assms(3,5,6) r
      by (auto simp: complete_delivery_eq attempted_def set_update_where split: if_splits)
  qed
next
  case (claim now found)
  show ?thesis
  proof (cases "earliest (filter (pending_outbox now) (a_outbox s))")
    case (Some r)
    then have "r \<in> set (a_outbox s)" "pending_outbox now r" using earliest_member by fastforce+
    then have "row \<noteq> r" using assms(4) by (auto simp: pending_outbox_def final_status_def)
    then show ?thesis
      using claim Some same_id [OF plant_okD(1) [OF assms(2)]] assms(3,5,6) \<open>r \<in> set (a_outbox s)\<close>
      by (auto simp: claim_eq Let_def set_update_where split: if_splits)
  qed (use same_id [OF plant_okD(1) [OF assms(2)]] assms(3,5,6) claim in \<open>auto simp: claim_eq\<close>)
next
  case (release i)
  then show ?thesis
    using unique assms(5,6) by (fastforce simp: set_update_where split: if_splits)
next
  case (requeue i)
  then show ?thesis
    using same_id [OF plant_okD(1) [OF assms(2)]] assms(3,5,6)
    by (auto simp: requeue_outbox_def requeued_def set_update_where split: if_splits)
qed (use unique used assms(3,5,6) in
    \<open>auto simp: set_update_where delete_outbox_def delete_rules_def Let_def split: if_splits\<close>)
qed

text \<open>
  C22. A delivered or dead row is final: no worker, however late, attempts it or changes it
  again (a dry run may clear its lock). Only the requeue view makes it pending again, and only
  a purge removes it.
\<close>

theorem finished_delivery_is_final:
  assumes "plant_reaches cfg (s, fs)" "plant_step cfg (s, fs) (s', fs')"
    "row \<in> set (a_outbox s)" "ob_status row \<in> {DELIVERED, DEAD}"
    "row' \<in> set (a_outbox s')" "ob_id row' = ob_id row" "ob_status row' \<noteq> PENDING"
  shows "row' = row \<or> row' = row\<lparr>ob_locked_until := None\<rparr>"
  using finished_row_step [OF assms(2) plant_reaches_ok [OF assms(1)] assms(3) _ assms(5,6)] assms(4,7)
  by (auto simp: final_status_def)

lemma finished_delivery_is_final_witness:
  "\<exists>row' \<in> set (a_outbox dead_state). row' = dead_row \<or> row' = dead_row\<lparr>ob_locked_until := None\<rparr>"
proof -
  have "plant_step sample_cfg (dead_state, [orphan_flight]) (dead_state, remove1 orphan_flight [orphan_flight])"
    by (rule plant_step.lose)
  then have "dead_row = dead_row \<or> dead_row = dead_row\<lparr>ob_locked_until := None\<rparr>"
    by (rule finished_delivery_is_final [OF reaches_dead]) (simp_all add: dead_row_in dead_row_status)
  then show ?thesis by (auto simp: dead_row_in)
qed

section \<open>An attempt at a time\<close>

lemma outbox_by_id_attempted:
  assumes "outbox_by_id s i = Some row"
  shows "outbox_by_id (attempted cfg out trigger run row s) i =
    Some (row_after_attempt cfg (a_clock s) out row)"
proof -
  have "ob_id row = i" using outbox_by_id_Some [OF assms] by blast
  moreover have "first_where (\<lambda>r. ob_id r = i) (update_where (\<lambda>r. ob_id r = i)
      (\<lambda>_. row_after_attempt cfg (a_clock s) out row) (a_outbox s)) =
    map_option (\<lambda>r. if ob_id r = i then row_after_attempt cfg (a_clock s) out row else r)
      (first_where (\<lambda>r. ob_id r = i) (a_outbox s))"
    using \<open>ob_id row = i\<close> by (intro first_where_update_key) simp
  ultimately show ?thesis using assms by (simp add: outbox_by_id_def attempted_def)
qed

text \<open>A webhook row that is not final gets one attempt, whatever the network does.\<close>

lemma deliver_webhook_row:
  assumes "outbox_by_id s i = Some row" "ob_delivery_kind row = KIND_WEBHOOK" "\<not> final_status (ob_status row)"
  shows "\<exists>out. deliver_outbox_row cfg i trigger run s =
    (Inr (Some (row_after_attempt cfg (a_clock s) out row)), attempted cfg out trigger run row s)"
proof (cases "load_rule_for_delivery s row")
  case (Inl e)
  then have "deliver_outbox_row cfg i trigger run s =
    (Inr (Some (row_after_attempt cfg (a_clock s) (Terminal e) row)), attempted cfg (Terminal e) trigger run row s)"
    using assms by (simp add: deliver_outbox_row_def begin_delivery_def bindE_def gets_def ret_def
        email_event_body_def complete_delivery_eq final_status_def)
  then show ?thesis by blast
next
  case (Inr rule)
  let ?r = "perform_http_delivery cfg (a_clock s) rule (ob_envelope row) (Suc (ob_attempt_count row))"
  have "deliver_outbox_row cfg i trigger run s =
    (Inr (Some (row_after_attempt cfg (a_clock s) (Attempted (fst ?r) (snd ?r)) row)),
     attempted cfg (Attempted (fst ?r) (snd ?r)) trigger run row s)"
    using assms Inr by (simp add: deliver_outbox_row_def begin_delivery_def bindE_def gets_def ret_def
        email_event_body_def complete_delivery_eq final_status_def Let_def)
  then show ?thesis by blast
qed

lemma deliver_final_row:
  assumes "outbox_by_id s i = Some row" "final_status (ob_status row)"
  shows "deliver_outbox_row cfg i trigger run s = (Inr (Some row), s)"
  using assms by (auto simp: deliver_outbox_row_def begin_delivery_def bindE_def gets_def ret_def final_status_def)

lemma row_after_last_attempt:
  "ACTIONS_OUTBOX_MAX_ATTEMPTS cfg \<le> Suc (ob_attempt_count row) \<Longrightarrow>
     final_status (ob_status (row_after_attempt cfg now out row))"
  by (simp add: row_after_attempt_def Let_def final_status_def)

text \<open>One delivery after another, each with the network as it is then.\<close>

definition deliver_each :: "actions_settings list \<Rightarrow> uuid \<Rightarrow> unit job" where
  "deliver_each cfgs i = forE cfgs (\<lambda>cfg. bindE (deliver_outbox_row cfg i TRIGGER_AUTOMATIC_RETRY None) (\<lambda>_. ret ()))"

lemma deliver_each_Cons:
  "deliver_outbox_row cfg i TRIGGER_AUTOMATIC_RETRY None s = (Inr x, s') \<Longrightarrow>
     deliver_each (cfg # cfgs) i s = deliver_each cfgs i s'"
  by (simp add: deliver_each_def seqE_def bindE_def ret_def)

lemma deliver_each_final:
  "outbox_by_id s i = Some row \<Longrightarrow> final_status (ob_status row) \<Longrightarrow> deliver_each cfgs i s = (Inr (), s)"
proof (induction cfgs)
  case Nil
  then show ?case by (simp add: deliver_each_def ret_def)
next
  case (Cons cfg cfgs)
  then show ?case by (simp add: deliver_each_Cons [OF deliver_final_row])
qed

lemma deliver_each_gives_up:
  assumes "outbox_by_id s i = Some row" "ob_delivery_kind row = KIND_WEBHOOK"
    "\<And>cfg. cfg \<in> set cfgs \<Longrightarrow> ACTIONS_OUTBOX_MAX_ATTEMPTS cfg \<le> m"
    "m \<le> ob_attempt_count row + length cfgs" "cfgs \<noteq> []"
  shows "\<exists>s' row'. deliver_each cfgs i s = (Inr (), s') \<and> outbox_by_id s' i = Some row' \<and>
    final_status (ob_status row')"
  using assms
proof (induction cfgs arbitrary: s row)
  case (Cons cfg cfgs)
  show ?case
  proof (cases "final_status (ob_status row)")
    case True
    then show ?thesis using deliver_each_final [OF Cons.prems(1)] Cons.prems(1) by blast
  next
    case False
    obtain out where out: "deliver_outbox_row cfg i TRIGGER_AUTOMATIC_RETRY None s =
      (Inr (Some (row_after_attempt cfg (a_clock s) out row)), attempted cfg out TRIGGER_AUTOMATIC_RETRY None row s)"
      using deliver_webhook_row [OF Cons.prems(1,2) False] by blast
    let ?row = "row_after_attempt cfg (a_clock s) out row"
    note found = outbox_by_id_attempted [OF Cons.prems(1), of cfg out TRIGGER_AUTOMATIC_RETRY None]
    show ?thesis
    proof (cases "cfgs = []")
      case True
      then have "final_status (ob_status ?row)"
        using Cons.prems(3) [of cfg] Cons.prems(4) by (intro row_after_last_attempt) simp
      then show ?thesis
        using deliver_each_Cons [OF out, of cfgs] deliver_each_final [OF found, of cfgs] found by auto
    next
      case False
      then show ?thesis
        using deliver_each_Cons [OF out, of cfgs] Cons.IH [OF found] Cons.prems(2-4) by simp
    qed
  qed
qed simp

text \<open>
  C23. Retrying ends: after as many deliveries as the attempt limit allows, a webhook row is
  delivered or dead, whatever the receivers, the resolver and the rules did each time.
\<close>

theorem webhook_delivery_ends:
  assumes "outbox_by_id s i = Some row" "ob_delivery_kind row = KIND_WEBHOOK"
    "\<And>cfg. cfg \<in> set cfgs \<Longrightarrow> ACTIONS_OUTBOX_MAX_ATTEMPTS cfg = m"
    "length cfgs = max 1 m"
  shows "\<exists>s' row'. deliver_each cfgs i s = (Inr (), s') \<and> outbox_by_id s' i = Some row' \<and>
    ob_status row' \<in> {DELIVERED, DEAD}"
  using deliver_each_gives_up [OF assms(1,2), of cfgs m] assms(3,4)
  by (force simp: final_status_def)

lemma compute_retry_delay_bounds:
  assumes "30 \<le> b" "b \<le> 3600"
  shows "b \<le> compute_retry_delay_seconds k st ra b" "compute_retry_delay_seconds k st ra b \<le> 3600"
    "st \<notin> {Some 429, Some 503} \<or> ra = None \<Longrightarrow> compute_retry_delay_seconds k st ra b = b"
  using assms by (auto simp: compute_retry_delay_seconds_def MAX_BACKOFF_SECONDS_def Let_def split: option.splits)

text \<open>
  A failed row waits between half a minute and an hour: never less than the exponential
  backoff, exactly the backoff when the receiver did not answer 429 or 503 with a Retry-After.
\<close>

theorem retry_delay_bounds:
  assumes "ob_status (row_after_attempt cfg now out row) = FAILED"
  shows "\<exists>delay. ob_next_attempt_at (row_after_attempt cfg now out row) = Some (now + 1000000 * delay) \<and>
    min 3600 (30 * 2 ^ ob_attempt_count row) \<le> delay \<and> 30 \<le> delay \<and> delay \<le> 3600 \<and>
    (attempt_status out \<notin> {Some 429, Some 503} \<or> attempt_retry_after out = None \<longrightarrow>
       delay = min 3600 (30 * 2 ^ ob_attempt_count row))"
proof -
  define b :: int where "b = min 3600 (30 * 2 ^ ob_attempt_count row)"
  have "(1 :: int) \<le> 2 ^ ob_attempt_count row" by simp
  then have b: "30 \<le> b" "b \<le> 3600" by (simp_all add: b_def)
  let ?d = "compute_retry_delay_seconds (Suc (ob_attempt_count row)) (attempt_status out) (attempt_retry_after out) b"
  have "ob_next_attempt_at (row_after_attempt cfg now out row) = Some (now + 1000000 * ?d)"
    using assms by (auto simp: row_after_attempt_def Let_def backoff_seconds_def b_def split: if_splits)
  then show ?thesis
    using compute_retry_delay_bounds [OF b] b(1) unfolding b_def [symmetric] by (meson order_trans)
qed

lemma retry_delay_bounds_witness:
  "ob_next_attempt_at (row_after_attempt sample_cfg 0
     (Attempted False \<lparr>m_http_status = Some 503, m_response_excerpt = [], m_error_message = [],
        m_permanent = False, m_retry_after_seconds = Some 100\<rparr>) orphan_row) = Some 100000000"
proof -
  let ?out = "Attempted False \<lparr>m_http_status = Some 503, m_response_excerpt = [], m_error_message = [],
        m_permanent = False, m_retry_after_seconds = Some 100\<rparr>"
  let ?row = "row_after_attempt sample_cfg 0 ?out orphan_row"
  have failed: "ob_status ?row = FAILED" and at: "ob_next_attempt_at ?row = Some 100000000"
    by (simp_all add: row_after_attempt_def orphan_row_def sample_cfg_def attempt_success_def attempt_permanent_def
        attempt_status_def attempt_retry_after_def compute_retry_delay_seconds_def MAX_BACKOFF_SECONDS_def
        backoff_seconds_def Let_def)
  obtain d where "ob_next_attempt_at ?row = Some (0 + 1000000 * d)" "30 \<le> d" "d \<le> 3600"
    using retry_delay_bounds [OF failed] by blast
  then show ?thesis using at by simp
qed

lemma webhook_delivery_ends_witness:
  "\<exists>s' row'. deliver_each (replicate 8 sample_cfg) 1 queued_state = (Inr (), s') \<and>
     outbox_by_id s' 1 = Some row' \<and> ob_status row' \<in> {DELIVERED, DEAD}"
  by (rule webhook_delivery_ends [of _ _ orphan_row _ 8])
    (auto simp: outbox_by_id_def plant_samples sample_cfg_def split: if_splits)

section \<open>Where retrying goes wrong\<close>

text \<open>
  An exception of \<open>http.client\<close> that is not an \<open>OSError\<close> leaves \<open>deliver_email_event\<close>: the
  attempt is not recorded and not counted, so that the row is taken again after its lease for
  ever, and the retry run that took it fails.
\<close>

lemma email_exception_not_counted:
  assumes "outbox_by_id s i = Some row" "ob_delivery_kind row = KIND_EMAIL" "ob_envelope row = JObj body"
    "\<not> final_status (ob_status row)" "email_service_configured cfg"
    "deliver_email_event cfg (a_clock s) body = Inl e"
  shows "deliver_outbox_row cfg i trigger run s = (Inl e, s)"
  using assms by (simp add: deliver_outbox_row_def begin_delivery_def bindE_def gets_def ret_def lift_sum_def
      email_event_body_def final_status_def)

lemma email_other_exception:
  assumes "email_service_configured cfg"
    "resolve_webhook_endpoint (getaddrinfo cfg) (email_events_url cfg) (EMAIL_SERVICE_ALLOW_PRIVATE cfg) = Inr endpoint"
    "\<And>body headers. post cfg endpoint body headers = OtherExc msg"
  shows "deliver_email_event cfg now body = Inl (Uncaught msg)"
  using assms by (simp add: deliver_email_event_def post_webhook_url_def post_resolved_webhook_def
      email_service_configured_def)

text \<open>A dry run takes the same row again until the batch is full: its count says nothing.\<close>

lemma dry_run_recounts:
  assumes "\<exists>row \<in> set (a_outbox s). pending_outbox now row" "st_processed stats \<le> batch"
  shows "\<exists>s' y. retry_loop cfg batch True now run turns stats s =
     (Inr (stats\<lparr>st_processed := min batch (st_processed stats + turns), st_email_processed := y\<rparr>), s')"
  using assms
proof (induction turns arbitrary: s stats)
  case 0
  then show ?case by (auto simp: ret_def intro!: exI [of _ "st_email_processed stats"])
next
  case (Suc turns)
  show ?case
  proof (cases "st_processed stats = batch")
    case True
    then show ?thesis by (auto simp: ret_def intro!: exI [of _ "st_email_processed stats"])
  next
    case False
    let ?due = "filter (pending_outbox now) (a_outbox s)"
    obtain row where e: "earliest ?due = Some row"
      using Suc.prems(1) earliest_None [of ?due] by (cases "earliest ?due") (auto simp: filter_empty_conv)
    then have row: "row \<in> set (a_outbox s)" "pending_outbox now row" using earliest_member by fastforce+
    define claimed where "claimed = row\<lparr>ob_locked_until := Some (now + 1000000 * ACTIONS_WEBHOOK_RETRY_LEASE_SECONDS cfg),
                 ob_updated_at := a_clock s\<rparr>"
    define s1 where "s1 = s\<lparr>a_outbox := update_where (\<lambda>r. ob_id r = ob_id row) (\<lambda>_. claimed) (a_outbox s)\<rparr>"
    have claim: "claim_next_pending_outbox cfg now s = (Inr (Some claimed), s1)"
      using e by (simp add: claim_eq Let_def claimed_def s1_def)
    have id: "ob_id claimed = ob_id row" by (simp add: claimed_def)
    have "claimed \<in> set (a_outbox s1)" using row(1) by (auto simp: s1_def set_update_where)
    moreover have "pending_outbox now (claimed\<lparr>ob_locked_until := None\<rparr>)"
      using row(2) by (simp add: pending_outbox_def claimed_def)
    ultimately have free: "\<exists>r \<in> set (a_outbox s1). ob_id r = ob_id row \<and> pending_outbox now (r\<lparr>ob_locked_until := None\<rparr>)"
      using id by blast
    let ?s2 = "s1\<lparr>a_outbox := update_where (\<lambda>r. ob_id r = ob_id claimed)
        (\<lambda>r. r\<lparr>ob_locked_until := None\<rparr>) (a_outbox s1)\<rparr>"
    have again: "\<exists>r \<in> set (a_outbox ?s2). pending_outbox now r"
      using free id by (auto simp: set_update_where)
    let ?stats = "stats\<lparr>st_processed := Suc (st_processed stats), st_email_processed := st_email_processed stats +
        (if ob_delivery_kind claimed = KIND_EMAIL then 1 else 0)\<rparr>"
    have "retry_loop cfg batch True now run (Suc turns) stats s = retry_loop cfg batch True now run turns ?stats ?s2"
      using False Suc.prems(2) claim
      by (simp add: bindE_def seqE_def update_outbox_def modify_def)
    then show ?thesis using Suc.IH [OF again, of ?stats] Suc.prems(2) False by simp
  qed
qed

end
