(* ===== verification/Emission.thy ===== *)
theory Emission
  imports Delivery Hooks
begin

text \<open>
  From a storage event to the outbox: the event catalog (\<open>apps/actions/registry.py\<close>,
  \<open>apps/actions/storage_events.py\<close>), envelopes (\<open>apps/actions/envelope.py\<close>), the event log
  (\<open>apps/actions/event_log.py\<close>), the email rows of \<open>apps/actions/email_service.py\<close> and
  \<open>apps/actions/emit.py\<close>. The events a request leaves in its world are emitted in order by
  \<open>emit_events\<close>. Descriptions of events and fields are left out of the catalog.
\<close>

section \<open>The catalog\<close>

record EventFieldDoc =
  f_name :: string
  f_example :: json

record DomainEventType =
  d_id :: string
  d_label :: string
  d_payload_fields :: "EventFieldDoc list"
  d_emit_by_default :: bool
  d_webhook :: bool
  d_staff_only :: bool

type_synonym registry = "DomainEventType list"

text \<open>\<open>Inl ()\<close> is a \<open>ValueError\<close>.\<close>

definition get_event_type :: "registry \<Rightarrow> string \<Rightarrow> unit + DomainEventType" where
  "get_event_type reg event_id =
     (case first_where (\<lambda>e. d_id e = event_id) reg of None \<Rightarrow> Inl () | Some e \<Rightarrow> Inr e)"

definition is_registered_event :: "registry \<Rightarrow> string \<Rightarrow> bool" where
  "is_registered_event reg event_id = (event_id \<in> d_id ` set reg)"

definition register_event :: "DomainEventType \<Rightarrow> registry \<Rightarrow> unit + registry" where
  "register_event event reg =
     (if is_registered_event reg (d_id event) then Inl ()
      else if d_staff_only event \<and> d_webhook event then Inl ()
      else Inr (reg @ [event]))"

fun insert_event :: "DomainEventType \<Rightarrow> DomainEventType list \<Rightarrow> DomainEventType list" where
  "insert_event e [] = [e]"
| "insert_event e (x # xs) = (if less_text (d_id x) (d_id e) then x # insert_event e xs else e # x # xs)"

definition all_event_types :: "registry \<Rightarrow> DomainEventType list" where
  "all_event_types reg = foldr insert_event reg []"

definition is_webhook_event :: "registry \<Rightarrow> string \<Rightarrow> bool" where
  "is_webhook_event reg event_id =
     (case first_where (\<lambda>e. d_id e = event_id) reg of None \<Rightarrow> False
      | Some event \<Rightarrow> d_webhook event \<and> \<not> d_staff_only event)"

definition webhook_event_types :: "registry \<Rightarrow> DomainEventType list" where
  "webhook_event_types reg = filter (\<lambda>e. d_webhook e \<and> \<not> d_staff_only e) (all_event_types reg)"

definition company_event_types :: "registry \<Rightarrow> DomainEventType list" where
  "company_event_types reg = filter (\<lambda>e. \<not> d_staff_only e) (all_event_types reg)"

definition staff_only_event_types :: "registry \<Rightarrow> DomainEventType list" where
  "staff_only_event_types reg = filter d_staff_only (all_event_types reg)"

definition event_field_doc_dict :: "EventFieldDoc \<Rightarrow> dict" where
  "event_field_doc_dict f = [(''name'', JStr (f_name f)), (''example'', f_example f)]"

definition doc_field :: "string \<Rightarrow> json \<Rightarrow> EventFieldDoc" where
  "doc_field n e = \<lparr>f_name = n, f_example = e\<rparr>"

definition OBJECT_FIELDS :: "EventFieldDoc list" where
  "OBJECT_FIELDS = [doc_field ''object_id'' (JStr ''550e8400-e29b-41d4-a716-446655440000''),
     doc_field ''bucket_name'' (JStr ''company''), doc_field ''bucket_kind'' (JStr ''company''),
     doc_field ''path'' (JStr ''docs/report.pdf''), doc_field ''size'' (JInt 4096),
     doc_field ''mime_type'' (JStr ''application/pdf''), doc_field ''version'' (JInt 1),
     doc_field ''created'' (JBool True)]"

definition BUCKET_FIELDS :: "EventFieldDoc list" where
  "BUCKET_FIELDS = [doc_field ''bucket_id'' (JStr ''550e8400-e29b-41d4-a716-446655440001''),
     doc_field ''bucket_name'' (JStr ''company''), doc_field ''bucket_kind'' (JStr ''company'')]"

definition DELETED_FIELDS :: "EventFieldDoc list" where
  "DELETED_FIELDS = [doc_field ''bucket_name'' (JStr ''company''), doc_field ''path'' (JStr ''docs/report.pdf''),
     doc_field ''size'' (JInt 4096), doc_field ''mime_type'' (JStr ''application/pdf'')]"

definition SCHEDULED_JOB_FIELDS :: "EventFieldDoc list" where
  "SCHEDULED_JOB_FIELDS = [doc_field ''run_id'' (JInt 1234), doc_field ''job'' (JStr ''retry_webhooks''),
     doc_field ''trigger'' (JStr ''celery''), doc_field ''duration_ms'' (JInt 412),
     doc_field ''counts'' (JObj [(''webhook_deliveries_attempted'', JInt 3),
       (''webhook_deliveries_succeeded'', JInt 3), (''email_events_attempted'', JInt 1),
       (''email_events_succeeded'', JInt 1)]),
     doc_field ''host'' (JStr ''storage-7f9c:41'')]"

definition domain_event ::
  "string \<Rightarrow> string \<Rightarrow> EventFieldDoc list \<Rightarrow> bool \<Rightarrow> bool \<Rightarrow> DomainEventType" where
  "domain_event i label payload webhook staff_only = \<lparr>d_id = i, d_label = label,
     d_payload_fields = payload, d_emit_by_default = True, d_webhook = webhook,
     d_staff_only = staff_only\<rparr>"

text \<open>The registrations of \<open>storage_events.py\<close>, in the order of the module.\<close>

definition REGISTRATIONS :: "DomainEventType list" where
  "REGISTRATIONS =
     [domain_event ''storage.bucket.created'' ''Company bucket provisioned'' BUCKET_FIELDS True False,
      domain_event ''storage.object.uploaded'' ''Object uploaded'' OBJECT_FIELDS True False,
      domain_event ''storage.object.deleted'' ''Object deleted'' DELETED_FIELDS True False,
      domain_event ''storage.scheduled_job.succeeded'' ''Scheduled job succeeded'' SCHEDULED_JOB_FIELDS False True,
      domain_event ''storage.scheduled_job.failed'' ''Scheduled job failed''
        (SCHEDULED_JOB_FIELDS @ [doc_field ''error_key'' (JStr ''database_error''),
           doc_field ''error_class'' (JStr ''OperationalError'')]) False True]"

fun register_all :: "DomainEventType list \<Rightarrow> registry \<Rightarrow> unit + registry" where
  "register_all [] reg = Inr reg"
| "register_all (e # es) reg = (case register_event e reg of Inl x \<Rightarrow> Inl x | Inr r \<Rightarrow> register_all es r)"

lemma catalog_registers: "register_all REGISTRATIONS [] = Inr REGISTRATIONS"
  by code_simp

section \<open>Envelopes\<close>

record CompanyContext =
  c_id :: int
  c_slug :: string
  c_name :: string

definition company_context_from_id :: "int \<Rightarrow> string \<Rightarrow> string \<Rightarrow> CompanyContext" where
  "company_context_from_id i slug name = \<lparr>c_id = i, c_slug = strip slug, c_name = strip name\<rparr>"

definition iso_utc :: "int \<Rightarrow> string" where
  "iso_utc t = butlast (iso_z t) @ ''+00:00''"

definition build_envelope ::
  "uuid \<Rightarrow> int \<Rightarrow> string \<Rightarrow> CompanyContext \<Rightarrow> dict \<Rightarrow> dict option \<Rightarrow> dict" where
  "build_envelope event_id now event_type company data actor =
     [(''id'', JStr (str_uuid event_id)), (''type'', JStr event_type), (''time'', JStr (iso_utc now)),
      (''company'', JObj [(''id'', JInt (c_id company)), (''slug'', JStr (c_slug company)),
        (''name'', JStr (c_name company))]),
      (''data'', JObj (redact_dict data))] @
     (case actor of None \<Rightarrow> []
      | Some a \<Rightarrow> if a = [] \<or> redact_dict a = [] then [] else [(''actor'', JObj (redact_dict a))])"

section \<open>The event log\<close>

definition empty_value :: "json \<Rightarrow> bool" where
  "empty_value v \<longleftrightarrow> v \<in> {JNull, JStr [], JList [], JObj [], JBool False}"

definition actor_get :: "dict option \<Rightarrow> string \<Rightarrow> json" where
  "actor_get actor k = (case actor of None \<Rightarrow> JNull
     | Some a \<Rightarrow> (case map_of a k of None \<Rightarrow> JNull | Some v \<Rightarrow> v))"

definition compact_event_data :: "dict \<Rightarrow> dict option \<Rightarrow> dict" where
  "compact_event_data payload actor =
     (let raw = filter (\<lambda>(k, v). k \<notin> {''company_id'', ''user_id''} \<and> \<not> empty_value v) payload;
          data = redact_dict raw; email = actor_get actor ''email'' in
      if truthy email then dict_set ''actor_email'' email data else data)"

definition actor_user_id :: "dict option \<Rightarrow> int option" where
  "actor_user_id actor = (case actor_get actor ''user_id'' of JInt i \<Rightarrow> if i \<le> 0 then None else Some i | _ \<Rightarrow> None)"

definition record_event :: "string \<Rightarrow> int \<Rightarrow> dict \<Rightarrow> dict option \<Rightarrow> event_log job" where
  "record_event event_type company_id payload actor s =
     (let row = \<lparr>ev_id = a_next_id s, ev_company_id = Some company_id, ev_user_id = actor_user_id actor,
          ev_event_type = event_type, ev_data = compact_event_data payload actor,
          ev_created_at = a_clock s\<rparr> in
      (Inr row, s\<lparr>a_log := a_log s @ [row], a_next_id := a_next_id s + 1\<rparr>))"

section \<open>Email rows\<close>

text \<open>\<open>_EMAIL_RE\<close>: one at sign, no white space, a dot inside the domain.\<close>

definition email_shaped :: "string \<Rightarrow> bool" where
  "email_shaped s =
     (case split_on CHR ''@'' s of
        [local, domain] \<Rightarrow> local \<noteq> [] \<and> \<not> list_ex is_space s \<and> CHR ''.'' \<in> set (butlast (drop 1 domain))
      | _ \<Rightarrow> False)"

definition int_of_json :: "json \<Rightarrow> int option" where
  "int_of_json v = (case v of JInt i \<Rightarrow> Some i | JBool b \<Rightarrow> Some (if b then 1 else 0)
     | JStr s \<Rightarrow> py_int 10 s | _ \<Rightarrow> None)"

definition recipient_hints :: "dict option \<Rightarrow> json list" where
  "recipient_hints actor =
     (case actor of None \<Rightarrow> []
      | Some a \<Rightarrow>
          let email = strip (get_or a ''email'' []); raw = actor_get actor ''user_id'' in
          if a = [] \<or> \<not> email_shaped email then []
          else [JObj ((''email'', JStr email) #
            (if raw = JNull \<or> raw = JStr [] then []
             else (case int_of_json raw of None \<Rightarrow> [] | Some i \<Rightarrow> [(''user_id'', JInt i)])))])"

definition build_email_event_body ::
  "string \<Rightarrow> int \<Rightarrow> dict \<Rightarrow> string \<Rightarrow> dict option \<Rightarrow> CompanyContext \<Rightarrow> dict" where
  "build_email_event_body event_type company_id payload idempotency_key actor company =
     (let data = redact_dict payload;
          data1 = (if strip (c_name company) \<noteq> [] \<and> strip (get_or data ''company_name'' []) = []
            then dict_set ''company_name'' (JStr (strip (c_name company))) data else data) in
      [(''service'', JStr ''storage''), (''event_type'', JStr event_type), (''company_id'', JInt company_id),
       (''idempotency_key'', JStr idempotency_key), (''payload'', JObj data1),
       (''recipients'', JList (recipient_hints actor))])"

definition outbox_of ::
  "uuid \<Rightarrow> int \<Rightarrow> int option \<Rightarrow> DeliveryKind \<Rightarrow> string \<Rightarrow> dict \<Rightarrow> int \<Rightarrow> outbox_row" where
  "outbox_of i company_id rule kind event_type envelope now = \<lparr>ob_id = i, ob_company_id = company_id,
     ob_action_rule = rule, ob_delivery_kind = kind, ob_event_type = event_type,
     ob_envelope = JObj envelope, ob_status = PENDING, ob_attempt_count = 0, ob_next_attempt_at = None,
     ob_locked_until = None, ob_last_error = [], ob_created_at = now, ob_updated_at = now,
     ob_delivered_at = None\<rparr>"

definition enqueue_email_event ::
  "actions_settings \<Rightarrow> string \<Rightarrow> int \<Rightarrow> dict \<Rightarrow> dict option \<Rightarrow> CompanyContext \<Rightarrow> outbox_row option job" where
  "enqueue_email_event cfg event_type company_id payload actor company =
     (if \<not> email_service_configured cfg then ret None
      else bindE draw_uuid (\<lambda>event_id.
           bindE (gets a_clock) (\<lambda>now.
           bindE (insert_outbox (outbox_of event_id company_id None KIND_EMAIL event_type
             (build_email_event_body event_type company_id payload (str_uuid event_id) actor company) now))
             (\<lambda>row. ret (Some row)))))"

section \<open>Emission\<close>

definition matching_rules :: "string \<Rightarrow> int \<Rightarrow> actions \<Rightarrow> action_rule list" where
  "matching_rules event_type company_id s =
     sort_key r_id (filter (\<lambda>r. r_company_id r = company_id \<and> r_event_type r = event_type \<and>
       r_enabled r \<and> r_action_kind r = ''webhook'') (a_rules s))"

definition enqueue_webhook :: "int \<Rightarrow> string \<Rightarrow> dict \<Rightarrow> action_rule \<Rightarrow> outbox_row job" where
  "enqueue_webhook company_id event_type envelope rule =
     bindE draw_uuid (\<lambda>i. bindE (gets a_clock) (\<lambda>now.
       insert_outbox (outbox_of i company_id (Some (r_id rule)) KIND_WEBHOOK event_type envelope now)))"

definition webhook_rows ::
  "string \<Rightarrow> int \<Rightarrow> dict \<Rightarrow> dict option \<Rightarrow> CompanyContext \<Rightarrow> outbox_row list job" where
  "webhook_rows event_type company_id payload actor ctx =
     bindE (gets (matching_rules event_type company_id)) (\<lambda>rules.
       if rules = [] then ret []
       else bindE draw_uuid (\<lambda>event_id. bindE (gets a_clock) (\<lambda>now.
         mapE (enqueue_webhook company_id event_type
           (build_envelope event_id now event_type ctx payload actor)) rules)))"

text \<open>\<open>emit_event\<close>: the webhook rows, and the rows to deliver after the commit.\<close>

definition emit_domain_event ::
  "actions_settings \<Rightarrow> registry \<Rightarrow> string \<Rightarrow> int \<Rightarrow> dict \<Rightarrow> CompanyContext option \<Rightarrow> dict option \<Rightarrow> bool
     \<Rightarrow> (outbox_row list \<times> uuid list) job" where
  "emit_domain_event cfg reg event_type company_id payload company actor force =
     (case get_event_type reg event_type of
        Inl _ \<Rightarrow> throw (Uncaught ''ValueError'')
      | Inr event \<Rightarrow>
          if \<not> d_emit_by_default event \<and> \<not> force then ret ([], [])
          else bindE (record_event event_type company_id payload actor) (\<lambda>_.
            let ctx = (case company of Some c \<Rightarrow> c | None \<Rightarrow> company_context_from_id company_id [] []) in
            bindE (webhook_rows event_type company_id payload actor ctx) (\<lambda>rows.
            bindE (if d_staff_only event then ret None
                   else enqueue_email_event cfg event_type company_id payload actor ctx) (\<lambda>email_row.
            ret (rows, map ob_id rows @ map ob_id (case email_row of None \<Rightarrow> [] | Some r \<Rightarrow> [r]))))))"

definition emit_event_if_rules ::
  "actions_settings \<Rightarrow> registry \<Rightarrow> string \<Rightarrow> int \<Rightarrow> dict \<Rightarrow> CompanyContext option \<Rightarrow> dict option \<Rightarrow> bool
     \<Rightarrow> (outbox_row list \<times> uuid list) job" where
  "emit_event_if_rules cfg reg event_type company_id payload company actor force =
     catchE (emit_domain_event cfg reg event_type company_id payload company actor force)
       (\<lambda>e. if e = Uncaught ''ValueError'' then ret ([], []) else throw e)"

text \<open>The events a request left behind, in their order, and the dispatch after its commit.\<close>

definition emit_events :: "actions_settings \<Rightarrow> event list \<Rightarrow> uuid list job" where
  "emit_events cfg events =
     bindE (mapE (\<lambda>e. emit_event_if_rules cfg REGISTRATIONS (e_type e) (e_company_id e) (e_data e) None
       (e_actor e) False) events) (\<lambda>results. ret (concat (map snd results)))"

definition commit_events :: "actions_settings \<Rightarrow> event list \<Rightarrow> unit job" where
  "commit_events cfg events = bindE (emit_events cfg events) (dispatch_outbox cfg)"

section \<open>What an emission writes\<close>

lemma draw_uuid_eq: "draw_uuid s = (Inr (a_next_uuid s), s\<lparr>a_next_uuid := Suc (a_next_uuid s)\<rparr>)"
  by (simp add: draw_uuid_def)

fun rows_for :: "int \<Rightarrow> string \<Rightarrow> dict \<Rightarrow> int \<Rightarrow> uuid \<Rightarrow> action_rule list \<Rightarrow> outbox_row list" where
  "rows_for c t envelope now n [] = []"
| "rows_for c t envelope now n (r # rs) =
     outbox_of n c (Some (r_id r)) KIND_WEBHOOK t envelope now # rows_for c t envelope now (Suc n) rs"

lemma rows_for_facts:
  "map ob_action_rule (rows_for c t envelope now n rs) = map (\<lambda>r. Some (r_id r)) rs"
  "row \<in> set (rows_for c t envelope now n rs) \<Longrightarrow>
     ob_company_id row = c \<and> ob_envelope row = JObj envelope \<and> ob_status row = PENDING \<and> ob_attempt_count row = 0"
proof (induction rs arbitrary: n)
  case (Cons r rs)
  {
    case 1
    then show ?case using Cons.IH(1) by (simp add: outbox_of_def)
  next
    case 2
    then show ?case using Cons.IH(2) by (auto simp: outbox_of_def)
  }
qed simp_all

lemma enqueue_webhooks:
  "mapE (enqueue_webhook c t envelope) rs s =
     (Inr (rows_for c t envelope (a_clock s) (a_next_uuid s) rs),
      s\<lparr>a_outbox := a_outbox s @ rows_for c t envelope (a_clock s) (a_next_uuid s) rs,
        a_next_uuid := a_next_uuid s + length rs\<rparr>)"
  by (induction rs arbitrary: s)
    (simp_all add: ret_def bindE_def enqueue_webhook_def draw_uuid_eq gets_def insert_outbox_def)

lemma redact_dict_clean: "clean (JObj (redact_dict d))"
proof -
  obtain u where u: "without_secrets (JObj d) = Some u" by simp
  then have "clean u" by (rule without_secrets_clean)
  moreover have "redact_secrets (JObj d) = u" using u by (simp add: redact_secrets_def)
  ultimately show ?thesis by (simp add: redact_secrets_dict)
qed

lemma set_matching_rules:
  "set (matching_rules t c s) = {r \<in> set (a_rules s). r_company_id r = c \<and> r_event_type r = t \<and>
     r_enabled r \<and> r_action_kind r = ''webhook''}"
  by (auto simp: matching_rules_def)

lemma sorted_matching_rules: "sorted (map r_id (matching_rules t c s))"
  by (simp add: matching_rules_def)

lemma webhook_rows_eq:
  "\<exists>envelope n. webhook_rows t c payload actor ctx s =
     (Inr (rows_for c t envelope (a_clock s) n (matching_rules t c s)),
      s\<lparr>a_outbox := a_outbox s @ rows_for c t envelope (a_clock s) n (matching_rules t c s),
        a_next_uuid := n + length (matching_rules t c s)\<rparr>) \<and> a_next_uuid s \<le> n \<and>
     map_of envelope ''data'' = Some (JObj (redact_dict payload))"
proof (cases "matching_rules t c s = []")
  case True
  then show ?thesis
    by (auto simp: webhook_rows_def bindE_def gets_def ret_def intro!: exI [of _ "[(''data'', JObj (redact_dict payload))]"]
        exI [of _ "a_next_uuid s"])
next
  case False
  then show ?thesis
    by (auto simp: webhook_rows_def bindE_def gets_def ret_def draw_uuid_eq enqueue_webhooks build_envelope_def
        intro!: exI [of _ "build_envelope (a_next_uuid s) (a_clock s) t ctx payload actor"] exI [of _ "Suc (a_next_uuid s)"])
qed

lemma enqueue_email_eq:
  "\<exists>rows n. enqueue_email_event cfg t c payload actor ctx s =
     (Inr (case rows of [] \<Rightarrow> None | r # _ \<Rightarrow> Some r), s\<lparr>a_outbox := a_outbox s @ rows, a_next_uuid := n\<rparr>) \<and>
     length rows = (if email_service_configured cfg then 1 else 0) \<and>
     (\<forall>row \<in> set rows. ob_company_id row = c \<and> ob_delivery_kind row = KIND_EMAIL \<and> ob_status row = PENDING \<and>
        ob_action_rule row = None)"
proof (cases "email_service_configured cfg")
  case False
  then show ?thesis
    by (auto simp: enqueue_email_event_def ret_def intro!: exI [of _ "[]"] exI [of _ "a_next_uuid s"])
next
  case True
  then show ?thesis
    by (auto simp: enqueue_email_event_def ret_def bindE_def draw_uuid_eq gets_def insert_outbox_def outbox_of_def
        intro!: exI [of _ "[outbox_of (a_next_uuid s) c None KIND_EMAIL t (build_email_event_body t c payload
          (str_uuid (a_next_uuid s)) actor ctx) (a_clock s)]"] exI [of _ "Suc (a_next_uuid s)"] actions.equality)
qed

text \<open>
  C24. An emitted event is logged once for its company, and queued once for each enabled webhook
  rule of that company and event type, in the order of the rules, with a payload free of
  secrets; one email row is queued when email-service is configured and the event is not for
  staff only. Nothing else is written, whoever the payload is about.
\<close>

theorem emission_exact:
  assumes "get_event_type reg t = Inr event" "d_emit_by_default event \<or> force"
  shows "\<exists>rows emails s'. emit_domain_event cfg reg t c payload company actor force s =
      (Inr (rows, map ob_id (rows @ emails)), s') \<and>
    a_outbox s' = a_outbox s @ rows @ emails \<and>
    map ob_action_rule rows = map (\<lambda>r. Some (r_id r)) (matching_rules t c s) \<and>
    set (matching_rules t c s) = {r \<in> set (a_rules s). r_company_id r = c \<and> r_event_type r = t \<and>
       r_enabled r \<and> r_action_kind r = ''webhook''} \<and> sorted (map r_id (matching_rules t c s)) \<and>
    length emails = (if email_service_configured cfg \<and> \<not> d_staff_only event then 1 else 0) \<and>
    (\<forall>row \<in> set (rows @ emails). ob_company_id row = c \<and> ob_status row = PENDING) \<and>
    (\<forall>row \<in> set rows. \<exists>envelope data. ob_envelope row = JObj envelope \<and>
       map_of envelope ''data'' = Some data \<and> clean data) \<and>
    (\<exists>entry. a_log s' = a_log s @ [entry] \<and> ev_company_id entry = Some c \<and> ev_event_type entry = t) \<and>
    a_rules s' = a_rules s \<and> a_attempts s' = a_attempts s"
proof -
  let ?ctx = "case company of Some x \<Rightarrow> x | None \<Rightarrow> company_context_from_id c [] []"
  obtain entry s1 where rec: "record_event t c payload actor s = (Inr entry, s1)"
    and entry: "a_log s1 = a_log s @ [entry]" "ev_company_id entry = Some c" "ev_event_type entry = t"
    and same: "a_outbox s1 = a_outbox s" "a_rules s1 = a_rules s" "a_attempts s1 = a_attempts s"
    by (simp add: record_event_def Let_def)
  have rules: "matching_rules t c s1 = matching_rules t c s"
    by (simp add: matching_rules_def same)
  obtain envelope n where w: "webhook_rows t c payload actor ?ctx s1 =
     (Inr (rows_for c t envelope (a_clock s1) n (matching_rules t c s1)),
      s1\<lparr>a_outbox := a_outbox s1 @ rows_for c t envelope (a_clock s1) n (matching_rules t c s1),
        a_next_uuid := n + length (matching_rules t c s1)\<rparr>)"
    and data: "map_of envelope ''data'' = Some (JObj (redact_dict payload))"
    using webhook_rows_eq [of t c payload actor ?ctx s1] by blast
  let ?rows = "rows_for c t envelope (a_clock s1) n (matching_rules t c s1)"
  let ?s2 = "s1\<lparr>a_outbox := a_outbox s1 @ ?rows, a_next_uuid := n + length (matching_rules t c s1)\<rparr>"
  obtain emails m where e: "(if d_staff_only event then ret None
       else enqueue_email_event cfg t c payload actor ?ctx) ?s2 =
     (Inr (case emails of [] \<Rightarrow> None | r # _ \<Rightarrow> Some r), ?s2\<lparr>a_outbox := a_outbox ?s2 @ emails, a_next_uuid := m\<rparr>)"
    and len: "length emails = (if email_service_configured cfg \<and> \<not> d_staff_only event then 1 else 0)"
    and rows: "\<forall>row \<in> set emails. ob_company_id row = c \<and> ob_status row = PENDING"
  proof (cases "d_staff_only event")
    case True
    then show ?thesis by (intro that [of "[]" "a_next_uuid ?s2"]) (simp_all add: ret_def)
  next
    case False
    then show ?thesis using enqueue_email_eq [of cfg t c payload actor ?ctx ?s2] that by auto
  qed
  have ids: "map ob_id (case (case emails of [] \<Rightarrow> None | r # _ \<Rightarrow> Some r) of None \<Rightarrow> [] | Some r \<Rightarrow> [r]) = map ob_id emails"
    using len by (cases emails) (auto split: if_splits)
  have run: "emit_domain_event cfg reg t c payload company actor force s =
      (Inr (?rows, map ob_id (?rows @ emails)), ?s2\<lparr>a_outbox := a_outbox ?s2 @ emails, a_next_uuid := m\<rparr>)"
    using assms w e ids by (auto simp: emit_domain_event_def bindE_def rec ret_def Let_def)
  show ?thesis
    unfolding run using rows_for_facts(1) [of c t envelope "a_clock s1" n "matching_rules t c s1"] rows_for_facts(2) len rows data redact_dict_clean
    by (auto simp: rules entry same set_matching_rules sorted_matching_rules)
qed

definition sample_rule :: action_rule where
  "sample_rule = \<lparr>r_id = 1, r_company_id = 7, r_name = ''hook'', r_description = [],
     r_event_type = ''storage.object.deleted'', r_enabled = True, r_action_kind = ''webhook'',
     r_config = [(''url'', JStr ''https://hooks.example.com/x''), (''secret'', JStr ''s'')],
     r_created_at = 0, r_updated_at = 0\<rparr>"

lemma emission_exact_witness:
  "\<exists>rows emails s'. emit_domain_event sample_cfg REGISTRATIONS ''storage.object.deleted'' 7 [] None None False
      (empty_actions\<lparr>a_rules := [sample_rule, sample_rule\<lparr>r_id := 2, r_company_id := 8\<rparr>]\<rparr>) =
      (Inr (rows, map ob_id (rows @ emails)), s') \<and> map ob_action_rule rows = [Some 1] \<and> length emails = 1"
proof -
  have reg: "get_event_type REGISTRATIONS ''storage.object.deleted'' =
      Inr (domain_event ''storage.object.deleted'' ''Object deleted'' DELETED_FIELDS True False)"
    by (simp add: get_event_type_def REGISTRATIONS_def domain_event_def)
  have key: "email_service_configured sample_cfg" by code_simp
  have rules: "matching_rules ''storage.object.deleted'' 7
      (empty_actions\<lparr>a_rules := [sample_rule, sample_rule\<lparr>r_id := 2, r_company_id := 8\<rparr>]\<rparr>) = [sample_rule]"
    by (simp add: matching_rules_def sample_rule_def)
  show ?thesis
    using emission_exact [OF reg, of False sample_cfg 7 "[]" None None
        "empty_actions\<lparr>a_rules := [sample_rule, sample_rule\<lparr>r_id := 2, r_company_id := 8\<rparr>]\<rparr>"] key
    unfolding rules by (auto simp: domain_event_def sample_rule_def)
qed

end
