(* ===== verification/Retention.thy ===== *)
theory Retention
  imports Emission
begin

text \<open>
  \<open>apps/actions/retention.py\<close>: event log rows and finished deliveries older than the retention
  period are deleted in batches. The deadline is read from a monotonic clock before each batch;
  \<open>turns\<close> is the number of batches it allows for a target, and no deadline is \<open>None\<close>. The purge of job
  runs that follows is in Job_Runs.
\<close>

section \<open>What expires\<close>

datatype purge_target = EVENTS | DELIVERIES DeliveryKind

definition PURGE_TARGETS :: "purge_target list" where
  "PURGE_TARGETS = [EVENTS, DELIVERIES KIND_WEBHOOK, DELIVERIES KIND_EMAIL]"

definition retention_days :: "actions_settings \<Rightarrow> int" where
  "retention_days cfg = max 1 (EVENT_LOG_RETENTION_DAYS cfg)"

definition finished_delivery :: "DeliveryKind \<Rightarrow> outbox_row \<Rightarrow> bool" where
  "finished_delivery kind row \<longleftrightarrow> ob_status row \<in> {DELIVERED, DEAD} \<and> ob_delivery_kind row = kind"

text \<open>The primary keys of the rows a target selects, oldest insertion first.\<close>

definition target_ids :: "purge_target \<Rightarrow> int \<Rightarrow> actions \<Rightarrow> int list" where
  "target_ids target cutoff s =
     (case target of
        EVENTS \<Rightarrow> map ev_id (filter (\<lambda>e. ev_created_at e < cutoff) (a_log s))
      | DELIVERIES kind \<Rightarrow> map (\<lambda>r. int (ob_id r))
          (filter (\<lambda>r. finished_delivery kind r \<and> ob_created_at r < cutoff) (a_outbox s)))"

definition delete_target :: "purge_target \<Rightarrow> int list \<Rightarrow> actions \<Rightarrow> actions" where
  "delete_target target ids s =
     (case target of
        EVENTS \<Rightarrow> s\<lparr>a_log := delete_where (\<lambda>e. ev_id e \<in> set ids) (a_log s)\<rparr>
      | DELIVERIES kind \<Rightarrow> delete_outbox (\<lambda>r. int (ob_id r) \<in> set ids) s)"

lemma target_ids_delete:
  "target_ids t cutoff (delete_target t ids s) = filter (\<lambda>i. i \<notin> set ids) (target_ids t cutoff s)"
  by (cases t) (auto simp: target_ids_def delete_target_def delete_outbox_def Let_def delete_where_def
      filter_map o_def conj_ac)

section \<open>The batches\<close>

function delete_in_batches ::
  "purge_target \<Rightarrow> int \<Rightarrow> nat \<Rightarrow> nat option \<Rightarrow> actions \<Rightarrow> (nat \<times> bool) \<times> actions" where
  "delete_in_batches target cutoff batch_size turns s =
     (if turns = Some 0 then ((0, False), s)
      else
        let ids = take batch_size (target_ids target cutoff s) in
        if ids = [] then ((0, True), s)
        else
          let ((deleted, finished), s') =
            delete_in_batches target cutoff batch_size (map_option (\<lambda>n. n - 1) turns) (delete_target target ids s) in
          ((length ids + deleted, finished), s'))"
  by pat_completeness auto

termination
proof (relation "measure (\<lambda>(target, cutoff, batch_size, turns, s). length (target_ids target cutoff s))", goal_cases)
  case (2 target cutoff batch_size turns s ids)
  then have "hd ids \<in> set (target_ids target cutoff s)" "hd ids \<in> set ids"
    using set_take_subset by (fastforce dest: hd_in_set)+
  then have "length (filter (\<lambda>i. i \<notin> set ids) (target_ids target cutoff s)) < length (target_ids target cutoff s)"
    by (intro length_filter_less) auto
  then show ?case by (simp add: target_ids_delete)
qed simp

declare delete_in_batches.simps [simp del]

record purge_stats =
  ps_deleted :: "(purge_target \<times> nat) list"
  ps_complete :: bool

fun purge_targets ::
  "int \<Rightarrow> nat \<Rightarrow> (purge_target \<Rightarrow> nat option) \<Rightarrow> purge_target list \<Rightarrow> actions \<Rightarrow> ((purge_target \<times> nat) list \<times> bool) \<times> actions" where
  "purge_targets cutoff batch_size turns [] s = (([], True), s)"
| "purge_targets cutoff batch_size turns (t # ts) s =
     (let ((deleted, finished), s1) = delete_in_batches t cutoff batch_size (turns t) s in
      if \<not> finished then (([(t, deleted)], False), s1)
      else let ((rest, complete), s2) = purge_targets cutoff batch_size turns ts s1 in
        (((t, deleted) # rest, complete), s2))"

definition cutoff_at :: "actions_settings \<Rightarrow> int \<Rightarrow> int" where
  "cutoff_at cfg now = now - retention_days cfg * day_microseconds"

definition purge_expired_data ::
  "actions_settings \<Rightarrow> nat \<Rightarrow> (purge_target \<Rightarrow> nat option) \<Rightarrow> bool \<Rightarrow> actions \<Rightarrow> purge_stats \<times> actions" where
  "purge_expired_data cfg batch_size turns dry_run s =
     (let cutoff = cutoff_at cfg (a_clock s) in
      if dry_run
      then (\<lparr>ps_deleted = map (\<lambda>t. (t, length (target_ids t cutoff s))) PURGE_TARGETS, ps_complete = True\<rparr>, s)
      else let ((deleted, complete), s') = purge_targets cutoff batch_size turns PURGE_TARGETS s in
        (\<lparr>ps_deleted = deleted, ps_complete = complete\<rparr>, s'))"

definition retention_status :: "actions_settings \<Rightarrow> int \<Rightarrow> actions \<Rightarrow> dict" where
  "retention_status cfg company_id s =
     (let times = map ev_created_at (filter (\<lambda>e. ev_company_id e = Some company_id) (a_log s)) in
      [(''data_retention_days'', JInt (retention_days cfg)),
       (''oldest_event_at'', if times = [] then JNull else JStr (iso_utc (Min (set times)))),
       (''stale_events'', JBool (times \<noteq> [] \<and> Min (set times) < cutoff_at cfg (a_clock s) - day_microseconds))])"

section \<open>The purge ends and deletes exactly what has expired\<close>

text \<open>What a complete purge of a target leaves.\<close>

definition without_target :: "purge_target \<Rightarrow> int \<Rightarrow> actions \<Rightarrow> actions" where
  "without_target target cutoff s =
     (case target of
        EVENTS \<Rightarrow> s\<lparr>a_log := delete_where (\<lambda>e. ev_created_at e < cutoff) (a_log s)\<rparr>
      | DELIVERIES kind \<Rightarrow> delete_outbox (\<lambda>r. finished_delivery kind r \<and> ob_created_at r < cutoff) s)"

definition keys_ok :: "actions \<Rightarrow> bool" where
  "keys_ok s \<longleftrightarrow> distinct (map ev_id (a_log s)) \<and> distinct (map ob_id (a_outbox s))"

lemma keys_ok_delete: "keys_ok s \<Longrightarrow> keys_ok (delete_target t ids s)"
  by (cases t) (simp_all add: keys_ok_def delete_target_def delete_outbox_def Let_def distinct_delete_where)

lemma delete_where_delete:
  "delete_where Q (delete_where P rs) = delete_where (\<lambda>r. P r \<or> Q r) rs"
  by (simp add: delete_where_def conj_commute)

lemma delete_where_cong: "(\<And>r. r \<in> set rs \<Longrightarrow> P r = Q r) \<Longrightarrow> delete_where P rs = delete_where Q rs"
  unfolding delete_where_def by (rule filter_cong) auto

lemma key_selected:
  assumes "distinct (map k rs)" "set ids \<subseteq> k ` {r \<in> set rs. P r}" "r \<in> set rs" "k r \<in> set ids"
  shows "P r"
proof -
  obtain x where "x \<in> set rs" "P x" "k x = k r" using assms(2,4) by auto
  then show ?thesis using assms(1,3) by (auto simp: distinct_map inj_on_def)
qed

lemma delete_outbox_absorb:
  assumes "\<And>r. r \<in> set (a_outbox s) \<Longrightarrow> P r \<Longrightarrow> Q r"
  shows "delete_outbox Q (delete_outbox P s) = delete_outbox Q s"
proof -
  have outbox: "delete_where Q (delete_where P (a_outbox s)) = delete_where Q (a_outbox s)"
    unfolding delete_where_delete using assms by (intro delete_where_cong) blast
  have "set (filter P (a_outbox s)) \<union> set (filter Q (delete_where P (a_outbox s))) = set (filter Q (a_outbox s))"
    using assms by auto
  then have "x \<in> ob_id ` set (filter P (a_outbox s)) \<or> x \<in> ob_id ` set (filter Q (delete_where P (a_outbox s))) \<longleftrightarrow>
      x \<in> ob_id ` set (filter Q (a_outbox s))" for x
    by (metis Un_iff image_Un)
  then have "delete_where (\<lambda>a. at_outbox a \<in> ob_id ` set (filter Q (delete_where P (a_outbox s))))
      (delete_where (\<lambda>a. at_outbox a \<in> ob_id ` set (filter P (a_outbox s))) (a_attempts s)) =
    delete_where (\<lambda>a. at_outbox a \<in> ob_id ` set (filter Q (a_outbox s))) (a_attempts s)"
    unfolding delete_where_delete by (rule delete_where_cong)
  then show ?thesis using outbox by (simp add: delete_outbox_def Let_def)
qed

lemma without_after_batch:
  assumes "keys_ok s" "set ids \<subseteq> set (target_ids t cutoff s)"
  shows "without_target t cutoff (delete_target t ids s) = without_target t cutoff s"
proof (cases t)
  case EVENTS
  have ids: "set ids \<subseteq> ev_id ` {e \<in> set (a_log s). ev_created_at e < cutoff}"
    using assms(2) by (simp add: EVENTS target_ids_def)
  have keys: "distinct (map ev_id (a_log s))" using assms(1) by (simp add: keys_ok_def)
  have "ev_created_at e < cutoff" if "e \<in> set (a_log s)" "ev_id e \<in> set ids" for e
    by (rule key_selected [OF keys ids that])
  then have "delete_where (\<lambda>e. ev_created_at e < cutoff) (delete_where (\<lambda>e. ev_id e \<in> set ids) (a_log s)) =
      delete_where (\<lambda>e. ev_created_at e < cutoff) (a_log s)"
    unfolding delete_where_delete by (intro delete_where_cong) blast
  then show ?thesis by (simp add: EVENTS without_target_def delete_target_def)
next
  case (DELIVERIES kind)
  let ?P = "\<lambda>r. finished_delivery kind r \<and> ob_created_at r < cutoff"
  have ids: "set ids \<subseteq> (\<lambda>r. int (ob_id r)) ` {r \<in> set (a_outbox s). ?P r}"
    using assms(2) by (simp add: DELIVERIES target_ids_def)
  have keys: "distinct (map (\<lambda>r. int (ob_id r)) (a_outbox s))"
    using assms(1) by (auto simp: keys_ok_def distinct_map inj_on_def)
  have "?P r" if "r \<in> set (a_outbox s)" "int (ob_id r) \<in> set ids" for r
    by (rule key_selected [OF keys ids that])
  then show ?thesis
    by (simp add: DELIVERIES without_target_def delete_target_def delete_outbox_absorb)
qed

lemma target_ids_Nil: "target_ids t cutoff s = [] \<Longrightarrow> without_target t cutoff s = s"
proof (cases t)
  case EVENTS
  assume "target_ids t cutoff s = []"
  then show ?thesis
    using EVENTS by (auto simp: target_ids_def without_target_def delete_where_def filter_empty_conv filter_id_conv)
next
  case (DELIVERIES kind)
  assume "target_ids t cutoff s = []"
  then have "filter (\<lambda>r. finished_delivery kind r \<and> ob_created_at r < cutoff) (a_outbox s) = []"
    using DELIVERIES by (simp add: target_ids_def)
  then show ?thesis
    using DELIVERIES by (auto simp: without_target_def delete_outbox_def delete_where_def filter_empty_conv filter_id_conv)
qed

lemma filter_drop_taken:
  assumes "distinct xs"
  shows "filter (\<lambda>x. x \<notin> set (take n xs)) xs = drop n xs"
proof -
  let ?P = "\<lambda>x. x \<notin> set (take n xs)"
  have "filter ?P (take n xs @ drop n xs) = filter ?P (drop n xs)" by (simp only: filter_append) simp
  moreover have "filter ?P (drop n xs) = drop n xs"
    using set_take_disj_set_drop_if_distinct [OF assms, of n n] by (auto simp: filter_id_conv)
  ultimately show ?thesis by (simp only: append_take_drop_id)
qed

lemma delete_in_batches_complete:
  "0 < batch \<Longrightarrow> keys_ok s \<Longrightarrow> turns = None \<Longrightarrow>
     delete_in_batches t cutoff batch turns s = ((length (target_ids t cutoff s), True), without_target t cutoff s)"
proof (induction t cutoff batch turns s rule: delete_in_batches.induct)
  case (1 t cutoff batch turns s)
  let ?ids = "take batch (target_ids t cutoff s)"
  show ?case
  proof (cases "target_ids t cutoff s = []")
    case True
    then show ?thesis using 1(4) by (subst delete_in_batches.simps) (simp add: target_ids_Nil)
  next
    case False
    let ?s = "delete_target t ?ids s"
    have rest: "target_ids t cutoff ?s = drop batch (target_ids t cutoff s)"
    proof -
      have d: "distinct (target_ids t cutoff s)"
        using 1(3) by (cases t) (auto simp: target_ids_def keys_ok_def distinct_map inj_on_def)
      then show ?thesis by (simp add: target_ids_delete filter_drop_taken)
    qed
    have "delete_in_batches t cutoff batch None ?s =
        ((length (target_ids t cutoff ?s), True), without_target t cutoff ?s)"
      using 1 False keys_ok_delete by simp
    moreover have "without_target t cutoff ?s = without_target t cutoff s"
      using 1(3) by (intro without_after_batch set_take_subset)
    ultimately show ?thesis
      using False 1(2,4) by (subst delete_in_batches.simps) (simp add: rest Let_def)
  qed
qed

lemma keys_ok_without: "keys_ok s \<Longrightarrow> keys_ok (without_target t cutoff s)"
  by (cases t) (simp_all add: keys_ok_def without_target_def delete_outbox_def Let_def distinct_delete_where)

lemma purge_step:
  assumes "0 < batch" "keys_ok s"
  shows "purge_targets cutoff batch (\<lambda>_. None) (t # ts) s =
    (let ((rest, complete), s2) = purge_targets cutoff batch (\<lambda>_. None) ts (without_target t cutoff s) in
     (((t, length (target_ids t cutoff s)) # rest, complete), s2))"
  by (simp add: delete_in_batches_complete [OF assms refl])

text \<open>The purge of one target does not change what another one selects.\<close>

lemma target_ids_other:
  assumes "t \<noteq> u"
  shows "target_ids t cutoff (without_target u cutoff s) = target_ids t cutoff s"
proof (cases t)
  case EVENTS
  then show ?thesis
    using assms by (cases u) (simp_all add: target_ids_def without_target_def delete_outbox_def Let_def)
next
  case (DELIVERIES kind)
  show ?thesis
  proof (cases u)
    case EVENTS
    then show ?thesis by (simp add: DELIVERIES target_ids_def without_target_def)
  next
    case (DELIVERIES other)
    then have "kind \<noteq> other" using assms \<open>t = DELIVERIES kind\<close> by simp
    then have "filter (\<lambda>r. finished_delivery kind r \<and> ob_created_at r < cutoff)
        (delete_where (\<lambda>r. finished_delivery other r \<and> ob_created_at r < cutoff) (a_outbox s)) =
      filter (\<lambda>r. finished_delivery kind r \<and> ob_created_at r < cutoff) (a_outbox s)"
      by (auto simp: delete_where_def finished_delivery_def intro!: filter_cong)
    then show ?thesis
      by (simp add: DELIVERIES \<open>t = DELIVERIES kind\<close> target_ids_def without_target_def delete_outbox_def Let_def)
  qed
qed


definition old_actions :: actions where
  "old_actions = empty_actions\<lparr>a_clock := 90 * day_microseconds,
     a_outbox := [outbox_of 1 7 None KIND_EMAIL ''storage.object.deleted'' [] 0,
       (outbox_of 2 7 None KIND_WEBHOOK ''storage.object.deleted'' [] 0)\<lparr>ob_status := DEAD\<rparr>]\<rparr>"


end
