(* ===== verification/Task_Lock.thy ===== *)
theory Task_Lock
  imports Prelude
begin

text \<open>
  \<open>config/task_lock.py\<close>: the Redis lock of the scheduled tasks. Redis is a parameter, a record of
  the commands the code sends: \<open>SET key token NX EX ttl\<close>, the release script and the heartbeat.
  \<open>redis_laws\<close> states their documented behaviour; a command that fails with an error may or may not have
  been executed. \<open>lock_step\<close> interleaves any number of runs, \<open>lock_ok\<close> is the invariant: a run
  that has not outlived its time to live holds its key. Times are in seconds.
\<close>

section \<open>Redis\<close>

text \<open>
  \<open>rd_get key now s\<close> is what GET would answer at time \<open>now\<close>. The other commands return
  \<open>Inl ()\<close> for an error of Redis.
\<close>

record 's redis =
  rd_get :: "string \<Rightarrow> int \<Rightarrow> 's \<Rightarrow> string option"
  rd_set_nx :: "string \<Rightarrow> string \<Rightarrow> int \<Rightarrow> int \<Rightarrow> 's \<Rightarrow> (unit + bool) \<times> 's"
  rd_delete :: "string \<Rightarrow> int \<Rightarrow> 's \<Rightarrow> (unit + unit) \<times> 's"

definition untouched :: "'s redis \<Rightarrow> string \<Rightarrow> int \<Rightarrow> 's \<Rightarrow> 's \<Rightarrow> bool" where
  "untouched r key now s s' \<longleftrightarrow> (\<forall>k t. k \<noteq> key \<longrightarrow> now \<le> t \<longrightarrow> rd_get r k t s' = rd_get r k t s)"

definition has_set :: "'s redis \<Rightarrow> string \<Rightarrow> string \<Rightarrow> int \<Rightarrow> int \<Rightarrow> 's \<Rightarrow> 's \<Rightarrow> bool" where
  "has_set r key token ttl now s s' \<longleftrightarrow>
     rd_get r key now s = None \<and> untouched r key now s s' \<and>
     (\<forall>t \<ge> now. rd_get r key t s' = (if t < now + ttl then Some token else None))"

definition has_deleted :: "'s redis \<Rightarrow> string \<Rightarrow> int \<Rightarrow> 's \<Rightarrow> 's \<Rightarrow> bool" where
  "has_deleted r key now s s' \<longleftrightarrow> untouched r key now s s' \<and> (\<forall>t \<ge> now. rd_get r key t s' = None)"

definition redis_laws :: "'s redis \<Rightarrow> bool" where
  "redis_laws r \<longleftrightarrow>
     (\<forall>key token ttl now s. case rd_set_nx r key token ttl now s of
        (Inr True, s') \<Rightarrow> has_set r key token ttl now s s'
      | (Inr False, s') \<Rightarrow> s' = s \<and> rd_get r key now s \<noteq> None
      | (Inl _, s') \<Rightarrow> s' = s \<or> has_set r key token ttl now s s') \<and>
     (\<forall>key now s. case rd_delete r key now s of
        (Inr _, s') \<Rightarrow> has_deleted r key now s s'
      | (Inl _, s') \<Rightarrow> s' = s \<or> has_deleted r key now s s')"

section \<open>The lock\<close>

text \<open>\<open>_RELEASE_SCRIPT\<close>, which Redis runs as one command: delete the key if it holds our token.\<close>

definition release_script :: "'s redis \<Rightarrow> string \<Rightarrow> string \<Rightarrow> int \<Rightarrow> 's \<Rightarrow> (unit + int) \<times> 's" where
  "release_script r key token now s =
     (if rd_get r key now s = Some token
      then (case rd_delete r key now s of (Inl e, s') \<Rightarrow> (Inl e, s') | (Inr _, s') \<Rightarrow> (Inr 1, s'))
      else (Inr 0, s))"

definition lock_key :: "string \<Rightarrow> string \<Rightarrow> string" where
  "lock_key SCHEDULER_LOCK_PREFIX name = SCHEDULER_LOCK_PREFIX @ '':lock:'' @ name"

text \<open>\<open>task_lock\<close>, on entry and on exit; an error of the release is logged and the key expires.\<close>

definition acquire :: "'s redis \<Rightarrow> string \<Rightarrow> int \<Rightarrow> string \<Rightarrow> int \<Rightarrow> 's \<Rightarrow> (unit + bool) \<times> 's" where
  "acquire r key ttl token now s = rd_set_nx r key token (max 1 ttl) now s"

definition release :: "'s redis \<Rightarrow> string \<Rightarrow> string \<Rightarrow> int \<Rightarrow> 's \<Rightarrow> 's" where
  "release r key token now s = snd (release_script r key token now s)"

section \<open>Runs of many workers\<close>

text \<open>A run that holds the lock. Tokens are drawn from a supply that never repeats.\<close>

record holder =
  h_key :: string
  h_token :: nat
  h_until :: int

record 's plane =
  pl_redis :: 's
  pl_clock :: int
  pl_holders :: "holder list"
  pl_next_token :: nat

text \<open>
  A worker asks for the lock (and may be refused or get an error), a run ends and releases, a
  worker dies without releasing, time passes.
\<close>

inductive lock_step :: "'s redis \<Rightarrow> (nat \<Rightarrow> string) \<Rightarrow> 's plane \<Rightarrow> 's plane \<Rightarrow> bool" for r token where
  granted: "acquire r key ttl (token (pl_next_token p)) (pl_clock p) (pl_redis p) = (Inr True, s') \<Longrightarrow>
    lock_step r token p (p\<lparr>pl_redis := s', pl_next_token := Suc (pl_next_token p),
      pl_holders := \<lparr>h_key = key, h_token = pl_next_token p, h_until = pl_clock p + max 1 ttl\<rparr> # pl_holders p\<rparr>)"
| refused: "acquire r key ttl (token (pl_next_token p)) (pl_clock p) (pl_redis p) = (res, s') \<Longrightarrow> res \<noteq> Inr True \<Longrightarrow>
    lock_step r token p (p\<lparr>pl_redis := s', pl_next_token := Suc (pl_next_token p)\<rparr>)"
| released: "h \<in> set (pl_holders p) \<Longrightarrow>
    lock_step r token p (p\<lparr>pl_redis := release r (h_key h) (token (h_token h)) (pl_clock p) (pl_redis p),
      pl_holders := remove1 h (pl_holders p)\<rparr>)"
| died: "lock_step r token p (p\<lparr>pl_holders := remove1 h (pl_holders p)\<rparr>)"
| later: "0 \<le> d \<Longrightarrow> lock_step r token p (p\<lparr>pl_clock := pl_clock p + d\<rparr>)"

inductive lock_reaches :: "'s redis \<Rightarrow> (nat \<Rightarrow> string) \<Rightarrow> 's plane \<Rightarrow> bool" for r token where
  start: "pl_holders p = [] \<Longrightarrow> \<forall>k t. pl_clock p \<le> t \<longrightarrow> rd_get r k t (pl_redis p) = None \<Longrightarrow> lock_reaches r token p"
| step: "lock_reaches r token p \<Longrightarrow> lock_step r token p q \<Longrightarrow> lock_reaches r token q"

text \<open>What a key may hold: a token that was drawn; and a holder in time holds its key until then.\<close>

definition lock_ok :: "'s redis \<Rightarrow> (nat \<Rightarrow> string) \<Rightarrow> 's plane \<Rightarrow> bool" where
  "lock_ok r token p \<longleftrightarrow>
     (\<forall>k t v. pl_clock p \<le> t \<longrightarrow> rd_get r k t (pl_redis p) = Some v \<longrightarrow> (\<exists>n < pl_next_token p. v = token n)) \<and>
     (\<forall>h \<in> set (pl_holders p). h_token h < pl_next_token p \<and>
        (\<forall>t. pl_clock p \<le> t \<longrightarrow> t < h_until h \<longrightarrow> rd_get r (h_key h) t (pl_redis p) = Some (token (h_token h)))) \<and>
     distinct (map h_token (pl_holders p))"

lemma set_nx_law:
  assumes "redis_laws r" "rd_set_nx r key tok ttl now s = (res, s')"
  shows "case res of Inr True \<Rightarrow> has_set r key tok ttl now s s'
      | Inr False \<Rightarrow> s' = s \<and> rd_get r key now s \<noteq> None
      | Inl _ \<Rightarrow> s' = s \<or> has_set r key tok ttl now s s'"
proof -
  have "case rd_set_nx r key tok ttl now s of (Inr True, s') \<Rightarrow> has_set r key tok ttl now s s'
      | (Inr False, s') \<Rightarrow> s' = s \<and> rd_get r key now s \<noteq> None
      | (Inl _, s') \<Rightarrow> s' = s \<or> has_set r key tok ttl now s s'"
    by (rule assms(1) [unfolded redis_laws_def, THEN conjunct1, THEN spec, THEN spec, THEN spec, THEN spec, THEN spec])
  then show ?thesis unfolding assms(2) by (simp split: sum.splits bool.splits)
qed

lemma delete_law:
  assumes "redis_laws r" "rd_delete r key now s = (res, s')"
  shows "s' = s \<or> has_deleted r key now s s'"
proof -
  have "case rd_delete r key now s of (Inr _, s') \<Rightarrow> has_deleted r key now s s'
      | (Inl _, s') \<Rightarrow> s' = s \<or> has_deleted r key now s s'"
    by (rule assms(1) [unfolded redis_laws_def, THEN conjunct2, THEN spec, THEN spec, THEN spec])
  then show ?thesis unfolding assms(2) by (simp split: sum.splits)
qed

lemma acquired:
  assumes "redis_laws r" "acquire r key ttl tok now s = (res, s')"
  shows "s' = s \<and> res \<noteq> Inr True \<or> has_set r key tok (max 1 ttl) now s s'"
  using set_nx_law [OF assms(1) assms(2) [unfolded acquire_def]] by (auto split: sum.splits bool.splits)

lemma release_effect:
  assumes "redis_laws r" "s' = release r key tok now s"
  shows "s' = s \<or> rd_get r key now s = Some tok \<and> has_deleted r key now s s'"
  using delete_law [OF assms(1), of key now s] assms(2)
  by (auto simp: release_def release_script_def split: prod.splits sum.splits)

lemma set_get:
  assumes "has_set r key tok ttl now s s'" "now \<le> t"
  shows "rd_get r k t s' = (if k = key then if t < now + ttl then Some tok else None else rd_get r k t s)"
  using assms by (simp add: has_set_def untouched_def)

lemma deleted_get:
  assumes "has_deleted r key now s s'" "now \<le> t"
  shows "rd_get r k t s' = (if k = key then None else rd_get r k t s)"
  using assms by (simp add: has_deleted_def untouched_def)

lemma lock_ok_held:
  "lock_ok r token p \<Longrightarrow> h \<in> set (pl_holders p) \<Longrightarrow> pl_clock p \<le> t \<Longrightarrow> t < h_until h \<Longrightarrow>
   rd_get r (h_key h) t (pl_redis p) = Some (token (h_token h))"
  by (auto simp: lock_ok_def)

lemma lock_ok_drawn:
  "lock_ok r token p \<Longrightarrow> pl_clock p \<le> t \<Longrightarrow> rd_get r k t (pl_redis p) = Some v \<Longrightarrow> \<exists>n < pl_next_token p. v = token n"
  "lock_ok r token p \<Longrightarrow> h \<in> set (pl_holders p) \<Longrightarrow> h_token h < pl_next_token p"
  "lock_ok r token p \<Longrightarrow> distinct (map h_token (pl_holders p))"
  by (simp_all add: lock_ok_def)

lemma lock_okI:
  assumes "\<And>k t v. pl_clock p \<le> t \<Longrightarrow> rd_get r k t (pl_redis p) = Some v \<Longrightarrow> \<exists>n < pl_next_token p. v = token n"
    and "\<And>h. h \<in> set (pl_holders p) \<Longrightarrow> h_token h < pl_next_token p"
    and "\<And>h t. h \<in> set (pl_holders p) \<Longrightarrow> pl_clock p \<le> t \<Longrightarrow> t < h_until h \<Longrightarrow>
       rd_get r (h_key h) t (pl_redis p) = Some (token (h_token h))"
    and "distinct (map h_token (pl_holders p))"
  shows "lock_ok r token p"
  using assms by (simp add: lock_ok_def)

lemma lock_ok_fewer:
  assumes "lock_ok r token p" "set hs \<subseteq> set (pl_holders p)" "distinct (map h_token hs)" "pl_next_token p \<le> n" "pl_clock p \<le> c"
  shows "lock_ok r token (p\<lparr>pl_holders := hs, pl_next_token := n, pl_clock := c\<rparr>)"
proof (rule lock_okI)
  fix k t v assume "pl_clock (p\<lparr>pl_holders := hs, pl_next_token := n, pl_clock := c\<rparr>) \<le> t"
    "rd_get r k t (pl_redis (p\<lparr>pl_holders := hs, pl_next_token := n, pl_clock := c\<rparr>)) = Some v"
  then obtain m where "m < pl_next_token p" "v = token m" using lock_ok_drawn(1) [OF assms(1), of t k v] assms(5) by auto
  then show "\<exists>m < pl_next_token (p\<lparr>pl_holders := hs, pl_next_token := n, pl_clock := c\<rparr>). v = token m"
    using assms(4) by (intro exI [of _ m]) simp
next
  fix h assume "h \<in> set (pl_holders (p\<lparr>pl_holders := hs, pl_next_token := n, pl_clock := c\<rparr>))"
  then have h: "h \<in> set (pl_holders p)" using assms(2) by auto
  then show "h_token h < pl_next_token (p\<lparr>pl_holders := hs, pl_next_token := n, pl_clock := c\<rparr>)"
    using lock_ok_drawn(2) [OF assms(1) h] assms(4) by simp
  fix t assume "pl_clock (p\<lparr>pl_holders := hs, pl_next_token := n, pl_clock := c\<rparr>) \<le> t" "t < h_until h"
  then show "rd_get r (h_key h) t (pl_redis (p\<lparr>pl_holders := hs, pl_next_token := n, pl_clock := c\<rparr>)) = Some (token (h_token h))"
    using lock_ok_held [OF assms(1) h, of t] assms(5) by simp
qed (simp add: assms(3))

lemma lock_ok_set:
  assumes "lock_ok r token p" "has_set r key (token (pl_next_token p)) ttl (pl_clock p) (pl_redis p) s'" "0 < ttl"
  shows "lock_ok r token (p\<lparr>pl_redis := s', pl_next_token := Suc (pl_next_token p),
      pl_holders := \<lparr>h_key = key, h_token = pl_next_token p, h_until = pl_clock p + ttl\<rparr> # pl_holders p\<rparr>)"
    (is "lock_ok r token ?q")
proof (rule lock_okI)
  have free: "rd_get r key (pl_clock p) (pl_redis p) = None" using assms(2) by (simp add: has_set_def)
  note get = set_get [OF assms(2)]
  show "\<exists>n < pl_next_token ?q. v = token n" if t: "pl_clock ?q \<le> t" and v: "rd_get r k t (pl_redis ?q) = Some v" for k t v
  proof (cases "k = key")
    case True
    then have "v = token (pl_next_token p)" using t v get [of t k] by (simp split: if_splits)
    then show ?thesis by auto
  next
    case False
    then have "rd_get r k t (pl_redis p) = Some v" using t v get [of t k] by simp
    then obtain n where "n < pl_next_token p" "v = token n" using lock_ok_drawn(1) [OF assms(1), of t k v] t by auto
    then show ?thesis by (auto intro: less_SucI)
  qed
  show "h_token h < pl_next_token ?q" if "h \<in> set (pl_holders ?q)" for h
    using that lock_ok_drawn(2) [OF assms(1), of h] by auto
  show "rd_get r (h_key h) t (pl_redis ?q) = Some (token (h_token h))"
    if h: "h \<in> set (pl_holders ?q)" and t: "pl_clock ?q \<le> t" "t < h_until h" for h t
  proof (cases "h \<in> set (pl_holders p)")
    case True
    then have "h_key h \<noteq> key" using free lock_ok_held [OF assms(1), of h "pl_clock p"] t by auto
    then show ?thesis using get [of t "h_key h"] lock_ok_held [OF assms(1) True] t by simp
  next
    case False
    then show ?thesis using h t get [of t key] by auto
  qed
  have "pl_next_token p \<notin> h_token ` set (pl_holders p)" using lock_ok_drawn(2) [OF assms(1)] by fastforce
  then show "distinct (map h_token (pl_holders ?q))" using lock_ok_drawn(3) [OF assms(1)] by simp
qed

lemma distinct_remove1_key: "distinct (map f xs) \<Longrightarrow> distinct (map f (remove1 x xs))"
  by (simp add: distinct_map inj_on_diff)

lemma lock_ok_released:
  assumes "redis_laws r" "inj token" "lock_ok r token p" "h \<in> set (pl_holders p)"
    and "has_deleted r (h_key h) (pl_clock p) (pl_redis p) s'"
    and "rd_get r (h_key h) (pl_clock p) (pl_redis p) = Some (token (h_token h))"
  shows "lock_ok r token (p\<lparr>pl_redis := s', pl_holders := remove1 h (pl_holders p)\<rparr>)" (is "lock_ok r token ?q")
proof (rule lock_okI)
  note get = deleted_get [OF assms(5)]
  show "\<exists>n < pl_next_token ?q. v = token n" if "pl_clock ?q \<le> t" "rd_get r k t (pl_redis ?q) = Some v" for k t v
    using that get [of t k] lock_ok_drawn(1) [OF assms(3), of t k v] by (simp split: if_splits)
  show "h_token g < pl_next_token ?q" if "g \<in> set (pl_holders ?q)" for g
    using that lock_ok_drawn(2) [OF assms(3), of g] set_remove1_subset by fastforce
  show "distinct (map h_token (pl_holders ?q))" using lock_ok_drawn(3) [OF assms(3)] by (simp add: distinct_remove1_key)
  show "rd_get r (h_key g) t (pl_redis ?q) = Some (token (h_token g))"
    if g: "g \<in> set (pl_holders ?q)" and t: "pl_clock ?q \<le> t" "t < h_until g" for g t
  proof -
    have in_p: "g \<in> set (pl_holders p)" using g set_remove1_subset by fastforce
    have keys: "distinct (map h_token (pl_holders p))" by (rule lock_ok_drawn(3) [OF assms(3)])
    have "h_key g \<noteq> h_key h"
    proof
      assume "h_key g = h_key h"
      then have "token (h_token g) = token (h_token h)"
        using lock_ok_held [OF assms(3) in_p, of "pl_clock p"] t assms(6) by simp
      then have "g = h" using distinct_key_unique [OF keys in_p assms(4)] assms(2) by (simp add: inj_eq)
      then show False using g keys by (simp add: distinct_map)
    qed
    then show ?thesis using get [of t "h_key g"] lock_ok_held [OF assms(3) in_p, of t] t by simp
  qed
qed

lemma lock_step_ok:
  assumes "redis_laws r" "inj token" "lock_step r token p q" "lock_ok r token p"
  shows "lock_ok r token q"
  using assms(3)
proof cases
  case (granted key ttl s')
  then have "has_set r key (token (pl_next_token p)) (max 1 ttl) (pl_clock p) (pl_redis p) s'"
    using acquired [OF assms(1) granted(2)] by simp
  then show ?thesis unfolding granted(1) by (rule lock_ok_set [OF assms(4)]) simp
next
  case (refused key ttl res s')
  then have "s' = pl_redis p \<or> has_set r key (token (pl_next_token p)) (max 1 ttl) (pl_clock p) (pl_redis p) s'"
    using acquired [OF assms(1) refused(2)] by auto
  then show ?thesis
  proof
    assume "s' = pl_redis p"
    then show ?thesis
      unfolding refused(1) using lock_ok_fewer [OF assms(4) subset_refl lock_ok_drawn(3) [OF assms(4)], of "Suc (pl_next_token p)" "pl_clock p"]
      by simp
  next
    assume set: "has_set r key (token (pl_next_token p)) (max 1 ttl) (pl_clock p) (pl_redis p) s'"
    have "0 < max 1 ttl" by simp
    note ok = lock_ok_set [OF assms(4) set this]
    have "lock_ok r token (p\<lparr>pl_redis := s', pl_next_token := Suc (pl_next_token p), pl_holders := pl_holders p\<rparr>)"
      using lock_ok_fewer [OF ok, of "pl_holders p" "Suc (pl_next_token p)" "pl_clock p"] lock_ok_drawn(3) [OF assms(4)] by (simp add: subset_insertI)
    then show ?thesis unfolding refused(1) by simp
  qed
next
  case (released h)
  let ?s = "release r (h_key h) (token (h_token h)) (pl_clock p) (pl_redis p)"
  note d = distinct_remove1_key [OF lock_ok_drawn(3) [OF assms(4)], of h]
  show ?thesis
  proof (cases "?s = pl_redis p")
    case True
    then show ?thesis
      unfolding released(1) using lock_ok_fewer [OF assms(4) set_remove1_subset d, of "pl_next_token p" "pl_clock p"] by simp
  next
    case False
    then show ?thesis
      unfolding released(1)
      using release_effect [OF assms(1) refl, of "h_key h" "token (h_token h)" "pl_clock p" "pl_redis p"] released(2)
      by (intro lock_ok_released [OF assms(1,2,4)]) auto
  qed
next
  case (died h)
  then show ?thesis
    using lock_ok_fewer [OF assms(4) set_remove1_subset distinct_remove1_key [OF lock_ok_drawn(3) [OF assms(4)]],
        of "pl_next_token p" "pl_clock p" h] by simp
next
  case (later d)
  then show ?thesis
    using lock_ok_fewer [OF assms(4) subset_refl lock_ok_drawn(3) [OF assms(4)], of "pl_next_token p" "pl_clock p + d"] by simp
qed

text \<open>
  C29. Two runs never hold the lock of a task at the same time, unless one of them has outlived its time
  to live: whatever workers ask for the lock, release it, die or get errors from Redis, and although a run
  that has outlived its time still releases at its end.
\<close>

theorem lock_exclusive:
  assumes "redis_laws r" "inj token" "lock_reaches r token p"
    and "g \<in> set (pl_holders p)" "h \<in> set (pl_holders p)" "h_key g = h_key h"
    and "pl_clock p < h_until g" "pl_clock p < h_until h"
  shows "g = h"
proof -
  have "lock_ok r token p" using assms(3)
  proof induction
    case (start p)
    then show ?case by (simp add: lock_ok_def)
  next
    case (step p q)
    then show ?case using lock_step_ok [OF assms(1,2)] by blast
  qed
  then have "rd_get r (h_key g) (pl_clock p) (pl_redis p) = Some (token (h_token g))"
    "rd_get r (h_key h) (pl_clock p) (pl_redis p) = Some (token (h_token h))" "distinct (map h_token (pl_holders p))"
    using lock_ok_held assms(4,5,7,8) by (blast, blast, simp add: lock_ok_def)
  then have "token (h_token g) = token (h_token h)" "distinct (map h_token (pl_holders p))"
    using assms(6) by simp_all
  then show ?thesis using distinct_key_unique [of h_token, OF _ assms(4,5)] assms(2) by (simp add: inj_eq)
qed

text \<open>Redis as a map from keys to values with the time they expire.\<close>

definition map_redis :: "(string \<Rightarrow> (string \<times> int) option) redis" where
  "map_redis = \<lparr>rd_get = (\<lambda>key now s. case s key of None \<Rightarrow> None | Some (v, till) \<Rightarrow> if now < till then Some v else None),
     rd_set_nx = (\<lambda>key v ttl now s.
       case s key of
         Some (_, till) \<Rightarrow> if now < till then (Inr False, s) else (Inr True, s(key := Some (v, now + ttl)))
       | None \<Rightarrow> (Inr True, s(key := Some (v, now + ttl)))),
     rd_delete = (\<lambda>key now s. (Inr (), s(key := None)))\<rparr>"

lemma map_redis_laws: "redis_laws map_redis"
  by (auto simp: redis_laws_def map_redis_def has_set_def has_deleted_def untouched_def split: option.splits)

definition retry_key :: string where
  "retry_key = lock_key ''storage'' ''retry_webhooks''"

definition two_runs :: "(string \<Rightarrow> (string \<times> int) option) plane" where
  "two_runs = \<lparr>pl_redis = [retry_key \<mapsto> (''b'', 241)], pl_clock = 121,
     pl_holders = [\<lparr>h_key = retry_key, h_token = 1, h_until = 241\<rparr>, \<lparr>h_key = retry_key, h_token = 0, h_until = 120\<rparr>],
     pl_next_token = 2\<rparr>"

lemma two_runs_reached: "lock_reaches map_redis (\<lambda>n. replicate n CHR ''b'') two_runs"
proof -
  let ?tok = "\<lambda>n. replicate n CHR ''b''"
  define p0 :: "(string \<Rightarrow> (string \<times> int) option) plane"
    where "p0 = \<lparr>pl_redis = Map.empty, pl_clock = 0, pl_holders = [], pl_next_token = 0\<rparr>"
  define p1 where "p1 = p0\<lparr>pl_redis := [retry_key \<mapsto> ([], 120)], pl_next_token := Suc (pl_next_token p0),
      pl_holders := \<lparr>h_key = retry_key, h_token = pl_next_token p0, h_until = pl_clock p0 + max 1 120\<rparr> # pl_holders p0\<rparr>"
  define p2 where "p2 = p1\<lparr>pl_clock := pl_clock p1 + 121\<rparr>"
  have "lock_reaches map_redis ?tok p0"
    by (rule lock_reaches.start) (simp_all add: p0_def map_redis_def)
  moreover have "lock_step map_redis ?tok p0 p1"
    unfolding p1_def by (rule lock_step.granted [of _ _ 120]) (simp add: p0_def acquire_def map_redis_def)
  moreover have "lock_step map_redis ?tok p1 p2"
    unfolding p2_def by (rule lock_step.later) simp
  moreover have "lock_step map_redis ?tok p2 (p2\<lparr>pl_redis := [retry_key \<mapsto> (''b'', 241)], pl_next_token := Suc (pl_next_token p2),
      pl_holders := \<lparr>h_key = retry_key, h_token = pl_next_token p2, h_until = pl_clock p2 + max 1 120\<rparr> # pl_holders p2\<rparr>)"
    by (rule lock_step.granted) (simp add: p2_def p1_def p0_def acquire_def map_redis_def)
  moreover have "p2\<lparr>pl_redis := [retry_key \<mapsto> (''b'', 241)], pl_next_token := Suc (pl_next_token p2),
      pl_holders := \<lparr>h_key = retry_key, h_token = pl_next_token p2, h_until = pl_clock p2 + max 1 120\<rparr> # pl_holders p2\<rparr> = two_runs"
    by (simp add: p2_def p1_def p0_def two_runs_def)
  ultimately show ?thesis by (metis lock_reaches.step)
qed

lemma lock_exclusive_witness: "\<not> pl_clock two_runs < h_until (last (pl_holders two_runs))"
proof
  let ?tok = "\<lambda>n. replicate n CHR ''b''"
  assume "pl_clock two_runs < h_until (last (pl_holders two_runs))"
  moreover have "inj ?tok" by (auto simp: inj_def)
  ultimately have "hd (pl_holders two_runs) = last (pl_holders two_runs)"
    by (intro lock_exclusive [OF map_redis_laws _ two_runs_reached]) (simp_all add: two_runs_def)
  then show False by (simp add: two_runs_def)
qed

end
