(* ===== verification/Job_Runs.thy ===== *)
theory Job_Runs
  imports Retention Task_Lock
begin

text \<open>
  \<open>apps/actions/scheduled_jobs.py\<close>, the management commands \<open>retry_webhooks\<close> and
  \<open>purge_expired_data\<close>, and \<open>apps/actions/tasks.py\<close>: recording the runs of the scheduled jobs, the
  counters and the health of a job. A run is two sequences of database writes with the
  work between them; the database may fail between any two writes (the first argument of
  \<open>run_writes\<close> is the number that succeed). Durations, host names and the text of error messages
  are left out.
\<close>

section \<open>Jobs\<close>

record job_spec =
  js_name :: string
  js_interval_seconds :: int
  js_overdue_after_seconds :: int
  js_max_runtime_seconds :: int
  js_item_kinds :: "string list"
  js_cron_minute :: "int option"

definition hour_microseconds :: int where "hour_microseconds = 3600000000"

definition next_after :: "job_spec \<Rightarrow> int \<Rightarrow> int" where
  "next_after spec moment =
     (case js_cron_minute spec of
        None \<Rightarrow> moment + 1000000 * js_interval_seconds spec
      | Some minute \<Rightarrow>
          (let candidate = moment - moment mod hour_microseconds + minute * 60000000 in
           if candidate \<le> moment then candidate + hour_microseconds else candidate))"

definition RETRY_WEBHOOKS :: job_spec where
  "RETRY_WEBHOOKS = \<lparr>js_name = ''retry_webhooks'', js_interval_seconds = 60, js_overdue_after_seconds = 180,
     js_max_runtime_seconds = 120,
     js_item_kinds = [''webhook_deliveries_attempted'', ''webhook_deliveries_succeeded'',
       ''webhook_deliveries_failed'', ''webhook_deliveries_given_up'', ''email_events_attempted'',
       ''email_events_succeeded'', ''email_events_failed'', ''email_events_given_up''],
     js_cron_minute = None\<rparr>"

definition PURGE_EXPIRED_DATA :: job_spec where
  "PURGE_EXPIRED_DATA = \<lparr>js_name = ''purge_expired_data'', js_interval_seconds = 3600,
     js_overdue_after_seconds = 8100, js_max_runtime_seconds = 900,
     js_item_kinds = [''events'', ''webhook_deliveries'', ''email_events'', ''scheduled_job_runs''],
     js_cron_minute = Some 17\<rparr>"

definition JOBS :: "job_spec list" where
  "JOBS = [RETRY_WEBHOOKS, PURGE_EXPIRED_DATA]"

definition get_job :: "string \<Rightarrow> job_spec option" where
  "get_job name = first_where (\<lambda>spec. js_name spec = name) JOBS"

section \<open>Errors\<close>

text \<open>The exceptions \<open>error_key_for\<close> tells apart, most specific class first.\<close>

datatype exn_family = Redis_Timeout | Redis_Error | Database_Error | Timeout_Error | Connection_Error
  | Gai_Failure | Requests_Timeout | Requests_Error | Other_Family

record job_error =
  je_family :: exn_family
  je_class :: string

datatype error_key = ERROR_DATABASE | ERROR_REDIS | ERROR_TIMEOUT | ERROR_NETWORK | ERROR_INTERRUPTED | ERROR_UNEXPECTED

definition error_key_for :: "job_error \<Rightarrow> error_key" where
  "error_key_for e =
     (case je_family e of
        Redis_Timeout \<Rightarrow> ERROR_TIMEOUT | Redis_Error \<Rightarrow> ERROR_REDIS | Database_Error \<Rightarrow> ERROR_DATABASE
      | Timeout_Error \<Rightarrow> ERROR_TIMEOUT | Connection_Error \<Rightarrow> ERROR_NETWORK | Gai_Failure \<Rightarrow> ERROR_NETWORK
      | Requests_Timeout \<Rightarrow> ERROR_TIMEOUT | Requests_Error \<Rightarrow> ERROR_NETWORK | Other_Family \<Rightarrow> ERROR_UNEXPECTED)"

definition describe_error :: "job_error \<Rightarrow> error_key \<times> string" where
  "describe_error e = (error_key_for e, take 128 (je_class e))"

section \<open>Tables\<close>

datatype run_trigger = TRIGGER_CELERY | TRIGGER_COMMAND
datatype run_status = RUNNING | SUCCEEDED | RUN_FAILED

record job_run =
  jr_id :: int
  jr_job :: string
  jr_trigger :: run_trigger
  jr_status :: run_status
  jr_started_at :: int
  jr_finished_at :: "int option"
  jr_counts :: dict
  jr_error_key :: "error_key option"
  jr_error_class :: string
  jr_event_log_id :: "int option"

record job_state =
  sj_job :: string
  sj_created_at :: int
  sj_last_started_at :: "int option"
  sj_last_success_at :: "int option"
  sj_last_failure_at :: "int option"
  sj_last_skipped_at :: "int option"

text \<open>A counter row: its job and name, which are unique together, and its value.\<close>

record job_db =
  jd_actions :: actions
  jd_runs :: "job_run list"
  jd_states :: "job_state list"
  jd_counters :: "((string \<times> string) \<times> int) list"
  jd_next_run :: int

definition jd_clock :: "job_db \<Rightarrow> int" where
  "jd_clock d = a_clock (jd_actions d)"

definition counter :: "job_db \<Rightarrow> string \<Rightarrow> string \<Rightarrow> int" where
  "counter d job name = (case map_of (jd_counters d) (job, name) of None \<Rightarrow> 0 | Some v \<Rightarrow> v)"

definition increment :: "string \<Rightarrow> string \<Rightarrow> int \<Rightarrow> job_db \<Rightarrow> job_db" where
  "increment job name amount d =
     (if amount \<le> 0 then d
      else d\<lparr>jd_counters := AList.update (job, name) (counter d job name + amount) (jd_counters d)\<rparr>)"

definition new_state :: "string \<Rightarrow> int \<Rightarrow> job_state" where
  "new_state job now = \<lparr>sj_job = job, sj_created_at = now, sj_last_started_at = None, sj_last_success_at = None,
     sj_last_failure_at = None, sj_last_skipped_at = None\<rparr>"

definition ensure_state :: "string \<Rightarrow> job_db \<Rightarrow> job_db" where
  "ensure_state job d =
     (if job \<in> sj_job ` set (jd_states d) then d
      else d\<lparr>jd_states := jd_states d @ [new_state job (jd_clock d)]\<rparr>)"

definition update_state :: "string \<Rightarrow> (job_state \<Rightarrow> job_state) \<Rightarrow> job_db \<Rightarrow> job_db" where
  "update_state job f d = d\<lparr>jd_states := update_where (\<lambda>s. sj_job s = job) f (jd_states d)\<rparr>"

definition ensure_states :: "job_db \<Rightarrow> job_db" where
  "ensure_states d = foldl (\<lambda>d spec. ensure_state (js_name spec) d) d JOBS"

definition state_of :: "job_db \<Rightarrow> string \<Rightarrow> job_state option" where
  "state_of d job = first_where (\<lambda>s. sj_job s = job) (jd_states d)"

definition status_value :: "run_status \<Rightarrow> string" where
  "status_value s = (case s of RUNNING \<Rightarrow> ''running'' | SUCCEEDED \<Rightarrow> ''succeeded'' | RUN_FAILED \<Rightarrow> ''failed'')"

definition runs_counter :: "run_status \<Rightarrow> string" where
  "runs_counter s = ''runs.'' @ status_value s"

definition SKIPPED_COUNTER :: string where "SKIPPED_COUNTER = ''runs.skipped_locked''"

text \<open>The counts of the kinds the job declares, if they are integers.\<close>

definition int_counts :: "job_spec \<Rightarrow> dict \<Rightarrow> (string \<times> int) list" where
  "int_counts spec counts =
     concat (map (\<lambda>kind. case map_of counts kind of Some (JInt i) \<Rightarrow> [(kind, i)] | _ \<Rightarrow> []) (js_item_kinds spec))"

section \<open>Recording a run\<close>

text \<open>
  Database writes in order. \<open>None\<close> is an exception of the write itself; with \<open>Some n\<close> the database
  fails after \<open>n\<close> writes. The result says whether all were done.
\<close>

fun run_writes :: "nat option \<Rightarrow> (job_db \<Rightarrow> job_db option) list \<Rightarrow> job_db \<Rightarrow> bool \<times> job_db" where
  "run_writes left [] d = (True, d)"
| "run_writes left (write # rest) d =
     (if left = Some 0 then (False, d)
      else case write d of
        None \<Rightarrow> (False, d)
      | Some d' \<Rightarrow> run_writes (map_option (\<lambda>n. n - 1) left) rest d')"

definition new_run :: "job_spec \<Rightarrow> run_trigger \<Rightarrow> job_db \<Rightarrow> job_run" where
  "new_run spec trigger d = \<lparr>jr_id = jd_next_run d, jr_job = js_name spec, jr_trigger = trigger, jr_status = RUNNING,
     jr_started_at = jd_clock d, jr_finished_at = None, jr_counts = [], jr_error_key = None, jr_error_class = [],
     jr_event_log_id = None\<rparr>"

text \<open>\<open>_mark_interrupted\<close>: running rows that outlived the lock are closed.\<close>

definition stale_run :: "job_spec \<Rightarrow> job_run \<Rightarrow> job_run \<Rightarrow> bool" where
  "stale_run spec current run \<longleftrightarrow>
     jr_job run = js_name spec \<and> jr_status run = RUNNING \<and>
     jr_started_at run < jr_started_at current - 1000000 * js_max_runtime_seconds spec \<and> jr_id run \<noteq> jr_id current"

definition interrupted :: "job_run \<Rightarrow> job_run \<Rightarrow> job_run" where
  "interrupted current run = run\<lparr>jr_status := RUN_FAILED, jr_finished_at := Some (jr_started_at current),
     jr_error_key := Some ERROR_INTERRUPTED, jr_error_class := []\<rparr>"

definition start_writes :: "job_spec \<Rightarrow> job_run \<Rightarrow> nat \<Rightarrow> (job_db \<Rightarrow> job_db option) list" where
  "start_writes spec run stale =
     [\<lambda>d. Some (d\<lparr>jd_runs := jd_runs d @ [run], jd_next_run := jd_next_run d + 1\<rparr>),
      \<lambda>d. Some (ensure_state (js_name spec) d),
      \<lambda>d. Some (update_state (js_name spec) (\<lambda>s. s\<lparr>sj_last_started_at := Some (jr_started_at run)\<rparr>) d),
      \<lambda>d. Some (d\<lparr>jd_runs := update_where (stale_run spec run) (interrupted run) (jd_runs d)\<rparr>),
      \<lambda>d. Some (increment (js_name spec) (runs_counter RUN_FAILED) (int stale) d)]"

text \<open>The first half of \<open>record_run\<close>; \<open>None\<close> when a write raises.\<close>

definition begin_run :: "job_spec \<Rightarrow> run_trigger \<Rightarrow> nat option \<Rightarrow> job_db \<Rightarrow> job_run option \<times> job_db" where
  "begin_run spec trigger left d =
     (let run = new_run spec trigger d; stale = length (filter (stale_run spec run) (jd_runs d));
          (ok, d') = run_writes left (start_writes spec run stale) d in
      (if ok then Some run else None, d'))"

definition error_key_value :: "error_key option \<Rightarrow> string" where
  "error_key_value k =
     (case k of None \<Rightarrow> [] | Some ERROR_DATABASE \<Rightarrow> ''database_error'' | Some ERROR_REDIS \<Rightarrow> ''redis_error''
      | Some ERROR_TIMEOUT \<Rightarrow> ''timeout'' | Some ERROR_NETWORK \<Rightarrow> ''network_error''
      | Some ERROR_INTERRUPTED \<Rightarrow> ''interrupted'' | Some ERROR_UNEXPECTED \<Rightarrow> ''unexpected_error'')"

definition trigger_value :: "run_trigger \<Rightarrow> string" where
  "trigger_value t = (case t of TRIGGER_CELERY \<Rightarrow> ''celery'' | TRIGGER_COMMAND \<Rightarrow> ''command'')"

definition platform_event :: "job_run \<Rightarrow> actions \<Rightarrow> event_log" where
  "platform_event run s = \<lparr>ev_id = a_next_id s, ev_company_id = None, ev_user_id = None,
     ev_event_type = (if jr_status run = SUCCEEDED then ''storage.scheduled_job.succeeded''
       else ''storage.scheduled_job.failed''),
     ev_data = [(''run_id'', JInt (jr_id run)), (''job'', JStr (jr_job run)),
       (''trigger'', JStr (trigger_value (jr_trigger run))), (''counts'', JObj (jr_counts run)),
       (''error_key'', JStr (error_key_value (jr_error_key run))), (''error_class'', JStr (jr_error_class run))],
     ev_created_at = a_clock s\<rparr>"

definition record_platform_event :: "job_run \<Rightarrow> job_db \<Rightarrow> job_db" where
  "record_platform_event run d = d\<lparr>jd_actions := (jd_actions d)\<lparr>
     a_log := a_log (jd_actions d) @ [platform_event run (jd_actions d)], a_next_id := a_next_id (jd_actions d) + 1\<rparr>\<rparr>"

definition finished_run :: "job_run \<Rightarrow> dict \<Rightarrow> job_error option \<Rightarrow> job_db \<Rightarrow> job_run" where
  "finished_run run counts err d =
     (let base = run\<lparr>jr_finished_at := Some (jd_clock d), jr_counts := counts, jr_event_log_id := Some (a_next_id (jd_actions d))\<rparr> in
      case err of
        None \<Rightarrow> base\<lparr>jr_status := SUCCEEDED\<rparr>
      | Some e \<Rightarrow> base\<lparr>jr_status := RUN_FAILED, jr_error_key := Some (fst (describe_error e)),
          jr_error_class := snd (describe_error e)\<rparr>)"

text \<open>\<open>run.save(update_fields=...)\<close>, which raises when the row is gone.\<close>

definition save_run :: "job_run \<Rightarrow> job_db \<Rightarrow> job_db option" where
  "save_run run d =
     (if jr_id run \<notin> jr_id ` set (jd_runs d) then None
      else Some (d\<lparr>jd_runs := update_where (\<lambda>r. jr_id r = jr_id run)
        (\<lambda>r. r\<lparr>jr_status := jr_status run, jr_finished_at := jr_finished_at run, jr_counts := jr_counts run,
           jr_error_key := jr_error_key run, jr_error_class := jr_error_class run,
           jr_event_log_id := jr_event_log_id run\<rparr>) (jd_runs d)\<rparr>))"

definition finish_writes :: "job_spec \<Rightarrow> job_run \<Rightarrow> int \<Rightarrow> (job_db \<Rightarrow> job_db option) list" where
  "finish_writes spec done_run now =
     [\<lambda>d. Some (record_platform_event done_run d),
      save_run done_run,
      \<lambda>d. Some (update_state (js_name spec) (\<lambda>s. if jr_status done_run = SUCCEEDED then s\<lparr>sj_last_success_at := Some now\<rparr>
        else s\<lparr>sj_last_failure_at := Some now\<rparr>) d),
      \<lambda>d. Some (increment (js_name spec) (runs_counter (jr_status done_run)) 1 d)]
     @ map (\<lambda>(kind, amount). \<lambda>d. Some (increment (js_name spec) (''items.'' @ kind) amount d)) (int_counts spec (jr_counts done_run))"

text \<open>\<open>_finish\<close>; the caller swallows its exceptions, so only the state is of interest.\<close>

definition end_run :: "job_spec \<Rightarrow> job_run \<Rightarrow> dict \<Rightarrow> job_error option \<Rightarrow> nat option \<Rightarrow> job_db \<Rightarrow> job_db" where
  "end_run spec run counts err left d =
     snd (run_writes left (finish_writes spec (finished_run run counts err d) (jd_clock d)) d)"

text \<open>The work of a job: its result with the counts, or the exception it raises.\<close>

type_synonym 'r work = "int \<Rightarrow> job_db \<Rightarrow> (job_error + 'r \<times> dict) \<times> job_db"

datatype 'r run_result = Run_Ok 'r int | Scheduled_Job_Failed "int option"

definition run_recorded ::
  "job_spec \<Rightarrow> run_trigger \<Rightarrow> 'r work \<Rightarrow> nat option \<Rightarrow> nat option \<Rightarrow> job_db \<Rightarrow> 'r run_result \<times> job_db" where
  "run_recorded spec trigger work left_start left_finish d =
     (case begin_run spec trigger left_start d of
        (None, d1) \<Rightarrow> (Scheduled_Job_Failed None, d1)
      | (Some run, d1) \<Rightarrow>
          (case work (jr_id run) d1 of
             (Inr (result, counts), d2) \<Rightarrow> (Run_Ok result (jr_id run), end_run spec run counts None left_finish d2)
           | (Inl e, d2) \<Rightarrow> (Scheduled_Job_Failed (Some (jr_id run)), end_run spec run [] (Some e) left_finish d2)))"

definition record_skipped :: "string \<Rightarrow> job_db \<Rightarrow> job_db" where
  "record_skipped job d =
     increment job SKIPPED_COUNTER 1
       (update_state job (\<lambda>s. s\<lparr>sj_last_skipped_at := Some (jd_clock d)\<rparr>) (ensure_state job d))"

definition record_failure_before_start ::
  "job_spec \<Rightarrow> run_trigger \<Rightarrow> job_error \<Rightarrow> nat option \<Rightarrow> nat option \<Rightarrow> job_db \<Rightarrow> int option \<times> job_db" where
  "record_failure_before_start spec trigger e left_start left_finish d =
     (case run_recorded spec trigger (\<lambda>_ d. (Inl e, d) :: (job_error + unit \<times> dict) \<times> job_db) left_start left_finish d of
        (Scheduled_Job_Failed run, d') \<Rightarrow> (run, d')
      | (Run_Ok _ run, d') \<Rightarrow> (Some run, d'))"

section \<open>The work of the two jobs\<close>

definition job_error_of :: "aexn \<Rightarrow> job_error" where
  "job_error_of e =
     (case e of
        RowDoesNotExist \<Rightarrow> \<lparr>je_family = Other_Family, je_class = ''DoesNotExist''\<rparr>
      | Uncaught c \<Rightarrow> \<lparr>je_family = Other_Family, je_class = c\<rparr>)"

definition run_counts :: "retry_stats \<Rightarrow> dict" where
  "run_counts stats =
     [(''webhook_deliveries_attempted'', JInt (int (st_processed stats) - int (st_email_processed stats))),
      (''webhook_deliveries_succeeded'', JInt (int (st_delivered stats) - int (st_email_delivered stats))),
      (''webhook_deliveries_failed'', JInt (int (st_retried stats) - int (st_email_retried stats))),
      (''webhook_deliveries_given_up'', JInt (int (st_dead stats) - int (st_email_dead stats))),
      (''email_events_attempted'', JInt (int (st_email_processed stats))),
      (''email_events_succeeded'', JInt (int (st_email_delivered stats))),
      (''email_events_failed'', JInt (int (st_email_retried stats))),
      (''email_events_given_up'', JInt (int (st_email_dead stats)))]"

definition retry_work :: "actions_settings \<Rightarrow> int \<Rightarrow> nat \<Rightarrow> bool \<Rightarrow> int option \<Rightarrow> job_db \<Rightarrow>
    (job_error + retry_stats \<times> dict) \<times> job_db" where
  "retry_work cfg batch_size turns dry_run run d =
     (case retry_pending_webhooks cfg (nat (max 1 batch_size)) turns dry_run run (jd_actions d) of
        (Inl e, s) \<Rightarrow> (Inl (job_error_of e), d\<lparr>jd_actions := s\<rparr>)
      | (Inr stats, s) \<Rightarrow> (Inr (stats, run_counts stats), d\<lparr>jd_actions := s\<rparr>))"

text \<open>The command: a dry run is not recorded.\<close>

definition retry_webhooks_command ::
  "actions_settings \<Rightarrow> int \<Rightarrow> nat \<Rightarrow> bool \<Rightarrow> run_trigger \<Rightarrow> nat option \<Rightarrow> nat option \<Rightarrow> job_db \<Rightarrow>
   retry_stats run_result \<times> job_db" where
  "retry_webhooks_command cfg batch_size turns dry_run trigger left_start left_finish d =
     (if dry_run
      then (case retry_work cfg batch_size turns True None d of
          (Inr (stats, _), d') \<Rightarrow> (Run_Ok stats 0, d') | (Inl _, d') \<Rightarrow> (Scheduled_Job_Failed None, d'))
      else run_recorded RETRY_WEBHOOKS trigger (\<lambda>run. retry_work cfg batch_size turns False (Some run)) left_start left_finish d)"

definition RUN_RETENTION_DAYS :: int where "RUN_RETENTION_DAYS = 7"

definition old_runs :: "int \<Rightarrow> job_db \<Rightarrow> int list" where
  "old_runs now d = map jr_id (filter (\<lambda>r. jr_started_at r < now - RUN_RETENTION_DAYS * day_microseconds) (jd_runs d))"

definition delete_runs :: "int list \<Rightarrow> job_db \<Rightarrow> job_db" where
  "delete_runs ids d = d\<lparr>jd_runs := delete_where (\<lambda>r. jr_id r \<in> set ids) (jd_runs d)\<rparr>"

lemma old_runs_delete: "old_runs now (delete_runs ids d) = filter (\<lambda>i. i \<notin> set ids) (old_runs now d)"
  by (simp add: old_runs_def delete_runs_def delete_where_def filter_map o_def conj_commute)

function purge_old_runs :: "int \<Rightarrow> nat \<Rightarrow> nat option \<Rightarrow> job_db \<Rightarrow> (nat \<times> bool) \<times> job_db" where
  "purge_old_runs now batch_size turns d =
     (if turns = Some 0 then ((0, False), d)
      else
        let ids = take batch_size (old_runs now d) in
        if ids = [] then ((0, True), d)
        else
          let ((deleted, finished), d') = purge_old_runs now batch_size (map_option (\<lambda>n. n - 1) turns) (delete_runs ids d) in
          ((length ids + deleted, finished), d'))"
  by pat_completeness auto

termination
proof (relation "measure (\<lambda>(now, batch_size, turns, d). length (old_runs now d))", goal_cases)
  case (2 now batch_size turns d ids)
  then have "hd ids \<in> set (old_runs now d)" "hd ids \<in> set ids"
    using set_take_subset by (fastforce dest: hd_in_set)+
  then have "length (filter (\<lambda>i. i \<notin> set ids) (old_runs now d)) < length (old_runs now d)"
    by (intro length_filter_less) auto
  then show ?case by (simp add: old_runs_delete)
qed simp

declare purge_old_runs.simps [simp del]

definition count_old_runs :: "int \<Rightarrow> job_db \<Rightarrow> nat" where
  "count_old_runs now d = length (old_runs now d)"

definition target_label :: "purge_target \<Rightarrow> string" where
  "target_label t = (case t of EVENTS \<Rightarrow> ''events'' | DELIVERIES KIND_WEBHOOK \<Rightarrow> ''webhook_deliveries''
     | DELIVERIES KIND_EMAIL \<Rightarrow> ''email_events'')"

text \<open>The whole purge: the targets of Retention, then the runs. A target that was not reached counts 0.\<close>

definition purge_counts :: "(purge_target \<times> nat) list \<Rightarrow> nat \<Rightarrow> bool \<Rightarrow> dict" where
  "purge_counts deleted runs complete =
     map (\<lambda>t. (target_label t, JInt (case map_of deleted t of None \<Rightarrow> 0 | Some n \<Rightarrow> int n))) PURGE_TARGETS
     @ [(''scheduled_job_runs'', JInt (int runs)), (''complete'', JBool complete)]"

definition purge_all ::
  "actions_settings \<Rightarrow> nat \<Rightarrow> (purge_target \<Rightarrow> nat option) \<Rightarrow> nat option \<Rightarrow> bool \<Rightarrow> job_db \<Rightarrow> dict \<times> job_db" where
  "purge_all cfg batch_size turns turns_runs dry_run d =
     (let now = jd_clock d; (stats, s) = purge_expired_data cfg batch_size turns dry_run (jd_actions d);
          d1 = d\<lparr>jd_actions := s\<rparr> in
      if dry_run then (purge_counts (ps_deleted stats) (count_old_runs now d) True, d)
      else if \<not> ps_complete stats then (purge_counts (ps_deleted stats) 0 False, d1)
      else let ((runs, finished), d2) = purge_old_runs now batch_size turns_runs d1 in
        (purge_counts (ps_deleted stats) runs finished, d2))"

definition purge_work :: "actions_settings \<Rightarrow> int \<Rightarrow> (purge_target \<Rightarrow> nat option) \<Rightarrow> nat option \<Rightarrow> dict work" where
  "purge_work cfg batch_size turns turns_runs run d =
     (let (counts, d') = purge_all cfg (nat (max 1 batch_size)) turns turns_runs False d in (Inr (counts, counts), d'))"

definition purge_command ::
  "actions_settings \<Rightarrow> int \<Rightarrow> (purge_target \<Rightarrow> nat option) \<Rightarrow> nat option \<Rightarrow> bool \<Rightarrow> run_trigger \<Rightarrow> nat option \<Rightarrow> nat option \<Rightarrow>
   job_db \<Rightarrow> dict run_result \<times> job_db" where
  "purge_command cfg batch_size turns turns_runs dry_run trigger left_start left_finish d =
     (if dry_run
      then (Run_Ok (fst (purge_all cfg (nat (max 1 batch_size)) turns turns_runs True d)) 0, d)
      else run_recorded PURGE_EXPIRED_DATA trigger (purge_work cfg batch_size turns turns_runs) left_start left_finish d)"

section \<open>The Celery tasks\<close>

datatype task_result = Skipped | Failed | Summary

text \<open>
  \<open>_run_locked\<close>: \<open>body\<close> is the management command, which ends at time \<open>ended\<close>. An error of Redis while the lock is taken is
  recorded as a failed run.
\<close>

definition run_locked ::
  "'s redis \<Rightarrow> string \<Rightarrow> job_spec \<Rightarrow> int \<Rightarrow> string \<Rightarrow> int \<Rightarrow> int \<Rightarrow> job_error \<Rightarrow> (job_db \<Rightarrow> 'r run_result \<times> job_db) \<Rightarrow>
   nat option \<Rightarrow> nat option \<Rightarrow> 's \<Rightarrow> job_db \<Rightarrow> task_result \<times> 's \<times> job_db" where
  "run_locked r lock_prefix spec ttl token now ended redis_error body left_start left_finish s d =
     (let key = lock_key lock_prefix (js_name spec) in
      case acquire r key ttl token now s of
        (Inl _, s') \<Rightarrow>
          (Failed, s', snd (record_failure_before_start spec TRIGGER_CELERY redis_error left_start left_finish d))
      | (Inr False, s') \<Rightarrow> (Skipped, s', record_skipped (js_name spec) d)
      | (Inr True, s') \<Rightarrow>
          (case body d of
             (Run_Ok _ _, d') \<Rightarrow> (Summary, release r key token ended s', d')
           | (Scheduled_Job_Failed _, d') \<Rightarrow> (Failed, release r key token ended s', d')))"

section \<open>Health\<close>

datatype health = HEALTHY | OVERDUE | FAILING | DISABLED

definition is_overdue :: "job_spec \<Rightarrow> job_state \<Rightarrow> int \<Rightarrow> bool" where
  "is_overdue spec state now \<longleftrightarrow>
     now - (case sj_last_success_at state of None \<Rightarrow> sj_created_at state | Some t \<Rightarrow> t)
       > 1000000 * js_overdue_after_seconds spec"

definition compute_health :: "job_spec \<Rightarrow> job_state \<Rightarrow> job_run option \<Rightarrow> int \<Rightarrow> bool \<Rightarrow> health" where
  "compute_health spec state last_finished now enabled =
     (let ever_ran = (sj_last_started_at state \<noteq> None \<or> last_finished \<noteq> None) in
      if \<not> enabled \<and> \<not> ever_ran then DISABLED
      else if (case last_finished of Some run \<Rightarrow> jr_status run = RUN_FAILED | None \<Rightarrow> False) then FAILING
      else if is_overdue spec state now then OVERDUE else HEALTHY)"

definition next_expected_at :: "job_spec \<Rightarrow> job_state \<Rightarrow> int \<Rightarrow> int" where
  "next_expected_at spec state now =
     next_after spec (case sj_last_started_at state of None \<Rightarrow> now | Some t \<Rightarrow> t)"

text \<open>\<open>order_by('-started_at', '-id').first()\<close> of the runs that satisfy a condition.\<close>

definition newer_run :: "job_run \<Rightarrow> job_run \<Rightarrow> bool" where
  "newer_run a b \<longleftrightarrow> jr_started_at b < jr_started_at a \<or> jr_started_at a = jr_started_at b \<and> jr_id b < jr_id a"

fun newest_run :: "job_run list \<Rightarrow> job_run option" where
  "newest_run [] = None"
| "newest_run (r # rs) = (case newest_run rs of None \<Rightarrow> Some r | Some b \<Rightarrow> Some (if newer_run b r then b else r))"

definition last_run :: "job_db \<Rightarrow> string \<Rightarrow> job_run option" where
  "last_run d job = newest_run (filter (\<lambda>r. jr_job r = job) (jd_runs d))"

definition last_finished_run :: "job_db \<Rightarrow> string \<Rightarrow> job_run option" where
  "last_finished_run d job = newest_run (filter (\<lambda>r. jr_job r = job \<and> jr_status r \<noteq> RUNNING) (jd_runs d))"

section \<open>Every interleaving of runs\<close>

text \<open>
  The database with the runs in progress, each with the row its worker holds in memory. Runs of the same
  job may overlap, workers may die, the database may fail anywhere.
\<close>

inductive sched_step :: "job_db \<times> (job_spec \<times> job_run) list \<Rightarrow> job_db \<times> (job_spec \<times> job_run) list \<Rightarrow> bool" where
  begun: "begin_run spec trigger left d = (Some run, d') \<Longrightarrow> sched_step (d, fl) (d', (spec, run) # fl)"
| not_begun: "begin_run spec trigger left d = (None, d') \<Longrightarrow> sched_step (d, fl) (d', fl)"
| ended: "(spec, run) \<in> set fl \<Longrightarrow> sched_step (d, fl) (end_run spec run counts err left d, remove1 (spec, run) fl)"
| died: "sched_step (d, fl) (d, remove1 x fl)"
| skipped: "sched_step (d, fl) (record_skipped job d, fl)"
| purged: "sched_step (d, fl) (snd (purge_old_runs now batch_size turns d), fl)"
| worked: "a_clock (jd_actions d) \<le> a_clock s \<Longrightarrow> sched_step (d, fl) (d\<lparr>jd_actions := s\<rparr>, fl)"

inductive sched_reaches :: "job_db \<times> (job_spec \<times> job_run) list \<Rightarrow> bool" where
  start: "jd_runs d = [] \<Longrightarrow> sched_reaches (d, [])"
| step: "sched_reaches p \<Longrightarrow> sched_step p q \<Longrightarrow> sched_reaches q"

definition run_shape :: "int \<Rightarrow> job_run \<Rightarrow> bool" where
  "run_shape clock r \<longleftrightarrow> jr_started_at r \<le> clock \<and>
     (case jr_status r of
        RUNNING \<Rightarrow> jr_finished_at r = None \<and> jr_error_key r = None
      | SUCCEEDED \<Rightarrow> (\<exists>t. jr_finished_at r = Some t \<and> jr_started_at r \<le> t \<and> t \<le> clock) \<and> jr_error_key r = None
      | RUN_FAILED \<Rightarrow> (\<exists>t. jr_finished_at r = Some t \<and> jr_started_at r \<le> t \<and> t \<le> clock) \<and> jr_error_key r \<noteq> None)"

definition runs_ok :: "job_db \<Rightarrow> bool" where
  "runs_ok d \<longleftrightarrow> distinct (map jr_id (jd_runs d)) \<and>
     (\<forall>r \<in> set (jd_runs d). jr_id r < jd_next_run d \<and> run_shape (jd_clock d) r)"

definition fresh_in_memory :: "job_run \<Rightarrow> bool" where
  "fresh_in_memory run \<longleftrightarrow> jr_status run = RUNNING \<and> jr_finished_at run = None \<and> jr_error_key run = None"

lemma run_writes_invariant:
  assumes "P d" "\<And>w d d'. w \<in> set ws \<Longrightarrow> P d \<Longrightarrow> w d = Some d' \<Longrightarrow> P d'"
  shows "P (snd (run_writes left ws d))"
  using assms
proof (induction ws arbitrary: left d)
  case (Cons w ws)
  show ?case
  proof (cases "left = Some 0")
    case False
    show ?thesis
    proof (cases "w d")
      case (Some e)
      have "P e" using Cons.prems(1) Cons.prems(2) [of w d e] Some by simp
      then have "P (snd (run_writes (map_option (\<lambda>n. n - 1) left) ws e))"
        by (rule Cons.IH) (use Cons.prems(2) in auto)
      then show ?thesis using False Some by simp
    qed (use False Cons.prems(1) in simp)
  qed (simp add: Cons.prems(1))
qed simp

lemma jd_clock_simps [simp]:
  "jd_clock (d\<lparr>jd_runs := rs\<rparr>) = jd_clock d" "jd_clock (d\<lparr>jd_next_run := n\<rparr>) = jd_clock d"
  "jd_clock (d\<lparr>jd_states := ss\<rparr>) = jd_clock d" "jd_clock (d\<lparr>jd_counters := cs\<rparr>) = jd_clock d"
  by (simp_all add: jd_clock_def)

lemma bookkeeping [simp]:
  "jd_runs (increment j n a d) = jd_runs d" "jd_runs (ensure_state j d) = jd_runs d"
  "jd_runs (update_state j f d) = jd_runs d" "jd_runs (record_platform_event r d) = jd_runs d"
  "jd_next_run (increment j n a d) = jd_next_run d" "jd_next_run (ensure_state j d) = jd_next_run d"
  "jd_next_run (update_state j f d) = jd_next_run d" "jd_next_run (record_platform_event r d) = jd_next_run d"
  "jd_clock (increment j n a d) = jd_clock d" "jd_clock (ensure_state j d) = jd_clock d"
  "jd_clock (update_state j f d) = jd_clock d" "jd_clock (record_platform_event r d) = jd_clock d"
  by (simp_all add: increment_def ensure_state_def update_state_def record_platform_event_def jd_clock_def)

lemma runs_okD:
  "runs_ok d \<Longrightarrow> r \<in> set (jd_runs d) \<Longrightarrow> jr_started_at r \<le> jd_clock d"
  "runs_ok d \<Longrightarrow> r \<in> set (jd_runs d) \<Longrightarrow> jr_id r < jd_next_run d"
  "runs_ok d \<Longrightarrow> distinct (map jr_id (jd_runs d))"
  by (simp_all add: runs_ok_def run_shape_def)

lemma runs_ok_cong:
  "jd_runs d' = jd_runs d \<Longrightarrow> jd_next_run d' = jd_next_run d \<Longrightarrow> jd_clock d' = jd_clock d \<Longrightarrow> runs_ok d' = runs_ok d"
  by (simp add: runs_ok_def)

lemma runs_ok_bookkeeping [simp]:
  "runs_ok (increment j n a d) = runs_ok d" "runs_ok (ensure_state j d) = runs_ok d"
  "runs_ok (update_state j f d) = runs_ok d" "runs_ok (record_platform_event r d) = runs_ok d"
  by (rule runs_ok_cong; simp)+

lemma runs_ok_update:
  assumes "runs_ok d" "\<And>r. jr_id (f r) = jr_id r" "\<And>r. r \<in> set (jd_runs d) \<Longrightarrow> P r \<Longrightarrow> run_shape (jd_clock d) (f r)"
  shows "runs_ok (d\<lparr>jd_runs := update_where P f (jd_runs d)\<rparr>)"
proof -
  have "map jr_id (update_where P f (jd_runs d)) = map jr_id (jd_runs d)"
    using assms(2) by (simp add: update_where_def)
  then have "distinct (map jr_id (update_where P f (jd_runs d)))" using assms(1) by (simp only: runs_ok_def)
  then show ?thesis using assms unfolding runs_ok_def update_where_def by (auto simp del: map_map)
qed

lemma begin_run_ok:
  assumes "runs_ok d"
  shows "runs_ok (snd (begin_run spec trigger left d))"
proof -
  let ?run = "new_run spec trigger d"
  let ?P = "\<lambda>e. runs_ok e \<and> jd_clock e = jd_clock d"
  let ?n = "length (filter (stale_run spec ?run) (jd_runs d))"
  have shape: "run_shape (jd_clock d) ?run" by (simp add: run_shape_def new_run_def)
  have first: "runs_ok (d\<lparr>jd_runs := jd_runs d @ [?run], jd_next_run := jd_next_run d + 1\<rparr>)"
  proof -
    have "jd_next_run d \<notin> jr_id ` set (jd_runs d)" using runs_okD(2) [OF assms] by fastforce
    moreover have id: "jr_id ?run = jd_next_run d" by (simp add: new_run_def)
    ultimately have "distinct (map jr_id (jd_runs d @ [?run]))" using runs_okD(3) [OF assms] by simp
    moreover have "jr_id r < jd_next_run d + 1 \<and> run_shape (jd_clock d) r" if "r \<in> set (jd_runs d @ [?run])" for r
    proof (cases "r = ?run")
      case False
      then have "r \<in> set (jd_runs d)" using that by simp
      then show ?thesis using assms by (auto simp: runs_ok_def)
    qed (use shape id in simp)
    ultimately show ?thesis unfolding runs_ok_def by simp
  qed
  have mark: "runs_ok (e\<lparr>jd_runs := update_where (stale_run spec ?run) (interrupted ?run) (jd_runs e)\<rparr>)" if e: "?P e" for e
  proof (rule runs_ok_update)
    show "runs_ok e" using e by simp
    fix r assume "r \<in> set (jd_runs e)"
    then have "jr_started_at r \<le> jd_clock e" using runs_okD(1) e by blast
    then show "run_shape (jd_clock e) (interrupted ?run r)"
      using e by (simp add: run_shape_def interrupted_def new_run_def)
  qed (simp add: interrupted_def)
  have rest: "?P (snd (run_writes left' (tl (start_writes spec ?run ?n)) e))" if "?P e" for left' e
    by (rule run_writes_invariant [where P = ?P, OF that]) (auto simp: start_writes_def mark)
  show ?thesis
  proof (cases "left = Some 0")
    case True
    then show ?thesis using assms by (simp add: begin_run_def Let_def start_writes_def)
  next
    case False
    then have "snd (run_writes left (start_writes spec ?run ?n) d) =
       snd (run_writes (map_option (\<lambda>n. n - 1) left) (tl (start_writes spec ?run ?n))
         (d\<lparr>jd_runs := jd_runs d @ [?run], jd_next_run := jd_next_run d + 1\<rparr>))"
      by (simp add: start_writes_def)
    moreover have "?P (d\<lparr>jd_runs := jd_runs d @ [?run], jd_next_run := jd_next_run d + 1\<rparr>)"
      using first by simp
    ultimately show ?thesis using rest by (simp add: begin_run_def Let_def split_def)
  qed
qed

lemma end_run_ok:
  assumes "runs_ok d" "fresh_in_memory run"
  shows "runs_ok (end_run spec run counts err left d)"
proof -
  let ?done = "finished_run run counts err d"
  let ?P = "\<lambda>e. runs_ok e \<and> jd_clock e = jd_clock d"
  have saved: "?P e'" if "?P e" "save_run ?done e = Some e'" for e e'
  proof -
    have e': "e' = e\<lparr>jd_runs := update_where (\<lambda>r. jr_id r = jr_id ?done)
        (\<lambda>r. r\<lparr>jr_status := jr_status ?done, jr_finished_at := jr_finished_at ?done, jr_counts := jr_counts ?done,
           jr_error_key := jr_error_key ?done, jr_error_class := jr_error_class ?done,
           jr_event_log_id := jr_event_log_id ?done\<rparr>) (jd_runs e)\<rparr>"
      using that(2) by (simp add: save_run_def split: if_splits)
    have "runs_ok e'"
      unfolding e'
    proof (rule runs_ok_update)
      fix r assume "r \<in> set (jd_runs e)"
      then have "jr_started_at r \<le> jd_clock e" using runs_okD(1) that(1) by blast
      then show "run_shape (jd_clock e) (r\<lparr>jr_status := jr_status ?done, jr_finished_at := jr_finished_at ?done,
           jr_counts := jr_counts ?done, jr_error_key := jr_error_key ?done, jr_error_class := jr_error_class ?done,
           jr_event_log_id := jr_event_log_id ?done\<rparr>)"
        using that(1) assms(2) by (simp add: run_shape_def finished_run_def Let_def fresh_in_memory_def split: option.splits)
    qed (use that(1) in simp_all)
    then show ?thesis using that(1) by (simp add: e')
  qed
  have "?P (snd (run_writes left (finish_writes spec ?done (jd_clock d)) d))"
  proof (rule run_writes_invariant [where P = ?P])
    fix w e e'
    assume "w \<in> set (finish_writes spec ?done (jd_clock d))" "?P e" "w e = Some e'"
    then show "?P e'" using saved [of e e'] by (auto simp: finish_writes_def)
  qed (simp add: assms(1))
  then show ?thesis by (simp add: end_run_def)
qed

lemma purge_old_runs_subset:
  "\<exists>ids. set ids \<subseteq> set (old_runs now d) \<and> snd (purge_old_runs now batch turns d) = delete_runs ids d"
proof (induction now batch turns d rule: purge_old_runs.induct)
  case (1 now batch turns d)
  let ?ids = "take batch (old_runs now d)"
  show ?case
  proof (cases "turns = Some 0 \<or> ?ids = []")
    case True
    then have "snd (purge_old_runs now batch turns d) = delete_runs [] d"
      by (subst purge_old_runs.simps) (auto simp: delete_runs_def delete_where_def)
    then show ?thesis by (intro exI [of _ "[]"]) simp
  next
    case False
    then obtain ids where ids: "set ids \<subseteq> set (old_runs now (delete_runs ?ids d))"
      "snd (purge_old_runs now batch (map_option (\<lambda>n. n - 1) turns) (delete_runs ?ids d)) = delete_runs ids (delete_runs ?ids d)"
      using 1 by blast
    have "delete_runs ids (delete_runs ?ids d) = delete_runs (?ids @ ids) d"
      by (simp add: delete_runs_def delete_where_delete)
    moreover have "snd (purge_old_runs now batch turns d) = delete_runs ids (delete_runs ?ids d)"
      using False ids(2) by (subst purge_old_runs.simps) (simp add: Let_def split_def)
    moreover have "set (?ids @ ids) \<subseteq> set (old_runs now d)"
      using ids(1) set_take_subset [of batch "old_runs now d"] by (auto simp: old_runs_delete)
    ultimately show ?thesis by metis
  qed
qed

lemma purge_old_runs_ok: "runs_ok d \<Longrightarrow> runs_ok (snd (purge_old_runs now batch turns d))"
proof -
  assume ok: "runs_ok d"
  obtain ids where "snd (purge_old_runs now batch turns d) = delete_runs ids d" using purge_old_runs_subset by blast
  then show ?thesis
    using ok by (simp add: runs_ok_def delete_runs_def distinct_delete_where)
qed

lemma record_skipped_ok: "runs_ok d \<Longrightarrow> runs_ok (record_skipped job d)"
  by (simp add: record_skipped_def)

lemma worked_ok:
  assumes "runs_ok d" "jd_clock d \<le> a_clock s"
  shows "runs_ok (d\<lparr>jd_actions := s\<rparr>)"
proof -
  have "run_shape (jd_clock d) r \<Longrightarrow> run_shape (a_clock s) r" for r
    using assms(2) by (cases "jr_status r") (auto simp: run_shape_def)
  then show ?thesis using assms(1) by (simp add: runs_ok_def jd_clock_def)
qed

lemma begin_run_ok': "begin_run spec trigger left d = (res, d') \<Longrightarrow> runs_ok d \<Longrightarrow> runs_ok d'"
  using begin_run_ok [of d spec trigger left] by simp

lemma begin_run_fresh: "begin_run spec trigger left d = (Some run, d') \<Longrightarrow> fresh_in_memory run \<and> run = new_run spec trigger d"
  by (auto simp: begin_run_def Let_def fresh_in_memory_def new_run_def split: prod.splits if_splits)

lemma sched_invariant:
  assumes "sched_reaches p"
  shows "runs_ok (fst p) \<and> (\<forall>(spec, run) \<in> set (snd p). fresh_in_memory run)"
  using assms
proof induction
  case (start d)
  then show ?case by (simp add: runs_ok_def)
next
  case (step p q)
  from step(2,3) show ?case
  proof cases
    case begun
    then show ?thesis using step(3) by (auto dest: begin_run_ok' begin_run_fresh)
  next
    case not_begun
    then show ?thesis using step(3) by (auto dest: begin_run_ok')
  next
    case ended
    then show ?thesis using step(3) by (auto intro!: end_run_ok dest: set_remove1_subset [THEN subsetD])
  next
    case died
    then show ?thesis using step(3) by (auto dest: set_remove1_subset [THEN subsetD])
  next
    case skipped
    then show ?thesis using step(3) record_skipped_ok by auto
  next
    case purged
    then show ?thesis using step(3) purge_old_runs_ok by auto
  next
    case worked
    then show ?thesis using step(3) by (auto intro!: worked_ok simp: jd_clock_def)
  qed
qed

text \<open>
  C30. The rows of the runs table make sense at every moment, although runs overlap, workers die, and the database
  fails between any two writes: ids are unique, exactly the running rows have no finish time, exactly the
  failed ones have an error, and a run finishes after it started.
\<close>

theorem job_runs_consistent:
  assumes "sched_reaches (d, fl)" "r \<in> set (jd_runs d)"
  shows "distinct (map jr_id (jd_runs d)) \<and> (jr_status r = RUNNING \<longleftrightarrow> jr_finished_at r = None) \<and>
    (jr_status r = RUN_FAILED \<longleftrightarrow> jr_error_key r \<noteq> None) \<and>
    (\<forall>t. jr_finished_at r = Some t \<longrightarrow> jr_started_at r \<le> t \<and> t \<le> jd_clock d)"
proof -
  have ok: "runs_ok d" using sched_invariant [OF assms(1)] by simp
  then have "run_shape (jd_clock d) r" using assms(2) by (simp add: runs_ok_def)
  then show ?thesis using runs_okD(3) [OF ok] by (cases "jr_status r") (auto simp: run_shape_def)
qed

section \<open>Crashed runs\<close>

lemma counter_increment:
  "counter (increment j n a d) j' n' = counter d j' n' + (if j' = j \<and> n' = n then max a 0 else 0)"
  by (auto simp: counter_def increment_def update_conv split: option.splits)

lemma counter_other [simp]:
  "counter (ensure_state j d) a b = counter d a b" "counter (update_state j f d) a b = counter d a b"
  "counter (d\<lparr>jd_runs := rs\<rparr>) a b = counter d a b" "counter (d\<lparr>jd_next_run := n\<rparr>) a b = counter d a b"
  "counter (record_platform_event r d) a b = counter d a b"
  by (simp_all add: counter_def ensure_state_def update_state_def record_platform_event_def)

lemma begin_run_eq:
  "begin_run spec trigger None d =
     (let run = new_run spec trigger d in
      (Some run, increment (js_name spec) (runs_counter RUN_FAILED) (int (length (filter (stale_run spec run) (jd_runs d))))
        ((update_state (js_name spec) (\<lambda>s. s\<lparr>sj_last_started_at := Some (jr_started_at run)\<rparr>)
          (ensure_state (js_name spec) (d\<lparr>jd_runs := jd_runs d @ [run], jd_next_run := jd_next_run d + 1\<rparr>)))
         \<lparr>jd_runs := update_where (stale_run spec run) (interrupted run) (jd_runs d @ [run])\<rparr>)))"
  by (simp add: begin_run_def start_writes_def Let_def)

text \<open>
  A run whose worker died does not stay running for ever: when the next run of the job starts, every
  running row that has outlived the job's time limit becomes a failed one, finished now, and the
  counter of failed runs grows by their number; no other row and no other counter changes.
\<close>

theorem crashed_runs_closed:
  assumes "runs_ok d" "begin_run spec trigger None d = (res, d')"
  defines "dead \<equiv> \<lambda>r. jr_job r = js_name spec \<and> jr_status r = RUNNING \<and>
    jr_started_at r + 1000000 * js_max_runtime_seconds spec < jd_clock d"
  shows "res \<noteq> None \<and>
    jd_runs d' = map (\<lambda>r. if dead r then r\<lparr>jr_status := RUN_FAILED, jr_finished_at := Some (jd_clock d),
        jr_error_key := Some ERROR_INTERRUPTED, jr_error_class := []\<rparr> else r) (jd_runs d) @ [the res] \<and>
    jr_status (the res) = RUNNING \<and> jr_started_at (the res) = jd_clock d \<and>
    counter d' job name = counter d job name +
      (if job = js_name spec \<and> name = ''runs.failed'' then int (length (filter dead (jd_runs d))) else 0)"
proof -
  let ?run = "new_run spec trigger d"
  have run: "jr_started_at ?run = jd_clock d" "jr_status ?run = RUNNING" "jr_id ?run = jd_next_run d"
    by (simp_all add: new_run_def)
  have stale: "stale_run spec ?run r = dead r" if "r \<in> set (jd_runs d)" for r
    using runs_okD(2) [OF assms(1) that] by (auto simp: stale_run_def dead_def run)
  have "\<not> stale_run spec ?run ?run" by (simp add: stale_run_def)
  then have "update_where (stale_run spec ?run) (interrupted ?run) (jd_runs d @ [?run]) =
      map (\<lambda>r. if dead r then interrupted ?run r else r) (jd_runs d) @ [?run]"
    using stale by (simp add: update_where_def)
  moreover have "filter (stale_run spec ?run) (jd_runs d) = filter dead (jd_runs d)"
    using stale by (intro filter_cong) simp_all
  moreover have "runs_counter RUN_FAILED = ''runs.failed''" by code_simp
  ultimately show ?thesis
    using assms(2) by (auto simp: begin_run_eq Let_def counter_increment interrupted_def run)
qed

section \<open>Health after a run\<close>

text \<open>What the work of a job may do to the tables of this theory: delete runs that have started earlier.\<close>

definition tame :: "'r work \<Rightarrow> bool" where
  "tame work \<longleftrightarrow> (\<forall>run d. distinct (map jr_id (jd_runs d)) \<longrightarrow> (let d' = snd (work run d) in
     jd_states d' = jd_states d \<and> jd_next_run d' = jd_next_run d \<and> jd_clock d' = jd_clock d \<and>
     set (jd_runs d') \<subseteq> set (jd_runs d) \<and> distinct (map jr_id (jd_runs d')) \<and>
     (\<forall>r \<in> set (jd_runs d). jr_started_at r = jd_clock d \<longrightarrow> r \<in> set (jd_runs d'))))"

lemma newest_run_unique:
  assumes "r \<in> set rs" "\<And>x. x \<in> set rs \<Longrightarrow> x = r \<or> newer_run r x"
  shows "newest_run rs = Some r"
proof -
  have "newest_run xs = (if r \<in> set xs then Some r else newest_run xs) \<and> (newest_run xs = None \<longleftrightarrow> xs = []) \<and>
      (\<forall>b. newest_run xs = Some b \<longrightarrow> b \<in> set xs)" if "set xs \<subseteq> set rs" for xs
    using that
  proof (induction xs)
    case (Cons x xs)
    have anti: "\<not> newer_run y r" if "y = r \<or> newer_run r y" for y using that by (auto simp: newer_run_def)
    show ?case
      using Cons assms(2) anti by (auto split: option.splits if_splits)
  qed simp
  then show ?thesis using assms(1) by (metis subset_refl)
qed


lemma first_where_exists: "(\<exists>x \<in> set xs. P x) \<Longrightarrow> \<exists>x. first_where P xs = Some x"
  by (induction xs) auto

lemma end_run_effect:
  assumes "jr_id run \<in> jr_id ` set (jd_runs d)"
  shows "jd_runs (end_run spec run counts err None d) =
      update_where (\<lambda>r. jr_id r = jr_id run) (\<lambda>r. r\<lparr>jr_status := jr_status (finished_run run counts err d),
        jr_finished_at := Some (jd_clock d), jr_counts := counts,
        jr_error_key := jr_error_key (finished_run run counts err d),
        jr_error_class := jr_error_class (finished_run run counts err d),
        jr_event_log_id := Some (a_next_id (jd_actions d))\<rparr>) (jd_runs d) \<and>
    jd_states (end_run spec run counts err None d) =
      update_where (\<lambda>s. sj_job s = js_name spec) (\<lambda>s. if err = None then s\<lparr>sj_last_success_at := Some (jd_clock d)\<rparr>
        else s\<lparr>sj_last_failure_at := Some (jd_clock d)\<rparr>) (jd_states d) \<and>
    jd_clock (end_run spec run counts err None d) = jd_clock d"
proof -
  let ?done = "finished_run run counts err d"
  have fin: "jr_id ?done = jr_id run" "jr_finished_at ?done = Some (jd_clock d)" "jr_counts ?done = counts"
    "jr_event_log_id ?done = Some (a_next_id (jd_actions d))" "jr_status ?done = SUCCEEDED \<longleftrightarrow> err = None"
    by (simp_all add: finished_run_def Let_def split: option.splits)
  define items where "items = map (\<lambda>(kind, amount). \<lambda>d. Some (increment (js_name spec) (''items.'' @ kind) amount d)) (int_counts spec counts)"
  define e where "e = increment (js_name spec) (runs_counter (jr_status ?done)) 1
      (update_state (js_name spec) (\<lambda>s. if jr_status ?done = SUCCEEDED then s\<lparr>sj_last_success_at := Some (jd_clock d)\<rparr>
        else s\<lparr>sj_last_failure_at := Some (jd_clock d)\<rparr>) (the (save_run ?done (record_platform_event ?done d))))"
  have saved: "save_run ?done (record_platform_event ?done d) \<noteq> None"
    using assms by (simp add: save_run_def fin)
  have "end_run spec run counts err None d = snd (run_writes None items e)"
    using saved by (auto simp: end_run_def finish_writes_def items_def e_def fin split: option.splits)
  moreover have "jd_runs (snd (run_writes None items e)) = jd_runs e \<and> jd_states (snd (run_writes None items e)) = jd_states e \<and>
      jd_clock (snd (run_writes None items e)) = jd_clock e"
    by (rule run_writes_invariant [where P = "\<lambda>x. jd_runs x = jd_runs e \<and> jd_states x = jd_states e \<and> jd_clock x = jd_clock e"])
      (auto simp: items_def increment_def)
  moreover have "jd_runs e = update_where (\<lambda>r. jr_id r = jr_id run) (\<lambda>r. r\<lparr>jr_status := jr_status ?done,
        jr_finished_at := Some (jd_clock d), jr_counts := counts, jr_error_key := jr_error_key ?done,
        jr_error_class := jr_error_class ?done, jr_event_log_id := Some (a_next_id (jd_actions d))\<rparr>) (jd_runs d)"
    "jd_states e = update_where (\<lambda>s. sj_job s = js_name spec) (\<lambda>s. if err = None then s\<lparr>sj_last_success_at := Some (jd_clock d)\<rparr>
        else s\<lparr>sj_last_failure_at := Some (jd_clock d)\<rparr>) (jd_states d)"
    "jd_clock e = jd_clock d"
    using assms fin by (simp_all add: e_def save_run_def) (simp_all add: increment_def update_state_def record_platform_event_def)
  ultimately show ?thesis by simp
qed

lemma health_after_run:
  assumes "runs_ok d" "tame work" "run_recorded spec trigger work None None d = (res, d')"
  shows "\<exists>state. state_of d' (js_name spec) = Some state \<and>
    compute_health spec state (last_finished_run d' (js_name spec)) now enabled =
      (case res of Run_Ok _ _ \<Rightarrow> if jd_clock d' + 1000000 * js_overdue_after_seconds spec < now then OVERDUE else HEALTHY
       | Scheduled_Job_Failed _ \<Rightarrow> FAILING)"
proof -
  let ?run = "new_run spec trigger d" and ?job = "js_name spec"
  obtain d1 where began: "begin_run spec trigger None d = (Some ?run, d1)" by (simp add: begin_run_eq Let_def)
  obtain out d2 where work: "work (jr_id ?run) d1 = (out, d2)" by fastforce
  define err where "err = (case out of Inl e \<Rightarrow> Some e | Inr _ \<Rightarrow> None)"
  define counts where "counts = (case out of Inl _ \<Rightarrow> [] | Inr (_, c) \<Rightarrow> c)"
  have d': "d' = end_run spec ?run counts err None d2" and res: "(\<exists>x i. res = Run_Ok x i) \<longleftrightarrow> err = None"
    using assms(3) began work by (auto simp: run_recorded_def err_def counts_def split: sum.splits prod.splits)
  note ok1 = begin_run_ok' [OF began assms(1)]
  have in1: "?run \<in> set (jd_runs d1)" "jr_started_at ?run = jd_clock d1" "?job \<in> sj_job ` set (jd_states d1)"
  proof -
    have "d1 = snd (begin_run spec trigger None d)" using began by simp
    then have runs: "jd_runs d1 = update_where (stale_run spec ?run) (interrupted ?run) (jd_runs d @ [?run])"
      and states: "jd_states d1 = update_where (\<lambda>s. sj_job s = ?job) (\<lambda>s. s\<lparr>sj_last_started_at := Some (jr_started_at ?run)\<rparr>)
        (jd_states (ensure_state ?job d))" and clock: "jd_clock d1 = jd_clock d"
      by (simp_all add: begin_run_eq Let_def) (simp_all add: increment_def update_state_def ensure_state_def)
    show "?run \<in> set (jd_runs d1)" by (simp add: runs update_where_def stale_run_def)
    show "jr_started_at ?run = jd_clock d1" by (simp add: clock) (simp add: new_run_def)
    have "?job \<in> sj_job ` set (jd_states (ensure_state ?job d))" by (simp add: ensure_state_def new_state_def)
    moreover have "map sj_job (jd_states d1) = map sj_job (jd_states (ensure_state ?job d))"
      by (simp add: states update_where_def)
    then have "sj_job ` set (jd_states d1) = sj_job ` set (jd_states (ensure_state ?job d))" by (metis list.set_map)
    ultimately show "?job \<in> sj_job ` set (jd_states d1)" by simp
  qed
  have tame: "jd_states d2 = jd_states d1" "jd_clock d2 = jd_clock d1" "set (jd_runs d2) \<subseteq> set (jd_runs d1)"
    "distinct (map jr_id (jd_runs d2))" "?run \<in> set (jd_runs d2)"
    using assms(2) work in1 runs_okD(3) [OF ok1] unfolding tame_def Let_def by (metis snd_conv)+
  let ?done = "\<lambda>r. r\<lparr>jr_status := jr_status (finished_run ?run counts err d2), jr_finished_at := Some (jd_clock d2),
      jr_counts := counts, jr_error_key := jr_error_key (finished_run ?run counts err d2),
      jr_error_class := jr_error_class (finished_run ?run counts err d2), jr_event_log_id := Some (a_next_id (jd_actions d2))\<rparr>"
  have status: "jr_status (?done r) = (if err = None then SUCCEEDED else RUN_FAILED)" for r
    by (simp add: finished_run_def Let_def split: option.splits)
  have "jr_id ?run \<in> jr_id ` set (jd_runs d2)" using tame(5) by blast
  note eff = end_run_effect [OF this, of spec counts err, folded d']
  have rows: "jd_runs d' = map (\<lambda>r. if jr_id r = jr_id ?run then ?done r else r) (jd_runs d2)"
    using eff by (simp only: update_where_def)
  have own: "r = ?run" if "r \<in> set (jd_runs d2)" "jr_id r = jr_id ?run" for r
    using distinct_key_unique [OF tame(4) that(1) tame(5)] that(2) by simp
  have older: "newer_run (?done ?run) r" if r: "r \<in> set (jd_runs d2)" "jr_id r \<noteq> jr_id ?run" for r
  proof -
    have in_d1: "r \<in> set (jd_runs d1)" using r(1) tame(3) by blast
    have "jr_started_at r \<le> jr_started_at ?run" using runs_okD(1) [OF ok1 in_d1] in1(2) by simp
    moreover have "jr_id r < jr_id ?run"
      using runs_okD(2) [OF ok1 in_d1] r(2) began by (auto simp: begin_run_eq Let_def new_run_def)
    ultimately show ?thesis by (auto simp: newer_run_def)
  qed
  have "last_finished_run d' ?job = Some (?done ?run)"
    unfolding last_finished_run_def
  proof (rule newest_run_unique)
    have "?done ?run \<in> set (jd_runs d')" unfolding rows using tame(5) by force
    moreover have "jr_job (?done ?run) = ?job" by (simp add: new_run_def)
    moreover have "jr_status (?done ?run) \<noteq> RUNNING" by (simp only: status) simp
    ultimately show "?done ?run \<in> set (filter (\<lambda>r. jr_job r = ?job \<and> jr_status r \<noteq> RUNNING) (jd_runs d'))" by simp
    fix x assume "x \<in> set (filter (\<lambda>r. jr_job r = ?job \<and> jr_status r \<noteq> RUNNING) (jd_runs d'))"
    then obtain r where r: "r \<in> set (jd_runs d2)" "x = (if jr_id r = jr_id ?run then ?done r else r)"
      unfolding rows by auto
    then show "x = ?done ?run \<or> newer_run (?done ?run) x"
      using own [of r] older [of r] by (cases "jr_id r = jr_id ?run") simp_all
  qed
  moreover obtain state where state: "state_of d' ?job = Some state"
    "sj_last_success_at state = Some (jd_clock d2) \<or> err \<noteq> None"
  proof -
    have "map sj_job (jd_states d') = map sj_job (jd_states d2)" using eff by (simp add: update_where_def)
    then have "sj_job ` set (jd_states d') = sj_job ` set (jd_states d2)" by (metis list.set_map)
    then have "?job \<in> sj_job ` set (jd_states d')" using in1(3) tame(1) by simp
    then obtain state where "state_of d' ?job = Some state"
      unfolding state_of_def using first_where_exists [of "jd_states d'" "\<lambda>s. sj_job s = ?job"] by force
    moreover from this have "state \<in> set (jd_states d')" "sj_job state = ?job"
      unfolding state_of_def by (auto dest: first_where_Some)
    then have "sj_last_success_at state = Some (jd_clock d2) \<or> err \<noteq> None"
      using eff by (auto simp: update_where_def split: if_splits)
    ultimately show thesis by (rule that)
  qed
  moreover have "jd_clock d' = jd_clock d2" using eff by simp
  moreover have "jr_status (finished_run ?run counts err d2) = (if err = None then SUCCEEDED else RUN_FAILED)"
    using status by simp
  ultimately show ?thesis
    using res by (cases "err = None"; cases res) (auto simp: compute_health_def Let_def is_overdue_def)
qed

definition same_clock :: "actions \<Rightarrow> actions \<Rightarrow> bool" where
  "same_clock s s' \<longleftrightarrow> a_clock s' = a_clock s"

lemma same_clock_rel: "reflp same_clock" "transp same_clock"
  by (auto simp: same_clock_def reflp_def transp_def)

lemma same_clock_writes:
  "keeps same_clock (update_outbox i f)" "keeps same_clock (insert_attempt a)"
  by (simp_all add: keeps_def same_clock_def update_outbox_def insert_attempt_def modify_def)

lemmas same_clock_rules = keeps_rules same_clock_rel same_clock_writes

lemma complete_delivery_clock: "keeps same_clock (complete_delivery cfg i n out trigger run)"
  by (auto simp: complete_delivery_def apply_delivery_result_def intro!: same_clock_rules)

lemma deliver_clock: "keeps same_clock (deliver_outbox_row cfg i trigger run)"
  unfolding deliver_outbox_row_def
  by (intro keeps_bindE same_clock_rel keeps_readers)
    (auto simp: Let_def intro!: same_clock_rules complete_delivery_clock split: delivery_work.splits)

lemma retry_loop_clock: "keeps same_clock (retry_loop cfg batch dry now run turns stats)"
proof (induction turns arbitrary: stats)
  case 0
  then show ?case by (auto intro!: same_clock_rules)
next
  case (Suc turns)
  have "keeps same_clock (claim_next_pending_outbox cfg now)"
    by (auto simp: claim_next_pending_outbox_def Let_def intro!: same_clock_rules)
  then show ?case by (auto intro!: same_clock_rules deliver_clock Suc)
qed

lemma retry_clock: "a_clock (snd (retry_pending_webhooks cfg batch turns dry run s)) = a_clock s"
proof -
  have "keeps same_clock (retry_pending_webhooks cfg batch turns dry run)"
    by (auto simp: retry_pending_webhooks_def intro!: same_clock_rules retry_loop_clock)
  then show ?thesis by (simp add: keeps_def same_clock_def)
qed

lemma delete_target_clock [simp]: "a_clock (delete_target t ids s) = a_clock s"
  by (cases t) (simp_all add: delete_target_def delete_outbox_def Let_def)

lemma delete_in_batches_clock: "a_clock (snd (delete_in_batches t cutoff batch turns s)) = a_clock s"
proof (induction t cutoff batch turns s rule: delete_in_batches.induct)
  case (1 t cutoff batch turns s)
  then show ?case by (subst delete_in_batches.simps) (simp add: Let_def split_def)
qed

lemma purge_clock: "a_clock (snd (purge_expired_data cfg batch turns dry s)) = a_clock s"
proof -
  have "a_clock (snd (purge_targets cutoff batch turns ts s)) = a_clock s" for cutoff ts
    using delete_in_batches_clock by (induction ts arbitrary: s) (simp_all add: split_def Let_def)
  then show ?thesis by (simp add: purge_expired_data_def Let_def split_def)
qed

lemma retry_work_tame: "tame (\<lambda>run. retry_work cfg batch turns False (Some run))"
proof -
  have "jd_clock (d\<lparr>jd_actions := snd (retry_pending_webhooks cfg b turns False run (jd_actions d))\<rparr>) = jd_clock d" for b run d
    by (simp add: jd_clock_def retry_clock)
  moreover have "snd (retry_work cfg batch turns False run d) =
      d\<lparr>jd_actions := snd (retry_pending_webhooks cfg (nat (max 1 batch)) turns False run (jd_actions d))\<rparr>" for run d
    by (simp add: retry_work_def split: prod.splits sum.splits)
  ultimately show ?thesis by (simp add: tame_def Let_def)
qed

lemma purge_all_clock: "jd_clock (snd (purge_all cfg batch turns turns_runs dry d)) = jd_clock d"
proof -
  let ?d1 = "d\<lparr>jd_actions := snd (purge_expired_data cfg batch turns dry (jd_actions d))\<rparr>"
  obtain ids where "snd (purge_old_runs (jd_clock d) batch turns_runs ?d1) = delete_runs ids ?d1"
    using purge_old_runs_subset by blast
  moreover have "jd_clock ?d1 = jd_clock d" by (simp add: jd_clock_def purge_clock)
  ultimately show ?thesis by (cases dry) (simp_all add: purge_all_def Let_def split_def delete_runs_def)
qed

lemma purge_work_tame: "tame (purge_work cfg batch turns turns_runs)"
proof -
  have "let d' = snd (purge_all cfg b turns turns_runs False d) in
     jd_states d' = jd_states d \<and> jd_next_run d' = jd_next_run d \<and> jd_clock d' = jd_clock d \<and>
     set (jd_runs d') \<subseteq> set (jd_runs d) \<and> distinct (map jr_id (jd_runs d')) \<and>
     (\<forall>r \<in> set (jd_runs d). jr_started_at r = jd_clock d \<longrightarrow> r \<in> set (jd_runs d'))"
    if unique: "distinct (map jr_id (jd_runs d))" for b d
  proof -
    let ?d1 = "d\<lparr>jd_actions := snd (purge_expired_data cfg b turns False (jd_actions d))\<rparr>"
    have d1: "jd_clock ?d1 = jd_clock d" by (simp add: jd_clock_def purge_clock)
    obtain ids where ids: "set ids \<subseteq> set (old_runs (jd_clock d) ?d1)"
      "snd (purge_old_runs (jd_clock d) b turns_runs ?d1) = delete_runs ids ?d1"
      using purge_old_runs_subset by blast
    have keep: "r \<in> set (jd_runs (delete_runs ids ?d1))" if "r \<in> set (jd_runs d)" "jr_started_at r = jd_clock d" for r
    proof -
      have "jr_id r \<notin> set ids"
      proof
        assume "jr_id r \<in> set ids"
        then obtain x where "x \<in> set (jd_runs d)" "jr_id x = jr_id r" "jr_started_at x < jd_clock d"
          using ids(1) by (auto simp: old_runs_def RUN_RETENTION_DAYS_def day_microseconds_def)
        then show False using distinct_key_unique [OF unique] that by force
      qed
      then show ?thesis using that(1) by (simp add: delete_runs_def delete_where_def)
    qed
    have shape: "snd (purge_all cfg b turns turns_runs False d) = ?d1 \<or>
        snd (purge_all cfg b turns turns_runs False d) = delete_runs ids ?d1"
      using ids(2) by (auto simp: purge_all_def Let_def split_def)
    then show ?thesis
      using keep d1 unique by (auto simp: Let_def delete_runs_def distinct_delete_where jd_clock_def purge_clock)
  qed
  then show ?thesis by (simp add: tame_def purge_work_def split_def Let_def)
qed

lemma recorded_clock:
  assumes "\<And>run d. jd_clock (snd (work run d)) = jd_clock d"
  shows "jd_clock (snd (run_recorded spec trigger work l1 l2 d)) = jd_clock d"
proof -
  have began: "jd_clock (snd (begin_run spec trigger left d)) = jd_clock d" for left
  proof -
    have "jd_clock (snd (run_writes left (start_writes spec run n) d)) = jd_clock d" for run n
      by (rule run_writes_invariant [where P = "\<lambda>e. jd_clock e = jd_clock d"]) (auto simp: start_writes_def)
    then show ?thesis by (simp add: begin_run_def Let_def split_def)
  qed
  have finish: "jd_clock (end_run spec run counts err left e) = jd_clock e" for run counts err left e
    unfolding end_run_def
    by (rule run_writes_invariant [where P = "\<lambda>x. jd_clock x = jd_clock e"])
      (auto simp: finish_writes_def save_run_def split: if_splits)
  show ?thesis
    using began [of l1] finish assms
    by (auto simp: run_recorded_def split: prod.splits option.splits sum.splits) (metis snd_conv)+
qed

text \<open>
  What a run of a command says of its job: when it worked, the job is healthy, and overdue once no
  other run has worked for longer than the limit of the job (three minutes for the retries, 135
  minutes for the purge); when it raised, the job is failing. The purge never raises.
\<close>

theorem job_health_after_run:
  assumes "runs_ok d"
  shows "(case retry_webhooks_command cfg batch turns False trigger None None d of (res, d') \<Rightarrow>
      \<exists>state. state_of d' ''retry_webhooks'' = Some state \<and>
        compute_health RETRY_WEBHOOKS state (last_finished_run d' ''retry_webhooks'') now enabled =
          (case res of Run_Ok _ _ \<Rightarrow> if jd_clock d + 180000000 < now then OVERDUE else HEALTHY
           | Scheduled_Job_Failed _ \<Rightarrow> FAILING)) \<and>
    (case purge_command cfg batch targets turns_runs False trigger None None d of (res, d') \<Rightarrow>
      \<exists>state. state_of d' ''purge_expired_data'' = Some state \<and>
        compute_health PURGE_EXPIRED_DATA state (last_finished_run d' ''purge_expired_data'') now enabled =
          (if jd_clock d + 8100000000 < now then OVERDUE else HEALTHY))"
proof
  obtain res d' where run: "retry_webhooks_command cfg batch turns False trigger None None d = (res, d')" by fastforce
  then have rec: "run_recorded RETRY_WEBHOOKS trigger (\<lambda>run. retry_work cfg batch turns False (Some run)) None None d = (res, d')"
    by (simp add: retry_webhooks_command_def)
  have "jd_clock (snd (retry_work cfg batch turns False run e)) = jd_clock e" for run e
    by (auto simp: retry_work_def jd_clock_def split: prod.splits sum.splits) (metis retry_clock snd_conv)+
  then have clock: "jd_clock d' = jd_clock d" using recorded_clock [of "\<lambda>run. retry_work cfg batch turns False (Some run)"] rec by (metis snd_conv)
  have job: "js_name RETRY_WEBHOOKS = ''retry_webhooks''" "js_overdue_after_seconds RETRY_WEBHOOKS = 180"
    by (simp_all add: RETRY_WEBHOOKS_def)
  show "case retry_webhooks_command cfg batch turns False trigger None None d of (res, d') \<Rightarrow>
      \<exists>state. state_of d' ''retry_webhooks'' = Some state \<and>
        compute_health RETRY_WEBHOOKS state (last_finished_run d' ''retry_webhooks'') now enabled =
          (case res of Run_Ok _ _ \<Rightarrow> if jd_clock d + 180000000 < now then OVERDUE else HEALTHY
           | Scheduled_Job_Failed _ \<Rightarrow> FAILING)"
    using health_after_run [OF assms retry_work_tame rec, unfolded job clock] run by (cases res) simp_all
next
  obtain res d' where run: "purge_command cfg batch targets turns_runs False trigger None None d = (res, d')" by fastforce
  then have rec: "run_recorded PURGE_EXPIRED_DATA trigger (purge_work cfg batch targets turns_runs) None None d = (res, d')"
    by (simp add: purge_command_def)
  have "jd_clock (snd (purge_work cfg batch targets turns_runs run e)) = jd_clock e" for run e
    by (simp add: purge_work_def split_def Let_def purge_all_clock)
  then have clock: "jd_clock d' = jd_clock d" using recorded_clock [of "purge_work cfg batch targets turns_runs"] rec by (metis snd_conv)
  obtain x i where "res = Run_Ok x i"
    using rec by (auto simp: run_recorded_def begin_run_eq Let_def purge_work_def split: prod.splits)
  moreover have job: "js_name PURGE_EXPIRED_DATA = ''purge_expired_data''" "js_overdue_after_seconds PURGE_EXPIRED_DATA = 8100"
    by (simp_all add: PURGE_EXPIRED_DATA_def)
  ultimately show "case purge_command cfg batch targets turns_runs False trigger None None d of (res, d') \<Rightarrow>
      \<exists>state. state_of d' ''purge_expired_data'' = Some state \<and>
        compute_health PURGE_EXPIRED_DATA state (last_finished_run d' ''purge_expired_data'') now enabled =
          (if jd_clock d + 8100000000 < now then OVERDUE else HEALTHY)"
    using health_after_run [OF assms purge_work_tame rec, unfolded job clock] run by simp
qed

text \<open>A database with a run that never finished, three minutes into the life of the next one.\<close>

definition crashed_db :: job_db where
  "crashed_db = \<lparr>jd_actions = empty_actions\<lparr>a_clock := 300000000\<rparr>,
     jd_runs = [\<lparr>jr_id = 1, jr_job = ''retry_webhooks'', jr_trigger = TRIGGER_CELERY, jr_status = RUNNING,
       jr_started_at = 0, jr_finished_at = None, jr_counts = [], jr_error_key = None, jr_error_class = [],
       jr_event_log_id = None\<rparr>],
     jd_states = [], jd_counters = [], jd_next_run = 2\<rparr>"

lemma crashed_db_ok: "runs_ok crashed_db"
  by (simp add: crashed_db_def runs_ok_def run_shape_def jd_clock_def)

lemma job_runs_consistent_witness:
  "let (_, d) = begin_run RETRY_WEBHOOKS TRIGGER_CELERY None (crashed_db\<lparr>jd_runs := []\<rparr>) in
     length (jd_runs d) = 1 \<and> distinct (map jr_id (jd_runs d)) \<and> jr_finished_at (hd (jd_runs d)) = None"
proof -
  let ?d = "crashed_db\<lparr>jd_runs := []\<rparr>"
  obtain run d where began: "begin_run RETRY_WEBHOOKS TRIGGER_CELERY None ?d = (Some run, d)"
    and rows: "jd_runs d = [run]" "jr_status run = RUNNING"
    by (simp add: begin_run_eq Let_def update_where_def stale_run_def new_run_def)
  have "sched_reaches (?d, [])" by (rule sched_reaches.start) simp
  then have "sched_reaches (d, [(RETRY_WEBHOOKS, run)])"
    by (rule sched_reaches.step) (rule sched_step.begun [OF began])
  then show ?thesis using job_runs_consistent [of d _ run] began rows by simp
qed

lemma crashed_runs_closed_witness:
  "let (_, d) = begin_run RETRY_WEBHOOKS TRIGGER_CELERY None crashed_db in
     jr_error_key (hd (jd_runs d)) = Some ERROR_INTERRUPTED \<and> counter d ''retry_webhooks'' ''runs.failed'' = 1"
proof -
  obtain res d where began: "begin_run RETRY_WEBHOOKS TRIGGER_CELERY None crashed_db = (res, d)" by fastforce
  show ?thesis
    using crashed_runs_closed [OF crashed_db_ok began, of "''retry_webhooks''" "''runs.failed''"] began
    by (simp add: crashed_db_def RETRY_WEBHOOKS_def jd_clock_def counter_def)
qed

lemma job_health_after_run_witness:
  "let d = snd (purge_command sample_cfg 500 (\<lambda>_. None) None False TRIGGER_CELERY None None crashed_db) in
     \<exists>state. state_of d ''purge_expired_data'' = Some state \<and>
       compute_health PURGE_EXPIRED_DATA state (last_finished_run d ''purge_expired_data'') 8400000001 True = OVERDUE"
proof -
  have "jd_clock crashed_db = 300000000" by (simp add: jd_clock_def crashed_db_def)
  then show ?thesis
    using job_health_after_run [OF crashed_db_ok, where cfg = sample_cfg and batch = 500 and targets = "\<lambda>_. None"
      and turns_runs = None and trigger = TRIGGER_CELERY and now = 8400000001 and enabled = True]
    by (simp add: split_def Let_def)
qed

end
