(* ===== verification/Job_Views.thy ===== *)
theory Job_Views
  imports Job_Runs Auth
begin

text \<open>
  What staff see of the scheduled jobs: \<open>jobs_overview\<close> of \<open>apps/actions/scheduled_jobs.py\<close>, the
  views of \<open>apps/actions/scheduled_job_views.py\<close> and the samples of
  \<open>apps/actions/scheduled_job_metrics.py\<close>. Answers are records; a field that is null when empty is an
  option. What Redis says of itself (PING and the heartbeat of the beat) is an argument.
\<close>

section \<open>The overview\<close>

record scheduler =
  sc_enabled :: bool
  sc_redis_reachable :: "bool option"
  sc_beat_last_seen :: "int option"

record job_overview =
  jo_job :: string
  jo_health :: health
  jo_overdue :: bool
  jo_interval_seconds :: int
  jo_overdue_after_seconds :: int
  jo_last_run :: "job_run option"
  jo_last_success_at :: "int option"
  jo_last_failure_at :: "int option"
  jo_last_skipped_at :: "int option"
  jo_last_counts :: dict
  jo_next_expected_at :: int
  jo_succeeded_24h :: nat
  jo_failed_24h :: nat
  jo_skipped_locked_total :: int

record overview =
  ov_generated_at :: int
  ov_scheduler_enabled :: bool
  ov_redis_reachable :: "bool option"
  ov_beat_last_seen_at :: "int option"
  ov_beat_stale :: bool
  ov_jobs :: "job_overview list"

definition BEAT_STALE_AFTER :: int where "BEAT_STALE_AFTER = 180000000"

definition recent_count :: "job_db \<Rightarrow> string \<Rightarrow> run_status \<Rightarrow> int \<Rightarrow> nat" where
  "recent_count d job status now =
     length (filter (\<lambda>r. jr_job r = job \<and> jr_status r = status \<and> now - day_microseconds \<le> jr_started_at r) (jd_runs d))"

definition last_success_run :: "job_db \<Rightarrow> string \<Rightarrow> job_run option" where
  "last_success_run d job = newest_run (filter (\<lambda>r. jr_job r = job \<and> jr_status r = SUCCEEDED) (jd_runs d))"

definition job_overview_of :: "bool \<Rightarrow> int \<Rightarrow> job_db \<Rightarrow> job_spec \<Rightarrow> job_overview" where
  "job_overview_of enabled now d spec =
     (let job = js_name spec; finished = last_finished_run d job;
          state = (case state_of d job of Some s \<Rightarrow> s | None \<Rightarrow> new_state job now);
          success = (case finished of
              Some run \<Rightarrow> if jr_status run = SUCCEEDED then Some run else last_success_run d job
            | None \<Rightarrow> last_success_run d job) in
      \<lparr>jo_job = job, jo_health = compute_health spec state finished now enabled, jo_overdue = is_overdue spec state now,
       jo_interval_seconds = js_interval_seconds spec, jo_overdue_after_seconds = js_overdue_after_seconds spec,
       jo_last_run = last_run d job, jo_last_success_at = sj_last_success_at state,
       jo_last_failure_at = sj_last_failure_at state, jo_last_skipped_at = sj_last_skipped_at state,
       jo_last_counts = (case success of None \<Rightarrow> [] | Some run \<Rightarrow> jr_counts run),
       jo_next_expected_at = next_expected_at spec state now,
       jo_succeeded_24h = recent_count d job SUCCEEDED now, jo_failed_24h = recent_count d job RUN_FAILED now,
       jo_skipped_locked_total = counter d job SKIPPED_COUNTER\<rparr>)"

text \<open>The state rows are created when they are missing.\<close>

definition jobs_overview :: "scheduler \<Rightarrow> job_db \<Rightarrow> overview \<times> job_db" where
  "jobs_overview sc d =
     (let now = jd_clock d; d' = ensure_states d in
      (\<lparr>ov_generated_at = now, ov_scheduler_enabled = sc_enabled sc, ov_redis_reachable = sc_redis_reachable sc,
        ov_beat_last_seen_at = sc_beat_last_seen sc,
        ov_beat_stale = (sc_enabled sc \<and> (case sc_beat_last_seen sc of None \<Rightarrow> True | Some t \<Rightarrow> BEAT_STALE_AFTER < now - t)),
        ov_jobs = map (job_overview_of (sc_enabled sc) now d') JOBS\<rparr>, d'))"

section \<open>Views\<close>

text \<open>\<open>_require_platform_staff\<close>: the status of the refusal.\<close>

definition require_platform_staff :: "principal option \<Rightarrow> int option" where
  "require_platform_staff user =
     (case user of None \<Rightarrow> Some 401 | Some p \<Rightarrow> if p_is_staff p then None else Some 403)"

definition jobs_view :: "scheduler \<Rightarrow> principal option \<Rightarrow> job_db \<Rightarrow> (int + overview) \<times> job_db" where
  "jobs_view sc user d =
     (case require_platform_staff user of Some status \<Rightarrow> (Inl status, d)
      | None \<Rightarrow> (let (o', d') = jobs_overview sc d in (Inr o', d')))"

definition DEFAULT_RUNS_LIMIT :: int where "DEFAULT_RUNS_LIMIT = 20"
definition MAX_RUNS_LIMIT :: int where "MAX_RUNS_LIMIT = 100"
definition MAX_CORRELATED :: nat where "MAX_CORRELATED = 100"

definition parse_run_status :: "string \<Rightarrow> run_status option option" where
  "parse_run_status s =
     (if s = ''running'' then Some (Some RUNNING) else if s = ''succeeded'' then Some (Some SUCCEEDED)
      else if s = ''failed'' then Some (Some RUN_FAILED) else if s = ''skipped_locked'' then Some None else None)"

text \<open>Sorting newest first; \<open>skipped_locked\<close> is a valid status that no row has.\<close>

fun insert_run :: "job_run \<Rightarrow> job_run list \<Rightarrow> job_run list" where
  "insert_run r [] = [r]"
| "insert_run r (x # xs) = (if newer_run x r then x # insert_run r xs else r # x # xs)"

definition newest_first :: "job_run list \<Rightarrow> job_run list" where
  "newest_first rs = foldr insert_run rs []"

definition runs_view :: "principal option \<Rightarrow> string \<Rightarrow> string \<Rightarrow> string \<Rightarrow> job_db \<Rightarrow> int + job_run list" where
  "runs_view user job limit_param status_param d =
     (case require_platform_staff user of Some status \<Rightarrow> Inl status
      | None \<Rightarrow>
          if get_job job = None then Inl 404
          else (case (if limit_param = [] then Some DEFAULT_RUNS_LIMIT else py_int 10 limit_param) of
            None \<Rightarrow> Inl 400
          | Some given \<Rightarrow>
              (let limit = min MAX_RUNS_LIMIT (max 1 given); st = lower (strip status_param);
                   runs = newest_first (filter (\<lambda>r. jr_job r = job) (jd_runs d)) in
               if st = [] then Inr (take (nat limit) runs)
               else (case parse_run_status st of
                 None \<Rightarrow> Inl 400
               | Some wanted \<Rightarrow> Inr (take (nat limit) (filter (\<lambda>r. Some (jr_status r) = wanted) runs))))))"

record run_detail =
  rd_run :: job_run
  rd_attempts :: "delivery_attempt list"
  rd_attempts_truncated :: bool
  rd_emails :: "outbox_row list"
  rd_emails_truncated :: bool

definition webhook_attempts_of :: "actions \<Rightarrow> int \<Rightarrow> delivery_attempt list" where
  "webhook_attempts_of s run =
     sort_key at_created_at (filter (\<lambda>a. at_scheduled_job_run_id a = Some run \<and>
       (case outbox_by_id s (at_outbox a) of Some row \<Rightarrow> ob_delivery_kind row = KIND_WEBHOOK | None \<Rightarrow> False)) (a_attempts s))"

definition emails_of :: "actions \<Rightarrow> int \<Rightarrow> outbox_row list" where
  "emails_of s run =
     sort_key ob_created_at (filter (\<lambda>row. ob_delivery_kind row = KIND_EMAIL \<and>
       (\<exists>a \<in> set (a_attempts s). at_outbox a = ob_id row \<and> at_scheduled_job_run_id a = Some run)) (a_outbox s))"

definition run_detail_view :: "principal option \<Rightarrow> int \<Rightarrow> job_db \<Rightarrow> int + run_detail" where
  "run_detail_view user pk d =
     (case require_platform_staff user of Some status \<Rightarrow> Inl status
      | None \<Rightarrow>
          (case first_where (\<lambda>r. jr_id r = pk) (jd_runs d) of
            None \<Rightarrow> Inl 404
          | Some run \<Rightarrow>
              (let attempts = take (Suc MAX_CORRELATED) (webhook_attempts_of (jd_actions d) pk);
                   emails = take (Suc MAX_CORRELATED) (emails_of (jd_actions d) pk) in
               Inr \<lparr>rd_run = run, rd_attempts = take MAX_CORRELATED attempts,
                 rd_attempts_truncated = (MAX_CORRELATED < length attempts),
                 rd_emails = take MAX_CORRELATED emails,
                 rd_emails_truncated = (MAX_CORRELATED < length emails)\<rparr>)))"

section \<open>Metrics\<close>

record job_samples =
  jm_runs :: "(string \<times> int) list"
  jm_items :: "(string \<times> int) list"
  jm_last_success :: int
  jm_last_run :: int
  jm_overdue :: int

definition RUN_STATUSES :: "string list" where
  "RUN_STATUSES = [''succeeded'', ''failed'', ''skipped_locked'']"

text \<open>The samples of one job; times are 0 before the first one.\<close>

definition samples_of :: "int \<Rightarrow> job_db \<Rightarrow> job_spec \<Rightarrow> job_samples" where
  "samples_of now d spec =
     (let job = js_name spec; state = (case state_of d job of Some s \<Rightarrow> s | None \<Rightarrow> new_state job now);
          time = (\<lambda>t. case t of None \<Rightarrow> 0 | Some x \<Rightarrow> x) in
      \<lparr>jm_runs = map (\<lambda>st. (st, counter d job (''runs.'' @ st))) RUN_STATUSES,
       jm_items = map (\<lambda>kind. (kind, counter d job (''items.'' @ kind))) (js_item_kinds spec),
       jm_last_success = time (sj_last_success_at state), jm_last_run = time (sj_last_started_at state),
       jm_overdue = (if is_overdue spec state now then 1 else 0)\<rparr>)"

definition collect :: "job_db \<Rightarrow> (string \<times> job_samples) list \<times> job_db" where
  "collect d = (let d' = ensure_states d in (map (\<lambda>spec. (js_name spec, samples_of (jd_clock d) d' spec)) JOBS, d'))"

end
