(* ===== verification/Company_Deletion.thy ===== *)
theory Company_Deletion
  imports Retention Task_Lock Auth Removal
begin

text \<open>
  A company that identity-service has deleted: \<open>apps/actions/company_deletion.py\<close> with its view and task, and
  \<open>apps/storage/company_deletion.py\<close>, the hook the settings name for the files. The view only flags the
  company; the task deletes the files and the rows of the flagged companies, again and again until the
  flag expires. All foreign keys of these tables cascade.
\<close>

record company_deletion =
  cd_company_id :: int
  cd_requested_at :: int
  cd_completed_at :: "int option"

record platform =
  pl_storage :: world
  pl_actions :: actions
  pl_deletions :: "company_deletion list"

definition SWEEP_WINDOW :: int where "SWEEP_WINDOW = 3600000000"

section \<open>The flag\<close>

definition flag_company_deletion :: "int \<Rightarrow> int \<Rightarrow> platform \<Rightarrow> platform" where
  "flag_company_deletion company_id now d = d\<lparr>pl_deletions :=
     (if company_id \<in> cd_company_id ` set (pl_deletions d)
      then update_where (\<lambda>f. cd_company_id f = company_id \<and> cd_completed_at f \<noteq> None) (\<lambda>f. f\<lparr>cd_completed_at := None\<rparr>) (pl_deletions d)
      else pl_deletions d @ [\<lparr>cd_company_id = company_id, cd_requested_at = now, cd_completed_at = None\<rparr>])\<rparr>"

text \<open>
  \<open>CompanyDeletionView.post\<close>: the status of the answer. The header is empty when it is missing; an exception that
  \<open>verify_deletion_assertion\<close> lets through ends the request in a 500.
\<close>

definition deletion_view :: "jwt_lib \<Rightarrow> auth_settings \<Rightarrow> string \<Rightarrow> int \<Rightarrow> jwks \<Rightarrow> platform \<Rightarrow> int \<times> jwks \<times> platform" where
  "deletion_view lib st header now c d =
     (if \<not> prefix ''bearer '' (lower header) then (401, c, d)
      else case verify_deletion_assertion lib st (strip (drop 7 header)) c of
        (Inl None, c') \<Rightarrow> (401, c', d)
      | (Inl (Some _), c') \<Rightarrow> (500, c', d)
      | (Inr company_id, c') \<Rightarrow> (202, c', flag_company_deletion company_id now d))"

section \<open>Files\<close>

text \<open>Deleting objects, with the grants and share links that point to them.\<close>

definition delete_objects :: "(storage_object \<Rightarrow> bool) \<Rightarrow> world \<Rightarrow> world" where
  "delete_objects P w =
     (let gone = o_id ` set (filter P (w_objects w)) in
      w\<lparr>w_objects := delete_where P (w_objects w),
        w_grants := delete_where (\<lambda>g. g_object g \<in> Some ` gone) (w_grants w),
        w_links := delete_where (\<lambda>l. l_object l \<in> gone) (w_links w)\<rparr>)"

definition BATCH :: nat where "BATCH = 500"

definition company_batch :: "int \<Rightarrow> world \<Rightarrow> storage_object list" where
  "company_batch company_id w =
     take BATCH (sort_key o_name (filter (\<lambda>obj. o_company_id obj = company_id) (w_objects w)))"

definition delete_keys :: "env \<Rightarrow> storage_object list \<Rightarrow> unit act" where
  "delete_keys env objs = forE objs (\<lambda>obj. delete_storage_key env (o_storage_key obj))"

lemma delete_keys_db: "keeps same_db (delete_keys env objs)"
  unfolding delete_keys_def by (intro keeps_forE same_db_rel delete_storage_key_db)

lemma delete_keys_run: "\<exists>bl. snd (delete_keys env objs w) = w\<lparr>w_blobs := bl\<rparr>"
  using delete_keys_db [of env objs] unfolding keeps_def same_db_def by blast

lemma company_batch_shorter:
  assumes "company_batch c w \<noteq> []" "delete_keys env (company_batch c w) w = (r, w')"
  shows "length (filter (\<lambda>obj. o_company_id obj = c)
           (w_objects (delete_objects (\<lambda>obj. o_id obj \<in> o_id ` set (company_batch c w)) w')))
       < length (filter (\<lambda>obj. o_company_id obj = c) (w_objects w))"
proof -
  have same: "w_objects w' = w_objects w"
    using delete_keys_run [of env "company_batch c w" w] assms(2) by auto
  have sub: "set (company_batch c w) \<subseteq> set (filter (\<lambda>obj. o_company_id obj = c) (w_objects w))"
    unfolding company_batch_def using set_take_subset by (metis set_sort)
  obtain obj where obj: "obj \<in> set (company_batch c w)" using assms(1) by (meson last_in_set)
  have "length (filter (\<lambda>x. o_id x \<notin> o_id ` set (company_batch c w)) (filter (\<lambda>obj. o_company_id obj = c) (w_objects w)))
      < length (filter (\<lambda>obj. o_company_id obj = c) (w_objects w))"
    using sub obj by (intro length_filter_less [of obj]) auto
  then show ?thesis by (simp add: same delete_objects_def Let_def delete_where_def conj_commute)
qed

function delete_company_files :: "env \<Rightarrow> int \<Rightarrow> nat act" where
  "delete_company_files env company_id w =
     (let batch = company_batch company_id w in
      if batch = [] then (Inr 0, w)
      else case delete_keys env batch w of
        (Inl e, w1) \<Rightarrow> (Inl e, w1)
      | (Inr _, w1) \<Rightarrow>
          (case delete_company_files env company_id (delete_objects (\<lambda>obj. o_id obj \<in> o_id ` set batch) w1) of
             (Inl e, w2) \<Rightarrow> (Inl e, w2) | (Inr n, w2) \<Rightarrow> (Inr (length batch + n), w2)))"
  by pat_completeness auto

termination
  by (relation "measure (\<lambda>(env, c, w). length (filter (\<lambda>obj. o_company_id obj = c) (w_objects w)))")
    (auto intro: company_batch_shorter [OF _ sym])

declare delete_company_files.simps [simp del]

section \<open>Rows\<close>

text \<open>The models with a field \<open>company_id\<close>, in the order of \<open>get_models\<close>.\<close>

datatype table = Bucket | StorageObject | CompanyQuota | UserQuota | StorageAccessGrant | ObjectShareLink
  | ActionRule | ActionOutbox | EventLog

definition company_scoped_models :: "table list" where
  "company_scoped_models = [Bucket, StorageObject, CompanyQuota, UserQuota, StorageAccessGrant, ObjectShareLink,
     ActionRule, ActionOutbox, EventLog]"

definition delete_buckets :: "(bucket \<Rightarrow> bool) \<Rightarrow> world \<Rightarrow> world" where
  "delete_buckets P w =
     (let gone = b_id ` set (filter P (w_buckets w)) in
      delete_objects (\<lambda>obj. o_bucket obj \<in> gone)
        (w\<lparr>w_buckets := delete_where P (w_buckets w), w_grants := delete_where (\<lambda>g. g_bucket g \<in> gone) (w_grants w)\<rparr>))"

text \<open>\<open>filter(company_id=...).delete()\<close> on each model.\<close>

definition delete_company_table :: "table \<Rightarrow> int \<Rightarrow> platform \<Rightarrow> platform" where
  "delete_company_table t c d =
     (let w = pl_storage d; s = pl_actions d in
      case t of
        Bucket \<Rightarrow> d\<lparr>pl_storage := delete_buckets (\<lambda>b. b_company_id b = c) w\<rparr>
      | StorageObject \<Rightarrow> d\<lparr>pl_storage := delete_objects (\<lambda>obj. o_company_id obj = c) w\<rparr>
      | CompanyQuota \<Rightarrow> d\<lparr>pl_storage := w\<lparr>w_cquotas := delete_where (\<lambda>q. cq_company_id q = c) (w_cquotas w)\<rparr>\<rparr>
      | UserQuota \<Rightarrow> d\<lparr>pl_storage := w\<lparr>w_uquotas := delete_where (\<lambda>q. uq_company_id q = c) (w_uquotas w)\<rparr>\<rparr>
      | StorageAccessGrant \<Rightarrow> d\<lparr>pl_storage := w\<lparr>w_grants := delete_where (\<lambda>g. g_company_id g = c) (w_grants w)\<rparr>\<rparr>
      | ObjectShareLink \<Rightarrow> d\<lparr>pl_storage := w\<lparr>w_links := delete_where (\<lambda>l. l_company_id l = c) (w_links w)\<rparr>\<rparr>
      | ActionRule \<Rightarrow> d\<lparr>pl_actions := delete_rules (\<lambda>r. r_company_id r = c) s\<rparr>
      | ActionOutbox \<Rightarrow> d\<lparr>pl_actions := delete_outbox (\<lambda>r. ob_company_id r = c) s\<rparr>
      | EventLog \<Rightarrow> d\<lparr>pl_actions := s\<lparr>a_log := delete_where (\<lambda>e. ev_company_id e = Some c) (a_log s)\<rparr>\<rparr>)"

definition row_count :: "platform \<Rightarrow> nat" where
  "row_count d =
     (let w = pl_storage d; s = pl_actions d in
      length (w_buckets w) + length (w_objects w) + length (w_cquotas w) + length (w_uquotas w) + length (w_grants w)
      + length (w_links w) + length (a_rules s) + length (a_outbox s) + length (a_attempts s) + length (a_log s))"

text \<open>
  One deletion; \<open>None\<close> is \<open>ProtectedError\<close>, which none of these models raises. The count includes the rows that
  cascade.
\<close>

definition delete_model :: "int \<Rightarrow> table \<Rightarrow> platform \<Rightarrow> (nat \<times> platform) option" where
  "delete_model c t d = (let d' = delete_company_table t c d in Some (row_count d - row_count d', d'))"

text \<open>One pass over the models: the blocked ones, the number of deleted rows.\<close>

fun delete_pass :: "(table \<Rightarrow> 's \<Rightarrow> (nat \<times> 's) option) \<Rightarrow> table list \<Rightarrow> 's \<Rightarrow> (table list \<times> nat) \<times> 's" where
  "delete_pass del [] d = (([], 0), d)"
| "delete_pass del (t # ts) d =
     (case del t d of
        None \<Rightarrow> (let ((blocked, deleted), d') = delete_pass del ts d in ((t # blocked, deleted), d'))
      | Some (count, d1) \<Rightarrow> (let ((blocked, deleted), d') = delete_pass del ts d1 in ((blocked, count + deleted), d')))"

text \<open>The passes that are left; \<open>None\<close> is the \<open>RuntimeError\<close> after the last one.\<close>

fun delete_attempts :: "(table \<Rightarrow> 's \<Rightarrow> (nat \<times> 's) option) \<Rightarrow> nat \<Rightarrow> table list \<Rightarrow> 's \<Rightarrow> nat option \<times> 's" where
  "delete_attempts del 0 remaining d = (None, d)"
| "delete_attempts del (Suc n) remaining d =
     (let ((blocked, deleted), d') = delete_pass del remaining d in
      if blocked = [] then (Some deleted, d')
      else let (res, d'') = delete_attempts del n blocked d' in (map_option ((+) deleted) res, d''))"

definition delete_company_rows :: "int \<Rightarrow> platform \<Rightarrow> nat option \<times> platform" where
  "delete_company_rows c =
     delete_attempts (delete_model c) (length company_scoped_models + 1) company_scoped_models"

section \<open>The purge\<close>

datatype purge_error = Blob_Error exn | Runtime_Error

definition purge_company :: "env \<Rightarrow> int \<Rightarrow> platform \<Rightarrow> (purge_error + nat) \<times> platform" where
  "purge_company env c d =
     (case delete_company_files env c (pl_storage d) of
        (Inl e, w) \<Rightarrow> (Inl (Blob_Error e), d\<lparr>pl_storage := w\<rparr>)
      | (Inr _, w) \<Rightarrow>
          (case delete_company_rows c (d\<lparr>pl_storage := w\<rparr>) of
             (None, d') \<Rightarrow> (Inl Runtime_Error, d')
           | (Some n, d') \<Rightarrow> (Inr n, d')))"

record deletion_stats =
  ds_purged :: nat
  ds_failed :: nat
  ds_released :: nat

definition complete_deletion :: "int \<Rightarrow> int \<Rightarrow> platform \<Rightarrow> platform" where
  "complete_deletion c now d = d\<lparr>pl_deletions :=
     update_where (\<lambda>f. cd_company_id f = c) (\<lambda>f. f\<lparr>cd_completed_at := Some now\<rparr>) (pl_deletions d)\<rparr>"

definition release_deletion :: "int \<Rightarrow> platform \<Rightarrow> platform" where
  "release_deletion c d = d\<lparr>pl_deletions := delete_where (\<lambda>f. cd_company_id f = c) (pl_deletions d)\<rparr>"

definition expired_deletion :: "int \<Rightarrow> company_deletion \<Rightarrow> bool" where
  "expired_deletion now f \<longleftrightarrow> (case cd_completed_at f of None \<Rightarrow> False | Some t \<Rightarrow> t < now - SWEEP_WINDOW)"

text \<open>The body of the loop.\<close>

definition sweep :: "env \<Rightarrow> int \<Rightarrow> company_deletion \<Rightarrow> platform \<Rightarrow> deletion_stats \<times> platform" where
  "sweep env now f d =
     (let none = \<lparr>ds_purged = 0, ds_failed = 0, ds_released = 0\<rparr>; c = cd_company_id f in
      if expired_deletion now f then (none\<lparr>ds_released := 1\<rparr>, release_deletion c d)
      else case purge_company env c d of
        (Inl _, d') \<Rightarrow> (none\<lparr>ds_failed := 1\<rparr>, d')
      | (Inr _, d') \<Rightarrow>
          if cd_completed_at f = None then (none\<lparr>ds_purged := 1\<rparr>, complete_deletion c now d') else (none, d'))"

text \<open>The loop; the deadline allows \<open>turns\<close> rows.\<close>

fun sweeps :: "env \<Rightarrow> int \<Rightarrow> nat \<Rightarrow> company_deletion list \<Rightarrow> platform \<Rightarrow> deletion_stats \<times> platform" where
  "sweeps env now turns [] d = (\<lparr>ds_purged = 0, ds_failed = 0, ds_released = 0\<rparr>, d)"
| "sweeps env now turns (f # fs) d =
     (if turns = 0 then (\<lparr>ds_purged = 0, ds_failed = 0, ds_released = 0\<rparr>, d)
      else let (a, d1) = sweep env now f d; (b, d2) = sweeps env now (turns - 1) fs d1 in
        (\<lparr>ds_purged = ds_purged a + ds_purged b, ds_failed = ds_failed a + ds_failed b,
          ds_released = ds_released a + ds_released b\<rparr>, d2))"

definition purge_deleted_companies :: "env \<Rightarrow> int \<Rightarrow> nat \<Rightarrow> platform \<Rightarrow> deletion_stats \<times> platform" where
  "purge_deleted_companies env now turns d = sweeps env now turns (sort_key cd_requested_at (pl_deletions d)) d"

text \<open>The Celery task, every minute; \<open>None\<close> is \<open>skipped\<close>, and an error of Redis is raised.\<close>

definition purge_deleted_companies_task ::
  "'s redis \<Rightarrow> string \<Rightarrow> env \<Rightarrow> string \<Rightarrow> int \<Rightarrow> int \<Rightarrow> nat \<Rightarrow> 's \<Rightarrow> platform \<Rightarrow> (unit + deletion_stats option) \<times> 's \<times> platform" where
  "purge_deleted_companies_task r lock_prefix env token now ended turns s d =
     (let key = lock_key lock_prefix ''purge_deleted_companies'' in
      case acquire r key 120 token now s of
        (Inl e, s') \<Rightarrow> (Inl e, s', d)
      | (Inr False, s') \<Rightarrow> (Inr None, s', d)
      | (Inr True, s') \<Rightarrow>
          (let (stats, d') = purge_deleted_companies env now turns d in (Inr (Some stats), release r key token ended s', d')))"

section \<open>What a purge removes\<close>

text \<open>Every reference stays inside a company.\<close>

definition platform_ok :: "platform \<Rightarrow> bool" where
  "platform_ok d \<longleftrightarrow> schema_ok (pl_storage d) \<and> tenant_ok (pl_storage d) \<and> rules_local (pl_actions d) \<and>
     distinct (map ob_id (a_outbox (pl_actions d)))"

definition storage_without :: "int \<Rightarrow> world \<Rightarrow> world" where
  "storage_without c w = w\<lparr>
     w_buckets := delete_where (\<lambda>b. b_company_id b = c) (w_buckets w),
     w_objects := delete_where (\<lambda>obj. o_company_id obj = c) (w_objects w),
     w_grants := delete_where (\<lambda>g. g_company_id g = c) (w_grants w),
     w_links := delete_where (\<lambda>l. l_company_id l = c) (w_links w),
     w_cquotas := delete_where (\<lambda>q. cq_company_id q = c) (w_cquotas w),
     w_uquotas := delete_where (\<lambda>q. uq_company_id q = c) (w_uquotas w)\<rparr>"

definition actions_without :: "int \<Rightarrow> actions \<Rightarrow> actions" where
  "actions_without c s = s\<lparr>
     a_rules := delete_where (\<lambda>r. r_company_id r = c) (a_rules s),
     a_outbox := delete_where (\<lambda>row. ob_company_id row = c) (a_outbox s),
     a_attempts := delete_where (\<lambda>a. at_outbox a \<in> ob_id ` {row \<in> set (a_outbox s). ob_company_id row = c}) (a_attempts s),
     a_log := delete_where (\<lambda>e. ev_company_id e = Some c) (a_log s)\<rparr>"

lemma delete_objects_delete: "delete_objects Q (delete_objects P w) = delete_objects (\<lambda>obj. P obj \<or> Q obj) w"
proof -
  have "o_id ` {obj \<in> set (w_objects w). P obj \<or> Q obj} =
      o_id ` {obj \<in> set (w_objects w). P obj} \<union> o_id ` {obj \<in> set (w_objects w). \<not> P obj \<and> Q obj}" by auto
  then show ?thesis by (simp add: delete_objects_def Let_def delete_where_delete image_Un)
qed

lemma delete_objects_cong:
  "(\<And>obj. obj \<in> set (w_objects w) \<Longrightarrow> P obj = Q obj) \<Longrightarrow> delete_objects P w = delete_objects Q w"
proof -
  assume same: "\<And>obj. obj \<in> set (w_objects w) \<Longrightarrow> P obj = Q obj"
  then have "filter P (w_objects w) = filter Q (w_objects w)" by (intro filter_cong) simp_all
  then show ?thesis using delete_where_cong [of "w_objects w" P Q, OF same] by (simp only: delete_objects_def Let_def)
qed

lemma delete_objects_blobs [simp]:
  "delete_objects P (w\<lparr>w_blobs := bl\<rparr>) = (delete_objects P w)\<lparr>w_blobs := bl\<rparr>"
  by (simp add: delete_objects_def)

lemma delete_objects_fields [simp]:
  "w_objects (delete_objects P w) = delete_where P (w_objects w)" "w_buckets (delete_objects P w) = w_buckets w"
  "w_cquotas (delete_objects P w) = w_cquotas w" "w_uquotas (delete_objects P w) = w_uquotas w"
  "w_blobs (delete_objects P w) = w_blobs w" "w_events (delete_objects P w) = w_events w"
  by (simp_all add: delete_objects_def)

text \<open>The owner of what a row points to is the company of the row.\<close>

lemma company_of_object:
  assumes "tenant_ok w" "obj \<in> set (w_objects w)" "b \<in> set (w_buckets w)" "o_bucket obj = b_id b"
  shows "o_company_id obj = b_company_id b"
  using assms by (auto simp: tenant_ok_def object_local_def bucket_company_def)

lemma company_of_grant:
  assumes "tenant_ok w" "g \<in> set (w_grants w)"
  shows "b \<in> set (w_buckets w) \<Longrightarrow> g_bucket g = b_id b \<Longrightarrow> g_company_id g = b_company_id b"
    and "schema_ok w \<Longrightarrow> obj \<in> set (w_objects w) \<Longrightarrow> g_object g = Some (o_id obj) \<Longrightarrow> g_company_id g = o_company_id obj"
proof -
  show bucket: "g_company_id g = b_company_id b" if "b \<in> set (w_buckets w)" "g_bucket g = b_id b" for b
    using assms that by (auto simp: tenant_ok_def grant_local_def bucket_company_def)
  assume schema: "schema_ok w" and obj: "obj \<in> set (w_objects w)" "g_object g = Some (o_id obj)"
  obtain b where b: "b \<in> set (w_buckets w)" "b_id b = o_bucket obj" using schema obj(1) by (auto simp: schema_ok_def)
  have "o_bucket obj = g_bucket g" using assms obj by (auto simp: tenant_ok_def grant_local_def)
  then show "g_company_id g = o_company_id obj"
    using bucket [OF b(1)] company_of_object [OF assms(1) obj(1) b(1)] b(2) by simp
qed

lemma delete_buckets_company:
  assumes "tenant_ok w" "schema_ok w"
  shows "delete_objects (\<lambda>obj. o_company_id obj = c) (delete_buckets (\<lambda>b. b_company_id b = c) w) =
    delete_objects (\<lambda>obj. o_company_id obj = c) w\<lparr>w_buckets := delete_where (\<lambda>b. b_company_id b = c) (w_buckets w),
      w_grants := delete_where (\<lambda>g. g_bucket g \<in> b_id ` set (filter (\<lambda>b. b_company_id b = c) (w_buckets w)))
        (w_grants (delete_objects (\<lambda>obj. o_company_id obj = c) w))\<rparr>"
proof -
  let ?gone = "b_id ` set (filter (\<lambda>b. b_company_id b = c) (w_buckets w))"
  let ?v = "w\<lparr>w_buckets := delete_where (\<lambda>b. b_company_id b = c) (w_buckets w),
      w_grants := delete_where (\<lambda>g. g_bucket g \<in> ?gone) (w_grants w)\<rparr>"
  have "delete_objects (\<lambda>obj. o_company_id obj = c) (delete_buckets (\<lambda>b. b_company_id b = c) w) =
      delete_objects (\<lambda>obj. o_bucket obj \<in> ?gone \<or> o_company_id obj = c) ?v"
    by (simp add: delete_buckets_def Let_def delete_objects_delete)
  also have "\<dots> = delete_objects (\<lambda>obj. o_company_id obj = c) ?v"
    using company_of_object [OF assms(1)] by (intro delete_objects_cong) auto
  also have "\<dots> = delete_objects (\<lambda>obj. o_company_id obj = c) w\<lparr>w_buckets := delete_where (\<lambda>b. b_company_id b = c) (w_buckets w),
      w_grants := delete_where (\<lambda>g. g_bucket g \<in> ?gone) (w_grants (delete_objects (\<lambda>obj. o_company_id obj = c) w))\<rparr>"
    by (simp add: delete_objects_def Let_def delete_where_delete disj_commute)
  finally show ?thesis .
qed

lemma storage_without_eq:
  assumes "tenant_ok w" "schema_ok w"
  shows "(let v = delete_objects (\<lambda>obj. o_company_id obj = c) (delete_buckets (\<lambda>b. b_company_id b = c) w) in
    v\<lparr>w_cquotas := delete_where (\<lambda>q. cq_company_id q = c) (w_cquotas v),
      w_uquotas := delete_where (\<lambda>q. uq_company_id q = c) (w_uquotas v),
      w_grants := delete_where (\<lambda>g. g_company_id g = c) (w_grants v),
      w_links := delete_where (\<lambda>l. l_company_id l = c) (w_links v)\<rparr>) = storage_without c w"
proof -
  let ?gone = "o_id ` set (filter (\<lambda>obj. o_company_id obj = c) (w_objects w))"
  have "delete_where (\<lambda>g. (g_object g \<in> Some ` ?gone \<or> g_bucket g \<in> b_id ` set (filter (\<lambda>b. b_company_id b = c) (w_buckets w))) \<or> g_company_id g = c) (w_grants w) =
      delete_where (\<lambda>g. g_company_id g = c) (w_grants w)"
    using company_of_grant [OF assms(1)] assms(2) by (intro delete_where_cong) auto
  moreover have "delete_where (\<lambda>l. l_object l \<in> ?gone \<or> l_company_id l = c) (w_links w) = delete_where (\<lambda>l. l_company_id l = c) (w_links w)"
    using assms(1) by (intro delete_where_cong) (auto simp: tenant_ok_def link_local_def)
  ultimately show ?thesis
    unfolding delete_buckets_company [OF assms] storage_without_def
    by (simp add: delete_objects_def Let_def delete_where_delete)
qed

lemma log_after_delete [simp]: "a_log (delete_outbox P s) = a_log s" "a_log (delete_rules Q s) = a_log s"
  by (simp_all add: delete_outbox_def delete_rules_def Let_def)

lemma actions_without_eq:
  assumes "rules_local s"
  shows "(delete_outbox (\<lambda>r. ob_company_id r = c) (delete_rules (\<lambda>r. r_company_id r = c) s))
      \<lparr>a_log := delete_where (\<lambda>e. ev_company_id e = Some c) (a_log s)\<rparr> = actions_without c s"
proof -
  have "delete_outbox (\<lambda>r. ob_company_id r = c) (delete_rules (\<lambda>r. r_company_id r = c) s) =
      delete_outbox (\<lambda>r. ob_company_id r = c) (s\<lparr>a_rules := delete_where (\<lambda>r. r_company_id r = c) (a_rules s)\<rparr>)"
    unfolding delete_rules_def Let_def using assms by (intro delete_outbox_absorb) (auto simp: rules_local_def)
  moreover have "set (filter (\<lambda>r. ob_company_id r = c) (a_outbox s)) = {row \<in> set (a_outbox s). ob_company_id row = c}" by auto
  ultimately show ?thesis by (simp add: delete_outbox_def Let_def actions_without_def)
qed

lemma delete_company_rows_eq:
  assumes "platform_ok d"
  shows "\<exists>n. delete_company_rows c d =
    (Some n, d\<lparr>pl_storage := storage_without c (pl_storage d), pl_actions := actions_without c (pl_actions d)\<rparr>)"
proof -
  have "\<exists>n. delete_company_rows c d = (Some n, foldl (\<lambda>d t. delete_company_table t c d) d company_scoped_models)"
    by (simp add: delete_company_rows_def company_scoped_models_def delete_model_def Let_def split_def)
  moreover have "foldl (\<lambda>d t. delete_company_table t c d) d company_scoped_models =
    d\<lparr>pl_storage := storage_without c (pl_storage d), pl_actions := actions_without c (pl_actions d)\<rparr>"
    using assms storage_without_eq [of "pl_storage d" c] actions_without_eq [of "pl_actions d" c]
    by (simp add: platform_ok_def company_scoped_models_def delete_company_table_def Let_def)
  ultimately show ?thesis by simp
qed

section \<open>The files of the company\<close>

lemma deleted_objects_ok:
  assumes "schema_ok w" "tenant_ok w"
  shows "schema_ok (delete_objects P w)" "tenant_ok (delete_objects P w)"
proof -
  let ?gone = "o_id ` set (filter P (w_objects w))"
  have kept: "i \<in> o_id ` {obj \<in> set (w_objects w). \<not> P obj}" if "i \<in> o_id ` set (w_objects w)" "i \<notin> ?gone" for i
    using that by auto
  have grants: "set (w_grants (delete_objects P w)) = {g \<in> set (w_grants w). g_object g \<notin> Some ` ?gone}"
    and links: "set (w_links (delete_objects P w)) = {l \<in> set (w_links w). l_object l \<notin> ?gone}"
    by (simp_all add: delete_objects_def Let_def)
  have distinct: "distinct (map g_id (w_grants (delete_objects P w)))" "distinct (map l_token (w_links (delete_objects P w)))"
    "distinct (map o_id (w_objects (delete_objects P w)))" "distinct (map object_key (w_objects (delete_objects P w)))"
    using assms(1) by (simp_all add: schema_ok_def delete_objects_def Let_def distinct_delete_where)
  show "schema_ok (delete_objects P w)"
    using assms(1) distinct unfolding schema_ok_def grants links
    by (intro conjI ballI allI impI) (auto simp: inj_image_mem_iff intro!: kept)
  show "tenant_ok (delete_objects P w)"
    using assms(2) unfolding tenant_ok_def grants links
    by (auto simp: object_local_def grant_local_def link_local_def)
qed

lemma delete_keys_blobs:
  "removes env \<Longrightarrow> delete_keys env objs w = (Inr (), w') \<Longrightarrow> w' = w\<lparr>w_blobs := w_blobs w |` (- o_storage_key ` set objs)\<rparr>"
proof (induction objs arbitrary: w)
  case (Cons obj objs)
  obtain w1 where one: "delete_storage_key env (o_storage_key obj) w = (Inr (), w1)" and rest: "delete_keys env objs w1 = (Inr (), w')"
    using Cons.prems(2) by (auto simp: delete_keys_def seqE_def bindE_def split: sum.splits prod.splits)
  have "w1 = w\<lparr>w_blobs := (w_blobs w)(o_storage_key obj := None)\<rparr>"
    using delete_key_removes [OF Cons.prems(1) one] delete_storage_key_db [of env "o_storage_key obj"] one
    by (auto simp: keeps_def same_db_def dest!: spec [of _ w])
  moreover have "w' = w1\<lparr>w_blobs := w_blobs w1 |` (- o_storage_key ` set objs)\<rparr>"
    by (rule Cons.IH [OF Cons.prems(1) rest])
  ultimately show ?case by (simp add: restrict_map_def fun_eq_iff)
qed (simp add: delete_keys_def ret_def restrict_map_def)

lemma company_batch_sub: "set (company_batch c w) \<subseteq> {obj \<in> set (w_objects w). o_company_id obj = c}"
  unfolding company_batch_def using set_take_subset by fastforce

lemma company_batch_Nil: "company_batch c w = [] \<longleftrightarrow> (\<forall>obj \<in> set (w_objects w). o_company_id obj \<noteq> c)"
proof -
  have "sort_key f xs = [] \<longleftrightarrow> xs = []" for f :: "storage_object \<Rightarrow> string" and xs by (metis set_empty set_sort)
  then show ?thesis by (simp add: company_batch_def BATCH_def filter_empty_conv)
qed

lemma delete_objects_none: "(\<And>obj. obj \<in> set (w_objects w) \<Longrightarrow> \<not> P obj) \<Longrightarrow> delete_objects P w = w"
proof -
  assume none: "\<And>obj. obj \<in> set (w_objects w) \<Longrightarrow> \<not> P obj"
  then have "filter P (w_objects w) = []" by (simp add: filter_empty_conv)
  moreover have "delete_where P (w_objects w) = w_objects w" using none by (simp add: delete_where_def)
  ultimately show ?thesis by (simp add: delete_objects_def delete_where_def)
qed

lemma delete_company_files_step:
  "delete_company_files env c w = (if company_batch c w = [] then (Inr 0, w)
     else case delete_keys env (company_batch c w) w of
       (Inl e, w1) \<Rightarrow> (Inl e, w1)
     | (Inr _, w1) \<Rightarrow>
         (case delete_company_files env c (delete_objects (\<lambda>obj. o_id obj \<in> o_id ` set (company_batch c w)) w1) of
            (Inl e, w2) \<Rightarrow> (Inl e, w2) | (Inr n, w2) \<Rightarrow> (Inr (length (company_batch c w) + n), w2)))"
  by (subst delete_company_files.simps) (simp only: Let_def)

lemma delete_company_files_result:
  assumes "removes env" "distinct (map o_id (w_objects w))" "delete_company_files env c w = (Inr n, w')"
  shows "w' = (delete_objects (\<lambda>obj. o_company_id obj = c) w)
      \<lparr>w_blobs := w_blobs w |` (- o_storage_key ` {obj \<in> set (w_objects w). o_company_id obj = c})\<rparr>"
  using assms
proof (induction env c w arbitrary: n w' rule: delete_company_files.induct)
  case (1 env c w)
  let ?batch = "company_batch c w" and ?all = "{obj \<in> set (w_objects w). o_company_id obj = c}"
  show ?case
  proof (cases "?batch = []")
    case True
    then have "\<forall>obj \<in> set (w_objects w). o_company_id obj \<noteq> c" using company_batch_Nil by simp
    then have none: "delete_objects (\<lambda>obj. o_company_id obj = c) w = w" "?all = {}" by (auto intro: delete_objects_none)
    have "w' = w" using "1.prems"(3) True by (simp add: delete_company_files_step [of env c w])
    then show ?thesis unfolding none by simp
  next
    case False
    let ?drop = "\<lambda>obj. o_id obj \<in> o_id ` set ?batch"
    obtain w1 m where keys: "delete_keys env ?batch w = (Inr (), w1)"
      and rest: "delete_company_files env c (delete_objects ?drop w1) = (Inr m, w')"
      using "1.prems"(3) False by (auto simp: delete_company_files_step [of env c w] split: sum.splits prod.splits)
    have w1: "w1 = w\<lparr>w_blobs := w_blobs w |` (- o_storage_key ` set ?batch)\<rparr>"
      by (rule delete_keys_blobs [OF "1.prems"(1) keys])
    have drop: "?drop obj \<longleftrightarrow> obj \<in> set ?batch" if "obj \<in> set (w_objects w)" for obj
      using distinct_key_unique [OF "1.prems"(2) that] company_batch_sub [of c w] by fastforce
    have "distinct (map o_id (w_objects (delete_objects ?drop w1)))"
      using "1.prems"(2) by (simp add: w1 distinct_delete_where)
    then have "w' = (delete_objects (\<lambda>obj. o_company_id obj = c) (delete_objects ?drop w1))
        \<lparr>w_blobs := w_blobs w1 |` (- o_storage_key ` {obj \<in> set (w_objects (delete_objects ?drop w1)). o_company_id obj = c})\<rparr>"
      using "1.IH" [OF refl False keys [symmetric] refl] "1.prems"(1) rest by simp
    moreover have "delete_objects (\<lambda>obj. o_company_id obj = c) (delete_objects ?drop w) = delete_objects (\<lambda>obj. o_company_id obj = c) w"
      unfolding delete_objects_delete using drop company_batch_sub by (intro delete_objects_cong) blast
    moreover have "set ?batch \<union> {obj \<in> set (w_objects (delete_objects ?drop w1)). o_company_id obj = c} = ?all"
      using drop company_batch_sub [of c w] by (auto simp: w1)
    then have "- o_storage_key ` set ?batch \<inter> - o_storage_key ` {obj \<in> set (w_objects (delete_objects ?drop w1)). o_company_id obj = c} =
        - o_storage_key ` ?all" by (metis Compl_Un image_Un)
    ultimately show ?thesis by (simp add: w1 Int_commute)
  qed
qed

lemma storage_without_after_files:
  "storage_without c ((delete_objects (\<lambda>obj. o_company_id obj = c) w)\<lparr>w_blobs := bl\<rparr>) = (storage_without c w)\<lparr>w_blobs := bl\<rparr>"
  if "schema_ok w" "tenant_ok w"
proof -
  let ?gone = "o_id ` set (filter (\<lambda>obj. o_company_id obj = c) (w_objects w))"
  have "delete_where (\<lambda>g. g_object g \<in> Some ` ?gone \<or> g_company_id g = c) (w_grants w) = delete_where (\<lambda>g. g_company_id g = c) (w_grants w)"
    using company_of_grant(2) [OF that(2) _ that(1)] by (intro delete_where_cong) auto
  moreover have "delete_where (\<lambda>l. l_object l \<in> ?gone \<or> l_company_id l = c) (w_links w) = delete_where (\<lambda>l. l_company_id l = c) (w_links w)"
    using that(2) by (intro delete_where_cong) (auto simp: tenant_ok_def link_local_def)
  ultimately show ?thesis by (simp add: storage_without_def delete_objects_def Let_def delete_where_delete)
qed

lemma without_company_ok:
  assumes "platform_ok d"
  shows "platform_ok (d\<lparr>pl_storage := storage_without c (pl_storage d), pl_actions := actions_without c (pl_actions d)\<rparr>)"
proof -
  let ?w = "pl_storage d"
  have ok: "schema_ok ?w" "tenant_ok ?w" "rules_local (pl_actions d)" using assms by (simp_all add: platform_ok_def)
  have bucket: "i \<in> b_id ` {b \<in> set (w_buckets ?w). b_company_id b \<noteq> c}"
    if "i \<in> b_id ` set (w_buckets ?w)" "\<And>b. b \<in> set (w_buckets ?w) \<Longrightarrow> b_id b = i \<Longrightarrow> b_company_id b \<noteq> c" for i
    using that by auto
  have object: "i \<in> o_id ` {obj \<in> set (w_objects ?w). o_company_id obj \<noteq> c}"
    if "i \<in> o_id ` set (w_objects ?w)" "\<And>obj. obj \<in> set (w_objects ?w) \<Longrightarrow> o_id obj = i \<Longrightarrow> o_company_id obj \<noteq> c" for i
    using that by auto
  have "\<forall>obj \<in> set (w_objects ?w). o_company_id obj \<noteq> c \<longrightarrow> o_bucket obj \<in> b_id ` {b \<in> set (w_buckets ?w). b_company_id b \<noteq> c}"
    using ok(1) company_of_object [OF ok(2)] by (auto simp: schema_ok_def intro!: bucket) 
  moreover have "g_bucket g \<in> b_id ` {b \<in> set (w_buckets ?w). b_company_id b \<noteq> c} \<and>
      (\<forall>i. g_object g = Some i \<longrightarrow> i \<in> o_id ` {obj \<in> set (w_objects ?w). o_company_id obj \<noteq> c})"
    if "g \<in> set (w_grants ?w)" "g_company_id g \<noteq> c" for g
    using ok(1) that company_of_grant(1) [OF ok(2) that(1)] company_of_grant(2) [OF ok(2) that(1) ok(1)]
    by (auto simp: schema_ok_def intro!: bucket object)
  moreover have "l_object l \<in> o_id ` {obj \<in> set (w_objects ?w). o_company_id obj \<noteq> c}"
    if "l \<in> set (w_links ?w)" "l_company_id l \<noteq> c" for l
    using ok that by (auto simp: schema_ok_def tenant_ok_def link_local_def intro!: object)
  ultimately have "schema_ok (storage_without c ?w)"
    using ok(1) by (simp add: schema_ok_def storage_without_def distinct_delete_where) blast
  moreover have "tenant_ok (storage_without c ?w)"
    using ok(2) by (auto simp: tenant_ok_def storage_without_def object_local_def grant_local_def link_local_def bucket_company_def)
  moreover have "rules_local (actions_without c (pl_actions d))"
    using ok(3) by (auto simp: rules_local_def actions_without_def)
  moreover have "distinct (map ob_id (a_outbox (actions_without c (pl_actions d))))"
    using assms by (simp add: platform_ok_def actions_without_def distinct_delete_where)
  ultimately show ?thesis by (simp add: platform_ok_def)
qed

lemma platform_ok_blobs [simp]:
  "schema_ok (w\<lparr>w_blobs := bl\<rparr>) = schema_ok w" "tenant_ok (w\<lparr>w_blobs := bl\<rparr>) = tenant_ok w"
  "storage_without c (w\<lparr>w_blobs := bl\<rparr>) = (storage_without c w)\<lparr>w_blobs := bl\<rparr>"
  by (simp_all add: schema_ok_def tenant_ok_def object_local_def grant_local_def link_local_def storage_without_def)

lemma without_twice: "storage_without c (storage_without c w) = storage_without c w"
  "actions_without c (actions_without c s) = actions_without c s"
proof -
  have "{row \<in> set (a_outbox s). ob_company_id row \<noteq> c \<and> ob_company_id row = c} = {}" by blast
  then show "actions_without c (actions_without c s) = actions_without c s"
    by (simp add: actions_without_def delete_where_delete delete_where_def)
qed (simp add: storage_without_def delete_where_delete)

text \<open>
  C31. Deleting a company deletes the company. When no blob call fails, the purge removes its files from the store
  and every row of the company (buckets, objects, grants, share links, quotas, rules, deliveries with their
  attempts, events), and it removes nothing else; doing it again changes nothing.
\<close>

theorem company_purge_exact:
  assumes "platform_ok d" "removes env" "purge_company env c d = (Inr n, d')"
  shows "d' = d\<lparr>pl_storage := (storage_without c (pl_storage d))
        \<lparr>w_blobs := w_blobs (pl_storage d) |` (- o_storage_key ` {obj \<in> set (w_objects (pl_storage d)). o_company_id obj = c})\<rparr>,
      pl_actions := actions_without c (pl_actions d)\<rparr> \<and>
    (\<exists>m. purge_company env c d' = (Inr m, d'))"
proof -
  let ?w = "pl_storage d"
  let ?bl = "w_blobs ?w |` (- o_storage_key ` {obj \<in> set (w_objects ?w). o_company_id obj = c})"
  have ok: "schema_ok ?w" "tenant_ok ?w" "rules_local (pl_actions d)" using assms(1) by (simp_all add: platform_ok_def)
  obtain m w1 where files: "delete_company_files env c ?w = (Inr m, w1)"
    and rows: "delete_company_rows c (d\<lparr>pl_storage := w1\<rparr>) = (Some n, d')"
    using assms(3) by (auto simp: purge_company_def split: sum.splits prod.splits option.splits)
  have w1: "w1 = (delete_objects (\<lambda>obj. o_company_id obj = c) ?w)\<lparr>w_blobs := ?bl\<rparr>"
    using delete_company_files_result [OF assms(2) _ files] ok(1) by (simp add: schema_ok_def)
  have "platform_ok (d\<lparr>pl_storage := w1\<rparr>)" using assms(1) ok deleted_objects_ok [OF ok(1,2)] by (simp add: platform_ok_def w1)
  then have "d' = d\<lparr>pl_storage := storage_without c w1, pl_actions := actions_without c (pl_actions d)\<rparr>"
    using delete_company_rows_eq [of "d\<lparr>pl_storage := w1\<rparr>" c] rows by auto
  then have d': "d' = d\<lparr>pl_storage := (storage_without c ?w)\<lparr>w_blobs := ?bl\<rparr>, pl_actions := actions_without c (pl_actions d)\<rparr>"
    using storage_without_after_files [OF ok(1,2)] by (simp add: w1)
  have "platform_ok d'" using without_company_ok [OF assms(1), of c] by (simp add: platform_ok_def d')
  then obtain m' where "delete_company_rows c d' = (Some m', d')"
    using delete_company_rows_eq [of d' c] by (auto simp: d' without_twice)
  moreover have "company_batch c (pl_storage d') = []" by (simp add: company_batch_Nil d' storage_without_def)
  then have "delete_company_files env c (pl_storage d') = (Inr 0, pl_storage d')" by (simp add: delete_company_files_step)
  ultimately have "purge_company env c d' = (Inr m', d')" by (simp add: purge_company_def)
  then show ?thesis using d' by blast
qed

section \<open>The task\<close>

text \<open>What belongs to a company.\<close>

record company_rows =
  cr_buckets :: "bucket list"
  cr_objects :: "storage_object list"
  cr_grants :: "access_grant list"
  cr_links :: "share_link list"
  cr_cquotas :: "company_quota list"
  cr_uquotas :: "user_quota list"
  cr_rules :: "action_rule list"
  cr_outbox :: "outbox_row list"
  cr_attempts :: "delivery_attempt list"
  cr_log :: "event_log list"

definition rows_of :: "int \<Rightarrow> platform \<Rightarrow> company_rows" where
  "rows_of c d = (let w = pl_storage d; s = pl_actions d in
     \<lparr>cr_buckets = filter (\<lambda>b. b_company_id b = c) (w_buckets w), cr_objects = filter (\<lambda>obj. o_company_id obj = c) (w_objects w),
      cr_grants = filter (\<lambda>g. g_company_id g = c) (w_grants w), cr_links = filter (\<lambda>l. l_company_id l = c) (w_links w),
      cr_cquotas = filter (\<lambda>q. cq_company_id q = c) (w_cquotas w), cr_uquotas = filter (\<lambda>q. uq_company_id q = c) (w_uquotas w),
      cr_rules = filter (\<lambda>r. r_company_id r = c) (a_rules s), cr_outbox = filter (\<lambda>row. ob_company_id row = c) (a_outbox s),
      cr_attempts = filter (\<lambda>a. at_outbox a \<in> ob_id ` {row \<in> set (a_outbox s). ob_company_id row = c}) (a_attempts s),
      cr_log = filter (\<lambda>e. ev_company_id e = Some c) (a_log s)\<rparr>)"

definition no_rows :: company_rows where
  "no_rows = \<lparr>cr_buckets = [], cr_objects = [], cr_grants = [], cr_links = [], cr_cquotas = [], cr_uquotas = [],
     cr_rules = [], cr_outbox = [], cr_attempts = [], cr_log = []\<rparr>"

definition flag_of :: "int \<Rightarrow> platform \<Rightarrow> company_deletion list" where
  "flag_of c d = filter (\<lambda>f. cd_company_id f = c) (pl_deletions d)"

text \<open>Deleting a blob, with success or not, leaves the other blobs alone.\<close>

definition deletes_one :: "env \<Rightarrow> bool" where
  "deletes_one env \<longleftrightarrow> (\<forall>k bl r bl' k'. storage_delete env k bl = (r, bl') \<longrightarrow> k' \<noteq> k \<longrightarrow> bl' k' = bl k')"

definition never_fails :: "env \<Rightarrow> bool" where
  "never_fails env \<longleftrightarrow> (\<forall>k bl. (\<exists>x. storage_has env k bl = Inr x) \<and> (\<exists>u. fst (storage_delete env k bl) = Inr u))"

text \<open>What may happen to a platform when companies \<open>F\<close> are deleted, in part or completely.\<close>

definition only_companies :: "int set \<Rightarrow> platform \<Rightarrow> platform \<Rightarrow> bool" where
  "only_companies F d d' \<longleftrightarrow> platform_ok d' \<and> set (w_objects (pl_storage d')) \<subseteq> set (w_objects (pl_storage d)) \<and>
     (\<forall>c. c \<notin> F \<longrightarrow> rows_of c d' = rows_of c d) \<and>
     (\<forall>k. (\<forall>obj \<in> set (w_objects (pl_storage d)). o_storage_key obj = k \<longrightarrow> o_company_id obj \<notin> F) \<longrightarrow>
        w_blobs (pl_storage d') k = w_blobs (pl_storage d) k)"

lemma only_companies_refl: "platform_ok d \<Longrightarrow> only_companies F d d"
  by (simp add: only_companies_def)

lemma only_companies_trans: "only_companies F d d1 \<Longrightarrow> only_companies G d1 d2 \<Longrightarrow> only_companies (F \<union> G) d d2"
  unfolding only_companies_def by (intro conjI) (auto 4 3)

lemma rows_without:
  assumes "platform_ok d" "c' \<noteq> c"
  shows "rows_of c' (d\<lparr>pl_storage := storage_without c (pl_storage d), pl_actions := actions_without c (pl_actions d)\<rparr>) = rows_of c' d"
proof -
  let ?s = "pl_actions d"
  have unique: "ob_company_id x = ob_company_id y"
    if "x \<in> set (a_outbox ?s)" "y \<in> set (a_outbox ?s)" "ob_id x = ob_id y" for x y
    using distinct_key_unique [of ob_id "a_outbox ?s" x y] assms(1) that by (simp add: platform_ok_def)
  have apart: "i \<notin> ob_id ` {row \<in> set (a_outbox ?s). ob_company_id row = c}"
    if other: "i \<in> ob_id ` {row \<in> set (a_outbox ?s). ob_company_id row = c'}" for i
  proof
    assume "i \<in> ob_id ` {row \<in> set (a_outbox ?s). ob_company_id row = c}"
    then obtain x y where "x \<in> set (a_outbox ?s)" "ob_company_id x = c" "y \<in> set (a_outbox ?s)" "ob_company_id y = c'" "ob_id x = ob_id y"
      using other by auto
    then show False using unique [of x y] assms(2) by simp
  qed
  have same: "{row \<in> set (a_outbox ?s). ob_company_id row \<noteq> c \<and> ob_company_id row = c'} = {row \<in> set (a_outbox ?s). ob_company_id row = c'}"
    using assms(2) by auto
  have "filter (\<lambda>a. at_outbox a \<in> ob_id ` {row \<in> set (a_outbox ?s). ob_company_id row \<noteq> c \<and> ob_company_id row = c'})
      (delete_where (\<lambda>a. at_outbox a \<in> ob_id ` {row \<in> set (a_outbox ?s). ob_company_id row = c}) (a_attempts ?s)) =
    filter (\<lambda>a. at_outbox a \<in> ob_id ` {row \<in> set (a_outbox ?s). ob_company_id row = c'}) (a_attempts ?s)"
    unfolding delete_where_def filter_filter same by (intro filter_cong refl) (use apart in blast)
  moreover have "(y \<noteq> c \<and> y = c') = (y = c')" "(z \<noteq> Some c \<and> z = Some c') = (z = Some c')" for y z
    using assms(2) by auto
  ultimately show ?thesis
    by (simp add: rows_of_def Let_def storage_without_def actions_without_def) (simp add: delete_where_def)
qed

lemma rows_deleted_objects:
  assumes "platform_ok d" "\<And>obj. obj \<in> set (w_objects (pl_storage d)) \<Longrightarrow> P obj \<Longrightarrow> o_company_id obj = c" "c' \<noteq> c"
  shows "rows_of c' (d\<lparr>pl_storage := (delete_objects P (pl_storage d))\<lparr>w_blobs := bl\<rparr>\<rparr>) = rows_of c' d"
proof -
  let ?w = "pl_storage d"
  have ok: "schema_ok ?w" "tenant_ok ?w" using assms(1) by (simp_all add: platform_ok_def)
  have link: "l_company_id l = o_company_id obj"
    if "l \<in> set (w_links ?w)" "obj \<in> set (w_objects ?w)" "l_object l = o_id obj" for l obj
    using ok(2) that by (simp add: tenant_ok_def link_local_def)
  have "filter (\<lambda>obj. o_company_id obj = c') (delete_where P (w_objects ?w)) = filter (\<lambda>obj. o_company_id obj = c') (w_objects ?w)"
    using assms(2,3) unfolding delete_where_def filter_filter by (intro filter_cong) auto
  moreover have "filter (\<lambda>g. g_company_id g = c') (w_grants (delete_objects P ?w)) = filter (\<lambda>g. g_company_id g = c') (w_grants ?w)"
    using assms(2,3) company_of_grant(2) [OF ok(2) _ ok(1)] unfolding delete_objects_def Let_def delete_where_def
    by (simp, intro filter_cong) auto
  moreover have "filter (\<lambda>l. l_company_id l = c') (w_links (delete_objects P ?w)) = filter (\<lambda>l. l_company_id l = c') (w_links ?w)"
    using assms(2,3) link unfolding delete_objects_def Let_def delete_where_def
    by (simp, intro filter_cong) auto
  ultimately show ?thesis by (simp add: rows_of_def Let_def)
qed

lemma delete_keys_others:
  "deletes_one env \<Longrightarrow> k \<notin> o_storage_key ` set objs \<Longrightarrow> delete_keys env objs w = (r, w') \<Longrightarrow> w_blobs w' k = w_blobs w k"
proof (induction objs arbitrary: w)
  case (Cons obj objs)
  have one: "w_blobs w1 k = w_blobs w k" if "delete_storage_key env (o_storage_key obj) w = (x, w1)" for x w1
    using that Cons.prems(1,2) unfolding deletes_one_def
    by (auto simp: delete_storage_key_def storage_exists_def bindE_def ret_def split: sum.splits prod.splits if_splits)
  show ?case
  proof (cases "delete_storage_key env (o_storage_key obj) w")
    case (Pair x w1)
    then show ?thesis
      using one [OF Pair] Cons by (cases x) (auto simp: delete_keys_def seqE_def bindE_def)
  qed
qed (simp add: delete_keys_def ret_def)

lemma delete_company_files_partial:
  assumes "deletes_one env" "distinct (map o_id (w_objects w))" "delete_company_files env c w = (r, w')"
  shows "\<exists>P bl. (\<forall>obj \<in> set (w_objects w). P obj \<longrightarrow> o_company_id obj = c) \<and> w' = (delete_objects P w)\<lparr>w_blobs := bl\<rparr> \<and>
    (\<forall>k. (\<forall>obj \<in> set (w_objects w). o_storage_key obj = k \<longrightarrow> o_company_id obj \<noteq> c) \<longrightarrow> bl k = w_blobs w k)"
  using assms
proof (induction env c w arbitrary: r w' rule: delete_company_files.induct)
  case (1 env c w)
  let ?batch = "company_batch c w"
  let ?drop = "\<lambda>obj. o_id obj \<in> o_id ` set ?batch"
  have none: "delete_objects (\<lambda>_. False) w = w" by (rule delete_objects_none) simp
  obtain x w1 where keys: "delete_keys env ?batch w = (x, w1)" by fastforce
  then obtain bl1 where w1: "w1 = w\<lparr>w_blobs := bl1\<rparr>" using delete_keys_run [of env ?batch w] by auto
  have others: "bl1 k = w_blobs w k" if "\<forall>obj \<in> set (w_objects w). o_storage_key obj = k \<longrightarrow> o_company_id obj \<noteq> c" for k
    using delete_keys_others [OF "1.prems"(1) _ keys, of k] company_batch_sub [of c w] that by (auto simp: w1)
  consider (empty) "?batch = []" | (failed) e where "?batch \<noteq> []" "x = Inl e" | (more) "?batch \<noteq> []" "x = Inr ()"
    by (cases x) auto
  then show ?case
  proof cases
    case empty
    then have "w' = w" using "1.prems"(3) by (simp add: delete_company_files_step [of env c w])
    then show ?thesis using none by (intro exI [of _ "\<lambda>_. False"] exI [of _ "w_blobs w"]) simp
  next
    case failed
    then have "w' = w1" using "1.prems"(3) keys by (simp add: delete_company_files_step [of env c w])
    then show ?thesis using none others w1 by (intro exI [of _ "\<lambda>_. False"] exI [of _ bl1]) simp
  next
    case more
    let ?v = "delete_objects ?drop w1"
    obtain y where rest: "delete_company_files env c ?v = (y, w')"
      using "1.prems"(3) more keys by (auto simp: delete_company_files_step [of env c w] split: sum.splits prod.splits)
    have drop: "?drop obj \<Longrightarrow> o_company_id obj = c" if "obj \<in> set (w_objects w)" for obj
      using distinct_key_unique [OF "1.prems"(2) that] company_batch_sub [of c w] by fastforce
    have ids: "distinct (map o_id (w_objects ?v))" using "1.prems"(2) by (simp add: w1 distinct_delete_where)
    obtain P bl where ih: "\<forall>obj \<in> set (w_objects ?v). P obj \<longrightarrow> o_company_id obj = c" "w' = (delete_objects P ?v)\<lparr>w_blobs := bl\<rparr>"
      "\<forall>k. (\<forall>obj \<in> set (w_objects ?v). o_storage_key obj = k \<longrightarrow> o_company_id obj \<noteq> c) \<longrightarrow> bl k = w_blobs ?v k"
      using "1.IH" [OF refl more(1) keys [unfolded more(2), symmetric] refl "1.prems"(1) ids rest] by metis
    have "w' = (delete_objects (\<lambda>obj. ?drop obj \<or> P obj) w)\<lparr>w_blobs := bl\<rparr>"
      by (simp add: ih(2) w1 delete_objects_delete)
    moreover have "\<forall>obj \<in> set (w_objects w). ?drop obj \<or> P obj \<longrightarrow> o_company_id obj = c"
      using drop ih(1) by (auto simp: w1)
    moreover have "bl k = w_blobs w k" if "\<forall>obj \<in> set (w_objects w). o_storage_key obj = k \<longrightarrow> o_company_id obj \<noteq> c" for k
      using ih(3) others [OF that] that by (simp add: w1)
    ultimately show ?thesis by (intro exI [of _ "\<lambda>obj. ?drop obj \<or> P obj"] exI [of _ bl] conjI allI impI)
  qed
qed

lemma purge_company_only:
  assumes "platform_ok d" "deletes_one env" "purge_company env c d = (r, d')"
  shows "only_companies {c} d d' \<and> pl_deletions d' = pl_deletions d \<and> ((\<exists>n. r = Inr n) \<longrightarrow> rows_of c d' = no_rows)"
proof -
  let ?w = "pl_storage d"
  have ok: "schema_ok ?w" "tenant_ok ?w" using assms(1) by (simp_all add: platform_ok_def)
  obtain x w1 where files: "delete_company_files env c ?w = (x, w1)" by fastforce
  then obtain P bl where P: "\<forall>obj \<in> set (w_objects ?w). P obj \<longrightarrow> o_company_id obj = c" "w1 = (delete_objects P ?w)\<lparr>w_blobs := bl\<rparr>"
    "\<forall>k. (\<forall>obj \<in> set (w_objects ?w). o_storage_key obj = k \<longrightarrow> o_company_id obj \<noteq> c) \<longrightarrow> bl k = w_blobs ?w k"
    using delete_company_files_partial [OF assms(2) _ files] ok(1) by (auto simp: schema_ok_def)
  let ?d1 = "d\<lparr>pl_storage := w1\<rparr>"
  have ok1: "platform_ok ?d1" using assms(1) deleted_objects_ok [OF ok] by (simp add: platform_ok_def P(2))
  have rows1: "rows_of c' ?d1 = rows_of c' d" if "c' \<noteq> c" for c'
    using rows_deleted_objects [OF assms(1) _ that, of P bl] P(1) by (simp add: P(2))
  have objects1: "set (w_objects w1) \<subseteq> set (w_objects ?w)" "w_blobs w1 = bl" by (auto simp: P(2))
  obtain n where rows: "delete_company_rows c ?d1 =
      (Some n, ?d1\<lparr>pl_storage := storage_without c w1, pl_actions := actions_without c (pl_actions d)\<rparr>)" (is "_ = (_, ?d2)")
    using delete_company_rows_eq [OF ok1, of c] by auto
  have d2: "platform_ok ?d2" "w_blobs (pl_storage ?d2) = bl" "set (w_objects (pl_storage ?d2)) \<subseteq> set (w_objects ?w)" "pl_deletions ?d2 = pl_deletions d"
    using without_company_ok [OF ok1, of c] objects1 by (auto simp: storage_without_def)
  have rows2: "rows_of c' ?d2 = rows_of c' d" if "c' \<noteq> c" for c'
    using rows_without [OF ok1 that] rows1 [OF that] by simp
  have gone: "rows_of c ?d2 = no_rows"
    by (simp add: rows_of_def no_rows_def Let_def storage_without_def actions_without_def delete_where_def filter_empty_conv)
  show ?thesis
  proof (cases x)
    case (Inl e)
    then have "d' = ?d1" "r = Inl (Blob_Error e)" using assms(3) files by (simp_all add: purge_company_def)
    then show ?thesis using ok1 rows1 objects1 P(3) by (auto simp: only_companies_def)
  next
    case (Inr m)
    then have "d' = ?d2" "r = Inr n" using assms(3) files rows by (simp_all add: purge_company_def)
    then show ?thesis using d2 rows2 gone P(3) by (auto simp: only_companies_def)
  qed
qed

lemma delete_keys_succeeds:
  assumes "never_fails env"
  shows "delete_keys env objs w = (Inr (), snd (delete_keys env objs w))"
proof -
  have one: "fst (delete_storage_key env k w) = Inr ()" for k w
  proof -
    obtain x u where "storage_has env k (w_blobs w) = Inr x" "fst (storage_delete env k (w_blobs w)) = Inr u"
      using assms unfolding never_fails_def by blast
    then show ?thesis
      by (cases "storage_delete env k (w_blobs w)") (simp add: delete_storage_key_def storage_exists_def bindE_def ret_def)
  qed
  have "fst (delete_keys env objs w) = Inr ()"
  proof (induction objs arbitrary: w)
    case (Cons obj objs)
    obtain w1 where "delete_storage_key env (o_storage_key obj) w = (Inr (), w1)" using one by (metis prod.collapse)
    then show ?case using Cons by (simp add: delete_keys_def seqE_def bindE_def)
  qed (simp add: delete_keys_def ret_def)
  then show ?thesis by (metis prod.collapse)
qed

lemma delete_company_files_succeeds: "never_fails env \<Longrightarrow> \<exists>n. fst (delete_company_files env c w) = Inr n"
proof (induction env c w rule: delete_company_files.induct)
  case (1 env c w)
  let ?batch = "company_batch c w"
  note keys = delete_keys_succeeds [OF "1.prems", of ?batch w]
  show ?case
  proof (cases "?batch = []")
    case False
    obtain n where "fst (delete_company_files env c (delete_objects (\<lambda>obj. o_id obj \<in> o_id ` set ?batch) (snd (delete_keys env ?batch w)))) = Inr n"
      using "1.IH" [OF refl False keys [symmetric] refl "1.prems"] by blast
    then show ?thesis by (subst delete_company_files_step, subst keys) (auto split: prod.splits)
  qed (simp add: delete_company_files_step)
qed

lemma purge_company_succeeds:
  assumes "platform_ok d" "deletes_one env" "never_fails env"
  shows "\<exists>n. fst (purge_company env c d) = Inr n"
proof -
  obtain m w1 where files: "delete_company_files env c (pl_storage d) = (Inr m, w1)"
    using delete_company_files_succeeds [OF assms(3), of c "pl_storage d"] by (metis prod.collapse)
  have ok: "schema_ok (pl_storage d)" "tenant_ok (pl_storage d)" using assms(1) by (simp_all add: platform_ok_def)
  obtain P bl where "w1 = (delete_objects P (pl_storage d))\<lparr>w_blobs := bl\<rparr>"
    using delete_company_files_partial [OF assms(2) _ files] ok(1) by (auto simp: schema_ok_def)
  then have "platform_ok (d\<lparr>pl_storage := w1\<rparr>)" using assms(1) deleted_objects_ok [OF ok] by (simp add: platform_ok_def)
  then show ?thesis using delete_company_rows_eq [of "d\<lparr>pl_storage := w1\<rparr>" c] files by (auto simp: purge_company_def)
qed

text \<open>A flag is dealt with: released once it has expired, completed when the company is gone.\<close>

definition handled :: "int \<Rightarrow> company_deletion \<Rightarrow> platform \<Rightarrow> bool" where
  "handled now f d \<longleftrightarrow>
     (if expired_deletion now f then flag_of (cd_company_id f) d = []
      else rows_of (cd_company_id f) d = no_rows \<and>
        flag_of (cd_company_id f) d = [f\<lparr>cd_completed_at := Some (case cd_completed_at f of None \<Rightarrow> now | Some t \<Rightarrow> t)\<rparr>])"

lemma only_flags:
  "only_companies F d (d'\<lparr>pl_deletions := fs\<rparr>) = only_companies F d d'" "rows_of c (d'\<lparr>pl_deletions := fs\<rparr>) = rows_of c d'"
  by (simp_all add: only_companies_def platform_ok_def rows_of_def)

lemma sweep_effect:
  assumes "platform_ok d" "deletes_one env" "flag_of (cd_company_id f) d = [f]" "sweep env now f d = (st, d')"
  shows "only_companies {cd_company_id f} d d' \<and> (\<forall>c. c \<noteq> cd_company_id f \<longrightarrow> flag_of c d' = flag_of c d) \<and>
    (handled now f d' \<or> \<not> never_fails env \<and> flag_of (cd_company_id f) d' = [f])"
proof -
  let ?c = "cd_company_id f"
  have lists: "filter (\<lambda>g. cd_company_id g = ?c) (update_where (\<lambda>g. cd_company_id g = ?c) (\<lambda>g. g\<lparr>cd_completed_at := Some now\<rparr>) fs) =
      map (\<lambda>g. g\<lparr>cd_completed_at := Some now\<rparr>) (filter (\<lambda>g. cd_company_id g = ?c) fs)"
    "filter (\<lambda>g. cd_company_id g = ?c) (delete_where (\<lambda>g. cd_company_id g = ?c) fs) = []"
    "c \<noteq> ?c \<Longrightarrow> filter (\<lambda>g. cd_company_id g = c) (update_where (\<lambda>g. cd_company_id g = ?c) (\<lambda>g. g\<lparr>cd_completed_at := Some now\<rparr>) fs) =
      filter (\<lambda>g. cd_company_id g = c) fs"
    "c \<noteq> ?c \<Longrightarrow> filter (\<lambda>g. cd_company_id g = c) (delete_where (\<lambda>g. cd_company_id g = ?c) fs) = filter (\<lambda>g. cd_company_id g = c) fs"
    for fs c
    unfolding update_where_def delete_where_def by (induction fs) auto
  have flags: "flag_of ?c (complete_deletion ?c now e) = map (\<lambda>g. g\<lparr>cd_completed_at := Some now\<rparr>) (flag_of ?c e)"
    "flag_of ?c (release_deletion ?c e) = []"
    "c \<noteq> ?c \<Longrightarrow> flag_of c (complete_deletion ?c now e) = flag_of c e" "c \<noteq> ?c \<Longrightarrow> flag_of c (release_deletion ?c e) = flag_of c e" for e c
    by (simp_all add: flag_of_def complete_deletion_def release_deletion_def lists)
  show ?thesis
  proof (cases "expired_deletion now f")
    case True
    then have "d' = release_deletion ?c d" using assms(4) by (simp add: sweep_def Let_def)
    then show ?thesis using True flags assms(1) by (simp add: handled_def release_deletion_def only_flags only_companies_refl)
  next
    case False
    obtain r e where purge: "purge_company env ?c d = (r, e)" by fastforce
    note only = purge_company_only [OF assms(1,2) purge]
    show ?thesis
    proof (cases r)
      case (Inl x)
      then have "d' = e" "\<not> never_fails env"
        using assms(4) False purge purge_company_succeeds [OF assms(1,2), of ?c] by (auto simp: sweep_def Let_def)
      then show ?thesis using only assms(3) by (simp add: flag_of_def)
    next
      case (Inr n)
      then have "d' = (if cd_completed_at f = None then complete_deletion ?c now e else e)"
        using assms(4) False purge Inr by (cases "cd_completed_at f") (auto simp: sweep_def Let_def)
      moreover have "rows_of ?c e = no_rows" "only_companies {?c} d e" "flag_of c e = flag_of c d" for c
        using only Inr by (simp_all add: flag_of_def)
      ultimately show ?thesis
        using False flags assms(3)
        by (cases "cd_completed_at f") (auto simp: handled_def only_flags complete_deletion_def)
    qed
  qed
qed

lemma sweeps_effect:
  assumes "platform_ok d" "deletes_one env" "distinct (map cd_company_id fs)" "\<forall>f \<in> set fs. flag_of (cd_company_id f) d = [f]"
    "sweeps env now turns fs d = (st, d')"
  shows "only_companies (cd_company_id ` set fs) d d' \<and>
    (\<forall>c. c \<notin> cd_company_id ` set fs \<longrightarrow> flag_of c d' = flag_of c d) \<and>
    (\<forall>f \<in> set fs. handled now f d' \<or> (\<not> never_fails env \<or> turns < length fs) \<and> flag_of (cd_company_id f) d' = [f])"
  using assms
proof (induction fs arbitrary: turns d st)
  case Nil
  then show ?case by (simp add: only_companies_refl)
next
  case (Cons f fs)
  let ?c = "cd_company_id f"
  show ?case
  proof (cases "turns = 0")
    case True
    then show ?thesis using Cons.prems by (auto simp: only_companies_refl)
  next
    case False
    obtain a d1 b where first: "sweep env now f d = (a, d1)" and rest: "sweeps env now (turns - 1) fs d1 = (b, d')"
      using Cons.prems(5) False by (auto simp: Let_def split: prod.splits)
    have eff: "only_companies {?c} d d1" "c \<noteq> ?c \<Longrightarrow> flag_of c d1 = flag_of c d"
      "handled now f d1 \<or> \<not> never_fails env \<and> flag_of ?c d1 = [f]" for c
      using sweep_effect [OF Cons.prems(1,2) _ first] Cons.prems(4) by auto
    have "platform_ok d1" using eff(1) by (simp add: only_companies_def)
    moreover have "\<forall>g \<in> set fs. flag_of (cd_company_id g) d1 = [g]" using Cons.prems(3,4) eff(2) by (auto simp: image_iff)
    ultimately have ih: "only_companies (cd_company_id ` set fs) d1 d'"
      "c \<notin> cd_company_id ` set fs \<Longrightarrow> flag_of c d' = flag_of c d1"
      "g \<in> set fs \<Longrightarrow> handled now g d' \<or> (\<not> never_fails env \<or> turns - 1 < length fs) \<and> flag_of (cd_company_id g) d' = [g]" for c g
      using Cons.IH [OF _ Cons.prems(2) _ _ rest] Cons.prems(3) by auto
    have "rows_of ?c d' = rows_of ?c d1" "flag_of ?c d' = flag_of ?c d1"
      using ih(1,2) Cons.prems(3) by (auto simp: only_companies_def)
    then have "handled now f d' \<or> \<not> never_fails env \<and> flag_of ?c d' = [f]" using eff(3) by (simp only: handled_def)
    moreover have "only_companies (cd_company_id ` set (f # fs)) d d'"
      using only_companies_trans [OF eff(1) ih(1)] by simp
    moreover have less: "turns - 1 < length fs \<longleftrightarrow> turns < length (f # fs)" using False by auto
    ultimately show ?thesis using ih(2) ih(3) [unfolded less] eff(2) by auto
  qed
qed

text \<open>
  C32. A run of the deletion task. Whatever the store refuses and whenever the time runs out, it touches only
  rows and files of companies that are flagged. A flagged company ends in one of three ways: its flag
  was completed more than an hour ago and is released; all its rows are gone, and the flag says when that was so
  first; or its flag is as before, so that the next run tries again. The last happens only when a call of
  the store failed or the time ran out.
\<close>

theorem deletion_run_safe:
  assumes "platform_ok d" "deletes_one env" "distinct (map cd_company_id (pl_deletions d))"
    "purge_deleted_companies env now turns d = (st, d')"
  shows "(\<forall>c. c \<notin> cd_company_id ` set (pl_deletions d) \<longrightarrow> rows_of c d' = rows_of c d) \<and>
    (\<forall>k. (\<forall>obj \<in> set (w_objects (pl_storage d)). o_storage_key obj = k \<longrightarrow> o_company_id obj \<notin> cd_company_id ` set (pl_deletions d)) \<longrightarrow>
       w_blobs (pl_storage d') k = w_blobs (pl_storage d) k) \<and>
    (\<forall>f \<in> set (pl_deletions d). let c = cd_company_id f; flags = filter (\<lambda>g. cd_company_id g = c) (pl_deletions d') in
       (\<exists>t. cd_completed_at f = Some t \<and> t + 3600000000 < now) \<and> flags = [] \<or>
       rows_of c d' = no_rows \<and> flags = [f\<lparr>cd_completed_at := Some (case cd_completed_at f of None \<Rightarrow> now | Some t \<Rightarrow> t)\<rparr>] \<or>
       flags = [f] \<and> (\<not> never_fails env \<or> turns < length (pl_deletions d)))"
proof -
  let ?fs = "sort_key cd_requested_at (pl_deletions d)"
  have "distinct (map cd_company_id ?fs)"
    using assms(3) by (simp add: distinct_map)
  moreover have "\<forall>f \<in> set ?fs. flag_of (cd_company_id f) d = [f]" using filter_key_singleton [OF assms(3)] by (simp add: flag_of_def)
  ultimately have "only_companies (cd_company_id ` set ?fs) d d' \<and>
    (\<forall>f \<in> set ?fs. handled now f d' \<or> (\<not> never_fails env \<or> turns < length ?fs) \<and> flag_of (cd_company_id f) d' = [f])"
    using sweeps_effect [OF assms(1,2), of ?fs now turns st d'] assms(4) by (simp add: purge_deleted_companies_def)
  then show ?thesis
    unfolding only_companies_def handled_def flag_of_def Let_def expired_deletion_def SWEEP_WINDOW_def
    by (auto split: option.splits if_splits)
qed

text \<open>Company 7 of the samples, flagged for deletion.\<close>

definition flagged_platform :: platform where
  "flagged_platform = \<lparr>pl_storage = private_world, pl_actions = empty_actions,
     pl_deletions = [\<lparr>cd_company_id = 7, cd_requested_at = 0, cd_completed_at = None\<rparr>]\<rparr>"

lemma flagged_platform_ok: "platform_ok flagged_platform"
  using private_world_sound
  by (simp add: platform_ok_def flagged_platform_def sound_def rules_local_def empty_actions_def)

lemma s3_env_reliable: "deletes_one s3_env" "never_fails s3_env"
  by (auto simp: deletes_one_def never_fails_def s3_env_def)

lemma company_purge_exact_witness:
  "\<exists>n d. purge_company s3_env 7 flagged_platform = (Inr n, d) \<and> w_objects (pl_storage d) = [] \<and>
     w_blobs (pl_storage d) (blob_key 3) = None \<and> w_buckets (pl_storage d) = []"
proof -
  obtain n d where run: "purge_company s3_env 7 flagged_platform = (Inr n, d)"
    using purge_company_succeeds [OF flagged_platform_ok s3_env_reliable, of 7] by (metis prod.collapse)
  have "blob_key 3 \<in> o_storage_key ` {obj \<in> set (w_objects private_world). o_company_id obj = 7}"
    by (rule image_eqI [of _ _ secret_file]) (simp_all add: sample_defs)
  moreover have "delete_where (\<lambda>obj. o_company_id obj = 7) (w_objects private_world) = []"
    "delete_where (\<lambda>b. b_company_id b = 7) (w_buckets private_world) = []"
    by (simp_all add: delete_where_def sample_defs)
  ultimately show ?thesis
    using company_purge_exact [OF flagged_platform_ok s3_env_removes run] run
    by (simp add: storage_without_def flagged_platform_def)
qed

lemma deletion_run_safe_witness:
  "flag_of 7 (snd (purge_deleted_companies s3_env 5 1 flagged_platform)) =
     [\<lparr>cd_company_id = 7, cd_requested_at = 0, cd_completed_at = Some 5\<rparr>]"
proof -
  obtain st d where run: "purge_deleted_companies s3_env 5 1 flagged_platform = (st, d)" by fastforce
  have flags: "pl_deletions flagged_platform = [\<lparr>cd_company_id = 7, cd_requested_at = 0, cd_completed_at = None\<rparr>]"
    by (simp add: flagged_platform_def)
  then have "distinct (map cd_company_id (pl_deletions flagged_platform))" by simp
  from deletion_run_safe [OF flagged_platform_ok s3_env_reliable(1) this run]
  have "flag_of 7 d = [\<lparr>cd_company_id = 7, cd_requested_at = 0, cd_completed_at = Some 5\<rparr>]"
    using s3_env_reliable(2) by (simp add: flags flag_of_def)
  then show ?thesis using run by simp
qed

end
