(* ===== verification/Rule_Admin.thy ===== *)
theory Rule_Admin
  imports Delivery_Runs Retention Auth
begin

text \<open>
  The administration API of the actions app: \<open>apps/actions/admin_auth.py\<close>,
  \<open>apps/actions/rule_config.py\<close>, \<open>apps/actions/sample_data.py\<close>, \<open>apps/actions/webhook_test_send.py\<close>,
  \<open>apps/actions/admin_api_views.py\<close> and \<open>apps/actions/event_log_views.py\<close>. A view answers with a status and a
  JSON body; \<open>admin\<close> is the dispatch over all of them. The field checks of REST framework (types, lengths, the
  syntax of URLs) are the parameter \<open>ad_fields\<close>; descriptions of events and durations are left out.
\<close>

section \<open>Requests\<close>

record admin_request =
  rq_user :: "principal option"
  rq_query :: "(string \<times> string) list"
  rq_data :: dict

type_synonym response = "int \<times> json"

definition error_response :: "int \<Rightarrow> string \<Rightarrow> response" where
  "error_response status message = (status, JObj [(''error'', JStr message)])"

definition query :: "admin_request \<Rightarrow> string \<Rightarrow> string" where
  "query rq k = (case map_of (rq_query rq) k of None \<Rightarrow> [] | Some s \<Rightarrow> s)"

text \<open>\<open>_company_id_from_request\<close>: the query string, else the body, else the token.\<close>

definition company_id_from_request :: "admin_request \<Rightarrow> int option" where
  "company_id_from_request rq =
     (let raw = (case map_of (rq_query rq) ''company_id'' of Some s \<Rightarrow> JStr s
            | None \<Rightarrow> (case map_of (rq_data rq) ''company_id'' of Some v \<Rightarrow> v | None \<Rightarrow> JNull)) in
      if raw \<noteq> JNull \<and> raw \<noteq> JStr [] then (case py_int_of raw of Inl _ \<Rightarrow> None | Inr i \<Rightarrow> Some i)
      else (case rq_user rq of None \<Rightarrow> None | Some p \<Rightarrow> p_company_id p))"

definition require_staff_or_company_owner :: "admin_request \<Rightarrow> response + principal \<times> int" where
  "require_staff_or_company_owner rq =
     (case rq_user rq of
        None \<Rightarrow> Inl (error_response 401 ''Unauthorized'')
      | Some p \<Rightarrow>
          (case company_id_from_request rq of
             None \<Rightarrow> Inl (error_response 400 ''Missing company_id parameter.'')
           | Some c \<Rightarrow>
               if (case p_company_id p of None \<Rightarrow> False | Some t \<Rightarrow> t \<noteq> c) \<and> \<not> p_is_staff p
               then Inl (error_response 403 ''Requested company_id does not match token company_id.'')
               else if p_is_staff p \<or> p_is_company_owner p then Inr (p, c)
               else Inl (error_response 403 ''Forbidden'')))"

text \<open>The permission classes \<open>IsAuthenticatedPrincipal\<close> and \<open>IsStaffOrCompanyOwner\<close>, then the gate.\<close>

definition admitted :: "admin_request \<Rightarrow> response + principal \<times> int" where
  "admitted rq =
     (case rq_user rq of
        None \<Rightarrow> Inl (401, JNull)
      | Some p \<Rightarrow> if p_is_staff p \<or> p_is_company_owner p then require_staff_or_company_owner rq else Inl (403, JNull))"

section \<open>The configuration of a rule\<close>

definition secret_hint :: "string \<Rightarrow> string" where
  "secret_hint secret =
     (let s = strip secret in
      if s = [] then [] else if length s \<le> 4 then ''****'' else drop (length s - 4) s)"

definition truthy_key :: "dict \<Rightarrow> string \<Rightarrow> bool" where
  "truthy_key d k = (case map_of d k of None \<Rightarrow> False | Some v \<Rightarrow> truthy v)"

definition dict_get :: "dict \<Rightarrow> string \<Rightarrow> json" where
  "dict_get d k = (case map_of d k of None \<Rightarrow> JNull | Some v \<Rightarrow> v)"

datatype config_error = Validation_Error | Attribute_Error

definition configured_url :: "dict \<Rightarrow> string option \<Rightarrow> bool \<Rightarrow> string \<Rightarrow> dict \<times> bool" where
  "configured_url existing url partial previous_url =
     (if url \<noteq> None \<or> \<not> partial
      then let new_url = (case url of Some u \<Rightarrow> strip u | None \<Rightarrow> previous_url) in
        (dict_set ''url'' (JStr new_url) existing, url \<noteq> None \<and> new_url \<noteq> previous_url)
      else (existing, False))"

definition configured_secret :: "dict \<Rightarrow> string option \<Rightarrow> bool \<Rightarrow> string \<Rightarrow> dict \<Rightarrow> dict" where
  "configured_secret existing secret partial fresh cfg =
     (case secret of
        Some given \<Rightarrow>
          if strip given \<noteq> [] then dict_set ''secret'' (JStr (strip given)) cfg
          else if truthy_key existing ''secret'' then dict_set ''secret'' (dict_get existing ''secret'') cfg
          else if \<not> partial then dict_set ''secret'' (JStr fresh) cfg else cfg
      | None \<Rightarrow>
          if \<not> partial \<and> \<not> truthy_key cfg ''secret'' then dict_set ''secret'' (JStr fresh) cfg
          else if truthy_key existing ''secret'' then dict_set ''secret'' (dict_get existing ''secret'') cfg
          else cfg)"

definition configured_header :: "dict \<Rightarrow> string option \<Rightarrow> dict \<Rightarrow> dict" where
  "configured_header existing header cfg =
     (case header of
        Some given \<Rightarrow>
          if strip given \<noteq> [] then dict_set ''authorization_header'' (JStr (strip given)) cfg
          else dict_pop ''authorization_header'' cfg
      | None \<Rightarrow>
          if truthy_key existing ''authorization_header''
          then dict_set ''authorization_header'' (dict_get existing ''authorization_header'') cfg else cfg)"

definition configured_private :: "dict \<Rightarrow> bool option \<Rightarrow> bool \<Rightarrow> bool \<Rightarrow> bool \<Rightarrow> dict \<Rightarrow> dict" where
  "configured_private existing allow is_superuser url_changed partial cfg =
     (if is_superuser
      then (case allow of Some True \<Rightarrow> dict_set ''allow_private_urls'' (JBool True) cfg
        | Some False \<Rightarrow> dict_pop ''allow_private_urls'' cfg | None \<Rightarrow> cfg)
      else if url_changed then dict_pop ''allow_private_urls'' cfg
      else if \<not> partial \<and> truthy_key existing ''allow_private_urls''
      then dict_set ''allow_private_urls'' (JBool True) cfg
      else cfg)"

text \<open>A url in the old configuration that is no text is an \<open>AttributeError\<close>.\<close>

definition build_webhook_config ::
  "dict \<Rightarrow> string option \<Rightarrow> string option \<Rightarrow> string option \<Rightarrow> bool option \<Rightarrow> bool \<Rightarrow> bool \<Rightarrow> string \<Rightarrow>
   config_error + dict" where
  "build_webhook_config existing url secret header allow is_superuser partial fresh =
     (case config_text existing ''url'' of
        Inl _ \<Rightarrow> Inl Attribute_Error
      | Inr previous_url \<Rightarrow>
          (let (cfg, url_changed) = configured_url existing url partial previous_url in
           if \<not> truthy_key cfg ''url'' then Inl Validation_Error
           else Inr (configured_private existing allow is_superuser url_changed partial
             (configured_header existing header (configured_secret existing secret partial fresh cfg)))))"

definition mask_config_for_response :: "dict \<Rightarrow> string \<Rightarrow> dict" where
  "mask_config_for_response config action_kind =
     (if action_kind = ''webhook''
      then let raw = dict_get config ''secret'' in
        dict_set ''authorization_header_set'' (JBool (truthy_key config ''authorization_header''))
          (dict_set ''secret_hint'' (JStr (secret_hint (if truthy raw then py_str raw else [])))
            (dict_set ''has_secret'' (JBool (truthy raw))
              (dict_pop ''authorization_header'' (dict_pop ''secret'' config))))
      else config)"

section \<open>Sample payloads\<close>

text \<open>What the field checks of REST framework leave of a body; absent fields are \<open>None\<close>.\<close>

record rule_input =
  ri_name :: "string option"
  ri_description :: "string option"
  ri_event_type :: "string option"
  ri_enabled :: "bool option"
  ri_url :: "string option"
  ri_secret :: "string option"
  ri_authorization_header :: "string option"
  ri_allow_private_urls :: "bool option"

text \<open>The administrative environment: \<open>ad_fields\<close> are the field checks for creation or update, \<open>ad_secret\<close> is the random bytes of the next secret.\<close>

record admin_env =
  ad_settings :: actions_settings
  ad_env :: env
  ad_registry :: registry
  ad_fields :: "bool \<Rightarrow> dict \<Rightarrow> rule_input option"
  ad_secret :: bytes

text \<open>
  \<open>_materialize_example\<close>: with \<open>unique_values\<close> a UUID becomes a new one and a time the current one; the result with the
  supply of UUIDs. \<open>None\<close> is the \<open>ValueError\<close> of \<open>parse_datetime\<close>.
\<close>

definition materialize_example :: "env \<Rightarrow> bool \<Rightarrow> int \<Rightarrow> json \<Rightarrow> uuid \<Rightarrow> (json \<times> uuid) option" where
  "materialize_example env unique now example next =
     (if \<not> unique then Some (example, next)
      else case example of
        JStr s \<Rightarrow>
          if parse_uuid s \<noteq> None then Some (JStr (str_uuid next), Suc next)
          else (case parse_datetime env s of
              Inl _ \<Rightarrow> None
            | Inr (Some _) \<Rightarrow> Some (JStr (iso_utc now), next)
            | Inr None \<Rightarrow> Some (example, next))
      | _ \<Rightarrow> Some (example, next))"

fun sample_fields :: "env \<Rightarrow> bool \<Rightarrow> int \<Rightarrow> EventFieldDoc list \<Rightarrow> dict \<Rightarrow> uuid \<Rightarrow> (dict \<times> uuid) option" where
  "sample_fields env unique now [] data next = Some (data, next)"
| "sample_fields env unique now (f # fs) data next =
     (if f_example f = JNull then sample_fields env unique now fs data next
      else case materialize_example env unique now (f_example f) next of
        None \<Rightarrow> None
      | Some (v, next') \<Rightarrow> sample_fields env unique now fs (dict_set (f_name f) v data) next')"

definition payload_data_from_event :: "env \<Rightarrow> bool \<Rightarrow> int \<Rightarrow> DomainEventType \<Rightarrow> uuid \<Rightarrow> (dict \<times> uuid) option" where
  "payload_data_from_event env unique now event next = sample_fields env unique now (d_payload_fields event) [] next"

text \<open>
  \<open>send_webhook_test_for_rule\<close>: the answer, or \<open>None\<close> for any exception. The id of the envelope is drawn after the values of the
  payload.
\<close>

definition send_webhook_test_for_rule :: "admin_env \<Rightarrow> action_rule \<Rightarrow> int \<Rightarrow> actions \<Rightarrow> dict option \<times> actions" where
  "send_webhook_test_for_rule ad rule company_id s =
     (case get_event_type (ad_registry ad) (r_event_type rule) of
        Inl _ \<Rightarrow> (None, s)
      | Inr event \<Rightarrow>
          (case payload_data_from_event (ad_env ad) True (a_clock s) event (a_next_uuid s) of
             None \<Rightarrow> (None, s)
           | Some (data, i) \<Rightarrow>
               (let envelope = build_envelope i (a_clock s) (r_event_type rule) (company_context_from_id company_id [] []) data None;
                    s' = s\<lparr>a_next_uuid := Suc i\<rparr> in
                case deliver_webhook_action (ad_settings ad) (a_clock s) (r_config rule) (JObj envelope) 1 of
                  Inl _ \<Rightarrow> (None, s')
                | Inr _ \<Rightarrow> (Some [(''ok'', JBool True), (''webhook_id'', JStr (str_uuid i)),
                    (''event_type'', JStr (r_event_type rule))], s'))))"

text \<open>The samples of the event list are the documented values, in an envelope with a new id.\<close>

fun sample_envelopes :: "admin_env \<Rightarrow> int \<Rightarrow> DomainEventType list \<Rightarrow> actions \<Rightarrow> json list \<times> actions" where
  "sample_envelopes ad company_id [] s = ([], s)"
| "sample_envelopes ad company_id (e # es) s =
     (let data = foldl (\<lambda>d f. if f_example f = JNull then d else dict_set (f_name f) (f_example f) d) [] (d_payload_fields e);
          envelope = build_envelope (a_next_uuid s) (a_clock s) (d_id e) (company_context_from_id company_id [] []) data None;
          (rest, s') = sample_envelopes ad company_id es (s\<lparr>a_next_uuid := Suc (a_next_uuid s)\<rparr>) in
      (JObj [(''type'', JStr (d_id e)), (''label'', JStr (d_label e)), (''emit_by_default'', JBool (d_emit_by_default e)),
        (''supported_action_kinds'', JList [JStr ''webhook'']),
        (''payload_fields'', JList (map (\<lambda>f. JObj (event_field_doc_dict f)) (d_payload_fields e))),
        (''sample_envelope'', JObj envelope)] # rest, s'))"

section \<open>Rules\<close>

definition action_rule_payload :: "action_rule \<Rightarrow> bool \<Rightarrow> dict" where
  "action_rule_payload rule reveal_secret =
     [(''id'', JInt (r_id rule)), (''company_id'', JInt (r_company_id rule)), (''name'', JStr (r_name rule)),
      (''description'', JStr (r_description rule)), (''event_type'', JStr (r_event_type rule)),
      (''enabled'', JBool (r_enabled rule)), (''action_kind'', JStr (r_action_kind rule)),
      (''config'', JObj (mask_config_for_response (r_config rule) (r_action_kind rule))),
      (''created_at'', JStr (iso_utc (r_created_at rule))), (''updated_at'', JStr (iso_utc (r_updated_at rule)))]
     @ (case config_text (r_config rule) ''secret'' of
          Inr secret \<Rightarrow> if reveal_secret \<and> secret \<noteq> [] then [(''secret'', JStr secret)] else []
        | Inl _ \<Rightarrow> [])"

definition text_field :: "dict \<Rightarrow> string \<Rightarrow> string option" where
  "text_field data k = (case map_of data k of Some (JStr s) \<Rightarrow> Some s | _ \<Rightarrow> None)"

text \<open>\<open>serializer.is_valid\<close>: the library's checks, then \<open>validate_event_type\<close>. \<open>None\<close> is the answer 400.\<close>

definition validated :: "admin_env \<Rightarrow> bool \<Rightarrow> dict \<Rightarrow> rule_input option" where
  "validated ad create data =
     (case ad_fields ad create data of
        None \<Rightarrow> None
      | Some ri \<Rightarrow>
          if create \<and> (ri_name ri = None \<or> ri_event_type ri = None) then None
          else (case ri_event_type ri of
            None \<Rightarrow> Some ri
          | Some e \<Rightarrow> if (create \<or> e \<noteq> []) \<and> \<not> is_webhook_event (ad_registry ad) e then None else Some ri))"

definition apply_rule_config :: "admin_env \<Rightarrow> action_rule \<Rightarrow> rule_input \<Rightarrow> principal \<Rightarrow> bool \<Rightarrow> config_error + action_rule" where
  "apply_rule_config ad rule ri actor partial =
     (let existing = r_config rule;
          url = (case ri_url ri of Some u \<Rightarrow> Some u | None \<Rightarrow> if partial then None else text_field existing ''url'') in
      case build_webhook_config existing url (ri_secret ri) (ri_authorization_header ri) (ri_allow_private_urls ri)
          (p_is_staff actor) partial (generate_webhook_signing_secret (ad_secret ad)) of
        Inl e \<Rightarrow> Inl e | Inr cfg \<Rightarrow> Inr (rule\<lparr>r_config := cfg\<rparr>))"

definition config_error_response :: "config_error \<Rightarrow> response" where
  "config_error_response e =
     (case e of Validation_Error \<Rightarrow> error_response 400 ''Webhook url is required.'' | Attribute_Error \<Rightarrow> (500, JNull))"

definition get_rule :: "actions \<Rightarrow> int \<Rightarrow> int \<Rightarrow> action_rule option" where
  "get_rule s company_id pk = first_where (\<lambda>r. r_id r = pk \<and> r_company_id r = company_id) (a_rules s)"

definition save_rule :: "action_rule \<Rightarrow> actions \<Rightarrow> actions" where
  "save_rule rule s = s\<lparr>a_rules := update_where (\<lambda>r. r_id r = r_id rule) (\<lambda>_. rule) (a_rules s)\<rparr>"

fun insert_with :: "('a \<Rightarrow> 'a \<Rightarrow> bool) \<Rightarrow> 'a \<Rightarrow> 'a list \<Rightarrow> 'a list" where
  "insert_with lt x [] = [x]"
| "insert_with lt x (y # ys) = (if lt y x then y # insert_with lt x ys else x # y # ys)"

definition sort_with :: "('a \<Rightarrow> 'a \<Rightarrow> bool) \<Rightarrow> 'a list \<Rightarrow> 'a list" where
  "sort_with lt xs = foldr (insert_with lt) xs []"

definition rule_before :: "action_rule \<Rightarrow> action_rule \<Rightarrow> bool" where
  "rule_before a b \<longleftrightarrow> less_text (r_event_type a) (r_event_type b) \<or>
     r_event_type a = r_event_type b \<and> less_text (r_name a) (r_name b)"

definition rules_list :: "int \<Rightarrow> actions \<Rightarrow> response" where
  "rules_list company_id s =
     (200, JObj [(''results'', JList (map (\<lambda>r. JObj (action_rule_payload r False))
       (sort_with rule_before (filter (\<lambda>r. r_company_id r = company_id) (a_rules s)))))])"

definition rule_create :: "admin_env \<Rightarrow> principal \<Rightarrow> int \<Rightarrow> dict \<Rightarrow> actions \<Rightarrow> response \<times> actions" where
  "rule_create ad actor company_id data s =
     (case validated ad True data of
        None \<Rightarrow> ((400, JNull), s)
      | Some ri \<Rightarrow>
          (let rule = \<lparr>r_id = a_next_id s, r_company_id = company_id, r_name = the (ri_name ri),
             r_description = (case ri_description ri of None \<Rightarrow> [] | Some d \<Rightarrow> d), r_event_type = the (ri_event_type ri),
             r_enabled = (case ri_enabled ri of None \<Rightarrow> True | Some b \<Rightarrow> b), r_action_kind = ''webhook'', r_config = [],
             r_created_at = a_clock s, r_updated_at = a_clock s\<rparr> in
           case apply_rule_config ad rule ri actor False of
             Inl e \<Rightarrow> (config_error_response e, s)
           | Inr saved \<Rightarrow>
               ((201, JObj (action_rule_payload saved True)),
                s\<lparr>a_rules := a_rules s @ [saved], a_next_id := a_next_id s + 1\<rparr>)))"

definition rule_get :: "int \<Rightarrow> int \<Rightarrow> actions \<Rightarrow> response" where
  "rule_get company_id pk s =
     (case get_rule s company_id pk of None \<Rightarrow> error_response 404 ''Not found.''
      | Some rule \<Rightarrow> (200, JObj (action_rule_payload rule False)))"

definition patched_rule :: "rule_input \<Rightarrow> action_rule \<Rightarrow> action_rule" where
  "patched_rule ri rule = rule\<lparr>r_name := (case ri_name ri of None \<Rightarrow> r_name rule | Some x \<Rightarrow> x),
     r_description := (case ri_description ri of None \<Rightarrow> r_description rule | Some x \<Rightarrow> x),
     r_event_type := (case ri_event_type ri of None \<Rightarrow> r_event_type rule | Some x \<Rightarrow> x),
     r_enabled := (case ri_enabled ri of None \<Rightarrow> r_enabled rule | Some x \<Rightarrow> x)\<rparr>"

definition rule_patch :: "admin_env \<Rightarrow> principal \<Rightarrow> int \<Rightarrow> int \<Rightarrow> dict \<Rightarrow> actions \<Rightarrow> response \<times> actions" where
  "rule_patch ad actor company_id pk data s =
     (case get_rule s company_id pk of
        None \<Rightarrow> (error_response 404 ''Not found.'', s)
      | Some rule \<Rightarrow>
          (case validated ad False data of
             None \<Rightarrow> ((400, JNull), s)
           | Some ri \<Rightarrow>
               (case apply_rule_config ad (patched_rule ri rule) ri actor True of
                  Inl e \<Rightarrow> (config_error_response e, s)
                | Inr changed \<Rightarrow>
                    (let saved = changed\<lparr>r_action_kind := ''webhook'', r_updated_at := a_clock s\<rparr> in
                     ((200, JObj (action_rule_payload saved False)), save_rule saved s)))))"

definition rule_delete :: "int \<Rightarrow> int \<Rightarrow> actions \<Rightarrow> response \<times> actions" where
  "rule_delete company_id pk s =
     (case get_rule s company_id pk of
        None \<Rightarrow> (error_response 404 ''Not found.'', s)
      | Some rule \<Rightarrow> ((204, JNull), delete_rules (\<lambda>r. r_id r = pk) s))"

definition rule_rotate_secret :: "admin_env \<Rightarrow> int \<Rightarrow> int \<Rightarrow> actions \<Rightarrow> response \<times> actions" where
  "rule_rotate_secret ad company_id pk s =
     (case get_rule s company_id pk of
        None \<Rightarrow> (error_response 404 ''Not found.'', s)
      | Some rule \<Rightarrow>
          (let saved = rule\<lparr>r_config := dict_set ''secret'' (JStr (generate_webhook_signing_secret (ad_secret ad))) (r_config rule),
             r_updated_at := a_clock s\<rparr> in
           ((200, JObj (action_rule_payload saved True)), save_rule saved s)))"

text \<open>The text of the exception in the answer 400 is left out.\<close>

definition rule_send_test :: "admin_env \<Rightarrow> int \<Rightarrow> int \<Rightarrow> actions \<Rightarrow> response \<times> actions" where
  "rule_send_test ad company_id pk s =
     (case get_rule s company_id pk of
        None \<Rightarrow> (error_response 404 ''Not found.'', s)
      | Some rule \<Rightarrow>
          if \<not> r_enabled rule then (error_response 400 ''Rule is disabled.'', s)
          else (case send_webhook_test_for_rule ad rule company_id s of
            (None, s') \<Rightarrow> (error_response 400 [], s')
          | (Some result, s') \<Rightarrow> ((200, JObj result), s')))"

section \<open>Deliveries\<close>

definition outbox_status_value :: "OutboxStatus \<Rightarrow> string" where
  "outbox_status_value st =
     (case st of PENDING \<Rightarrow> ''pending'' | DELIVERED \<Rightarrow> ''delivered'' | FAILED \<Rightarrow> ''failed'' | DEAD \<Rightarrow> ''dead'')"

definition iso_or_null :: "int option \<Rightarrow> json" where
  "iso_or_null t = (case t of None \<Rightarrow> JNull | Some x \<Rightarrow> JStr (iso_utc x))"

definition int_or_null :: "int option \<Rightarrow> json" where
  "int_or_null i = (case i of None \<Rightarrow> JNull | Some x \<Rightarrow> JInt x)"

text \<open>The primary key of an attempt, which the model of the table leaves out, and its duration are left out.\<close>

definition delivery_attempt_payload :: "bool \<Rightarrow> delivery_attempt \<Rightarrow> dict" where
  "delivery_attempt_payload staff a =
     [(''status'', JStr (if at_success a then ''success'' else ''failure'')), (''http_status'', int_or_null (at_http_status a)),
      (''error_message'', JStr (at_error_message a)), (''attempt_number'', JInt (int (at_attempt_number a))),
      (''trigger'', JStr (case at_trigger a of TRIGGER_DISPATCH \<Rightarrow> ''dispatch'' | TRIGGER_AUTOMATIC_RETRY \<Rightarrow> ''automatic_retry'')),
      (''created_at'', JStr (iso_utc (at_created_at a)))]
     @ (if staff then [(''scheduled_job_run_id'', int_or_null (at_scheduled_job_run_id a))] else [])"

text \<open>\<open>None\<close>: the row has no rule, and reading its name raises.\<close>

definition delivery_payload :: "actions \<Rightarrow> outbox_row \<Rightarrow> dict option" where
  "delivery_payload s row =
     (case ob_action_rule row of None \<Rightarrow> None
      | Some i \<Rightarrow>
          (case rule_by_id s i of None \<Rightarrow> None
           | Some rule \<Rightarrow> Some
               [(''id'', JStr (str_uuid (ob_id row))), (''company_id'', JInt (ob_company_id row)),
                (''action_rule_id'', JInt i), (''action_rule_name'', JStr (r_name rule)),
                (''action_kind'', JStr (r_action_kind rule)), (''event_type'', JStr (ob_event_type row)),
                (''status'', JStr (outbox_status_value (ob_status row))), (''attempt_count'', JInt (int (ob_attempt_count row))),
                (''next_attempt_at'', iso_or_null (ob_next_attempt_at row)), (''last_error'', JStr (ob_last_error row)),
                (''created_at'', JStr (iso_utc (ob_created_at row))), (''updated_at'', JStr (iso_utc (ob_updated_at row))),
                (''delivered_at'', iso_or_null (ob_delivered_at row))]))"

definition delivery_detail :: "actions \<Rightarrow> bool \<Rightarrow> outbox_row \<Rightarrow> dict option" where
  "delivery_detail s staff row =
     map_option (\<lambda>d. d @ [(''attempts'', JList (map (\<lambda>a. JObj (delivery_attempt_payload staff a))
          (sort_with (\<lambda>a b. at_created_at b < at_created_at a) (filter (\<lambda>a. at_outbox a = ob_id row) (a_attempts s))))),
        (''envelope'', ob_envelope row)]) (delivery_payload s row)"

text \<open>A page number and size; \<open>None\<close> is the \<open>ValueError\<close>.\<close>

definition int_param :: "admin_request \<Rightarrow> string \<Rightarrow> int \<Rightarrow> int option" where
  "int_param rq k dflt = (if query rq k = [] then Some dflt else py_int 10 (query rq k))"

definition page_params :: "admin_request \<Rightarrow> (int \<times> int) option" where
  "page_params rq =
     (case (int_param rq ''page'' 1, int_param rq ''page_size'' 20) of
        (Some p, Some n) \<Rightarrow> Some (max 1 p, min 100 (max 1 n)) | _ \<Rightarrow> None)"

definition page_of :: "int \<Rightarrow> int \<Rightarrow> 'a list \<Rightarrow> 'a list" where
  "page_of page page_size xs = py_slice ((page - 1) * page_size) ((page - 1) * page_size + page_size) xs"

text \<open>A bound on the creation time: an error answer, or the test of a time.\<close>

definition time_bound :: "env \<Rightarrow> admin_request \<Rightarrow> string \<Rightarrow> (int \<Rightarrow> int \<Rightarrow> bool) \<Rightarrow> response + (int \<Rightarrow> bool)" where
  "time_bound env rq k test =
     (let raw = strip (query rq k) in
      if raw = [] then Inr (\<lambda>_. True)
      else case parse_datetime env raw of
        Inl _ \<Rightarrow> Inl (500, JNull)
      | Inr None \<Rightarrow> Inl (error_response 400 (''Invalid '' @ k @ ''.''))
      | Inr (Some (Naive t)) \<Rightarrow> Inr (test (make_aware env t))
      | Inr (Some (Aware t)) \<Rightarrow> Inr (test t))"

definition status_filter :: "admin_request \<Rightarrow> response + (outbox_row \<Rightarrow> bool)" where
  "status_filter rq =
     (let st = lower (strip (query rq ''status'')) in
      if st = [] then Inr (\<lambda>_. True)
      else if st \<notin> set (map outbox_status_value [PENDING, DELIVERED, FAILED, DEAD]) then Inl (error_response 400 ''Invalid status.'')
      else Inr (\<lambda>row. outbox_status_value (ob_status row) = st))"

definition rule_filter :: "admin_request \<Rightarrow> response + (outbox_row \<Rightarrow> bool)" where
  "rule_filter rq =
     (let raw = query rq ''action_rule_id'' in
      if strip raw = [] then Inr (\<lambda>_. True)
      else case py_int 10 raw of None \<Rightarrow> Inl (error_response 400 ''Invalid action_rule_id.'')
        | Some i \<Rightarrow> Inr (\<lambda>row. ob_action_rule row = Some i))"

definition run_filter :: "admin_request \<Rightarrow> principal \<Rightarrow> actions \<Rightarrow> response + (outbox_row \<Rightarrow> bool)" where
  "run_filter rq actor s =
     (let raw = strip (query rq ''scheduled_job_run_id'') in
      if raw = [] then Inr (\<lambda>_. True)
      else if \<not> p_is_staff actor then Inl (error_response 403 ''Forbidden'')
      else case py_int 10 raw of None \<Rightarrow> Inl (error_response 400 ''Invalid scheduled_job_run_id.'')
        | Some i \<Rightarrow> Inr (\<lambda>row. \<exists>a \<in> set (a_attempts s). at_outbox a = ob_id row \<and> at_scheduled_job_run_id a = Some i))"

text \<open>The first error of a list of filters, or their conjunction.\<close>

fun all_filters :: "(response + ('a \<Rightarrow> bool)) list \<Rightarrow> response + ('a \<Rightarrow> bool)" where
  "all_filters [] = Inr (\<lambda>_. True)"
| "all_filters (f # fs) =
     (case f of Inl e \<Rightarrow> Inl e
      | Inr P \<Rightarrow> (case all_filters fs of Inl e \<Rightarrow> Inl e | Inr Q \<Rightarrow> Inr (\<lambda>x. P x \<and> Q x)))"

definition on_field :: "('a \<Rightarrow> 'b) \<Rightarrow> response + ('b \<Rightarrow> bool) \<Rightarrow> response + ('a \<Rightarrow> bool)" where
  "on_field f r = (case r of Inl e \<Rightarrow> Inl e | Inr P \<Rightarrow> Inr (\<lambda>x. P (f x)))"

definition newest_delivery :: "outbox_row \<Rightarrow> outbox_row \<Rightarrow> bool" where
  "newest_delivery a b \<longleftrightarrow> ob_created_at b < ob_created_at a \<or> ob_created_at a = ob_created_at b \<and> ob_id b < ob_id a"

fun all_some :: "'a option list \<Rightarrow> 'a list option" where
  "all_some [] = Some []"
| "all_some (x # xs) = (case (x, all_some xs) of (Some y, Some ys) \<Rightarrow> Some (y # ys) | _ \<Rightarrow> None)"

definition page_response :: "nat \<Rightarrow> int \<Rightarrow> int \<Rightarrow> dict list \<Rightarrow> response" where
  "page_response total_count page page_size results =
     (200, JObj [(''count'', JInt (int total_count)), (''page'', JInt page), (''page_size'', JInt page_size),
       (''results'', JList (map JObj results))])"

definition deliveries_list :: "admin_env \<Rightarrow> admin_request \<Rightarrow> principal \<Rightarrow> int \<Rightarrow> actions \<Rightarrow> response" where
  "deliveries_list ad rq actor company_id s =
     (case page_params rq of
        None \<Rightarrow> error_response 400 ''Invalid page or page_size.''
      | Some (page, page_size) \<Rightarrow>
          (case all_filters
              [status_filter rq,
               Inr (\<lambda>row. strip (query rq ''event_type'') = [] \<or> ob_event_type row = strip (query rq ''event_type'')),
               rule_filter rq, run_filter rq actor s,
               on_field ob_created_at (time_bound (ad_env ad) rq ''created_after'' (\<lambda>t x. t \<le> x)),
               on_field ob_created_at (time_bound (ad_env ad) rq ''created_before'' (\<lambda>t x. x \<le> t))] of
             Inl e \<Rightarrow> e
           | Inr wanted \<Rightarrow>
               (let rows = sort_with newest_delivery (filter wanted
                      (filter (\<lambda>row. ob_company_id row = company_id \<and> ob_delivery_kind row = KIND_WEBHOOK) (a_outbox s))) in
                case all_some (map (delivery_payload s) (page_of page page_size rows)) of
                  None \<Rightarrow> (500, JNull)
                | Some results \<Rightarrow> page_response (length rows) page page_size results)))"

definition get_delivery :: "actions \<Rightarrow> int \<Rightarrow> uuid \<Rightarrow> outbox_row option" where
  "get_delivery s company_id i =
     first_where (\<lambda>row. ob_id row = i \<and> ob_company_id row = company_id \<and> ob_delivery_kind row = KIND_WEBHOOK) (a_outbox s)"

definition payload_response :: "dict option \<Rightarrow> response" where
  "payload_response d = (case d of None \<Rightarrow> (500, JNull) | Some x \<Rightarrow> (200, JObj x))"

definition delivery_get :: "principal \<Rightarrow> int \<Rightarrow> uuid \<Rightarrow> actions \<Rightarrow> response" where
  "delivery_get actor company_id i s =
     (case get_delivery s company_id i of None \<Rightarrow> error_response 404 ''Not found.''
      | Some row \<Rightarrow> payload_response (delivery_detail s (p_is_staff actor) row))"

definition delivery_requeue :: "int \<Rightarrow> uuid \<Rightarrow> actions \<Rightarrow> response \<times> actions" where
  "delivery_requeue company_id i s =
     (case get_delivery s company_id i of
        None \<Rightarrow> (error_response 404 ''Not found.'', s)
      | Some row \<Rightarrow> (payload_response (delivery_payload s (requeued row)), requeue_outbox i s))"

section \<open>The event log\<close>

definition event_label :: "registry \<Rightarrow> string \<Rightarrow> string" where
  "event_label reg event_type = (case get_event_type reg event_type of Inl _ \<Rightarrow> event_type | Inr e \<Rightarrow> d_label e)"

definition event_payload :: "registry \<Rightarrow> event_log \<Rightarrow> dict" where
  "event_payload reg row =
     [(''id'', JInt (ev_id row)), (''company_id'', int_or_null (ev_company_id row)), (''created_at'', JStr (iso_z (ev_created_at row))),
      (''event_type'', JStr (ev_event_type row)), (''label'', JStr (event_label reg (ev_event_type row))),
      (''user_id'', int_or_null (ev_user_id row)), (''user_email'', dict_get (ev_data row) ''actor_email''), (''data'', JObj (ev_data row))]"

definition platform_events :: "registry \<Rightarrow> actions \<Rightarrow> event_log list" where
  "platform_events reg s =
     filter (\<lambda>e. ev_company_id e = None \<and> ev_event_type e \<in> d_id ` set (staff_only_event_types reg)) (a_log s)"

definition scope :: "admin_request \<Rightarrow> string" where
  "scope rq = lower (strip (if query rq ''scope'' = [] then ''company'' else query rq ''scope''))"

definition user_filter :: "admin_request \<Rightarrow> response + (event_log \<Rightarrow> bool)" where
  "user_filter rq =
     (let uid = strip (query rq ''user_id'') in
      if uid = [] then Inr (\<lambda>_. True)
      else case py_int 10 uid of None \<Rightarrow> Inl (error_response 400 ''Invalid user_id.'')
        | Some i \<Rightarrow> Inr (\<lambda>e. ev_user_id e = Some i))"

definition email_filter :: "admin_request \<Rightarrow> event_log \<Rightarrow> bool" where
  "email_filter rq e =
     (let email = strip (query rq ''user'') in
      email = [] \<or> (case map_of (ev_data e) ''actor_email'' of
        Some (JStr s) \<Rightarrow> search (prefix (lower email)) (lower s) | _ \<Rightarrow> False))"

definition type_filter :: "registry \<Rightarrow> admin_request \<Rightarrow> response + (event_log \<Rightarrow> bool)" where
  "type_filter reg rq =
     (let types = filter (\<lambda>t. t \<noteq> []) (map strip (split_on (CHR '','') (query rq ''event_type''))) in
      if types = [] then Inr (\<lambda>_. True)
      else if \<not> (\<forall>t \<in> set types. is_registered_event reg t) then Inl (error_response 400 ''Invalid event_type.'')
      else Inr (\<lambda>e. ev_event_type e \<in> set types))"

definition filtered_events :: "admin_env \<Rightarrow> admin_request \<Rightarrow> int \<Rightarrow> actions \<Rightarrow> response + event_log list" where
  "filtered_events ad rq company_id s =
     (case all_filters
        [user_filter rq, Inr (email_filter rq), type_filter (ad_registry ad) rq,
         on_field ev_created_at (time_bound (ad_env ad) rq ''created_after'' (\<lambda>t x. t \<le> x)),
         on_field ev_created_at (time_bound (ad_env ad) rq ''created_before'' (\<lambda>t x. x < t))] of
        Inl e \<Rightarrow> Inl e
      | Inr wanted \<Rightarrow> Inr (filter wanted (filter (\<lambda>e. ev_company_id e = Some company_id) (a_log s))))"

definition newest_event :: "event_log \<Rightarrow> event_log \<Rightarrow> bool" where
  "newest_event a b \<longleftrightarrow> ev_created_at b < ev_created_at a \<or> ev_created_at a = ev_created_at b \<and> ev_id b < ev_id a"

definition event_log_list :: "admin_env \<Rightarrow> admin_request \<Rightarrow> principal \<Rightarrow> int \<Rightarrow> actions \<Rightarrow> response" where
  "event_log_list ad rq actor company_id s =
     (if scope rq \<notin> {''company'', ''platform''} then error_response 400 ''Invalid scope.''
      else if scope rq = ''platform'' \<and> \<not> p_is_staff actor then error_response 403 ''Forbidden''
      else case page_params rq of
        None \<Rightarrow> error_response 400 ''Invalid page or page_size.''
      | Some (page, page_size) \<Rightarrow>
          (case (if scope rq = ''platform'' then Inr (platform_events (ad_registry ad) s) else filtered_events ad rq company_id s) of
             Inl e \<Rightarrow> e
           | Inr rows \<Rightarrow> page_response (length rows) page page_size
               (map (event_payload (ad_registry ad)) (page_of page page_size (sort_with newest_event rows)))))"

definition event_log_get :: "admin_env \<Rightarrow> admin_request \<Rightarrow> principal \<Rightarrow> int \<Rightarrow> int \<Rightarrow> actions \<Rightarrow> response" where
  "event_log_get ad rq actor company_id pk s =
     (if scope rq \<notin> {''company'', ''platform''} then error_response 400 ''Invalid scope.''
      else if scope rq = ''platform'' \<and> \<not> p_is_staff actor then error_response 403 ''Forbidden''
      else case first_where (\<lambda>e. ev_id e = pk)
          (if scope rq = ''platform'' then platform_events (ad_registry ad) s
           else filter (\<lambda>e. ev_company_id e = Some company_id) (a_log s)) of
        None \<Rightarrow> error_response 404 ''Not found.''
      | Some row \<Rightarrow> (200, JObj (event_payload (ad_registry ad) row)))"

definition event_types_list :: "registry \<Rightarrow> response" where
  "event_types_list reg =
     (200, JObj [(''results'', JList (map (\<lambda>e. JObj [(''type'', JStr (d_id e)), (''label'', JStr (d_label e)),
        (''webhook'', JBool (d_webhook e))]) (filter d_emit_by_default (company_event_types reg))))])"

section \<open>The dispatch\<close>

datatype admin_view =
    Action_Events | Rules_List | Rule_Create | Rule_Get int | Rule_Patch int | Rule_Delete int | Rule_Rotate_Secret int
  | Rule_Send_Test int | Deliveries_List | Delivery_Get uuid | Delivery_Requeue uuid
  | Event_Log_List | Event_Log_Get int | Event_Log_Types | Event_Log_Retention

definition admin_body :: "admin_env \<Rightarrow> admin_view \<Rightarrow> admin_request \<Rightarrow> principal \<Rightarrow> int \<Rightarrow> actions \<Rightarrow> response \<times> actions" where
  "admin_body ad view rq actor company_id s =
     (case view of
        Action_Events \<Rightarrow> (let (results, s') = sample_envelopes ad company_id (webhook_event_types (ad_registry ad)) s in
          ((200, JObj [(''results'', JList results)]), s'))
      | Rules_List \<Rightarrow> (rules_list company_id s, s)
      | Rule_Create \<Rightarrow> rule_create ad actor company_id (rq_data rq) s
      | Rule_Get pk \<Rightarrow> (rule_get company_id pk s, s)
      | Rule_Patch pk \<Rightarrow> rule_patch ad actor company_id pk (rq_data rq) s
      | Rule_Delete pk \<Rightarrow> rule_delete company_id pk s
      | Rule_Rotate_Secret pk \<Rightarrow> rule_rotate_secret ad company_id pk s
      | Rule_Send_Test pk \<Rightarrow> rule_send_test ad company_id pk s
      | Deliveries_List \<Rightarrow> (deliveries_list ad rq actor company_id s, s)
      | Delivery_Get i \<Rightarrow> (delivery_get actor company_id i s, s)
      | Delivery_Requeue i \<Rightarrow> delivery_requeue company_id i s
      | Event_Log_List \<Rightarrow> (event_log_list ad rq actor company_id s, s)
      | Event_Log_Get pk \<Rightarrow> (event_log_get ad rq actor company_id pk s, s)
      | Event_Log_Types \<Rightarrow> (event_types_list (ad_registry ad), s)
      | Event_Log_Retention \<Rightarrow> ((200, JObj (retention_status (ad_settings ad) company_id s)), s))"

definition admin :: "admin_env \<Rightarrow> admin_view \<Rightarrow> admin_request \<Rightarrow> actions \<Rightarrow> response \<times> actions" where
  "admin ad view rq s =
     (case admitted rq of Inl refusal \<Rightarrow> (refusal, s) | Inr (actor, company_id) \<Rightarrow> admin_body ad view rq actor company_id s)"

section \<open>The configuration that comes out\<close>

lemmas map_of_config = map_of_dict_set map_of_dict_pop

lemma configured_keys:
  "k \<noteq> ''secret'' \<Longrightarrow> map_of (configured_secret ex sec part fresh cfg) k = map_of cfg k"
  "k \<noteq> ''authorization_header'' \<Longrightarrow> map_of (configured_header ex hdr cfg) k = map_of cfg k"
  "k \<noteq> ''allow_private_urls'' \<Longrightarrow> map_of (configured_private ex al su ch part cfg) k = map_of cfg k"
  by (simp_all add: configured_secret_def configured_header_def configured_private_def map_of_config split: option.splits bool.splits)

lemma built_config:
  assumes "build_webhook_config ex url sec hdr al False part fresh = Inr cfg" "truthy_key cfg ''allow_private_urls''"
  shows "truthy_key ex ''allow_private_urls'' \<and> config_text cfg ''url'' = config_text ex ''url''"
proof -
  obtain previous where previous: "config_text ex ''url'' = Inr previous"
    using assms(1) by (auto simp: build_webhook_config_def split: sum.splits)
  let ?c = "configured_url ex url part previous"
  have cfg: "cfg = configured_private ex al False (snd ?c) part (configured_header ex hdr (configured_secret ex sec part fresh (fst ?c)))"
    using assms(1) previous by (auto simp: build_webhook_config_def split_def Let_def split: if_splits)
  have same: "\<not> snd ?c"
    using assms(2) by (auto simp: cfg configured_private_def truthy_key_def map_of_config)
  have "map_of (fst ?c) ''allow_private_urls'' = map_of ex ''allow_private_urls''"
    by (simp add: configured_url_def Let_def map_of_config)
  then have allow: "truthy_key ex ''allow_private_urls''"
    using assms(2) same by (auto simp: cfg configured_private_def truthy_key_def configured_keys map_of_config split: if_splits option.splits)
  have "map_of cfg ''url'' = map_of (fst ?c) ''url''" by (simp add: cfg configured_keys)
  moreover have "map_of (fst ?c) ''url'' = map_of ex ''url'' \<or> map_of (fst ?c) ''url'' = Some (JStr previous)"
    using same by (auto simp: configured_url_def Let_def map_of_config split: if_splits option.splits)
  moreover have "strip previous = previous" "previous = [] \<or> truthy (JStr previous)"
    using previous strip_where_idem by (auto simp: config_text_def strip_def strip_where_def [of _ "[]"] split: option.splits json.splits if_splits)
  ultimately have "config_text cfg ''url'' = Inr previous"
    using previous by (auto simp: config_text_def split: option.splits json.splits if_splits)
  then show ?thesis using allow previous by simp
qed

lemma sample_envelopes_rows:
  "\<exists>n. snd (sample_envelopes ad c es s) = s\<lparr>a_next_uuid := n\<rparr>"
proof (induction es arbitrary: s)
  case Nil
  then show ?case by (intro exI [of _ "a_next_uuid s"]) simp
next
  case (Cons e es)
  obtain n where "snd (sample_envelopes ad c es (s\<lparr>a_next_uuid := Suc (a_next_uuid s)\<rparr>)) = s\<lparr>a_next_uuid := Suc (a_next_uuid s), a_next_uuid := n\<rparr>"
    using Cons by blast
  then show ?case by (simp add: Let_def split_def) blast
qed

lemma send_test_rows: "\<exists>n. snd (rule_send_test ad c pk s) = s\<lparr>a_next_uuid := n\<rparr>"
proof -
  have "\<exists>n. s = s\<lparr>a_next_uuid := n\<rparr>" by (intro exI [of _ "a_next_uuid s"]) simp
  then show ?thesis
    by (auto simp: rule_send_test_def send_webhook_test_for_rule_def Let_def split: option.splits sum.splits prod.splits)
qed

lemma saved_rules: "r' \<in> set (a_rules (save_rule rule s)) \<Longrightarrow> r' = rule \<or> r' \<in> set (a_rules s)"
  by (auto simp: save_rule_def set_update_where split: if_splits)

lemma got_rule: "get_rule s c pk = Some r \<Longrightarrow> r \<in> set (a_rules s) \<and> r_id r = pk \<and> r_company_id r = c"
  unfolding get_rule_def by (auto dest: first_where_Some)

text \<open>
  C34. Only staff can open a rule to private addresses. Whatever a caller without the staff flag asks of the
  administration API, a rule that may deliver to private addresses afterwards could do so before, and to the same URL.
\<close>

theorem private_urls_need_staff:
  assumes "rq_user rq = Some p" "\<not> p_is_staff p" "admin ad view rq s = (resp, s')"
    "r' \<in> set (a_rules s')" "truthy_key (r_config r') ''allow_private_urls''"
  shows "\<exists>r \<in> set (a_rules s). r_id r = r_id r' \<and> r_company_id r = r_company_id r' \<and>
    truthy_key (r_config r) ''allow_private_urls'' \<and> config_text (r_config r') ''url'' = config_text (r_config r) ''url''"
proof -
  have actor: "a = p" if "admitted rq = Inr (a, c)" for a c
    using that assms(1) by (auto simp: admitted_def require_staff_or_company_owner_def Let_def split: if_splits option.splits)
  let ?ok = "\<lambda>r'. \<exists>r \<in> set (a_rules s). r_id r = r_id r' \<and> r_company_id r = r_company_id r' \<and>
    truthy_key (r_config r) ''allow_private_urls'' \<and> config_text (r_config r') ''url'' = config_text (r_config r) ''url''"
  have old: "?ok r'" if "r' \<in> set (a_rules s)" using that assms(5) by blast
  have applied: "truthy_key (r_config rule) ''allow_private_urls'' \<and> config_text (r_config rule') ''url'' = config_text (r_config rule) ''url''"
    if "apply_rule_config ad rule ri p part = Inr rule'" "truthy_key (r_config rule') ''allow_private_urls''" for rule ri part rule'
    using that assms(2) built_config by (auto simp: apply_rule_config_def Let_def split: sum.splits)
  have kept: "r_id rule' = r_id rule \<and> r_company_id rule' = r_company_id rule" if "apply_rule_config ad rule ri p part = Inr rule'" for rule ri part rule'
    using that by (auto simp: apply_rule_config_def Let_def split: sum.splits)
  show ?thesis
  proof (cases "admitted rq")
    case (Inl refusal)
    then show ?thesis using assms(3,4) old by (simp add: admin_def)
  next
    case (Inr ac)
    then obtain c where "admitted rq = Inr (p, c)" using actor by (cases ac) auto
    then have body: "admin_body ad view rq p c s = (resp, s')" using assms(3) by (simp add: admin_def)
    show ?thesis
    proof (cases view)
      case Action_Events
      then show ?thesis
        using body assms(4) old sample_envelopes_rows [of ad c "webhook_event_types (ad_registry ad)" s]
        by (auto simp: admin_body_def split: prod.splits)
    next
      case Rule_Create
      then consider "r' \<in> set (a_rules s)" | rule ri where "apply_rule_config ad rule ri p False = Inr r'" "r_config rule = []"
        using body assms(4) by (auto simp: admin_body_def rule_create_def Let_def split: option.splits sum.splits)
      then show ?thesis
      proof cases
        case 2
        then show ?thesis using applied [OF 2(1) assms(5)] by (simp add: truthy_key_def)
      qed (use old in blast)
    next
      case (Rule_Patch pk)
      then consider "r' \<in> set (a_rules s)"
        | rule ri new where "get_rule s c pk = Some rule" "apply_rule_config ad (patched_rule ri rule) ri p True = Inr new"
            "r' = new\<lparr>r_action_kind := ''webhook'', r_updated_at := a_clock s\<rparr>"
        using body assms(4) by (auto simp: admin_body_def rule_patch_def Let_def dest!: saved_rules split: option.splits sum.splits)
      then show ?thesis
      proof cases
        case 2
        have "r_config (patched_rule ri rule) = r_config rule" "r_id (patched_rule ri rule) = r_id rule" "r_company_id (patched_rule ri rule) = r_company_id rule"
          by (simp_all add: patched_rule_def)
        then show ?thesis using applied [OF 2(2)] kept [OF 2(2)] got_rule [OF 2(1)] 2(3) assms(5) by (intro bexI [of _ rule]) auto
      qed (use old in blast)
    next
      case (Rule_Delete pk)
      then show ?thesis using body assms(4) old
        by (auto simp: admin_body_def rule_delete_def delete_rules_def delete_outbox_def Let_def split: option.splits)
    next
      case (Rule_Rotate_Secret pk)
      then consider "r' \<in> set (a_rules s)"
        | rule sec where "get_rule s c pk = Some rule" "r' = rule\<lparr>r_config := dict_set ''secret'' sec (r_config rule), r_updated_at := a_clock s\<rparr>"
        using body assms(4) by (auto simp: admin_body_def rule_rotate_secret_def Let_def dest!: saved_rules split: option.splits)
      then show ?thesis
      proof cases
        case 2
        then show ?thesis using got_rule [OF 2(1)] assms(5)
          by (intro bexI [of _ rule]) (auto simp: truthy_key_def config_text_def map_of_config)
      qed (use old in blast)
    next
      case (Rule_Send_Test pk)
      then show ?thesis using body assms(4) old send_test_rows [of ad c pk s] by (auto simp: admin_body_def)
    next
      case (Delivery_Requeue i)
      then show ?thesis using body assms(4) old by (auto simp: admin_body_def delivery_requeue_def requeue_outbox_def split: option.splits)
    qed (use body assms(4) old in \<open>simp_all add: admin_body_def\<close>)
  qed
qed

section \<open>Companies do not see each other\<close>

definition keyed :: "actions \<Rightarrow> bool" where
  "keyed s \<longleftrightarrow> rules_local s \<and> distinct (map r_id (a_rules s)) \<and> distinct (map ob_id (a_outbox s))"

definition attempts_for :: "int \<Rightarrow> actions \<Rightarrow> delivery_attempt list" where
  "attempts_for c s = filter (\<lambda>a. at_outbox a \<in> ob_id ` {row \<in> set (a_outbox s). ob_company_id row = c}) (a_attempts s)"

text \<open>The rows of a company.\<close>

definition company_part :: "int \<Rightarrow> actions \<Rightarrow> action_rule list \<times> outbox_row list \<times> delivery_attempt list \<times> event_log list" where
  "company_part c s = (filter (\<lambda>r. r_company_id r = c) (a_rules s), filter (\<lambda>row. ob_company_id row = c) (a_outbox s),
     attempts_for c s, filter (\<lambda>e. ev_company_id e = Some c) (a_log s))"

definition same_for :: "int \<Rightarrow> actions \<Rightarrow> actions \<Rightarrow> bool" where
  "same_for c s t \<longleftrightarrow> company_part c t = company_part c s \<and> a_clock t = a_clock s \<and> a_next_uuid t = a_next_uuid s \<and> a_next_id t = a_next_id s"

lemma first_where_part: "first_where (\<lambda>x. P x \<and> Q x) xs = first_where P (filter Q xs)"
  by (induction xs) auto

lemma get_rule_part: "same_for c s t \<Longrightarrow> get_rule t c pk = get_rule s c pk"
  by (simp add: get_rule_def first_where_part same_for_def company_part_def)

lemma get_delivery_part: "same_for c s t \<Longrightarrow> get_delivery t c i = get_delivery s c i"
proof -
  assume same: "same_for c s t"
  have "get_delivery u c i = first_where (\<lambda>row. ob_id row = i \<and> ob_delivery_kind row = KIND_WEBHOOK)
      (filter (\<lambda>row. ob_company_id row = c) (a_outbox u))" for u
    unfolding get_delivery_def by (induction "a_outbox u") (auto simp flip: first_where_part simp: conj_ac)
  then show ?thesis using same by (simp add: same_for_def company_part_def)
qed

lemma got_delivery: "get_delivery s c i = Some row \<Longrightarrow> row \<in> set (a_outbox s) \<and> ob_company_id row = c \<and> ob_id row = i"
  unfolding get_delivery_def by (auto dest: first_where_Some)

lemma rule_of_delivery:
  assumes "rules_local s" "row \<in> set (a_outbox s)" "ob_company_id row = c" "ob_action_rule row = Some i"
  shows "rule_by_id s i = first_where (\<lambda>r. r_id r = i) (filter (\<lambda>r. r_company_id r = c) (a_rules s))"
proof -
  have "\<forall>x \<in> set xs. P x \<longrightarrow> Q x \<Longrightarrow> first_where P xs = first_where P (filter Q xs)" for P Q and xs :: "action_rule list"
    by (induction xs) auto
  then show ?thesis unfolding rule_by_id_def using assms by (auto simp: rules_local_def)
qed

lemma delivery_payload_part:
  assumes "same_for c s t" "rules_local s" "rules_local t" "row \<in> set (a_outbox s)" "ob_company_id row = c"
  shows "delivery_payload t row = delivery_payload s row"
proof -
  have "row \<in> set (filter (\<lambda>row. ob_company_id row = c) (a_outbox t))"
    using assms(1,4,5) by (simp add: same_for_def company_part_def)
  then have "row \<in> set (a_outbox t)" by simp
  then have "rule_by_id t i = rule_by_id s i" if "ob_action_rule row = Some i" for i
    using rule_of_delivery [OF assms(2,4,5) that] rule_of_delivery [OF assms(3) _ assms(5) that] assms(1)
    by (simp add: same_for_def company_part_def)
  then show ?thesis by (simp add: delivery_payload_def split: option.splits)
qed

lemma attempts_part:
  assumes "same_for c s t" "row \<in> set (a_outbox s)" "ob_company_id row = c"
  shows "filter (\<lambda>a. at_outbox a = ob_id row) (a_attempts t) = filter (\<lambda>a. at_outbox a = ob_id row) (a_attempts s)"
proof -
  have "row \<in> set (filter (\<lambda>row. ob_company_id row = c) (a_outbox t))"
    using assms by (simp add: same_for_def company_part_def)
  then have own: "ob_id row \<in> ob_id ` {row \<in> set (a_outbox u). ob_company_id row = c}" if "u = s \<or> u = t" for u
    using that assms(2,3) by auto
  have "filter (\<lambda>a. at_outbox a = ob_id row) (a_attempts u) = filter (\<lambda>a. at_outbox a = ob_id row) (attempts_for c u)" if "u = s \<or> u = t" for u
    unfolding attempts_for_def filter_filter using own [OF that] by (intro filter_cong) auto
  then show ?thesis using assms(1) by (simp add: same_for_def company_part_def)
qed

lemma all_some_cong: "(\<And>x. x \<in> set xs \<Longrightarrow> f x = g x) \<Longrightarrow> all_some (map f xs) = all_some (map g xs)"
  by (metis map_cong)

lemma set_sort_with: "set (sort_with lt xs) = set xs"
proof -
  have "set (insert_with lt x ys) = insert x (set ys)" for x ys by (induction ys) auto
  then show ?thesis unfolding sort_with_def by (induction xs) auto
qed

lemma set_page_of: "set (page_of p n xs) \<subseteq> set xs"
  unfolding page_of_def py_slice_def Let_def by (meson order.trans set_drop_subset set_take_subset)

lemma deliveries_part:
  assumes "same_for c s t" "rules_local s" "rules_local t" "\<not> p_is_staff p"
  shows "deliveries_list ad rq p c t = deliveries_list ad rq p c s"
proof -
  let ?mine = "\<lambda>u. filter (\<lambda>row. ob_company_id row = c \<and> ob_delivery_kind row = KIND_WEBHOOK) (a_outbox u)"
  have part: "?mine u = filter (\<lambda>row. ob_delivery_kind row = KIND_WEBHOOK) (filter (\<lambda>row. ob_company_id row = c) (a_outbox u))" for u
    by (simp add: conj_commute)
  have mine: "?mine t = ?mine s"
    unfolding part using assms(1) by (simp add: same_for_def company_part_def del: filter_filter)
  have run: "run_filter rq p t = run_filter rq p s" using assms(4) by (simp add: run_filter_def Let_def)
  have payload: "all_some (map (delivery_payload t) (page_of page n (sort_with newest_delivery (filter wanted (?mine s))))) =
      all_some (map (delivery_payload s) (page_of page n (sort_with newest_delivery (filter wanted (?mine s)))))" for page n wanted
  proof (rule all_some_cong)
    fix row assume "row \<in> set (page_of page n (sort_with newest_delivery (filter wanted (?mine s))))"
    then have "row \<in> set (a_outbox s)" "ob_company_id row = c" using set_page_of by (fastforce simp: set_sort_with)+
    then show "delivery_payload t row = delivery_payload s row" by (rule delivery_payload_part [OF assms(1-3)])
  qed
  show ?thesis unfolding deliveries_list_def mine run Let_def payload ..
qed

lemma rows_after_delete_rule:
  assumes "keyed s" "get_rule s c pk = Some rule" "c' \<noteq> c"
  shows "company_part c' (delete_rules (\<lambda>r. r_id r = pk) s) = company_part c' s"
proof -
  have rule: "rule \<in> set (a_rules s)" "r_id rule = pk" "r_company_id rule = c" using got_rule [OF assms(2)] by simp_all
  have own: "r_company_id r = c" if "r \<in> set (a_rules s)" "r_id r = pk" for r
    using distinct_key_unique [of r_id "a_rules s" r rule] assms(1) that rule by (auto simp: keyed_def)
  let ?gone = "\<lambda>row. ob_action_rule row \<in> Some ` r_id ` set (filter (\<lambda>r. r_id r = pk) (a_rules s))"
  have gone: "ob_company_id row = c" if "row \<in> set (a_outbox s)" "?gone row" for row
    using assms(1) that own by (auto simp: keyed_def rules_local_def)
  have rules: "filter (\<lambda>r. r_company_id r = c') (delete_where (\<lambda>r. r_id r = pk) (a_rules s)) = filter (\<lambda>r. r_company_id r = c') (a_rules s)"
    unfolding delete_where_def filter_filter using own assms(3) by (intro filter_cong) auto
  have outbox: "filter (\<lambda>row. ob_company_id row = c') (delete_where ?gone (a_outbox s)) = filter (\<lambda>row. ob_company_id row = c') (a_outbox s)"
    unfolding delete_where_def filter_filter using gone assms(3) by (intro filter_cong) auto
  have mine: "{row \<in> set (delete_where ?gone (a_outbox s)). ob_company_id row = c'} = {row \<in> set (a_outbox s). ob_company_id row = c'}"
    using gone assms(3) by (auto simp: delete_where_def)
  have apart: "x \<notin> ob_id ` set (filter ?gone (a_outbox s))" if other: "x \<in> ob_id ` {row \<in> set (a_outbox s). ob_company_id row = c'}" for x
  proof
    assume "x \<in> ob_id ` set (filter ?gone (a_outbox s))"
    then obtain a where a: "a \<in> set (a_outbox s)" "?gone a" "ob_id a = x" unfolding set_filter by blast
    obtain b where b: "b \<in> set (a_outbox s)" "ob_company_id b = c'" "ob_id b = x" using other by auto
    have "a = b" using distinct_key_unique [of ob_id "a_outbox s" a b] assms(1) a b by (simp add: keyed_def)
    then show False using gone [OF a(1,2)] b(2) assms(3) by simp
  qed
  have "attempts_for c' (delete_rules (\<lambda>r. r_id r = pk) s) = attempts_for c' s"
    unfolding attempts_for_def delete_rules_def delete_outbox_def Let_def
    using mine apart by (simp add: delete_where_def del: set_filter) (intro filter_cong; blast)
  then show ?thesis using rules outbox by (simp add: company_part_def delete_rules_def delete_outbox_def Let_def)
qed

lemma filter_update_other:
  "(\<And>r. r \<in> set rs \<Longrightarrow> P r \<Longrightarrow> \<not> Q r \<and> \<not> Q (f r)) \<Longrightarrow> filter Q (update_where P f rs) = filter Q rs"
  unfolding update_where_def by (induction rs) auto

lemma rows_after_save:
  assumes "keyed s" "get_rule s c pk = Some old" "r_id rule = pk" "r_company_id rule = c" "c' \<noteq> c"
  shows "company_part c' (save_rule rule s) = company_part c' s"
proof -
  have "r_company_id r = c" if "r \<in> set (a_rules s)" "r_id r = pk" for r
    using distinct_key_unique [of r_id "a_rules s" r old] assms(1) that got_rule [OF assms(2)] by (auto simp: keyed_def)
  then have "filter (\<lambda>r. r_company_id r = c') (update_where (\<lambda>r. r_id r = r_id rule) (\<lambda>_. rule) (a_rules s)) =
      filter (\<lambda>r. r_company_id r = c') (a_rules s)"
    using assms(3-5) by (intro filter_update_other) auto
  then show ?thesis by (simp add: company_part_def attempts_for_def save_rule_def)
qed

lemma rows_after_requeue:
  assumes "keyed s" "get_delivery s c i = Some row" "c' \<noteq> c"
  shows "company_part c' (requeue_outbox i s) = company_part c' s"
proof -
  have "ob_company_id r = c" if "r \<in> set (a_outbox s)" "ob_id r = i" for r
    using distinct_key_unique [of ob_id "a_outbox s" r row] assms(1) that got_delivery [OF assms(2)] by (auto simp: keyed_def)
  then have outbox: "filter (\<lambda>row. ob_company_id row = c') (update_where (\<lambda>r. ob_id r = i) requeued (a_outbox s)) =
      filter (\<lambda>row. ob_company_id row = c') (a_outbox s)"
    using assms(3) by (intro filter_update_other) (auto simp: requeued_def)
  then have "{row \<in> set (update_where (\<lambda>r. ob_id r = i) requeued (a_outbox s)). ob_company_id row = c'} =
      {row \<in> set (a_outbox s). ob_company_id row = c'}" by (metis set_filter)
  then show ?thesis using outbox by (simp add: company_part_def attempts_for_def requeue_outbox_def)
qed

lemma part_simps [simp]:
  "company_part c (s\<lparr>a_next_uuid := n\<rparr>) = company_part c s" "company_part c (s\<lparr>a_next_id := k\<rparr>) = company_part c s"
  by (simp_all add: company_part_def attempts_for_def)

lemma admin_keeps_others:
  assumes "keyed s" "admin_body ad view rq p c s = (resp, s')" "c' \<noteq> c"
  shows "company_part c' s' = company_part c' s"
proof (cases view)
  case Action_Events
  then show ?thesis
    using assms(2) sample_envelopes_rows [of ad c "webhook_event_types (ad_registry ad)" s]
    by (auto simp: admin_body_def split: prod.splits)
next
  case Rule_Create
  have "r_company_id saved = c" if "apply_rule_config ad rule ri p False = Inr saved" "r_company_id rule = c" for rule ri saved
    using that by (auto simp: apply_rule_config_def Let_def split: sum.splits)
  then show ?thesis
    using assms(2,3) Rule_Create
    by (auto simp: admin_body_def rule_create_def Let_def company_part_def attempts_for_def split: option.splits sum.splits)
next
  case (Rule_Patch pk)
  then consider "s' = s" | rule saved where "get_rule s c pk = Some rule" "s' = save_rule saved s" "r_id saved = pk" "r_company_id saved = c"
    using assms(2) got_rule
    by (fastforce simp: admin_body_def rule_patch_def Let_def apply_rule_config_def patched_rule_def split: option.splits sum.splits)
  then show ?thesis using rows_after_save [OF assms(1)] assms(3) by cases auto
next
  case (Rule_Delete pk)
  then show ?thesis using assms(2,3) rows_after_delete_rule [OF assms(1)]
    by (auto simp: admin_body_def rule_delete_def split: option.splits)
next
  case (Rule_Rotate_Secret pk)
  then show ?thesis using assms(2,3) rows_after_save [OF assms(1)] got_rule
    by (auto simp: admin_body_def rule_rotate_secret_def Let_def split: option.splits)
next
  case (Rule_Send_Test pk)
  then show ?thesis using assms(2) send_test_rows [of ad c pk s] by (auto simp: admin_body_def)
next
  case (Delivery_Requeue i)
  then show ?thesis using assms(2,3) rows_after_requeue [OF assms(1)]
    by (auto simp: admin_body_def delivery_requeue_def split: option.splits)
qed (use assms(2) in \<open>simp_all add: admin_body_def\<close>)

lemma sample_envelopes_part:
  "a_clock t = a_clock s \<Longrightarrow> a_next_uuid t = a_next_uuid s \<Longrightarrow> fst (sample_envelopes ad c es t) = fst (sample_envelopes ad c es s)"
proof (induction es arbitrary: s t)
  case (Cons e es)
  have "fst (sample_envelopes ad c es (t\<lparr>a_next_uuid := Suc (a_next_uuid t)\<rparr>)) =
      fst (sample_envelopes ad c es (s\<lparr>a_next_uuid := Suc (a_next_uuid s)\<rparr>))"
    by (rule Cons.IH) (use Cons.prems in simp_all)
  then show ?case using Cons.prems by (simp add: Let_def split_def)
qed simp

lemma admin_reads_own:
  assumes "same_for c s t" "rules_local s" "rules_local t" "\<not> p_is_staff p"
  shows "fst (admin_body ad view rq p c t) = fst (admin_body ad view rq p c s)"
proof -
  have env: "a_clock t = a_clock s" "a_next_uuid t = a_next_uuid s" "a_next_id t = a_next_id s"
    and rules: "filter (\<lambda>r. r_company_id r = c) (a_rules t) = filter (\<lambda>r. r_company_id r = c) (a_rules s)"
    and log: "filter (\<lambda>e. ev_company_id e = Some c) (a_log t) = filter (\<lambda>e. ev_company_id e = Some c) (a_log s)"
    using assms(1) by (simp_all add: same_for_def company_part_def)
  note got = get_rule_part [OF assms(1)] get_delivery_part [OF assms(1)]
  have payload: "delivery_payload t row = delivery_payload s row" "delivery_detail t staff row = delivery_detail s staff row"
    "delivery_payload t (requeued row) = delivery_payload s (requeued row)"
    if "get_delivery s c i = Some row" for i row staff
  proof -
    have row: "row \<in> set (a_outbox s)" "ob_company_id row = c" using got_delivery [OF that] by simp_all
    show "delivery_payload t row = delivery_payload s row" by (rule delivery_payload_part [OF assms(1-3) row])
    then show "delivery_detail t staff row = delivery_detail s staff row"
      using attempts_part [OF assms(1) row] by (simp add: delivery_detail_def)
    have "rule_by_id t j = rule_by_id s j" if "ob_action_rule row = Some j" for j
    proof -
      have "row \<in> set (filter (\<lambda>row. ob_company_id row = c) (a_outbox t))" using assms(1) row by (simp add: same_for_def company_part_def)
      then show ?thesis using rule_of_delivery [OF assms(2) row that] rule_of_delivery [OF assms(3) _ row(2) that] rules by simp
    qed
    then show "delivery_payload t (requeued row) = delivery_payload s (requeued row)"
      by (auto simp: delivery_payload_def requeued_def split: option.splits)
  qed
  show ?thesis
  proof (cases view)
    case Deliveries_List
    then show ?thesis using deliveries_part [OF assms] by (simp add: admin_body_def)
  next
    case (Rule_Send_Test pk)
    then show ?thesis
      by (auto simp: admin_body_def rule_send_test_def send_webhook_test_for_rule_def got env Let_def split: option.splits sum.splits prod.splits)
  next
    case Rule_Create
    then show ?thesis by (auto simp: admin_body_def rule_create_def env Let_def split: option.splits sum.splits)
  next
    case (Rule_Patch pk)
    then show ?thesis by (auto simp: admin_body_def rule_patch_def got env Let_def split: option.splits sum.splits)
  next
    case Action_Events
    then show ?thesis using sample_envelopes_part [OF env(1,2)] by (simp add: admin_body_def split_def Let_def)
  next
    case Event_Log_List
    then show ?thesis using assms(4) log
      by (simp add: admin_body_def event_log_list_def filtered_events_def split: option.splits sum.splits)
  qed (use assms(4) rules log payload in \<open>auto simp: admin_body_def rules_list_def rule_get_def rule_delete_def rule_rotate_secret_def
      delivery_get_def delivery_requeue_def event_log_get_def retention_status_def got env Let_def split: option.splits\<close>)
qed

text \<open>
  C33. The administration API keeps companies apart. For a caller of a company who is not staff the answer of every
  view depends on the rows of that company only, and the view leaves the rules, deliveries, attempts and
  events of every other company as they are.
\<close>

theorem admin_tenant_isolation:
  assumes "rq_user rq = Some p" "\<not> p_is_staff p" "p_company_id p = Some c" "keyed s" "keyed t"
    "same_for c s t" "admin ad view rq s = (resp, s')"
  shows "fst (admin ad view rq t) = resp \<and> (\<forall>c'. c' \<noteq> c \<longrightarrow> company_part c' s' = company_part c' s)"
proof (cases "admitted rq")
  case (Inl refusal)
  then show ?thesis using assms(7) by (simp add: admin_def)
next
  case (Inr ac)
  then have "ac = (p, c)"
    using assms(1-3) by (auto simp: admitted_def require_staff_or_company_owner_def split: if_splits option.splits)
  then have body: "admin_body ad view rq p c s = (resp, s')" "admin ad view rq t = admin_body ad view rq p c t"
    using Inr assms(7) by (simp_all add: admin_def)
  have "rules_local s" "rules_local t" using assms(4,5) by (simp_all add: keyed_def)
  then show ?thesis
    using admin_keeps_others [OF assms(4) body(1)] admin_reads_own [OF assms(6) _ _ assms(2), of ad view rq] body by simp
qed

section \<open>A sample administration\<close>

definition sample_rule :: "int \<Rightarrow> int \<Rightarrow> action_rule" where
  "sample_rule i c = \<lparr>r_id = i, r_company_id = c, r_name = ''hook'', r_description = [], r_event_type = ''storage.object.uploaded'',
     r_enabled = True, r_action_kind = ''webhook'',
     r_config = [(''url'', JStr ''http://10.0.0.1/x''), (''secret'', JStr ''whsec_AAAA''), (''allow_private_urls'', JBool True)],
     r_created_at = 0, r_updated_at = 0\<rparr>"

definition two_companies :: actions where
  "two_companies = empty_actions\<lparr>a_rules := [sample_rule 1 7, sample_rule 2 8]\<rparr>"

text \<open>The body of a request that renames a rule.\<close>

definition sample_admin :: admin_env where
  "sample_admin = \<lparr>ad_settings = sample_cfg, ad_env = s3_env, ad_registry = REGISTRATIONS,
     ad_fields = (\<lambda>create data. Some \<lparr>ri_name = Some ''renamed'', ri_description = None, ri_event_type = None, ri_enabled = None,
       ri_url = None, ri_secret = None, ri_authorization_header = None, ri_allow_private_urls = None\<rparr>),
     ad_secret = []\<rparr>"

definition owner_request :: admin_request where
  "owner_request = \<lparr>rq_user = Some owner, rq_query = [], rq_data = []\<rparr>"

lemma owner_is_no_staff: "rq_user owner_request = Some owner" "\<not> p_is_staff owner" "p_company_id owner = Some 7"
  by (simp_all add: owner_request_def owner_def user_of_def)

lemma private_urls_need_staff_witness:
  "let s' = snd (admin sample_admin (Rule_Patch 1) owner_request two_companies); r' = hd (a_rules s') in
     r_name r' = ''renamed'' \<and> truthy_key (r_config r') ''allow_private_urls'' \<and>
     (\<exists>r \<in> set (a_rules two_companies). r_id r = r_id r' \<and> config_text (r_config r') ''url'' = config_text (r_config r) ''url'')"
proof -
  obtain resp s' where run: "admin sample_admin (Rule_Patch 1) owner_request two_companies = (resp, s')" by fastforce
  have rules: "a_rules s' = [(sample_rule 1 7)\<lparr>r_name := ''renamed'', r_updated_at := 1000\<rparr>, sample_rule 2 8]"
    using run by (auto simp: Let_def admin_def admitted_def owner_request_def owner_def user_of_def require_staff_or_company_owner_def
      company_id_from_request_def admin_body_def rule_patch_def get_rule_def two_companies_def sample_rule_def validated_def sample_admin_def
      apply_rule_config_def patched_rule_def build_webhook_config_def config_text_def configured_url_def configured_secret_def
      configured_header_def configured_private_def truthy_key_def save_rule_def update_where_def dict_set_def dict_get_def empty_actions_def)
  moreover have "truthy_key (r_config (hd (a_rules s'))) ''allow_private_urls''"
    by (simp add: rules sample_rule_def truthy_key_def)
  moreover have "hd (a_rules s') \<in> set (a_rules s')" by (simp add: rules)
  ultimately show ?thesis
    using private_urls_need_staff [OF owner_is_no_staff(1,2) run, of "hd (a_rules s')"] by (auto simp: run Let_def)
qed

lemma admin_tenant_isolation_witness:
  "fst (admin sample_admin Rules_List owner_request (two_companies\<lparr>a_rules := [sample_rule 1 7]\<rparr>)) =
     fst (admin sample_admin Rules_List owner_request two_companies)"
proof -
  let ?t = "two_companies\<lparr>a_rules := [sample_rule 1 7]\<rparr>"
  have keyed: "keyed two_companies" "keyed ?t" "same_for 7 two_companies ?t"
    by (simp_all add: keyed_def rules_local_def two_companies_def empty_actions_def sample_rule_def same_for_def company_part_def attempts_for_def)
  obtain resp s' where run: "admin sample_admin Rules_List owner_request two_companies = (resp, s')" by fastforce
  show ?thesis using admin_tenant_isolation [OF owner_is_no_staff keyed run] by (simp add: run)
qed

text \<open>
  An owner whose token names no company is let through with any company the request names.
\<close>

lemma owner_without_company:
  assumes "rq_user rq = Some p" "p_is_company_owner p" "p_company_id p = None" "company_id_from_request rq = Some c"
  shows "admitted rq = Inr (p, c)"
  using assms by (simp add: admitted_def require_staff_or_company_owner_def)

end
