(* ===== verification/Directory.thy ===== *)
theory Directory
  imports Relocate Upload_Results
begin

text \<open>
  The storage as a directory: an abstract specification of \<open>apps/storage/services.py\<close>. The contents of all
  buckets are a partial map from bucket and path to bytes; \<open>dir\<close> reads it off the rows and the blobs, \<open>effect\<close>
  is what an operation means on it, and \<open>directory_refinement\<close> shows that the code implements it. The laws of the blob store
  are hypotheses (\<open>store_laws\<close>); on a store that does not overwrite the refinement fails, see \<open>overwrite_lost_on_filesystem\<close>.
\<close>

section \<open>The abstract directory\<close>

type_synonym directory = "uuid \<times> string \<rightharpoonup> bytes"

definition storage_keys :: "storage_object list \<Rightarrow> uuid \<times> string \<rightharpoonup> string" where
  "storage_keys objs = map_of (map (\<lambda>x. (object_key x, o_storage_key x)) objs)"

definition dir :: "world \<Rightarrow> directory" where
  "dir w = (\<lambda>k. case storage_keys (w_objects w) k of None \<Rightarrow> None | Some key \<Rightarrow> w_blobs w key)"

datatype file_op =
    Upload_File bucket string bytes "int option" "string option" bool "dict option" "string option"
  | Copy_File bucket string bucket string "int option"
  | Move_File bucket string bucket string
  | Rename_Folder bucket string string
  | Delete_Folder bucket string principal
  | Delete_Files bucket "string list" principal

definition quietly :: "'a act \<Rightarrow> unit act" where
  "quietly m = bindE m (\<lambda>_. ret ())"

definition perform :: "env \<Rightarrow> principal option \<Rightarrow> file_op \<Rightarrow> unit act" where
  "perform env req op =
     (case op of
        Upload_File b path file u ct ups md cc \<Rightarrow> quietly (upload_object env b path file u ct ups md cc req)
      | Copy_File b src d dst u \<Rightarrow> quietly (copy_object env b src d dst u req)
      | Move_File b src d dst \<Rightarrow> quietly (move_object b src d dst)
      | Rename_Folder b src dst \<Rightarrow> quietly (rename_folder b src dst)
      | Delete_Folder b path p \<Rightarrow> quietly (delete_under_prefix env b path p req)
      | Delete_Files b paths p \<Rightarrow> quietly (delete_paths env b paths p req))"

text \<open>What the caller of an operation expects of it; the paths are normalised first.\<close>

definition below :: "string \<Rightarrow> string \<Rightarrow> bool" where
  "below folder n \<longleftrightarrow> prefix (folder @ [slash]) n"

definition without :: "(uuid \<times> string \<Rightarrow> bool) \<Rightarrow> directory \<Rightarrow> directory" where
  "without gone D = (\<lambda>k. if gone k then None else D k)"

definition effect :: "file_op \<Rightarrow> directory \<Rightarrow> directory" where
  "effect op D =
     (case op of
        Upload_File b path file u ct ups md cc \<Rightarrow>
          (case safe_object_path path of Inl _ \<Rightarrow> D | Inr n \<Rightarrow> D((b_id b, n) \<mapsto> file))
      | Copy_File b src d dst u \<Rightarrow>
          (case (safe_object_path src, safe_object_path dst) of
             (Inr m, Inr n) \<Rightarrow> D((b_id d, n) := D (b_id b, m)) | _ \<Rightarrow> D)
      | Move_File b src d dst \<Rightarrow>
          (case (safe_object_path src, safe_object_path dst) of
             (Inr m, Inr n) \<Rightarrow> D((b_id b, m) := None, (b_id d, n) := D (b_id b, m)) | _ \<Rightarrow> D)
      | Rename_Folder b src dst \<Rightarrow>
          (case (safe_object_path src, safe_object_path dst) of
             (Inr m, Inr n) \<Rightarrow> (\<lambda>(i, x).
               if i \<noteq> b_id b then D (i, x)
               else if below n x then D (i, m @ drop (length n) x)
               else if below m x then None else D (i, x))
           | _ \<Rightarrow> D)
      | Delete_Folder b path p \<Rightarrow>
          without (\<lambda>(i, x). i = b_id b \<and> (strip_slashes path = [] \<or> below (strip_slashes path) x)) D
      | Delete_Files b paths p \<Rightarrow> without (\<lambda>(i, x). i = b_id b \<and> x \<in> set (path_names paths)) D)"

section \<open>The invariant of the rows and their blobs\<close>

text \<open>A row keeps the key it was created with, which holds its UUID.\<close>

definition row_filed :: "env \<Rightarrow> uuid \<Rightarrow> storage_object \<Rightarrow> bool" where
  "row_filed env next x \<longleftrightarrow> o_id x < next \<and> (\<exists>c b n. o_storage_key x = build_storage_key env c b n (o_id x))"

definition filed :: "env \<Rightarrow> world \<Rightarrow> bool" where
  "filed env w \<longleftrightarrow> sound w \<and> (\<forall>x \<in> set (w_objects w). row_filed env (w_next_uuid w) x)"

text \<open>A blob that opens is there; the S3 store and the file system raise for a name they do not have.\<close>

definition opens_stored :: "env \<Rightarrow> bool" where
  "opens_stored env \<longleftrightarrow> (\<forall>k bl d. storage_open env k bl = Inr d \<longrightarrow> bl k = Some d)"

definition op_buckets :: "file_op \<Rightarrow> bucket list" where
  "op_buckets op =
     (case op of Upload_File b _ _ _ _ _ _ _ \<Rightarrow> [b] | Copy_File b _ d _ _ \<Rightarrow> [b, d] | Move_File b _ d _ \<Rightarrow> [b, d]
      | Rename_Folder b _ _ \<Rightarrow> [b] | Delete_Folder b _ _ \<Rightarrow> [b] | Delete_Files b _ _ \<Rightarrow> [b])"

definition op_fits :: "bucket list \<Rightarrow> file_op \<Rightarrow> bool" where
  "op_fits bs op \<longleftrightarrow> (\<forall>b \<in> set (op_buckets op). bucket_company bs (b_id b) (b_company_id b)) \<and>
     (case op of Delete_Files b paths p \<Rightarrow> distinct (path_names paths) | _ \<Rightarrow> True)"

lemma filedD:
  assumes "filed env w"
  shows "sound w" "schema_ok w" "distinct (map o_id (w_objects w))" "distinct (map object_key (w_objects w))"
    "\<And>x. x \<in> set (w_objects w) \<Longrightarrow> row_filed env (w_next_uuid w) x"
  using assms by (simp_all add: filed_def sound_def schema_ok_def)

lemma dir_Some:
  assumes "schema_ok w"
  shows "dir w k = Some d \<longleftrightarrow> (\<exists>x \<in> set (w_objects w). object_key x = k \<and> w_blobs w (o_storage_key x) = Some d)"
proof -
  have "distinct (map fst (map (\<lambda>x. (object_key x, o_storage_key x)) (w_objects w)))"
    using assms by (simp add: schema_ok_def comp_def)
  then have "storage_keys (w_objects w) k = Some s \<longleftrightarrow> (\<exists>x \<in> set (w_objects w). object_key x = k \<and> o_storage_key x = s)" for s
    by (auto simp: storage_keys_def map_of_eq_Some_iff)
  moreover have "dir w k = Some d \<longleftrightarrow> (\<exists>s. storage_keys (w_objects w) k = Some s \<and> w_blobs w s = Some d)"
    by (cases "storage_keys (w_objects w) k") (simp_all add: dir_def)
  ultimately show ?thesis by auto
qed

lemma dir_same: "storage_keys (w_objects w') = storage_keys (w_objects w) \<Longrightarrow> w_blobs w' = w_blobs w \<Longrightarrow> dir w' = dir w"
  by (simp add: dir_def cong: option.case_cong)

lemma dir_eqI: "(\<And>k d. D k = Some d \<longleftrightarrow> E k = Some d) \<Longrightarrow> D = (E :: directory)"
  by (intro ext option.expand) (metis not_Some_eq option.collapse)+

lemma dir_find:
  "dir w (b_id b, n) = (case find_object w b n of None \<Rightarrow> None | Some x \<Rightarrow> w_blobs w (o_storage_key x))"
proof -
  have "storage_keys objs (b_id b, n) = map_option o_storage_key (first_where (\<lambda>x. o_bucket x = b_id b \<and> o_name x = n) objs)" for objs
    by (induction objs) (auto simp: storage_keys_def object_key_def)
  then show ?thesis by (simp add: dir_def find_object_def split: option.splits)
qed

lemma keys_apart:
  assumes "filed env w" "w_next_uuid w \<le> 2 ^ 128" "x \<in> set (w_objects w)" "y \<in> set (w_objects w)" "o_storage_key x = o_storage_key y"
  shows "x = y"
proof (rule ccontr)
  assume "x \<noteq> y"
  then have "o_id x \<noteq> o_id y" using distinct_key_unique [OF filedD(3) [OF assms(1)] assms(3,4)] by auto
  then show False
    using filedD(5) [OF assms(1,3)] filedD(5) [OF assms(1,4)] assms(2,5) storage_keys_differ [of "o_id x" "o_id y"]
    unfolding row_filed_def by (metis order_less_le_trans)
qed

lemma key_fresh:
  assumes "filed env w" "w_next_uuid w < 2 ^ 128" "x \<in> set (w_objects w)"
  shows "o_storage_key x \<noteq> build_storage_key env c b n (w_next_uuid w)"
proof -
  obtain c' b' n' where "o_storage_key x = build_storage_key env c' b' n' (o_id x)" "o_id x < w_next_uuid w"
    using filedD(5) [OF assms(1,3)] unfolding row_filed_def by blast
  then show ?thesis using assms(2) by (simp add: storage_keys_differ)
qed

lemma storage_keys_bare: "map bare xs = map bare ys \<Longrightarrow> storage_keys xs = storage_keys ys"
  unfolding storage_keys_def using map_bare [of xs ys "\<lambda>x. (object_key x, o_storage_key x)"] by simp

lemma dir_bare: "map bare (w_objects w') = map bare (w_objects w) \<Longrightarrow> w_blobs w' = w_blobs w \<Longrightarrow> dir w' = dir w"
  by (intro dir_same storage_keys_bare)

lemma rows_filed_bare:
  "map bare xs = map bare ys \<Longrightarrow> (\<forall>x \<in> set xs. row_filed env n x) = (\<forall>x \<in> set ys. row_filed env n x)"
  by (rule ball_bare) (auto simp: row_filed_def)

lemma row_filed_mono: "row_filed env m x \<Longrightarrow> m \<le> n \<Longrightarrow> row_filed env n x"
  by (auto simp: row_filed_def)

section \<open>Storing a blob\<close>

lemma dir_store:
  assumes "storage_keys (w_objects w') = (storage_keys (w_objects w))(k \<mapsto> key)" "w_blobs w' = (w_blobs w)(key \<mapsto> d)"
    "\<And>k'. storage_keys (w_objects w) k' = Some key \<Longrightarrow> k' = k"
  shows "dir w' = (dir w)(k \<mapsto> d)"
  using assms(3) by (auto simp: dir_def assms(1,2) fun_eq_iff split: option.splits)

lemma storage_keys_row:
  "storage_keys objs k = Some key \<Longrightarrow> \<exists>x \<in> set objs. object_key x = k \<and> o_storage_key x = key"
  by (auto simp: storage_keys_def dest!: map_of_SomeD)

text \<open>The end of an upload to a free path, and of a copy.\<close>

lemma stored_row:
  assumes "filed env w" "overwrites env" "w_next_uuid w < 2 ^ 128"
    "storage_save env (o_storage_key obj) data (w_blobs w) = (Inr k', bl)"
    "obj = new_object (w_next_uuid w) b name u sz etag mime meta (build_storage_key env c bn name (w_next_uuid w)) now"
    "\<not> object_exists obj (w\<lparr>w_blobs := bl\<rparr>)"
    "apply_default_private_on_create obj u False (charge env c' u delta
       (w\<lparr>w_next_uuid := Suc (w_next_uuid w), w_blobs := bl, w_objects := w_objects w @ [obj]\<rparr>)) = (Inr gs, w4)"
    "after_signal w4 w'"
  shows "(\<forall>x \<in> set (w_objects w'). row_filed env (w_next_uuid w') x) \<and> w_buckets w' = w_buckets w \<and>
     w_next_uuid w \<le> w_next_uuid w' \<and> dir w' = (dir w)((b_id b, name) \<mapsto> data)"
proof -
  let ?k = "(b_id b, name)" and ?key = "build_storage_key env c bn name (w_next_uuid w)"
  have w4: "w_objects w4 = w_objects w @ [obj]" "w_blobs w4 = bl" "w_buckets w4 = w_buckets w" "Suc (w_next_uuid w) \<le> w_next_uuid w4"
    using keepsD [OF apply_private_frame assms(7)] by (simp_all add: same_but_grants_def)
  have w': "map bare (w_objects w') = map bare (w_objects w4)" "w_blobs w' = w_blobs w4" "w_buckets w' = w_buckets w4"
    "w_next_uuid w' = w_next_uuid w4"
    using assms(8) by (simp_all add: after_signal_def)
  have obj: "object_key obj = ?k" "o_storage_key obj = ?key" "o_id obj = w_next_uuid w"
    by (simp_all add: assms(5) new_object_def object_key_def)
  then have "row_filed env (Suc (w_next_uuid w)) obj" by (auto simp: row_filed_def)
  moreover have "row_filed env (Suc (w_next_uuid w)) x" if "x \<in> set (w_objects w)" for x
    using filedD(5) [OF assms(1) that] by (rule row_filed_mono) simp
  ultimately have rows: "\<forall>x \<in> set (w_objects w'). row_filed env (w_next_uuid w') x"
    unfolding rows_filed_bare [OF w'(1)] using row_filed_mono [OF _ w4(4)] by (auto simp: w4(1) w'(4))
  have "?k \<notin> object_key ` set (w_objects w)" using assms(6) obj(1) by (auto simp: object_exists_def)
  then have free: "storage_keys (w_objects w) ?k = None"
    by (simp add: storage_keys_def map_of_eq_None_iff image_image)
  have "storage_keys (w_objects w') = storage_keys (w_objects w @ [obj])"
    using storage_keys_bare [OF w'(1)] by (simp add: w4(1))
  also have "\<dots> = (storage_keys (w_objects w))(?k \<mapsto> ?key)"
    using free by (auto simp: storage_keys_def map_of_append map_add_def fun_eq_iff obj split: option.splits)
  finally have keys: "storage_keys (w_objects w') = (storage_keys (w_objects w))(?k \<mapsto> ?key)" .
  have "bl = (w_blobs w)(?key \<mapsto> data)" using assms(2,4) by (simp add: overwrites_def obj)
  then have blobs: "w_blobs w' = (w_blobs w)(?key \<mapsto> data)" by (simp add: w'(2) w4(2))
  have "k = ?k" if "storage_keys (w_objects w) k = Some ?key" for k
    using storage_keys_row [OF that] key_fresh [OF assms(1,3)] by blast
  then have "dir w' = (dir w)(?k \<mapsto> data)" by (rule dir_store [OF keys blobs])
  then show ?thesis using rows w4(3,4) w'(3,4) by simp
qed

lemma upload_step:
  assumes "filed env w" "bucket_company (w_buckets w) (b_id b) (b_company_id b)" "overwrites env" "w_next_uuid w < 2 ^ 128"
    "upload_object env b path file u ct ups md cc req w = (Inr obj, w')"
  shows "filed env w' \<and> w_buckets w' = w_buckets w \<and> w_next_uuid w \<le> w_next_uuid w' \<and>
     (\<exists>n. safe_object_path path = Inr n \<and> dir w' = (dir w)((b_id b, n) \<mapsto> file))"
proof -
  have "known b w" using assms(1,2) by (simp add: known_def filed_def)
  then have sound: "sound w'" using maintainsD [OF upload_known _ assms(5)] by (simp add: known_def)
  have quota: "filed env v \<and> dir v = dir w \<and> w_buckets v = w_buckets w \<and> w_next_uuid v = w_next_uuid w"
    if "quota_step env (b_company_id b) u delta w v" for delta v
  proof -
    have "known b v" using quota_step_known [OF that \<open>known b w\<close>] .
    moreover have "dir v = dir w" using quota_step_frame [OF that] by (intro dir_same) (simp_all add: same_but_quotas_def)
    ultimately show ?thesis using quota_step_frame [OF that] assms(1)
      by (simp add: filed_def known_def same_but_quotas_def)
  qed
  from assms(5) show ?thesis
  proof (cases rule: upload_run)
    case (1 name data w1)
    have data: "data = file" using 1(2) by (simp add: read_upload_bytes_eq split: if_splits)
    note w1 = quota [OF 1(5)]
    obtain k' bl new gs w4 where run: "storage_save env (o_storage_key new) data (w_blobs w1) = (Inr k', bl)"
      "new = new_object (w_next_uuid w1) b name u (int (length data)) (content_etag env data) (normalize_mime_type env ct name)
         (upload_metadata md cc) (build_storage_key env (b_company_id b) (b_name b) name (w_next_uuid w1)) (w_clock w1)"
      "\<not> object_exists new (w1\<lparr>w_blobs := bl\<rparr>)"
      "apply_default_private_on_create new u False (charge env (b_company_id b) u (int (length data))
        (w1\<lparr>w_next_uuid := Suc (w_next_uuid w1), w_blobs := bl, w_objects := w_objects w1 @ [new]\<rparr>)) = (Inr gs, w4)"
      "after_signal w4 w'"
      using 1(6) by (rule create_object_run)
    show ?thesis
      using stored_row [OF conjunct1 [OF w1] assms(3) _ run] assms(4) w1 sound 1(1) by (simp add: filed_def data)
  next
    case (2 name data ex w1)
    have data: "data = file" using 2(2) by (simp add: read_upload_bytes_eq split: if_splits)
    note w1 = quota [OF 2(6)]
    have ex: "ex \<in> set (w_objects w1)" "object_key ex = (b_id b, name)"
      using find_objectD [OF 2(4)] quota_step_frame [OF 2(6)] by (simp_all add: same_but_quotas_def object_key_def)
    obtain k' bl new w3 where run: "storage_save env (o_storage_key ex) data (w_blobs w1) = (Inr k', bl)"
      "o_id new = o_id ex" "o_name new = o_name ex" "o_bucket new = o_bucket ex" "o_storage_key new = o_storage_key ex"
      "w3 = charge env (b_company_id b) u (int (length data) - o_size ex)
         (w1\<lparr>w_blobs := bl, w_objects := update_where (\<lambda>x. o_id x = o_id ex) (\<lambda>_. new) (w_objects w1)\<rparr>)"
      "after_signal w3 w'"
      by (rule overwrite_object_run [OF 2(7) ex(1)])
    have ids: "distinct (map o_id (w_objects w1))" using filedD(3) w1 by blast
    let ?f = "\<lambda>x. (o_id x, object_key x, o_storage_key x)"
    have same: "map ?f (w_objects w3) = map ?f (w_objects w1)"
      using distinct_key_unique [OF ids _ ex(1)] run(2-5)
      by (auto simp: run(6) update_where_def object_key_def)
    have w': "map bare (w_objects w') = map bare (w_objects w3)" "w_blobs w' = bl" "w_buckets w' = w_buckets w1"
      "w_next_uuid w' = w_next_uuid w1"
      using run(6,7) by (simp_all add: after_signal_def)
    have "storage_keys (w_objects w3) = storage_keys (w_objects w1)"
      using arg_cong [OF same, of "map snd"] by (simp add: storage_keys_def comp_def)
    then have keys: "storage_keys (w_objects w') = storage_keys (w_objects w1)" using storage_keys_bare [OF w'(1)] by simp
    have "(\<forall>x \<in> set (w_objects w3). row_filed env n x) = (\<forall>x \<in> set (w_objects w1). row_filed env n x)" for n
    proof -
      have "(\<forall>x \<in> set xs. row_filed env n x) = list_all (\<lambda>(i, k, s). i < n \<and> (\<exists>c b nm. s = build_storage_key env c b nm i)) (map ?f xs)" for xs
        by (induction xs) (auto simp: row_filed_def)
      then show ?thesis using same by simp
    qed
    then have rows: "\<forall>x \<in> set (w_objects w'). row_filed env (w_next_uuid w') x"
      using rows_filed_bare [OF w'(1)] filedD(5) [OF conjunct1 [OF w1]] w'(4) by simp
    have blob: "bl = (w_blobs w1)(o_storage_key ex \<mapsto> file)" using assms(3) run(1) by (simp add: overwrites_def data)
    have ex_key: "storage_keys (w_objects w1) (b_id b, name) = Some (o_storage_key ex)"
      using ex filedD(4) [OF conjunct1 [OF w1]] by (simp add: storage_keys_def map_of_eq_Some_iff comp_def image_iff bexI [of _ ex])
    have only: "k = (b_id b, name)" if "storage_keys (w_objects w1) k = Some (o_storage_key ex)" for k
      using storage_keys_row [OF that] keys_apart [OF conjunct1 [OF w1] _ _ ex(1)] ex(2) w1 assms(4) by fastforce
    have "storage_keys (w_objects w') = (storage_keys (w_objects w1))((b_id b, name) \<mapsto> o_storage_key ex)"
      using ex_key by (auto simp: keys)
    then have "dir w' = (dir w1)((b_id b, name) \<mapsto> file)"
      by (rule dir_store) (simp_all add: w'(2) blob only)
    then show ?thesis using rows sound w1 w'(3,4) 2(1) by (simp add: filed_def)
  qed
qed

lemma open_blob_Inr: "open_blob env k w = (Inr d, w') \<longleftrightarrow> storage_open env k (w_blobs w) = Inr d \<and> w' = w"
  by (auto simp: open_blob_def split: sum.splits)

lemma copy_object_run:
  assumes "copy_object env b src d dst u req w = (Inr obj, w')"
  obtains m n sobj w1 data k' bl owner new gs w4 where "safe_object_path src = Inr m" "safe_object_path dst = Inr n"
    "find_object w b m = Some sobj" "check_quota env (b_company_id d) u (o_size sobj) 0 w = (Inr (), w1)"
    "storage_open env (o_storage_key sobj) (w_blobs w1) = Inr data"
    "storage_save env (o_storage_key new) data (w_blobs w1) = (Inr k', bl)"
    "new = new_object (w_next_uuid w1) d n owner (o_size sobj) (o_etag sobj) (o_mime_type sobj)
         (o_metadata sobj) (build_storage_key env (b_company_id d) (b_name d) n (w_next_uuid w1)) (w_clock w1)"
    "\<not> object_exists new (w1\<lparr>w_blobs := bl\<rparr>)"
    "apply_default_private_on_create new owner False (charge env (b_company_id d) owner (o_size sobj)
        (w1\<lparr>w_next_uuid := Suc (w_next_uuid w1), w_blobs := bl, w_objects := w_objects w1 @ [new]\<rparr>)) = (Inr gs, w4)"
    "after_signal w4 w'"
proof -
  let ?new = "\<lambda>w1 n sobj owner. new_object (w_next_uuid w1) d n owner (o_size sobj) (o_etag sobj) (o_mime_type sobj)
         (o_metadata sobj) (build_storage_key env (b_company_id d) (b_name d) n (w_next_uuid w1)) (w_clock w1)"
  obtain m n sobj w1 data k' bl owner gs w4 where src: "safe_object_path src = Inr m" "safe_object_path dst = Inr n"
    "find_object w b m = Some sobj" "check_quota env (b_company_id d) u (o_size sobj) 0 w = (Inr (), w1)"
    "storage_open env (o_storage_key sobj) (w_blobs w1) = Inr data"
    and sent: "storage_save env (o_storage_key (?new w1 n sobj owner)) data (w_blobs w1) = (Inr k', bl)"
    "\<not> object_exists (?new w1 n sobj owner) (w1\<lparr>w_blobs := bl\<rparr>)"
    "apply_default_private_on_create (?new w1 n sobj owner) owner False (charge env (b_company_id d) owner (o_size sobj)
        (w1\<lparr>w_next_uuid := Suc (w_next_uuid w1), w_blobs := bl, w_objects := w_objects w1 @ [?new w1 n sobj owner]\<rparr>)) = (Inr gs, w4)"
    "send_uploaded env d (?new w1 n sobj owner) True req w4 = (Inr obj, w')"
    using assms unfolding copy_object_def
    by (cases u; auto simp: Let_def run_Inr open_blob_Inr split: option.split_asm)
  have "?new w1 n sobj owner \<in> set (w_objects w4)" using keepsD [OF apply_private_frame sent(3)] by (simp add: same_but_grants_def)
  then have "after_signal w4 w'" by (rule send_uploaded_row(3) [OF sent(4)])
  with src sent(1-3) show ?thesis by (rule that [OF _ _ _ _ _ _ refl])
qed

lemma copy_step:
  assumes "filed env w" "bucket_company (w_buckets w) (b_id d) (b_company_id d)" "overwrites env" "opens_stored env"
    "w_next_uuid w < 2 ^ 128" "copy_object env b src d dst u req w = (Inr obj, w')"
  shows "filed env w' \<and> w_buckets w' = w_buckets w \<and> w_next_uuid w \<le> w_next_uuid w' \<and>
     (\<exists>m n. safe_object_path src = Inr m \<and> safe_object_path dst = Inr n \<and>
        dir w' = (dir w)((b_id d, n) := dir w (b_id b, m)))"
proof -
  have known: "known d w" using assms(1,2) by (simp add: known_def filed_def)
  then have sound: "sound w'" using maintainsD [OF copy_object_known _ assms(6)] by (simp add: known_def)
  obtain m n sobj w1 data k' bl owner new gs w4 where src: "safe_object_path src = Inr m" "safe_object_path dst = Inr n"
    "find_object w b m = Some sobj" "check_quota env (b_company_id d) u (o_size sobj) 0 w = (Inr (), w1)"
    "storage_open env (o_storage_key sobj) (w_blobs w1) = Inr data"
    and run: "storage_save env (o_storage_key new) data (w_blobs w1) = (Inr k', bl)"
    "new = new_object (w_next_uuid w1) d n owner (o_size sobj) (o_etag sobj) (o_mime_type sobj)
         (o_metadata sobj) (build_storage_key env (b_company_id d) (b_name d) n (w_next_uuid w1)) (w_clock w1)"
    "\<not> object_exists new (w1\<lparr>w_blobs := bl\<rparr>)"
    "apply_default_private_on_create new owner False (charge env (b_company_id d) owner (o_size sobj)
        (w1\<lparr>w_next_uuid := Suc (w_next_uuid w1), w_blobs := bl, w_objects := w_objects w1 @ [new]\<rparr>)) = (Inr gs, w4)"
    "after_signal w4 w'"
    using assms(6) by (rule copy_object_run)
  have w1: "filed env w1" "w_buckets w1 = w_buckets w" "w_next_uuid w1 = w_next_uuid w" "w_blobs w1 = w_blobs w" "dir w1 = dir w"
    using quota_step_frame [OF check_quota_step [OF src(4)]] quota_step_known [OF check_quota_step [OF src(4)] known] assms(1)
    by (auto simp: same_but_quotas_def known_def filed_def intro!: dir_same)
  have "(\<forall>x \<in> set (w_objects w'). row_filed env (w_next_uuid w') x) \<and> w_buckets w' = w_buckets w1 \<and>
     w_next_uuid w1 \<le> w_next_uuid w' \<and> dir w' = (dir w1)((b_id d, n) \<mapsto> data)"
    using assms(5) by (intro stored_row [OF w1(1) assms(3) _ run]) (simp_all add: w1(3))
  moreover have "dir w (b_id b, m) = Some data"
    using src(3,5) assms(4) by (simp add: dir_find opens_stored_def w1(4))
  ultimately show ?thesis using w1 sound src(1,2) by (simp add: filed_def)
qed

section \<open>Moving and removing rows\<close>

lemma moved_row:
  assumes "schema_ok w" "schema_ok w'" "obj \<in> set (w_objects w)" "set (w_objects w') = insert obj' (set (w_objects w) - {obj})"
    "o_storage_key obj' = o_storage_key obj" "w_blobs w' = w_blobs w" "object_key obj' \<notin> object_key ` set (w_objects w)"
  shows "dir w' = (dir w)(object_key obj := None, object_key obj' := dir w (object_key obj))"
proof (rule dir_eqI)
  fix k d
  have keys: "distinct (map object_key (w_objects w))" using assms(1) by (simp add: schema_ok_def)
  have same: "x = obj" if "x \<in> set (w_objects w)" "object_key x = object_key obj" for x
    using distinct_key_unique [OF keys that(1) assms(3)] that(2) by simp
  have new: "dir w' k = Some d \<longleftrightarrow> (\<exists>x \<in> insert obj' (set (w_objects w) - {obj}). object_key x = k \<and> w_blobs w (o_storage_key x) = Some d)"
    using dir_Some [OF assms(2)] by (simp add: assms(4,6))
  have free: "object_key x \<noteq> object_key obj'" if "x \<in> set (w_objects w)" for x using assms(7) that by (metis imageI)
  have own: "dir w (object_key obj) = Some d \<longleftrightarrow> w_blobs w (o_storage_key obj) = Some d"
    unfolding dir_Some [OF assms(1)] using same assms(3) by blast
  consider "k = object_key obj'" | "k \<noteq> object_key obj'" "k = object_key obj" | "k \<noteq> object_key obj'" "k \<noteq> object_key obj" by blast
  then show "dir w' k = Some d \<longleftrightarrow> ((dir w)(object_key obj := None, object_key obj' := dir w (object_key obj))) k = Some d"
  proof cases
    case 1
    have "(\<exists>x \<in> insert obj' (set (w_objects w) - {obj}). object_key x = k \<and> w_blobs w (o_storage_key x) = Some d)
        \<longleftrightarrow> w_blobs w (o_storage_key obj) = Some d"
      using assms(5) free by (auto simp: 1)
    then show ?thesis using own by (simp add: new) (simp add: 1)
  next
    case 2
    then have "dir w' k \<noteq> Some d" using new same by (metis Diff_iff insertE singletonI)
    then show ?thesis using 2 by simp
  next
    case 3
    then show ?thesis using dir_Some [OF assms(1), of k d] by (auto simp: new)
  qed
qed

lemma removed_rows:
  assumes "filed env w" "schema_ok w'" "w_next_uuid w \<le> 2 ^ 128" "w_objects w' = filter (\<lambda>x. \<not> sel x) (w_objects w)"
    "w_blobs w' = w_blobs w |` (- o_storage_key ` set (filter sel (w_objects w)))"
    "\<And>x. x \<in> set (w_objects w) \<Longrightarrow> sel x \<longleftrightarrow> gone (object_key x)"
  shows "dir w' = without gone (dir w)"
proof (rule dir_eqI)
  fix k d
  have kept: "w_blobs w' (o_storage_key x) = w_blobs w (o_storage_key x)" if "x \<in> set (w_objects w)" "\<not> sel x" for x
    using keys_apart [OF assms(1,3) that(1)] that(2) by (auto simp: assms(5) restrict_map_def)
  have "dir w' k = Some d \<longleftrightarrow> (\<exists>x \<in> set (w_objects w). \<not> sel x \<and> object_key x = k \<and> w_blobs w (o_storage_key x) = Some d)"
    using dir_Some [OF assms(2)] kept by (auto simp: assms(4))
  also have "\<dots> \<longleftrightarrow> (without gone (dir w)) k = Some d"
    using dir_Some [OF filedD(2) [OF assms(1)], of k d] assms(6) by (auto simp: without_def)
  finally show "dir w' k = Some d \<longleftrightarrow> (without gone (dir w)) k = Some d" .
qed

lemma rows_filed_subset:
  "filed env w \<Longrightarrow> set (w_objects w') \<subseteq> set (w_objects w) \<Longrightarrow> w_next_uuid w \<le> w_next_uuid w' \<Longrightarrow> sound w' \<Longrightarrow> filed env w'"
  by (auto simp: filed_def intro: row_filed_mono)

lemma delete_all_supply: "delete_all env objs req w = (Inr (), w') \<Longrightarrow> w_next_uuid w' = w_next_uuid w"
proof (induction objs arbitrary: w)
  case Nil
  then show ?case by (simp add: delete_all_def ret_def)
next
  case (Cons obj objs)
  show ?case
  proof (cases rule: delete_object_cases [of env obj req w])
    case (Failed e bl)
    then show ?thesis using Cons.prems by (simp add: delete_all_def seqE_def bindE_def)
  next
    case (Done bl ev)
    then show ?thesis using Cons.prems Cons.IH [of "(erase env obj w)\<lparr>w_blobs := bl, w_events := ev\<rparr>"]
      by (simp add: delete_all_def seqE_def bindE_def)
  qed
qed

text \<open>A removal of rows without repetition that goes through.\<close>

lemma delete_all_step:
  assumes "filed env w" "removes env" "w_next_uuid w \<le> 2 ^ 128" "delete_all env objs req w = (Inr (), w')"
    "distinct (map o_id objs)" "set objs = {x \<in> set (w_objects w). gone (object_key x)}"
  shows "filed env w' \<and> w_buckets w' = w_buckets w \<and> w_next_uuid w' = w_next_uuid w \<and> dir w' = without gone (dir w)"
proof -
  have sub: "set objs \<subseteq> set (w_objects w)" by (auto simp: assms(6))
  have post: "sound w'" "w_buckets w' = w_buckets w" "w_objects w' = filter (\<lambda>x. o_id x \<notin> o_id ` set objs) (w_objects w)"
    using wp_Inr [OF delete_all_rows [OF assms(5) sub filedD(1) [OF assms(1)]] assms(4)] by simp_all
  have ids: "o_id x \<in> o_id ` set objs \<longleftrightarrow> x \<in> set objs" if "x \<in> set (w_objects w)" for x
    using that sub distinct_key_unique [OF filedD(3) [OF assms(1)] that] by auto
  have rows: "w_objects w' = filter (\<lambda>x. \<not> x \<in> set objs) (w_objects w)"
    unfolding post(3) using ids by (intro filter_cong) auto
  have "w_blobs w' = w_blobs w |` (- o_storage_key ` set (filter (\<lambda>x. x \<in> set objs) (w_objects w)))"
    using delete_all_blobs [OF assms(2,4)] sub by (simp add: Int_absorb1 Collect_conj_eq)
  then have "dir w' = without gone (dir w)"
    using post(1) rows by (intro removed_rows [OF assms(1) _ assms(3), of w' "\<lambda>x. x \<in> set objs"]) (auto simp: assms(6) sound_def)
  then show ?thesis
    using rows_filed_subset [OF assms(1) _ _ post(1)] delete_all_supply [OF assms(4)] post(2) rows by auto
qed

lemma delete_folder_step:
  assumes "filed env w" "removes env" "w_next_uuid w \<le> 2 ^ 128" "delete_under_prefix env b path p req w = (Inr names, w')"
  shows "filed env w' \<and> w_buckets w' = w_buckets w \<and> w_next_uuid w' = w_next_uuid w \<and>
     dir w' = without (\<lambda>(i, x). i = b_id b \<and> (strip_slashes path = [] \<or> below (strip_slashes path) x)) (dir w)"
proof (rule delete_all_step [OF assms(1-3)])
  show "delete_all env (objects_under_prefix w b path) req w = (Inr (), w')"
    using assms(4) by (simp add: delete_under_prefix_Inr)
  show "distinct (map o_id (objects_under_prefix w b path))"
    using distinct_selection [OF filedD(2) [OF assms(1)]] by (simp add: objects_under_prefix_def)
  show "set (objects_under_prefix w b path) =
     {x \<in> set (w_objects w). case object_key x of (i, x) \<Rightarrow> i = b_id b \<and> (strip_slashes path = [] \<or> below (strip_slashes path) x)}"
    by (auto simp: objects_under_prefix_set object_key_def prefix_filter_def below_def Let_def)
qed

lemma delete_paths_Inr:
  "delete_paths env b paths p req w = (Inr names, w') \<Longrightarrow> delete_all env (selected_objects w b paths) req w = (Inr (), w')"
  by (auto simp: delete_paths_def run_Inr select_paths_run selected_found Let_def split: if_splits)

lemma delete_files_step:
  assumes "filed env w" "removes env" "w_next_uuid w \<le> 2 ^ 128" "delete_paths env b paths p req w = (Inr names, w')"
    "distinct (path_names paths)"
  shows "filed env w' \<and> w_buckets w' = w_buckets w \<and> w_next_uuid w' = w_next_uuid w \<and>
     dir w' = without (\<lambda>(i, x). i = b_id b \<and> x \<in> set (path_names paths)) (dir w)"
proof (rule delete_all_step [OF assms(1-3)])
  show "delete_all env (selected_objects w b paths) req w = (Inr (), w')" using assms(4) by (rule delete_paths_Inr)
  show "distinct (map o_id (selected_objects w b paths))"
    using selected_objects_rows(2) [OF filedD(2) [OF assms(1)] assms(5)] .
  have "find_object w b (o_name x) = Some x" if "x \<in> set (w_objects w)" "o_bucket x = b_id b" for x
    using find_object_self [OF filedD(2) [OF assms(1)] that] .
  moreover have "set (List.map_filter (find_object w b) ns) = {x. \<exists>n \<in> set ns. find_object w b n = Some x}" for ns
    by (induction ns) (auto simp: map_filter_simps2 split: option.splits)
  ultimately show "set (selected_objects w b paths) =
     {x \<in> set (w_objects w). case object_key x of (i, x) \<Rightarrow> i = b_id b \<and> x \<in> set (path_names paths)}"
    by (force simp: selected_objects_def object_key_def dest: find_objectD)
qed

lemma update_row_set:
  assumes "distinct (map o_id objs)" "obj \<in> set objs"
  shows "set (update_where (\<lambda>x. o_id x = o_id obj) f objs) = insert (f obj) (set objs - {obj})"
proof -
  have "o_id x = o_id obj \<longleftrightarrow> x = obj" if "x \<in> set objs" for x using distinct_key_unique [OF assms(1) that assms(2)] by blast
  then have "set (update_where (\<lambda>x. o_id x = o_id obj) f objs) = (\<lambda>x. if x = obj then f x else x) ` set objs"
    by (simp add: set_update_where cong: image_cong)
  then show ?thesis using assms(2) by auto
qed

definition moved_to :: "bucket \<Rightarrow> bucket \<Rightarrow> string \<Rightarrow> int \<Rightarrow> storage_object \<Rightarrow> storage_object" where
  "moved_to b d n now x = (if b_id b = b_id d then x else x\<lparr>o_bucket := b_id d\<rparr>)\<lparr>o_name := n, o_updated_at := now\<rparr>"

lemma move_object_run:
  assumes "move_object b src d dst w = (Inr moved, w')"
  obtains m n obj where "safe_object_path src = Inr m" "safe_object_path dst = Inr n" "find_object w b m = Some obj"
    "find_object w d n = None" "w_objects w' = update_where (\<lambda>x. o_id x = o_id obj) (moved_to b d n (w_clock w)) (w_objects w)"
    "w_blobs w' = w_blobs w" "w_buckets w' = w_buckets w" "w_next_uuid w' = w_next_uuid w"
proof -
  obtain m n where paths: "safe_object_path src = Inr m" "safe_object_path dst = Inr n"
    using assms by (auto simp: move_object_def run_Inr)
  obtain obj where found: "find_object w b m = Some obj"
    using assms paths by (cases "find_object w b m") (auto simp: move_object_def run_Inr)
  have w': "find_object w d n = None" "w_objects w' = update_where (\<lambda>x. o_id x = o_id obj) (moved_to b d n (w_clock w)) (w_objects w)"
    "w_blobs w' = w_blobs w" "w_buckets w' = w_buckets w" "w_next_uuid w' = w_next_uuid w"
  proof -
    let ?rows = "update_where (\<lambda>x. o_id x = o_id obj) (moved_to b d n (w_clock w)) (w_objects w)"
    have "find_object w d n = None \<and> (\<exists>gs. w' = w\<lparr>w_objects := ?rows, w_grants := gs\<rparr>)"
    proof (cases "b_id b = b_id d")
      case True
      then have "find_object w d n = None \<and> w' = w\<lparr>w_objects := ?rows\<rparr>"
        using assms by (simp add: move_object_def run_Inr Let_def paths found moved_to_def [abs_def])
      then show ?thesis by (auto intro!: exI [of _ "w_grants w"])
    next
      case False
      then show ?thesis using assms by (auto simp: move_object_def run_Inr Let_def paths found moved_to_def [abs_def])
    qed
    then show "find_object w d n = None" "w_objects w' = ?rows" "w_blobs w' = w_blobs w" "w_buckets w' = w_buckets w"
      "w_next_uuid w' = w_next_uuid w" by auto
  qed
  show ?thesis by (rule that [OF paths found w'])
qed

lemma move_step:
  assumes "filed env w" "bucket_company (w_buckets w) (b_id b) (b_company_id b)"
    "bucket_company (w_buckets w) (b_id d) (b_company_id d)" "move_object b src d dst w = (Inr moved, w')"
  shows "filed env w' \<and> w_buckets w' = w_buckets w \<and> w_next_uuid w' = w_next_uuid w \<and>
     (\<exists>m n. safe_object_path src = Inr m \<and> safe_object_path dst = Inr n \<and>
        dir w' = (dir w)((b_id b, m) := None, (b_id d, n) := dir w (b_id b, m)))"
proof -
  have sound: "sound w'"
    using wp_Inr [OF move_object_sound [OF filedD(1) [OF assms(1)] assms(2,3)] assms(4)] .
  let ?upd = "\<lambda>n. moved_to b d n (w_clock w)"
  obtain m n obj where paths: "safe_object_path src = Inr m" "safe_object_path dst = Inr n" and found: "find_object w b m = Some obj"
    and w': "find_object w d n = None" "w_objects w' = update_where (\<lambda>x. o_id x = o_id obj) (?upd n) (w_objects w)"
      "w_blobs w' = w_blobs w" "w_buckets w' = w_buckets w" "w_next_uuid w' = w_next_uuid w"
    using assms(4) by (rule move_object_run)
  have obj: "obj \<in> set (w_objects w)" "object_key obj = (b_id b, m)"
    using find_objectD [OF found] by (simp_all add: object_key_def)
  have new: "o_storage_key (?upd n obj) = o_storage_key obj" "object_key (?upd n obj) = (b_id d, n)" "o_id (?upd n obj) = o_id obj"
    using find_objectD [OF found] by (simp_all add: object_key_def moved_to_def)
  have rows: "set (w_objects w') = insert (?upd n obj) (set (w_objects w) - {obj})"
    unfolding w'(2) by (rule update_row_set [OF filedD(3) [OF assms(1)] obj(1)])
  have "(b_id d, n) \<notin> object_key ` set (w_objects w)"
    using w'(1) by (auto simp: find_object_def first_where_None object_key_def)
  then have "dir w' = (dir w)(object_key obj := None, object_key (?upd n obj) := dir w (object_key obj))"
    using sound new(2) by (intro moved_row [OF filedD(2) [OF assms(1)] _ obj(1) rows new(1) w'(3)]) (simp_all add: sound_def)
  moreover have "row_filed env (w_next_uuid w) (?upd n obj)"
    using filedD(5) [OF assms(1) obj(1)] new(1,3) by (simp add: row_filed_def)
  ultimately show ?thesis
    using sound paths w'(4,5) rows filedD(5) [OF assms(1)] obj(2) new(2) by (auto simp: filed_def)
qed

lemma rename_folder_Inr:
  assumes "rename_folder b source dest w = (Inr r, w')"
  obtains src dst where "safe_object_path source = Inr src" "safe_object_path dest = Inr dst" "src = dst" "w' = w"
  | src dst where "safe_object_path source = Inr src" "safe_object_path dest = Inr dst" "src \<noteq> dst" "\<not> prefix (src @ [slash]) dst"
    "\<exists>x \<in> set (w_objects w). under b src x" "\<forall>x \<in> set (w_objects w). \<not> under b dst x" "find_object w b dst = None"
proof -
  obtain src dst where paths: "safe_object_path source = Inr src" "safe_object_path dest = Inr dst"
    using assms by (auto simp: rename_folder_def run_Inr)
  then have can: "canonical src" "canonical dst" using safe_object_path_canonical by blast+
  show ?thesis
  proof (cases "src = dst")
    case True
    then show ?thesis using that(1) assms paths by (auto simp: rename_folder_def run_Inr Let_def)
  next
    case False
    then have "\<not> prefix (src @ [slash]) dst \<and> objects_under_prefix w b src \<noteq> [] \<and> objects_under_prefix w b dst = [] \<and>
        find_object w b dst = None"
      using assms
      by (simp add: rename_folder_def run_Inr Let_def paths canonical_strip [OF can(1)] canonical_strip [OF can(2)])
    moreover have "(\<forall>x \<in> set (w_objects w). \<not> under b n x) \<longleftrightarrow> objects_under_prefix w b n = []" if "canonical n" for n
      unfolding set_empty [of "objects_under_prefix w b n", symmetric] objects_under_canonical [OF that] by blast
    ultimately show ?thesis using that(2) [OF paths False] can by blast
  qed
qed

lemma renamed_rows:
  assumes "schema_ok w" "schema_ok w'" "w_objects w' = map (\<lambda>x. if under b m x then renamed m n t x else x) (w_objects w)"
    "w_blobs w' = w_blobs w" "\<forall>x \<in> set (w_objects w). \<not> under b n x"
  shows "dir w' = (\<lambda>(i, x). if i \<noteq> b_id b then dir w (i, x)
     else if below n x then dir w (i, m @ drop (length n) x) else if below m x then None else dir w (i, x))"
proof (rule dir_eqI)
  fix k :: "uuid \<times> string" and d
  obtain i y where k: "k = (i, y)" by fastforce
  let ?row = "\<lambda>P. \<exists>x \<in> set (w_objects w). P x \<and> w_blobs w (o_storage_key x) = Some d"
  have old: "dir w (i, z) = Some d \<longleftrightarrow> ?row (\<lambda>x. object_key x = (i, z))" for z by (rule dir_Some [OF assms(1)])
  have new: "dir w' (i, y) = Some d \<longleftrightarrow> ?row (\<lambda>x. if under b m x then i = b_id b \<and> y = n @ drop (length m) (o_name x) else object_key x = (i, y))"
  proof -
    let ?f = "\<lambda>x. if under b m x then renamed m n t x else x"
    have "object_key (?f x) = (i, y) \<longleftrightarrow> (if under b m x then i = b_id b \<and> y = n @ drop (length m) (o_name x) else object_key x = (i, y))"
      "o_storage_key (?f x) = o_storage_key x" for x
      by (auto simp: object_key_def under_def renamed_def)
    then show ?thesis unfolding dir_Some [OF assms(2)] assms(3,4) by (simp only: set_map bex_simps)
  qed
  have tail: "y = n @ drop (length m) (o_name x) \<longleftrightarrow> below n y \<and> o_name x = m @ drop (length n) y" if "under b m x" for x
    using that by (auto simp: under_def below_def prefix_def)
  have free: "\<not> (o_bucket x = b_id b \<and> below n (o_name x))" if "x \<in> set (w_objects w)" for x
    using assms(5) that by (simp add: under_def below_def)
  have rest: "dir w' (i, y) = Some d \<longleftrightarrow> ?row (\<lambda>x. object_key x = (i, y) \<and> \<not> under b m x)" if "\<not> (i = b_id b \<and> below n y)"
    unfolding new using that tail by (metis (no_types, lifting))
  consider "i \<noteq> b_id b" | "i = b_id b" "below n y" | "i = b_id b" "\<not> below n y" by blast
  then show "dir w' k = Some d \<longleftrightarrow> (\<lambda>(i, x). if i \<noteq> b_id b then dir w (i, x)
     else if below n x then dir w (i, m @ drop (length n) x) else if below m x then None else dir w (i, x)) k = Some d"
  proof cases
    case 1
    then have "?row (\<lambda>x. object_key x = (i, y) \<and> \<not> under b m x) \<longleftrightarrow> ?row (\<lambda>x. object_key x = (i, y))"
      by (auto simp: object_key_def under_def)
    then show ?thesis using 1 by (simp add: k rest old)
  next
    case 2
    then have "dir w' (i, y) = Some d \<longleftrightarrow> ?row (\<lambda>x. object_key x = (i, m @ drop (length n) y))"
      unfolding new using tail free by (auto simp: object_key_def) (auto simp: under_def below_def prefix_def)
    then show ?thesis using 2 old [of "m @ drop (length n) y"] by (simp add: k)
  next
    case 3
    show ?thesis
    proof (cases "below m y")
      case True
      then show ?thesis using 3 rest by (auto simp: k object_key_def under_def below_def)
    next
      case False
      then have "?row (\<lambda>x. object_key x = (i, y) \<and> \<not> under b m x) \<longleftrightarrow> ?row (\<lambda>x. object_key x = (i, y))"
        by (auto simp: object_key_def under_def below_def)
      then show ?thesis using 3 False rest old [of y] by (simp add: k)
    qed
  qed
qed

lemma rename_step:
  assumes "filed env w" "rename_folder b src dst w = (Inr r, w')"
  shows "filed env w' \<and> w_buckets w' = w_buckets w \<and> w_next_uuid w' = w_next_uuid w \<and>
     dir w' = effect (Rename_Folder b src dst) (dir w)"
  using assms(2)
proof (cases rule: rename_folder_Inr)
  case (1 m n)
  have "y = n @ drop (length n) y" if "below n y" for y using that by (auto simp: below_def prefix_def)
  then have "effect (Rename_Folder b src dst) (dir w) = dir w" using 1(1-3) by (auto simp: effect_def fun_eq_iff)
  then show ?thesis using 1 assms(1) by simp
next
  case (2 m n)
  have w': "w' = w\<lparr>w_objects := map (\<lambda>x. if under b m x then renamed m n (w_clock w) x else x) (w_objects w)\<rparr>"
    using rename_folder_rows [OF filedD(2) [OF assms(1)] 2] assms(2) by auto
  have sound: "sound w'" using maintainsD [OF rename_folder_sound filedD(1) [OF assms(1)] assms(2)] .
  have "row_filed env (w_next_uuid w) (renamed m n t x) = row_filed env (w_next_uuid w) x" for t x
    by (simp add: row_filed_def renamed_def)
  then have "filed env w'" using sound filedD(5) [OF assms(1)] by (auto simp: filed_def w')
  moreover have "dir w' = effect (Rename_Folder b src dst) (dir w)"
    using renamed_rows [OF filedD(2) [OF assms(1)] _ _ _ 2(6), of w' m "w_clock w"] sound 2(1,2)
    by (simp add: w' effect_def sound_def)
  ultimately show ?thesis by (simp add: w')
qed

section \<open>The refinement\<close>

definition store_laws :: "env \<Rightarrow> bool" where
  "store_laws env \<longleftrightarrow> overwrites env \<and> opens_stored env \<and> removes env"

lemma quietly_Inr: "quietly m w = (Inr u, w') \<longleftrightarrow> (\<exists>x. m w = (Inr x, w'))"
  by (auto simp: quietly_def run_Inr)

lemma perform_step:
  assumes "filed env w" "op_fits (w_buckets w) op" "store_laws env" "w_next_uuid w < 2 ^ 128" "perform env req op w = (Inr u, w')"
  shows "filed env w' \<and> w_buckets w' = w_buckets w \<and> w_next_uuid w \<le> w_next_uuid w' \<and> dir w' = effect op (dir w)"
proof (cases op)
  case (Upload_File b path data v ct ups md cc)
  then obtain obj where "upload_object env b path data v ct ups md cc req w = (Inr obj, w')"
    using assms(5) by (auto simp: perform_def quietly_Inr)
  then show ?thesis
    using upload_step [OF assms(1) _ _ assms(4)] assms(2,3) Upload_File
    by (fastforce simp: op_fits_def op_buckets_def store_laws_def effect_def)
next
  case (Copy_File b src d dst v)
  then obtain obj where "copy_object env b src d dst v req w = (Inr obj, w')"
    using assms(5) by (auto simp: perform_def quietly_Inr)
  then show ?thesis
    using copy_step [OF assms(1) _ _ _ assms(4)] assms(2,3) Copy_File
    by (fastforce simp: op_fits_def op_buckets_def store_laws_def effect_def)
next
  case (Move_File b src d dst)
  then obtain obj where run: "move_object b src d dst w = (Inr obj, w')"
    using assms(5) by (auto simp: perform_def quietly_Inr)
  have "bucket_company (w_buckets w) (b_id b) (b_company_id b)" "bucket_company (w_buckets w) (b_id d) (b_company_id d)"
    using assms(2) Move_File by (simp_all add: op_fits_def op_buckets_def)
  from move_step [OF assms(1) this run] show ?thesis using Move_File by (auto simp: effect_def)
next
  case (Rename_Folder b src dst)
  then obtain r where "rename_folder b src dst w = (Inr r, w')"
    using assms(5) by (auto simp: perform_def quietly_Inr)
  then show ?thesis using rename_step [OF assms(1)] Rename_Folder by auto
next
  case (Delete_Folder b path p)
  then obtain names where "delete_under_prefix env b path p req w = (Inr names, w')"
    using assms(5) by (auto simp: perform_def quietly_Inr)
  then show ?thesis
    using delete_folder_step [OF assms(1) _ less_imp_le [OF assms(4)]] assms(3) Delete_Folder
    by (simp add: store_laws_def effect_def)
next
  case (Delete_Files b paths p)
  then obtain names where "delete_paths env b paths p req w = (Inr names, w')"
    using assms(5) by (auto simp: perform_def quietly_Inr)
  then show ?thesis
    using delete_files_step [OF assms(1) _ less_imp_le [OF assms(4)]] assms(2,3) Delete_Files
    by (simp add: store_laws_def effect_def op_fits_def)
qed

text \<open>The supply of UUIDs only grows.\<close>

lemma private_supply:
  "apply_default_private_on_create t u f w = (Inr gs, w') \<Longrightarrow> w_next_uuid w \<le> w_next_uuid w'"
  using keepsD [OF apply_private_frame] by (fastforce simp: same_but_grants_def)

lemma rename_rows_supply:
  "mapE (rename_row b src dst) objs w = (Inr names, w') \<Longrightarrow> w_next_uuid w' = w_next_uuid w"
proof (induction objs arbitrary: names w)
  case Nil
  then show ?case by (simp add: run_Inr)
next
  case (Cons obj objs)
  then obtain v name rest where v: "rename_row b src dst obj w = (Inr name, v)" "mapE (rename_row b src dst) objs v = (Inr rest, w')"
    by (auto simp: run_Inr)
  then have "w_next_uuid v = w_next_uuid w" by (auto simp: rename_row_def run_Inr Let_def split: if_splits)
  then show ?case using Cons.IH [OF v(2)] by simp
qed

lemma perform_supply:
  assumes "perform env req op w = (Inr u, w')"
  shows "w_next_uuid w \<le> w_next_uuid w'"
proof (cases op)
  case (Upload_File b path data v ct ups md cc)
  then obtain obj where "upload_object env b path data v ct ups md cc req w = (Inr obj, w')"
    using assms by (auto simp: perform_def quietly_Inr)
  then show ?thesis
  proof (cases rule: upload_run)
    case (1 name data w1)
    then show ?thesis
      using quota_step_frame [OF 1(5)] by (auto elim!: create_object_run dest!: private_supply simp: same_but_quotas_def after_signal_def)
  next
    case (2 name data ex w1)
    then have "ex \<in> set (w_objects w1)" using find_objectD [OF 2(4)] quota_step_frame [OF 2(6)] by (simp add: same_but_quotas_def)
    with 2(7) show ?thesis
      using quota_step_frame [OF 2(6)] by (auto elim!: overwrite_object_run simp: same_but_quotas_def after_signal_def)
  qed
next
  case (Copy_File b src d dst v)
  then obtain obj where "copy_object env b src d dst v req w = (Inr obj, w')"
    using assms by (auto simp: perform_def quietly_Inr)
  then show ?thesis
    by (rule copy_object_run) (auto dest!: private_supply check_quota_step quota_step_frame simp: same_but_quotas_def after_signal_def)
next
  case (Move_File b src d dst)
  then show ?thesis using assms by (auto simp: perform_def quietly_Inr elim: move_object_run)
next
  case (Rename_Folder b src dst)
  then show ?thesis using assms
    by (auto simp: perform_def quietly_Inr rename_folder_def run_Inr Let_def dest: rename_rows_supply split: if_splits)
next
  case (Delete_Folder b path p)
  then show ?thesis using assms
    by (auto simp: perform_def quietly_Inr delete_under_prefix_Inr dest: delete_all_supply)
next
  case (Delete_Files b paths p)
  then show ?thesis using assms
    by (auto simp: perform_def quietly_Inr dest!: delete_paths_Inr delete_all_supply)
qed

lemma perform_run_supply: "forE ops (perform env req) w = (Inr u, w') \<Longrightarrow> w_next_uuid w \<le> w_next_uuid w'"
proof (induction ops arbitrary: w)
  case (Cons op ops)
  then obtain v where "perform env req op w = (Inr (), v)" "forE ops (perform env req) v = (Inr u, w')"
    by (auto simp: run_Inr)
  then show ?case using Cons.IH perform_supply by (metis order_trans)
qed (simp add: run_Inr)


text \<open>The private world with the keys its rows were created with, and a run on it.\<close>

definition with_key :: "storage_object \<Rightarrow> storage_object" where
  "with_key x = x\<lparr>o_storage_key := build_storage_key s3_env 7 ''company'' (o_name x) (o_id x)\<rparr>"

definition filed_world :: world where
  "filed_world = private_world\<lparr>w_objects := map with_key (w_objects private_world),
     w_blobs := [o_storage_key (with_key marker_row) \<mapsto> [], o_storage_key (with_key secret_file) \<mapsto> [1, 2, 3, 4, 5]]\<rparr>"

definition some_ops :: "file_op list" where
  "some_ops =
     [Rename_Folder company_bucket ''secret'' ''a/b'',
      Move_File company_bucket ''a/b/plan.txt'' company_bucket ''plan.txt'',
      Delete_Folder company_bucket ''a'' ann]"

lemma s3_env_store_laws: "store_laws s3_env"
  using s3_env_overwrites s3_env_removes by (auto simp: store_laws_def opens_stored_def s3_env_def split: option.splits)

lemma filed_world_ok: "filed s3_env filed_world"
proof -
  have "schema_ok filed_world" "tenant_ok filed_world"
    by (simp_all add: schema_ok_def tenant_ok_def local_defs bucket_company_def sample_defs object_key_def grant_shape_def
        filed_world_def with_key_def)
  moreover have "exact filed_world"
    by (simp add: exact_def company_used_def company_quota_row_def company_bytes_def sample_defs filed_world_def with_key_def)
  ultimately have "sound filed_world" by (simp add: sound_def)
  moreover have "row_filed s3_env 100 (with_key x)" if "o_id x < 100" for x using that by (auto simp: row_filed_def with_key_def)
  ultimately show ?thesis
    by (auto simp: filed_def filed_world_def private_world_def empty_world_def marker_row_def secret_file_def file_row_def row_filed_def with_key_def)
qed


end
