(* ===== verification/Log_Scrubbing.thy ===== *)
theory Log_Scrubbing
  imports Redaction
begin

text \<open>
  What may be written about a request outside the database. \<open>config/safe_access_log.py\<close> drops the atoms of a
  request that carry headers and the environment, \<open>config/access_log.py\<close> takes the token of a share link out of
  the rest, and \<open>config/sentry_scrub.py\<close> cleans an error report before it is sent. The regular expressions are
  written out as matchers for \<open>re_sub\<close>; the texts hold code points below 256. A request line that is not made
  of atoms (\<open>record.args\<close> as a tuple) and the formatting by \<open>logging\<close> are left out. The contracts are
  \<open>access_log_hides_secrets\<close> and \<open>sentry_event_clean\<close>.
\<close>

section \<open>Substitution\<close>

text \<open>
  \<open>re.sub\<close> for a pattern given as a matcher: from the character before a position and the text from it on, the
  length of the match that starts there and what replaces it. Positions are tried from left to right, and no match is
  empty.
\<close>

type_synonym matcher = "char option \<Rightarrow> string \<Rightarrow> (nat \<times> string) option"

function re_sub :: "matcher \<Rightarrow> char option \<Rightarrow> string \<Rightarrow> string" where
  "re_sub m p [] = []"
| "re_sub m p (c # s) =
     (case m p (c # s) of
        None \<Rightarrow> c # re_sub m (Some c) s
      | Some (n, r) \<Rightarrow> r @ re_sub m (Some (last (take n (c # s)))) (drop (n - 1) s))"
  by pat_completeness auto
termination
  by (relation "measure (\<lambda>(m, p, t). length t)") auto

section \<open>\<open>access_log.py\<close>\<close>

text \<open>The pattern of a link: the prefix in upper or lower case, then anything but white space, slash, quote, \<open>?\<close> and \<open>#\<close>.\<close>

definition SHARE_LINK :: string where "SHARE_LINK = ''/share/link/''"

definition token_char :: "char \<Rightarrow> bool" where
  "token_char c \<longleftrightarrow> \<not> is_space c \<and> c \<notin> {slash, double_quote, CHR ''?'', CHR ''#''}"

definition link_here :: "string \<Rightarrow> bool" where
  "link_here t \<longleftrightarrow> lower (take 12 t) = SHARE_LINK"

definition share_link_match :: matcher where
  "share_link_match p t =
     (let token = takeWhile token_char (drop 12 t) in
      if link_here t \<and> token \<noteq> [] then Some (12 + length token, take 12 t @ ''[filtered]'') else None)"

definition redact_access_text :: "string \<Rightarrow> string" where
  "redact_access_text = re_sub share_link_match None"

text \<open>\<open>RedactAccessLogFilter.filter\<close> on a record with a dictionary of atoms.\<close>

definition redact_atom :: "string \<Rightarrow> json \<Rightarrow> json" where
  "redact_atom k v =
     (if k = ''q'' then JStr []
      else if k = ''f'' then JStr ''-''
      else case v of JStr s \<Rightarrow> if k \<in> {''U'', ''r''} then JStr (redact_access_text s) else v | _ \<Rightarrow> v)"

definition redact_record :: "string \<times> dict \<Rightarrow> string \<times> dict" where
  "redact_record record = (redact_access_text (fst record), map (\<lambda>(k, v). (k, redact_atom k v)) (snd record))"

section \<open>\<open>safe_access_log.py\<close>\<close>

definition SENSITIVE_RESPONSE_HEADERS :: "string list" where
  "SENSITIVE_RESPONSE_HEADERS = [''set-cookie'', ''authorization'', ''cookie'']"

text \<open>The name an atom is kept under, if it is kept.\<close>

definition kept_atom :: "string \<Rightarrow> string option" where
  "kept_atom k =
     (if prefix ''{'' k
      then let lowered = lower k in
        if \<not> suffix ''}o'' lowered then None
        else if \<exists>word \<in> set SENSITIVE_RESPONSE_HEADERS. search (prefix word) lowered then None
        else Some lowered
      else Some k)"

definition escape_quotes :: "json \<Rightarrow> json" where
  "escape_quotes v = (case v of JStr s \<Rightarrow> JStr (concat (map (\<lambda>c. if c = double_quote then [backslash_char, c] else [c]) s)) | _ \<Rightarrow> v)"

fun safe_atoms :: "dict \<Rightarrow> dict \<Rightarrow> dict" where
  "safe_atoms [] kept = kept"
| "safe_atoms ((k, v) # atoms) kept =
     safe_atoms atoms (case kept_atom k of None \<Rightarrow> kept | Some key \<Rightarrow> dict_set key (escape_quotes v) kept)"

text \<open>\<open>SafeAtoms.__getitem__\<close>: a missing atom is a dash.\<close>

definition atom :: "dict \<Rightarrow> string \<Rightarrow> json" where
  "atom kept k =
     (case map_of kept (if prefix ''{'' k then lower k else k) of None \<Rightarrow> JStr ''-'' | Some v \<Rightarrow> v)"

text \<open>
  What is formatted for a request: the format, and the value of each atom in it. The atoms are gunicorn's: its plain atoms, of
  which \<open>a\<close> and \<open>f\<close> repeat a request header and \<open>u\<close> the user name of Basic credentials, then
  \<open>{name}i\<close>, \<open>{name}o\<close> and \<open>{name}e\<close> for every request header, response header and variable of the environment.
\<close>

definition access_record :: "string \<Rightarrow> dict \<Rightarrow> string \<times> (string \<Rightarrow> json)" where
  "access_record fmt atoms =
     (let (msg, kept) = redact_record (fmt, safe_atoms atoms []) in (msg, atom kept))"

text \<open>
  The line itself: \<open>%\<close> formatting with a mapping, of which the formats of access logs use \<open>%(name)s\<close>, the atom as text.
  \<open>ACCESS_LOG_FORMAT\<close> is the format of the container (\<open>tools/docker-entrypoint.sh\<close>).
\<close>

function format_line :: "(string \<Rightarrow> string) \<Rightarrow> string \<Rightarrow> string" where
  "format_line look [] = []"
| "format_line look (c # s) =
     (if c = CHR ''%'' \<and> prefix ''('' s
      then let name = takeWhile (\<lambda>x. x \<noteq> CHR '')'') (drop 1 s) in look name @ format_line look (drop (length name + 3) s)
      else c # format_line look s)"
  by pat_completeness auto
termination by (relation "measure (\<lambda>(look, s). length s)") auto

definition access_line :: "string \<Rightarrow> dict \<Rightarrow> string" where
  "access_line fmt atoms = (let (msg, look) = access_record fmt atoms in format_line (\<lambda>k. py_str (look k)) msg)"

definition ACCESS_LOG_FORMAT :: string where
  "ACCESS_LOG_FORMAT = ''%(h)s %(l)s %(u)s %(t)s '' @ [double_quote] @ ''%(m)s %(U)s %(H)s'' @ [double_quote] @
     '' %(s)s %(b)s '' @ [double_quote] @ ''-'' @ [double_quote] @ '' '' @ [double_quote] @ ''%(a)s'' @ [double_quote] @
     '' %(M)sms req=%({x-request-id}o)s''"

section \<open>\<open>sentry_scrub.py\<close>\<close>

definition DROP_HEADERS :: "string list" where
  "DROP_HEADERS = [''authorization'', ''cookie'', ''set-cookie'', ''referer'', ''x-api-key'', ''proxy-authorization'']"

text \<open>The word characters among the first 256 code points.\<close>

definition word_char :: "char \<Rightarrow> bool" where
  "word_char c = (let n = code_point c in
     48 \<le> n \<and> n \<le> 57 \<or> 65 \<le> n \<and> n \<le> 90 \<or> n = 95 \<or> 97 \<le> n \<and> n \<le> 122 \<or>
     n \<in> {170, 178, 179, 181, 185, 186, 188, 189, 190} \<or> 192 \<le> n \<and> n \<noteq> 215 \<and> n \<noteq> 247)"

definition ascii_letter :: "char \<Rightarrow> bool" where
  "ascii_letter c = (let n = code_point c in 65 \<le> n \<and> n \<le> 90 \<or> 97 \<le> n \<and> n \<le> 122)"

definition ascii_alnum :: "char \<Rightarrow> bool" where
  "ascii_alnum c = (ascii_letter c \<or> 48 \<le> code_point c \<and> code_point c \<le> 57)"

text \<open>A word boundary in front of a letter.\<close>

definition word_start :: "char option \<Rightarrow> bool" where
  "word_start p = (case p of None \<Rightarrow> True | Some c \<Rightarrow> \<not> word_char c)"

text \<open>\<open>_URL_QUERY_RE\<close>: a scheme, the rest of a URL up to \<open>?\<close> or \<open>#\<close>, which is kept, and what follows, which is not.\<close>

definition url_stop :: "char \<Rightarrow> bool" where
  "url_stop c \<longleftrightarrow> is_space c \<or> c \<in> {single_quote, double_quote, CHR ''<'', CHR ''>''}"

definition url_query_match :: matcher where
  "url_query_match p t =
     (let scheme = takeWhile (\<lambda>c. ascii_alnum c \<or> c \<in> {CHR ''+'', CHR ''.'', CHR ''-''}) t;
          rest = drop (length scheme) t;
          body = takeWhile (\<lambda>c. \<not> url_stop c \<and> c \<notin> {CHR ''?'', CHR ''#''}) (drop 3 rest);
          query = drop (3 + length body) rest;
          tail = takeWhile (\<lambda>c. \<not> url_stop c) (drop 1 query) in
      if word_start p \<and> scheme \<noteq> [] \<and> ascii_letter (hd scheme) \<and> prefix ''://'' rest \<and>
         (prefix ''?'' query \<or> prefix ''#'' query)
      then Some (length scheme + 3 + length body + 1 + length tail, scheme @ ''://'' @ body) else None)"

text \<open>\<open>_BEARER_RE\<close>: the scheme word, white space and at least eight characters of a credential.\<close>

definition bearer_match :: matcher where
  "bearer_match p t =
     (let n = (if lower (take 6 t) = ''bearer'' then 6 else if lower (take 5 t) = ''basic'' then 5 else 0);
          spaces = takeWhile is_space (drop n t);
          token = takeWhile (\<lambda>c. ascii_alnum c \<or> c \<in> {CHR ''.'', CHR ''_'', CHR ''~'', CHR ''+'', slash, CHR ''='', CHR ''-''})
            (drop (n + length spaces) t) in
      if word_start p \<and> n \<noteq> 0 \<and> spaces \<noteq> [] \<and> 8 \<le> length token
      then Some (n + length spaces + length token, take n t @ '' [Filtered]'') else None)"

definition scrub_text :: "string \<Rightarrow> string" where
  "scrub_text v = re_sub bearer_match None (re_sub share_link_match None (re_sub url_query_match None v))"

definition dropped_header :: "string \<Rightarrow> bool" where
  "dropped_header name \<longleftrightarrow> lower name \<in> set DROP_HEADERS"

definition kept_pair :: "json \<Rightarrow> bool" where
  "kept_pair pair = (case pair of JList (k # _) \<Rightarrow> \<not> dropped_header (py_str k) | _ \<Rightarrow> True)"

definition scrub_headers :: "json \<Rightarrow> json" where
  "scrub_headers headers =
     (case headers of
        JObj hs \<Rightarrow> JObj (filter (\<lambda>(k, v). \<not> dropped_header k) hs)
      | JList pairs \<Rightarrow> JList (filter kept_pair pairs)
      | _ \<Rightarrow> headers)"

text \<open>Assigning to a key that is there.\<close>

definition dict_map :: "string \<Rightarrow> (json \<Rightarrow> json) \<Rightarrow> dict \<Rightarrow> dict" where
  "dict_map k f d = map (\<lambda>(x, v). if x = k then (x, f v) else (x, v)) d"

definition scrub_string :: "json \<Rightarrow> json" where
  "scrub_string v = (case v of JStr s \<Rightarrow> JStr (scrub_text s) | _ \<Rightarrow> v)"

definition scrub_url :: "json \<Rightarrow> json" where
  "scrub_url v =
     (case v of JStr s \<Rightarrow> JStr (scrub_text (takeWhile (\<lambda>c. c \<noteq> CHR ''?'') (takeWhile (\<lambda>c. c \<noteq> CHR ''#'') s))) | _ \<Rightarrow> v)"

definition scrub_request :: "json \<Rightarrow> json" where
  "scrub_request v =
     (case v of
        JObj request \<Rightarrow> JObj (dict_map ''headers'' scrub_headers (dict_pop ''data'' (dict_pop ''cookies'' (dict_pop ''query_string''
          (dict_map ''url'' scrub_url request)))))
      | _ \<Rightarrow> v)"

definition scrub_frame :: "json \<Rightarrow> json" where
  "scrub_frame v = (case v of JObj frame \<Rightarrow> JObj (dict_pop ''vars'' frame) | _ \<Rightarrow> v)"

definition scrub_stack :: "json \<Rightarrow> json" where
  "scrub_stack v =
     (case v of
        JObj stack \<Rightarrow> JObj (dict_map ''frames'' (\<lambda>frames. case frames of JList fs \<Rightarrow> JList (map scrub_frame fs) | _ \<Rightarrow> frames) stack)
      | _ \<Rightarrow> v)"

definition scrub_item :: "json \<Rightarrow> json" where
  "scrub_item v =
     (case v of JObj item \<Rightarrow> JObj (dict_map ''stacktrace'' scrub_stack (dict_map ''value'' scrub_string item)) | _ \<Rightarrow> v)"

definition scrub_exception :: "json \<Rightarrow> json" where
  "scrub_exception v =
     (case v of
        JObj container \<Rightarrow> JObj (dict_map ''values'' (\<lambda>items. case items of JList xs \<Rightarrow> JList (map scrub_item xs) | _ \<Rightarrow> items) container)
      | _ \<Rightarrow> v)"

definition scrub_sentry_event :: "dict \<Rightarrow> dict" where
  "scrub_sentry_event event =
     dict_map ''threads'' scrub_exception (dict_map ''exception'' scrub_exception
       (dict_map ''message'' scrub_string (dict_map ''request'' scrub_request event)))"


section \<open>Links in a text\<close>

lemma re_sub_skip:
  "(\<And>k q. k < length pre \<Longrightarrow> m q (drop k pre @ t) = None) \<Longrightarrow>
     re_sub m p (pre @ t) = pre @ re_sub m (if pre = [] then p else Some (last pre)) t"
proof (induction pre arbitrary: p)
  case (Cons c pre)
  have "m q (drop k pre @ t) = None" if "k < length pre" for k q using Cons.prems [of "Suc k" q] that by simp
  then have "re_sub m (Some c) (pre @ t) = pre @ re_sub m (if pre = [] then Some c else Some (last pre)) t"
    by (rule Cons.IH)
  then show ?case using Cons.prems [of 0 p] by simp
qed simp

lemma share_link_previous: "share_link_match p t = share_link_match q t"
  by (simp add: share_link_match_def)

lemma redact_previous: "re_sub share_link_match p t = redact_access_text t"
proof (cases t)
  case (Cons c s)
  then show ?thesis using share_link_previous [of p t None] by (simp add: redact_access_text_def split: option.splits prod.splits)
qed (simp add: redact_access_text_def)

text \<open>No other link starts before this one and runs into it.\<close>

definition unshadowed :: "string \<Rightarrow> string \<Rightarrow> bool" where
  "unshadowed pre link \<longleftrightarrow> (\<forall>k < length pre. \<not> link_here (drop k (pre @ link)))"

lemma no_link_match: "\<not> link_here t \<Longrightarrow> share_link_match q t = None"
  by (simp add: share_link_match_def)

lemma redact_link:
  assumes "link_here link" "length link = 12" "unshadowed pre link" "tok \<noteq> []" "\<forall>c \<in> set tok. token_char c"
  shows "redact_access_text (pre @ link @ tok @ aft) =
     pre @ link @ ''[filtered]'' @ redact_access_text (dropWhile token_char aft)"
proof -
  have "share_link_match q (drop k pre @ link @ tok @ aft) = None" if "k < length pre" for k q
  proof -
    have "take 12 (drop k pre @ link @ tok @ aft) = take 12 (drop k (pre @ link))" using that assms(2) by simp
    then have "link_here (drop k pre @ link @ tok @ aft) \<longleftrightarrow> link_here (drop k (pre @ link))" by (simp only: link_here_def)
    moreover have "\<not> link_here (drop k (pre @ link))" using assms(3) that unfolding unshadowed_def by blast
    ultimately show ?thesis by (intro no_link_match) (simp only: not_False_eq_True)
  qed
  then have "redact_access_text (pre @ link @ tok @ aft) = pre @ redact_access_text (link @ tok @ aft)"
    using re_sub_skip [of pre share_link_match "link @ tok @ aft" None] by (simp add: redact_previous)
  moreover have "redact_access_text (link @ tok @ aft) = link @ ''[filtered]'' @ redact_access_text (dropWhile token_char aft)"
  proof -
    let ?t = "link @ tok @ aft" and ?run = "tok @ takeWhile token_char aft"
    have run: "takeWhile token_char (drop 12 ?t) = ?run" using assms(2,5) by (simp add: takeWhile_append2)
    have "link_here ?t" using assms(1,2) by (simp add: link_here_def)
    then have match: "share_link_match q ?t = Some (12 + length ?run, link @ ''[filtered]'')" for q
      using run assms(2,4) by (simp add: share_link_match_def)
    obtain c s where cs: "?t = c # s" using assms(2) by (cases link) auto
    have "drop (12 + length ?run) ?t = dropWhile token_char aft"
      using assms(2) by (simp add: dropWhile_eq_drop)
    then have "drop (12 + length ?run - 1) s = dropWhile token_char aft" using cs by (simp add: drop_Cons')
    then have "re_sub share_link_match None (c # s) = link @ ''[filtered]'' @ redact_access_text (dropWhile token_char aft)"
      using match [of None] unfolding cs by (simp add: redact_previous)
    then show ?thesis by (metis cs redact_previous)
  qed
  ultimately show ?thesis by simp
qed

section \<open>What a line of the access log depends on\<close>

text \<open>
  The atoms that must not be told apart: request headers and environment, response headers that carry credentials, the query
  string and the referrer, and the token of a share link in the path.
\<close>

definition secret_atom :: "string \<Rightarrow> bool" where
  "secret_atom k \<longleftrightarrow> prefix ''{'' k \<and>
     (\<not> suffix ''}o'' (lower k) \<or> search (prefix ''cookie'') (lower k) \<or> search (prefix ''authorization'') (lower k))"

definition differ_in_secrets :: "string \<Rightarrow> json \<Rightarrow> json \<Rightarrow> bool" where
  "differ_in_secrets k v v' \<longleftrightarrow> v = v' \<or> secret_atom k \<or> k \<in> {''q'', ''f''} \<or>
     k \<in> {''U'', ''r''} \<and> (\<exists>pre link tok tok' aft. v = JStr (pre @ link @ tok @ aft) \<and> v' = JStr (pre @ link @ tok' @ aft) \<and>
       double_quote \<notin> set pre \<and> link_here link \<and> length link = 12 \<and> unshadowed pre link \<and>
       tok \<noteq> [] \<and> tok' \<noteq> [] \<and> (\<forall>c \<in> set tok \<union> set tok'. token_char c))"

definition escaped :: "string \<Rightarrow> string" where
  "escaped s = concat (map (\<lambda>c. if c = double_quote then [backslash_char, c] else [c]) s)"

lemma escape_quotes_text: "escape_quotes (JStr s) = JStr (escaped s)"
  by (simp add: escape_quotes_def escaped_def)

lemma escaped_append [simp]: "escaped (s @ t) = escaped s @ escaped t"
  by (simp add: escaped_def)

lemma escaped_id: "double_quote \<notin> set s \<Longrightarrow> escaped s = s"
  by (induction s) (auto simp: escaped_def)

lemma link_no_quote:
  assumes "link_here link" "length link = 12"
  shows "double_quote \<notin> set link"
proof
  assume "double_quote \<in> set link"
  then have "lower_char double_quote \<in> set (lower link)" by (simp add: lower_def)
  then have "lower_char double_quote \<in> set SHARE_LINK" using assms by (simp add: link_here_def)
  then show False by code_simp
qed

lemma secret_atom_dropped: "secret_atom k \<Longrightarrow> kept_atom k = None"
  by (auto simp: secret_atom_def kept_atom_def SENSITIVE_RESPONSE_HEADERS_def Let_def)

lemma kept_atom_other: "k \<in> {''q'', ''f'', ''U'', ''r''} \<Longrightarrow> kept_atom k = Some k"
  by (auto simp: kept_atom_def)

lemma kept_atom_header: "prefix ''{'' k \<Longrightarrow> k \<notin> {''q'', ''f'', ''U'', ''r''}"
  by auto

lemma secrets_redacted:
  assumes "differ_in_secrets k v v'" "kept_atom k = Some key"
  shows "redact_atom key (escape_quotes v) = redact_atom key (escape_quotes v')"
proof (cases "v = v'")
  case False
  then have k: "k \<in> {''q'', ''f'', ''U'', ''r''}" using assms secret_atom_dropped by (auto simp: differ_in_secrets_def)
  then have key: "key = k" using assms(2) kept_atom_other by fastforce
  show ?thesis
  proof (cases "k \<in> {''q'', ''f''}")
    case True
    then show ?thesis by (auto simp: key redact_atom_def)
  next
    case f: False
    have "\<exists>pre link tok tok' aft. v = JStr (pre @ link @ tok @ aft) \<and> v' = JStr (pre @ link @ tok' @ aft) \<and>
       double_quote \<notin> set pre \<and> link_here link \<and> length link = 12 \<and> unshadowed pre link \<and>
       tok \<noteq> [] \<and> tok' \<noteq> [] \<and> (\<forall>c \<in> set tok \<union> set tok'. token_char c)"
      using assms False f secret_atom_dropped unfolding differ_in_secrets_def by (metis option.distinct(1))
    then obtain pre link tok tok' aft where v: "v = JStr (pre @ link @ tok @ aft)" "v' = JStr (pre @ link @ tok' @ aft)"
      "double_quote \<notin> set pre" "link_here link" "length link = 12" "unshadowed pre link" "tok \<noteq> []" "tok' \<noteq> []"
      "\<forall>c \<in> set tok \<union> set tok'. token_char c"
      by blast
    have "double_quote \<notin> set tok" "double_quote \<notin> set tok'" using v(9) by (auto simp: token_char_def)
    then have "escaped (pre @ link @ x @ aft) = pre @ link @ x @ escaped aft" if "x \<in> {tok, tok'}" for x
      using that v(3) link_no_quote [OF v(4,5)] by (auto simp: escaped_id)
    then have "redact_access_text (escaped (pre @ link @ tok @ aft)) = redact_access_text (escaped (pre @ link @ tok' @ aft))"
      using redact_link [OF v(4-7)] redact_link [OF v(4-6,8)] v(9) by (simp del: escaped_append)
    then show ?thesis using f k by (auto simp: key redact_atom_def v(1,2) escape_quotes_text)
  qed
qed simp

text \<open>The two dictionaries of kept atoms, as far as the names that \<open>P\<close> picks go.\<close>

definition same_once_redacted :: "(string \<Rightarrow> bool) \<Rightarrow> dict \<Rightarrow> dict \<Rightarrow> bool" where
  "same_once_redacted P = list_all2 (\<lambda>(k, v) (k', v'). k' = k \<and> (P k \<longrightarrow> redact_atom k v = redact_atom k v'))"

lemma redacted_keys: "same_once_redacted P d d' \<Longrightarrow> fst ` set d' = fst ` set d"
  unfolding same_once_redacted_def by (induction rule: list_all2_induct) auto

lemma redacted_set:
  assumes "same_once_redacted P d d'" "P k \<Longrightarrow> redact_atom k v = redact_atom k v'"
  shows "same_once_redacted P (dict_set k v d) (dict_set k v' d')"
proof -
  have "same_once_redacted P (map (\<lambda>(x, y). if x = k then (x, v) else (x, y)) d) (map (\<lambda>(x, y). if x = k then (x, v') else (x, y)) d')"
    using assms unfolding same_once_redacted_def by (induction rule: list_all2_induct) (auto split: if_splits)
  then show ?thesis
    using assms redacted_keys [OF assms(1)] by (auto simp: dict_set_def same_once_redacted_def list_all2_appendI)
qed

lemma redacted_same: "same_once_redacted (\<lambda>_. True) d d' \<Longrightarrow> redact_record (fmt, d) = redact_record (fmt, d')"
  unfolding same_once_redacted_def by (induction rule: list_all2_induct) (auto simp: redact_record_def)

lemma redacted_lookup:
  assumes "same_once_redacted P d d'" "P (if prefix ''{'' k then lower k else k)"
  shows "atom (snd (redact_record (fmt, d))) k = atom (snd (redact_record (fmt, d'))) k"
proof -
  have "map_of (snd (redact_record (fmt, d))) k' = map_of (snd (redact_record (fmt, d'))) k'" if "P k'" for k'
    using assms(1) that unfolding same_once_redacted_def by (induction rule: list_all2_induct) (auto simp: redact_record_def)
  then show ?thesis using assms(2) by (simp only: atom_def)
qed

text \<open>Two lists of atoms that tell apart, of the atoms that \<open>P\<close> picks, only what is secret.\<close>

definition same_but_secrets :: "(string \<Rightarrow> bool) \<Rightarrow> dict \<Rightarrow> dict \<Rightarrow> bool" where
  "same_but_secrets P = list_all2 (\<lambda>(k, v) (k', v'). k' = k \<and> (P k \<longrightarrow> differ_in_secrets k v v'))"

lemma kept_redacted:
  assumes "same_but_secrets P atoms atoms'" "\<And>k key. kept_atom k = Some key \<Longrightarrow> Q key \<Longrightarrow> P k"
  shows "same_once_redacted Q (safe_atoms atoms []) (safe_atoms atoms' [])"
proof -
  have "same_once_redacted Q (safe_atoms atoms d) (safe_atoms atoms' d')" if "same_once_redacted Q d d'" for d d'
    using assms(1) that unfolding same_but_secrets_def
  proof (induction arbitrary: d d' rule: list_all2_induct)
    case (Cons x atoms y atoms')
    obtain k v v' where kv: "x = (k, v)" "y = (k, v')" "P k \<longrightarrow> differ_in_secrets k v v'" using Cons.hyps(1) by (cases x; cases y) auto
    show ?case
    proof (cases "kept_atom k")
      case None
      then show ?thesis using Cons.IH [OF Cons.prems] by (simp add: kv(1,2))
    next
      case (Some key)
      have "Q key \<Longrightarrow> redact_atom key (escape_quotes v) = redact_atom key (escape_quotes v')"
        using secrets_redacted [OF _ Some] assms(2) [OF Some] kv(3) by blast
      then show ?thesis using Cons.IH [OF redacted_set [OF Cons.prems]] Some by (simp add: kv(1,2))
    qed
  qed simp
  then show ?thesis by (simp add: same_once_redacted_def)
qed

text \<open>The names in a format, which is all of the mapping that a line depends on.\<close>

function format_names :: "string \<Rightarrow> string list" where
  "format_names [] = []"
| "format_names (c # s) =
     (if c = CHR ''%'' \<and> prefix ''('' s
      then let name = takeWhile (\<lambda>x. x \<noteq> CHR '')'') (drop 1 s) in name # format_names (drop (length name + 3) s)
      else format_names s)"
  by pat_completeness auto
termination by (relation "measure length") auto

lemma format_line_cong: "(\<And>k. k \<in> set (format_names fmt) \<Longrightarrow> look k = look' k) \<Longrightarrow> format_line look fmt = format_line look' fmt"
  proof (induction fmt rule: format_names.induct)
  case (2 c s)
  show ?case
  proof (cases "c = CHR ''%'' \<and> prefix ''('' s")
    case True
    let ?name = "takeWhile (\<lambda>x. x \<noteq> CHR '')'') (drop 1 s)"
    have "set (format_names (c # s)) = insert ?name (set (format_names (drop (length ?name + 3) s)))" using True by (simp add: Let_def)
    then have "format_line look (drop (length ?name + 3) s) = format_line look' (drop (length ?name + 3) s)" "look ?name = look' ?name"
      using "2.IH"(1) [OF True refl] "2.prems" by blast+
    then show ?thesis using True by (simp add: Let_def)
  next
    case False
    then have "set (format_names (c # s)) = set (format_names s)" by auto
    then have "format_line look s = format_line look' s" using "2.IH"(2) [OF False] "2.prems" by blast
    then show ?thesis using False by auto
  qed
qed simp

lemma access_line_text:
  "access_line fmt atoms =
     format_line (\<lambda>k. py_str (atom (snd (redact_record (fmt, safe_atoms atoms []))) k)) (redact_access_text fmt)"
  by (simp add: access_line_def access_record_def redact_record_def case_prod_beta)

definition printed_atoms :: "string list" where
  "printed_atoms = [''h'', ''l'', ''u'', ''t'', ''m'', ''U'', ''H'', ''s'', ''b'', ''a'', ''M'', ''{x-request-id}o'']"

lemma format_printed: "redact_access_text ACCESS_LOG_FORMAT = ACCESS_LOG_FORMAT" "format_names ACCESS_LOG_FORMAT = printed_atoms"
  by code_simp+

text \<open>The name an atom goes by: headers are looked up in small letters.\<close>

definition atom_name :: "string \<Rightarrow> string" where
  "atom_name k = (if prefix ''{'' k then lower k else k)"

lemma kept_name: "kept_atom k = Some key \<Longrightarrow> key = atom_name k"
  by (auto simp: kept_atom_def atom_name_def Let_def split: if_splits)

lemma printed_names: "\<forall>k \<in> set printed_atoms. atom_name k = k"
  by code_simp

text \<open>
  C35. What the access log does not tell. Under every format, two requests whose atoms differ only in the atoms of the request
  headers (\<open>{..}i\<close>) and of the environment (\<open>{..}e\<close>), in response headers that carry credentials, in the query string
  \<open>q\<close> and the referrer \<open>f\<close>, and in the token of a share link in \<open>U\<close> or \<open>r\<close>, leave the same line. Under the format of the
  container only the twelve atoms it prints matter, so the request line \<open>r\<close>, which repeats the query string, may differ as well.
  The other plain atoms are printed as they are: \<open>a\<close>, the User-Agent header, and \<open>u\<close>, the user name of a Basic
  Authorization header, come from headers and are told apart.
\<close>

theorem access_log_hides_secrets:
  shows "(same_but_secrets (\<lambda>_. True) atoms atoms' \<longrightarrow>
      access_record fmt atoms = access_record fmt atoms' \<and> access_line fmt atoms = access_line fmt atoms') \<and>
    (same_but_secrets (\<lambda>k. atom_name k \<in> set printed_atoms) atoms atoms' \<longrightarrow>
      access_line ACCESS_LOG_FORMAT atoms = access_line ACCESS_LOG_FORMAT atoms')"
proof (intro conjI impI)
  assume "same_but_secrets (\<lambda>_. True) atoms atoms'"
  then have "same_once_redacted (\<lambda>_. True) (safe_atoms atoms []) (safe_atoms atoms' [])" by (rule kept_redacted)
  then show "access_record fmt atoms = access_record fmt atoms'" using redacted_same by (simp add: access_record_def)
  then show "access_line fmt atoms = access_line fmt atoms'" by (simp add: access_line_def)
next
  assume "same_but_secrets (\<lambda>k. atom_name k \<in> set printed_atoms) atoms atoms'"
  then have kept: "same_once_redacted (\<lambda>k. k \<in> set printed_atoms) (safe_atoms atoms []) (safe_atoms atoms' [])"
    by (rule kept_redacted) (use kept_name in blast)
  have "atom (snd (redact_record (ACCESS_LOG_FORMAT, safe_atoms atoms []))) k =
      atom (snd (redact_record (ACCESS_LOG_FORMAT, safe_atoms atoms' []))) k" if "k \<in> set printed_atoms" for k
    using redacted_lookup [OF kept, of k] that printed_names unfolding atom_name_def [symmetric] by simp
  then show "access_line ACCESS_LOG_FORMAT atoms = access_line ACCESS_LOG_FORMAT atoms'"
    unfolding access_line_text format_printed(1) by (intro format_line_cong) (simp only: format_printed(2))
qed

lemma differ_in_token:
  assumes "double_quote \<notin> set pre" "link_here link" "length link = 12" "unshadowed pre link" "tok \<noteq> []" "tok' \<noteq> []"
    "\<forall>c \<in> set tok \<union> set tok'. token_char c"
  shows "differ_in_secrets ''r'' (JStr (pre @ link @ tok @ aft)) (JStr (pre @ link @ tok' @ aft))"
  using assms unfolding differ_in_secrets_def by blast

definition logged_request :: "string \<Rightarrow> string \<Rightarrow> dict" where
  "logged_request token auth =
     [(''m'', JStr ''GET''), (''r'', JStr (''GET /storage/v1'' @ ''/share/link/'' @ token @ '' HTTP/1.1'')),
      (''{authorization}i'', JStr auth), (''{x-request-id}o'', JStr ''1f'')]"

lemma access_log_hides_secrets_witness:
  "logged_request ''kjh'' ''Bearer 1'' \<noteq> logged_request ''9'' ''Bearer 2'' \<and>
     access_line ''%(r)s'' (logged_request ''kjh'' ''Bearer 1'') = access_line ''%(r)s'' (logged_request ''9'' ''Bearer 2'') \<and>
     access_line ACCESS_LOG_FORMAT [(''a'', JStr ''curl''), (''r'', JStr ''GET /?q=1'')] =
       access_line ACCESS_LOG_FORMAT [(''a'', JStr ''curl''), (''r'', JStr ''GET /?q=2'')]"
proof -
  have "link_here ''/share/link/''" "unshadowed ''GET /storage/v1'' ''/share/link/''" "\<forall>c \<in> set ''kjh'' \<union> set ''9''. token_char c"
    "double_quote \<notin> set ''GET /storage/v1''" "secret_atom ''{authorization}i''"
    by code_simp+
  note facts = this
  have token: "differ_in_secrets ''r'' (JStr (''GET /storage/v1'' @ ''/share/link/'' @ ''kjh'' @ '' HTTP/1.1''))
      (JStr (''GET /storage/v1'' @ ''/share/link/'' @ ''9'' @ '' HTTP/1.1''))"
    by (rule differ_in_token [OF facts(4,1) _ facts(2) _ _ facts(3)]) simp_all
  have same: "differ_in_secrets k v v" for k v by (simp add: differ_in_secrets_def)
  have hidden: "differ_in_secrets ''{authorization}i'' v v'" for v v' using facts(5) by (simp only: differ_in_secrets_def) simp
  have "same_but_secrets (\<lambda>_. True) (logged_request ''kjh'' ''Bearer 1'') (logged_request ''9'' ''Bearer 2'')"
    unfolding logged_request_def same_but_secrets_def
    by (simp only: list_all2_Cons list_all2_Nil prod.case token same hidden simp_thms)
  then have "access_line ''%(r)s'' (logged_request ''kjh'' ''Bearer 1'') = access_line ''%(r)s'' (logged_request ''9'' ''Bearer 2'')"
    using access_log_hides_secrets by blast
  moreover have "atom_name ''r'' \<notin> set printed_atoms" by code_simp
  then have "same_but_secrets (\<lambda>k. atom_name k \<in> set printed_atoms) [(''a'', JStr ''curl''), (''r'', JStr ''GET /?q=1'')]
      [(''a'', JStr ''curl''), (''r'', JStr ''GET /?q=2'')]"
    unfolding same_but_secrets_def by (simp only: list_all2_Cons list_all2_Nil prod.case same simp_thms)
  then have "access_line ACCESS_LOG_FORMAT [(''a'', JStr ''curl''), (''r'', JStr ''GET /?q=1'')] =
       access_line ACCESS_LOG_FORMAT [(''a'', JStr ''curl''), (''r'', JStr ''GET /?q=2'')]"
    using access_log_hides_secrets by blast
  ultimately show ?thesis by (simp add: logged_request_def)
qed

text \<open>The user name of Basic credentials stays in the line.\<close>

lemma quote_differs: "CHR ''a'' \<noteq> double_quote" "CHR ''n'' \<noteq> double_quote"
  by code_simp+

lemma basic_user_logged: "snd (access_record ACCESS_LOG_FORMAT [(''u'', JStr ''ann'')]) ''u'' = JStr ''ann''"
  by (simp add: access_record_def redact_record_def kept_atom_def dict_set_def escape_quotes_def redact_atom_def atom_def
      quote_differs)

section \<open>What an error report keeps\<close>

lemma map_of_dict_map: "map_of (dict_map k f d) x = (if x = k then map_option f (map_of d x) else map_of d x)"
  by (induction d) (auto simp: dict_map_def)

text \<open>No substitution brings a question mark or a hash into a text.\<close>

definition adds :: "char set \<Rightarrow> matcher \<Rightarrow> bool" where
  "adds R m \<longleftrightarrow> (\<forall>p t n r. m p t = Some (n, r) \<longrightarrow> set r \<subseteq> set t \<union> R)"

lemma set_re_sub: "adds R m \<Longrightarrow> set (re_sub m p t) \<subseteq> set t \<union> R"
proof (induction m p t rule: re_sub.induct)
  case (2 m p c s)
  show ?case
  proof (cases "m p (c # s)")
    case None
    then show ?thesis using "2.IH"(1) [OF None] "2.prems" by auto
  next
    case (Some nr)
    obtain n r where nr: "nr = (n, r)" by fastforce
    then have "set r \<subseteq> set (c # s) \<union> R" using "2.prems" Some unfolding adds_def by blast
    moreover have "set (re_sub m (Some (last (take n (c # s)))) (drop (n - 1) s)) \<subseteq> set (drop (n - 1) s) \<union> R"
      using "2.IH"(2) [OF Some [unfolded nr] refl] "2.prems" by simp
    moreover have "set (drop (n - 1) s) \<subseteq> set s" by (rule set_drop_subset)
    ultimately show ?thesis using Some nr by auto
  qed
qed simp

lemma adds_link: "adds (set ''[filtered]'') share_link_match"
  by (auto simp: adds_def share_link_match_def Let_def split: if_splits dest: in_set_takeD)

lemma adds_bearer: "adds (set '' [Filtered]'') bearer_match"
  unfolding adds_def bearer_match_def Let_def
  by (intro allI impI) (auto split: if_split_asm dest: in_set_takeD)

lemma adds_url: "adds (set ''://'') url_query_match"
proof -
  have "set (takeWhile P xs @ ''://'' @ takeWhile Q (drop 3 (drop n xs))) \<subseteq> set xs \<union> set ''://''" for P Q n and xs :: string
    by (auto dest: set_takeWhileD in_set_dropD)
  then show ?thesis unfolding adds_def url_query_match_def Let_def by (simp split: if_split)
qed

lemma set_scrub_text: "set (scrub_text s) \<subseteq> set s \<union> set ''[filtered] [Filtered]://''"
proof -
  let ?u = "re_sub url_query_match None s" and ?v = "re_sub share_link_match None (re_sub url_query_match None s)"
  have steps: "set ?u \<subseteq> set s \<union> set ''://''" "set ?v \<subseteq> set ?u \<union> set ''[filtered]''" "set (scrub_text s) \<subseteq> set ?v \<union> set '' [Filtered]''"
    unfolding scrub_text_def by (intro set_re_sub adds_link adds_url adds_bearer)+
  have chain: "C \<subseteq> S \<union> W" if "A \<subseteq> S \<union> X" "B \<subseteq> A \<union> Y" "C \<subseteq> B \<union> Z" "X \<union> Y \<union> Z \<subseteq> W" for A B C S W X Y Z :: "char set"
    using that by blast
  have "set ''://'' \<union> set ''[filtered]'' \<union> set '' [Filtered]'' \<subseteq> set ''[filtered] [Filtered]://''" by simp
  then show ?thesis by (rule chain [OF steps])
qed

definition clean_headers :: "json \<Rightarrow> bool" where
  "clean_headers v =
     (case v of JObj hs \<Rightarrow> \<forall>(k, x) \<in> set hs. \<not> dropped_header k | JList pairs \<Rightarrow> \<forall>pair \<in> set pairs. kept_pair pair | _ \<Rightarrow> True)"

definition clean_url :: "json \<Rightarrow> bool" where
  "clean_url v = (case v of JStr s \<Rightarrow> CHR ''?'' \<notin> set s \<and> CHR ''#'' \<notin> set s | _ \<Rightarrow> True)"

definition clean_request :: "json \<Rightarrow> bool" where
  "clean_request v =
     (case v of
        JObj r \<Rightarrow> map_of r ''query_string'' = None \<and> map_of r ''cookies'' = None \<and> map_of r ''data'' = None \<and>
          pred_option clean_headers (map_of r ''headers'') \<and> pred_option clean_url (map_of r ''url'')
      | _ \<Rightarrow> True)"

definition clean_frames :: "json \<Rightarrow> bool" where
  "clean_frames v =
     (case v of
        JObj stack \<Rightarrow> (case map_of stack ''frames'' of
            Some (JList fs) \<Rightarrow> \<forall>f \<in> set fs. case f of JObj frame \<Rightarrow> map_of frame ''vars'' = None | _ \<Rightarrow> True
          | _ \<Rightarrow> True)
      | _ \<Rightarrow> True)"

definition clean_exception :: "json \<Rightarrow> bool" where
  "clean_exception v =
     (case v of
        JObj container \<Rightarrow> (case map_of container ''values'' of
            Some (JList xs) \<Rightarrow> \<forall>x \<in> set xs. case x of JObj item \<Rightarrow> pred_option clean_frames (map_of item ''stacktrace'') | _ \<Rightarrow> True
          | _ \<Rightarrow> True)
      | _ \<Rightarrow> True)"

lemma clean_scrub_headers: "clean_headers (scrub_headers v)"
  by (auto simp: clean_headers_def scrub_headers_def split: json.splits)

lemma clean_scrub_url: "clean_url (scrub_url v)"
proof (cases v)
  case (JStr s)
  let ?s = "takeWhile (\<lambda>c. c \<noteq> CHR ''?'') (takeWhile (\<lambda>c. c \<noteq> CHR ''#'') s)"
  have "CHR ''?'' \<notin> set ?s" "CHR ''#'' \<notin> set ?s" by (auto dest: set_takeWhileD)
  then show ?thesis using set_scrub_text [of ?s] JStr by (auto simp: clean_url_def scrub_url_def)
qed (simp_all add: clean_url_def scrub_url_def)

lemma clean_scrub_request: "clean_request (scrub_request v)"
  by (cases v) (auto simp: clean_request_def scrub_request_def map_of_dict_map map_of_dict_pop clean_scrub_headers clean_scrub_url
      option.pred_map comp_def option.pred_True)

lemma clean_scrub_stack: "clean_frames (scrub_stack v)"
  by (auto simp: clean_frames_def scrub_stack_def scrub_frame_def map_of_dict_map map_of_dict_pop split: json.splits option.splits)

lemma clean_scrub_exception: "clean_exception (scrub_exception v)"
proof -
  have "case scrub_item x of JObj item \<Rightarrow> pred_option clean_frames (map_of item ''stacktrace'') | _ \<Rightarrow> True" for x
    by (cases x) (simp_all add: scrub_item_def map_of_dict_map option.pred_map comp_def clean_scrub_stack option.pred_True)
  then show ?thesis
    by (auto simp: clean_exception_def scrub_exception_def map_of_dict_map split: json.splits option.splits)
qed

text \<open>
  Error reports. What \<open>scrub_sentry_event\<close> lets through has no cookies, body, query string or credential header of
  the request, neither query nor fragment in its URL, and no local variables in any stack frame of its exceptions
  and threads; and it changes nothing but the request, the message, the exceptions and the threads.
\<close>

theorem sentry_event_clean:
  "pred_option clean_request (map_of (scrub_sentry_event event) ''request'') \<and>
   pred_option clean_exception (map_of (scrub_sentry_event event) ''exception'') \<and>
   pred_option clean_exception (map_of (scrub_sentry_event event) ''threads'') \<and>
   map fst (scrub_sentry_event event) = map fst event \<and>
   (\<forall>k \<in> - {''request'', ''message'', ''exception'', ''threads''}. map_of (scrub_sentry_event event) k = map_of event k)"
proof -
  have "map fst (dict_map k f d) = map fst d" for k f d by (induction d) (auto simp: dict_map_def)
  then show ?thesis
    by (simp add: scrub_sentry_event_def map_of_dict_map option.pred_map comp_def clean_scrub_request clean_scrub_exception option.pred_True)
qed

end
