(* ===== verification/Settings.thy ===== *)
theory Settings
  imports Net_Address Redaction Auth
begin

text \<open>
  The configuration of the service: \<open>config/settings.py\<close> with the helpers of \<open>config/s3utils.py\<close>, and the checks of
  \<open>authapi/checks.py\<close> that run before the container starts. The environment is a map from names to texts (the
  \<open>.env\<close> file is already in it); every variable is read, checked and refused in the order of the module. Files, the
  JSON parser, the parser of database URLs, the working directory and the checks that Django and the installed packages run
  are fields of \<open>outside\<close>. A float is kept as the decimal number that its text denotes. Constants handed to Django and the call
  of Sentry are left out, and of the log configuration all but its level. The contract is
  \<open>production_start_safe\<close>.
\<close>

section \<open>Reading the environment\<close>

text \<open>
  A setting the service refuses to start with: \<open>ImproperlyConfigured\<close> with the variable it is about, or another
  exception.
\<close>

datatype startup_error = Improperly_Configured string | Startup_Crash

type_synonym osenv = "string \<rightharpoonup> string"

definition getenv :: "osenv \<Rightarrow> string \<Rightarrow> string \<Rightarrow> string" where
  "getenv e name dflt = (case e name of None \<Rightarrow> dflt | Some s \<Rightarrow> s)"

definition var :: "osenv \<Rightarrow> string \<Rightarrow> string" where
  "var e name = strip (getenv e name [])"

definition var_or_none :: "osenv \<Rightarrow> string \<Rightarrow> string option" where
  "var_or_none e name = (if var e name = [] then None else Some (var e name))"

definition ok_then :: "startup_error + 'a \<Rightarrow> ('a \<Rightarrow> startup_error + 'b) \<Rightarrow> startup_error + 'b" where
  "ok_then r f = (case r of Inl x \<Rightarrow> Inl x | Inr y \<Rightarrow> f y)"

definition demand :: "bool \<Rightarrow> string \<Rightarrow> startup_error + unit" where
  "demand ok name = (if ok then Inr () else Inl (Improperly_Configured name))"

definition TRUE_WORDS :: "string list" where
  "TRUE_WORDS = [''1'', ''true'', ''yes'', ''on'']"

definition env_csv :: "osenv \<Rightarrow> string \<Rightarrow> string list \<Rightarrow> string list" where
  "env_csv e name dflt =
     (if var e name = [] then dflt else filter (\<lambda>item. item \<noteq> []) (map strip (split_on CHR '','' (var e name))))"

definition env_bool :: "osenv \<Rightarrow> string \<Rightarrow> bool \<Rightarrow> bool" where
  "env_bool e name dflt = (if var e name = [] then dflt else lower (var e name) \<in> set TRUE_WORDS)"

definition env_int :: "osenv \<Rightarrow> string \<Rightarrow> int \<Rightarrow> startup_error + int" where
  "env_int e name dflt =
     (if var e name = [] then Inr dflt
      else case py_int 10 (var e name) of None \<Rightarrow> Inl (Improperly_Configured name) | Some i \<Rightarrow> Inr i)"

text \<open>\<open>_env_bytes\<close>: digits and a binary suffix.\<close>

definition byte_unit :: "char \<Rightarrow> int option" where
  "byte_unit c =
     (if c \<in> {CHR ''K'', CHR ''k''} then Some 1024
      else if c \<in> {CHR ''M'', CHR ''m''} then Some (1024 ^ 2)
      else if c \<in> {CHR ''G'', CHR ''g''} then Some (1024 ^ 3)
      else if c \<in> {CHR ''T'', CHR ''t''} then Some (1024 ^ 4) else None)"

definition env_bytes :: "osenv \<Rightarrow> string \<Rightarrow> int \<Rightarrow> startup_error + int" where
  "env_bytes e name dflt =
     (let raw = var e name; digits = takeWhile is_ascii_digit raw; rest = drop (length digits) raw;
          amount = (case read_base 10 0 digits of None \<Rightarrow> 0 | Some n \<Rightarrow> int n) in
      if raw = [] then Inr dflt
      else if digits = [] then Inl (Improperly_Configured name)
      else case rest of
        [] \<Rightarrow> Inr amount
      | [c] \<Rightarrow> (case byte_unit c of None \<Rightarrow> Inl (Improperly_Configured name) | Some m \<Rightarrow> Inr (amount * m))
      | _ \<Rightarrow> Inl (Improperly_Configured name))"

text \<open>
  \<open>float(raw)\<close> succeeds: a sign, digits with single underscores, a fraction and an exponent, or infinity or not a number.
\<close>

definition digit_part :: "string \<Rightarrow> bool" where
  "digit_part s \<longleftrightarrow> (\<forall>group \<in> set (split_on CHR ''_'' s). group \<noteq> [] \<and> (\<forall>c \<in> set group. is_ascii_digit c))"

definition mantissa :: "string \<Rightarrow> bool" where
  "mantissa s \<longleftrightarrow>
     (if CHR ''.'' \<in> set s
      then let a = before CHR ''.'' s; b = behind CHR ''.'' s in
        (a = [] \<or> digit_part a) \<and> (b = [] \<or> digit_part b) \<and> (a \<noteq> [] \<or> b \<noteq> [])
      else digit_part s)"

definition unsigned_float :: "string \<Rightarrow> bool" where
  "unsigned_float s \<longleftrightarrow>
     s \<in> {''inf'', ''infinity'', ''nan''} \<or>
     (if CHR ''e'' \<in> set s
      then let x = behind CHR ''e'' s in
        mantissa (before CHR ''e'' s) \<and> digit_part (if prefix ''-'' x \<or> prefix ''+'' x then drop 1 x else x)
      else mantissa s)"

definition float_syntax :: "string \<Rightarrow> bool" where
  "float_syntax raw = (let s = lower (strip raw) in unsigned_float (if prefix ''-'' s \<or> prefix ''+'' s then drop 1 s else s))"

text \<open>
  Its value, before it is rounded to a double: \<open>Decimal m x\<close> is \<open>m * 10 ^ x\<close>, with no zero at the end of \<open>m\<close>, so that equal
  numbers are equal values.
\<close>

datatype py_float = Decimal int int | Infinite bool | Not_A_Number

function decimal :: "nat \<Rightarrow> int \<Rightarrow> nat \<times> int" where
  "decimal m x = (if m = 0 then (0, 0) else if m mod 10 = 0 then decimal (m div 10) (x + 1) else (m, x))"
  by auto
termination by (relation "measure fst") auto

declare decimal.simps [simp del]

definition digits_number :: "string \<Rightarrow> nat" where
  "digits_number s = (case read_base 10 0 (filter (\<lambda>c. c \<noteq> CHR ''_'') s) of None \<Rightarrow> 0 | Some n \<Rightarrow> n)"

definition signed_number :: "string \<Rightarrow> int" where
  "signed_number s =
     (if prefix ''-'' s then - int (digits_number (drop 1 s)) else int (digits_number (if prefix ''+'' s then drop 1 s else s)))"

definition float_value :: "string \<Rightarrow> py_float" where
  "float_value raw =
     (let s = lower (strip raw); negative = prefix ''-'' s; u = (if negative \<or> prefix ''+'' s then drop 1 s else s);
          number = before CHR ''e'' u; fraction = filter (\<lambda>c. c \<noteq> CHR ''_'') (behind CHR ''.'' number);
          (m, x) = decimal (digits_number (before CHR ''.'' number @ fraction))
            (signed_number (behind CHR ''e'' u) - int (length fraction)) in
      if u = ''nan'' then Not_A_Number
      else if u \<in> {''inf'', ''infinity''} then Infinite negative
      else Decimal (if negative then - int m else int m) x)"

definition env_float :: "osenv \<Rightarrow> string \<Rightarrow> py_float \<Rightarrow> startup_error + py_float" where
  "env_float e name dflt =
     (if var e name = [] then Inr dflt
      else if float_syntax (var e name) then Inr (float_value (var e name)) else Inl (Improperly_Configured name))"

section \<open>\<open>s3utils.py\<close>\<close>

definition normalize_s3_endpoint :: "string option \<Rightarrow> string \<Rightarrow> startup_error + string option" where
  "normalize_s3_endpoint url bucket_name =
     (let raw = (case url of None \<Rightarrow> [] | Some s \<Rightarrow> strip s);
          full = (if search (prefix ''://'') raw then raw else ''https://'' @ raw) in
      if raw = [] then Inr None
      else case urlparse full of
        None \<Rightarrow> Inl Startup_Crash
      | Some parsed \<Rightarrow>
          (let host = url_hostname parsed; bucket = lower (strip bucket_name);
               rest = drop (length bucket + 1) host;
               bare = (if bucket \<noteq> [] \<and> prefix (bucket @ ''.'') host \<and> prefix ''s3.'' rest then rest else host) in
           if host = [] then Inr None
           else case url_port parsed of
             Inl _ \<Rightarrow> Inl Startup_Crash
           | Inr port \<Rightarrow>
               Inr (Some (u_scheme parsed @ ''://'' @ bare @
                 (case port of Some p \<Rightarrow> if p \<noteq> 0 then '':'' @ show_base 10 p else [] | None \<Rightarrow> [])))))"

text \<open>The host of a URL, or the empty text.\<close>

definition host_of :: "string option \<Rightarrow> startup_error + string" where
  "host_of endpoint =
     (case endpoint of None \<Rightarrow> Inr []
      | Some url \<Rightarrow> if url = [] then Inr []
          else (case urlparse url of None \<Rightarrow> Inl Startup_Crash | Some parsed \<Rightarrow> Inr (url_hostname parsed)))"

text \<open>The region of an OVH host: \<open>s3\<close>, the region, and one of the three domains.\<close>

definition OVH_DOMAINS :: "string list" where
  "OVH_DOMAINS = [''.io.cloud.ovh.net'', ''.perf.cloud.ovh.net'', ''.cloud.ovh.net'']"

definition ovh_region :: "string \<Rightarrow> string option" where
  "ovh_region host =
     (let h = lower host; region = takeWhile (\<lambda>c. ascii_alpha c \<or> is_ascii_digit c \<or> c = CHR ''-'') (drop 3 h) in
      if prefix ''s3.'' h \<and> region \<noteq> [] \<and> drop (3 + length region) h \<in> set OVH_DOMAINS
      then Some (take (length region) (drop 3 host)) else None)"

definition infer_s3_region :: "string option \<Rightarrow> string \<Rightarrow> startup_error + string" where
  "infer_s3_region endpoint configured =
     (let region = (if strip configured = [] then ''us-east-1'' else strip configured) in
      ok_then (host_of endpoint) (\<lambda>host. Inr (case ovh_region host of
        Some r \<Rightarrow> if region = ''us-east-1'' then r else region | None \<Rightarrow> region)))"

definition infer_addressing_style :: "string option \<Rightarrow> string \<Rightarrow> startup_error + string" where
  "infer_addressing_style endpoint explicit =
     (let style = lower (strip explicit) in
      if style \<in> {''path'', ''virtual'', ''auto''} then Inr style
      else if endpoint = None \<or> endpoint = Some [] then Inr ''virtual''
      else ok_then (host_of endpoint) (\<lambda>h. let host = lower h in Inr (
        if host \<in> {''localhost'', ''127.0.0.1'', ''::1''} \<or> suffix ''.local'' host then ''path''
        else if host = ''minio'' \<or> prefix ''minio.'' host \<or> search (prefix ''.minio.'') host then ''path''
        else if ip_address host \<noteq> None then ''path''
        else if prefix ''s3.'' host \<or> search (prefix ''.s3.'') host then ''virtual'' else ''path'')))"

definition normalize_custom_domain :: "string option \<Rightarrow> string option \<Rightarrow> startup_error + string option" where
  "normalize_custom_domain custom endpoint =
     (let raw = (case custom of None \<Rightarrow> [] | Some s \<Rightarrow> strip s) in
      if raw = [] then Inr None
      else ok_then (host_of (Some (if search (prefix ''://'') raw then raw else ''https://'' @ raw))) (\<lambda>h.
        ok_then (host_of endpoint) (\<lambda>endpoint_host.
          Inr (if endpoint_host \<noteq> [] \<and> (if h = [] then raw else h) = endpoint_host then None else Some raw))))"

section \<open>\<open>settings.py\<close>\<close>

text \<open>
  What settings read besides the environment: the directory of the service, the version in \<open>pyproject.toml\<close>, files
  (\<open>None\<close> is no file, \<open>Inl\<close> one that cannot be read as UTF-8), the JSON parser, and whether
  \<open>dj_database_url.parse\<close> takes a URL. \<open>working_dir\<close> is the directory the process runs in, and \<open>library_errors\<close> the ids of the
  errors that the checks of Django and of the installed packages report for a configuration.
\<close>

record 'c outside =
  base_dir :: string
  project_version :: string
  read_file :: "string \<Rightarrow> (unit + string) option"
  parse_json :: "string \<Rightarrow> json option"
  parse_database :: "string \<Rightarrow> bool \<Rightarrow> bool"
  working_dir :: string
  library_errors :: "'c \<Rightarrow> string list"

definition celery_broker_url :: "string \<Rightarrow> string \<Rightarrow> string" where
  "celery_broker_url redis_url override = (if strip override \<noteq> [] then strip override else strip redis_url)"

datatype cache = Redis_Cache string | Loc_Mem_Cache

definition caches_config :: "string \<Rightarrow> cache" where
  "caches_config redis_url = (if redis_url \<noteq> [] then Redis_Cache redis_url else Loc_Mem_Cache)"

definition rstrip_slash :: "string \<Rightarrow> string" where
  "rstrip_slash s = rev (dropWhile (\<lambda>c. c = slash) (rev s))"

definition http_url :: "string \<Rightarrow> bool" where
  "http_url url \<longleftrightarrow> prefix ''http://'' url \<or> prefix ''https://'' url"

text \<open>The database and the files.\<close>

datatype database = Postgres string bool | Sqlite string

definition load_database :: "'c outside \<Rightarrow> osenv \<Rightarrow> bool \<Rightarrow> startup_error + database" where
  "load_database out e debug =
     (let url = var e ''POSTGRES_DATABASE_URL''; ssl = env_bool e ''POSTGRES_SSL_REQUIRE'' (\<not> debug) in
      if url \<noteq> [] then (if parse_database out url ssl then Inr (Postgres url ssl) else Inl Startup_Crash)
      else Inr (Sqlite (getenv e ''SQLITE_PATH'' (base_dir out @ ''/db.sqlite3''))))"

definition media_root :: "'c outside \<Rightarrow> osenv \<Rightarrow> string" where
  "media_root out e = (if var e ''MEDIA_ROOT'' \<noteq> [] then var e ''MEDIA_ROOT'' else base_dir out @ ''/data/media'')"

record storage_config =
  sc_backend :: string
  sc_bucket :: string
  sc_access_key :: string
  sc_secret_key :: string
  sc_endpoint :: "string option"
  sc_region :: string
  sc_custom_domain :: "string option"
  sc_signature_version :: string
  sc_addressing_style :: string
  sc_key_prefix :: string
  sc_url_expires :: int

definition load_storage :: "osenv \<Rightarrow> startup_error + storage_config" where
  "load_storage e =
     (let backend = (let b = lower (var e ''STORAGE_BACKEND'') in if b = [] then ''filesystem'' else b);
          bucket = var e ''AWS_STORAGE_BUCKET_NAME'';
          signature = strip (getenv e ''AWS_S3_SIGNATURE_VERSION'' ''s3v4'') in
      ok_then (demand (backend \<in> {''s3'', ''filesystem''}) ''STORAGE_BACKEND'') (\<lambda>_.
      ok_then (normalize_s3_endpoint (var_or_none e ''AWS_S3_ENDPOINT_URL'') bucket) (\<lambda>endpoint.
      ok_then (infer_s3_region endpoint (getenv e ''AWS_S3_REGION_NAME'' ''us-east-1'')) (\<lambda>region.
      ok_then (normalize_custom_domain (var_or_none e ''AWS_S3_CUSTOM_DOMAIN'') endpoint) (\<lambda>domain.
      ok_then (infer_addressing_style endpoint (getenv e ''AWS_S3_ADDRESSING_STYLE'' [])) (\<lambda>style.
      ok_then (demand (style \<in> {''path'', ''virtual'', ''auto''}) ''AWS_S3_ADDRESSING_STYLE'') (\<lambda>_.
      ok_then (demand (backend = ''s3'' \<longrightarrow> bucket \<noteq> []) ''AWS_STORAGE_BUCKET_NAME'') (\<lambda>_.
      ok_then (env_int e ''SIGNED_URL_EXPIRES'' 3600) (\<lambda>expires.
        Inr \<lparr>sc_backend = backend, sc_bucket = bucket, sc_access_key = var e ''AWS_ACCESS_KEY_ID'',
          sc_secret_key = var e ''AWS_SECRET_ACCESS_KEY'', sc_endpoint = endpoint, sc_region = region,
          sc_custom_domain = domain, sc_signature_version = (if signature = [] then ''s3v4'' else signature),
          sc_addressing_style = style,
          sc_key_prefix = strip_slashes (strip (getenv e ''STORAGE_KEY_PREFIX'' ''shellui'')), sc_url_expires = expires\<rparr>)))))))))"

text \<open>The keys of the identity service.\<close>

definition parse_jwks_document :: "'c outside \<Rightarrow> string \<Rightarrow> string \<Rightarrow> startup_error + dict" where
  "parse_jwks_document out raw source =
     (case parse_json out raw of
        Some (JObj document) \<Rightarrow>
          (case map_of document ''keys'' of
             Some (JList ks) \<Rightarrow> if ks = [] then Inl (Improperly_Configured source) else Inr document
           | _ \<Rightarrow> Inl (Improperly_Configured source))
      | _ \<Rightarrow> Inl (Improperly_Configured source))"

datatype jwks_source = From_File string | From_Env

definition load_static_jwks :: "'c outside \<Rightarrow> osenv \<Rightarrow> startup_error + (dict \<times> jwks_source) option" where
  "load_static_jwks out e =
     (let file_path = var e ''IDENTITY_JWKS_FILE''; raw = var e ''IDENTITY_JWKS'';
          path = (if prefix ''/'' file_path then file_path else base_dir out @ ''/'' @ file_path) in
      if file_path \<noteq> []
      then (case read_file out path of
          None \<Rightarrow> Inl (Improperly_Configured ''IDENTITY_JWKS_FILE'')
        | Some (Inl _) \<Rightarrow> Inl Startup_Crash
        | Some (Inr txt) \<Rightarrow> ok_then (parse_jwks_document out txt path) (\<lambda>d. Inr (Some (d, From_File path))))
      else if raw \<noteq> [] then ok_then (parse_jwks_document out raw ''IDENTITY_JWKS'') (\<lambda>d. Inr (Some (d, From_Env)))
      else Inr None)"

definition resolve_identity_jwks_url :: "osenv \<Rightarrow> string" where
  "resolve_identity_jwks_url e =
     (let explicit = var e ''IDENTITY_JWKS_URL''; base = rstrip_slash (var e ''IDENTITY_SERVICE_URL'') in
      if explicit \<noteq> [] then rstrip_slash explicit
      else if base \<noteq> [] then base @ ''/.well-known/jwks.json''
      else ''http://localhost:8000/.well-known/jwks.json'')"

definition or_none :: "string \<Rightarrow> string option" where
  "or_none s = (if s = [] then None else Some s)"

record identity_config =
  ic_jwks :: "(dict \<times> jwks_source) option"
  ic_service_url :: "string option"
  ic_jwks_url :: "string option"
  ic_issuer :: "string option"
  ic_audience :: "string option"
  ic_cache_ttl :: int
  ic_timeout :: py_float
  ic_retries :: int
  ic_hs256_secret :: "string option"
  ic_allow_hs256 :: bool
  ic_algorithms :: "string list"

definition load_identity :: "'c outside \<Rightarrow> osenv \<Rightarrow> bool \<Rightarrow> startup_error + identity_config" where
  "load_identity out e debug =
     (let url = resolve_identity_jwks_url e; secret = var_or_none e ''JWT_HS256_FALLBACK_SECRET'';
          allow = (lower (var e ''ALLOW_JWT_HS256_FALLBACK'') \<in> set TRUE_WORDS) in
      ok_then (load_static_jwks out e) (\<lambda>jwks.
      ok_then (demand (jwks = None \<longrightarrow> http_url url) ''IDENTITY_JWKS_URL'') (\<lambda>_.
      ok_then (env_int e ''JWKS_CACHE_TTL'' 900) (\<lambda>ttl.
      ok_then (env_float e ''JWKS_TIMEOUT'' (Decimal 15 0)) (\<lambda>timeout.
      ok_then (env_int e ''JWKS_RETRIES'' 2) (\<lambda>retries.
      ok_then (demand (secret \<noteq> None \<longrightarrow> debug \<or> allow) ''JWT_HS256_FALLBACK_SECRET'') (\<lambda>_.
        Inr \<lparr>ic_jwks = jwks, ic_service_url = or_none (rstrip_slash (var e ''IDENTITY_SERVICE_URL'')),
          ic_jwks_url = (if jwks \<noteq> None then or_none (rstrip_slash (var e ''IDENTITY_JWKS_URL'')) else Some url),
          ic_issuer = var_or_none e ''IDENTITY_ISSUER'', ic_audience = var_or_none e ''IDENTITY_AUDIENCE'',
          ic_cache_ttl = ttl, ic_timeout = timeout, ic_retries = retries, ic_hs256_secret = secret, ic_allow_hs256 = allow,
          ic_algorithms = env_csv e ''JWT_ALGORITHMS'' [''RS256'']\<rparr>)))))))"

text \<open>Limits.\<close>

record limits_config =
  lc_company_quota :: int
  lc_user_quota :: int
  lc_max_upload :: int
  lc_max_memory :: int

definition load_limits :: "osenv \<Rightarrow> startup_error + limits_config" where
  "load_limits e =
     ok_then (env_bytes e ''DEFAULT_COMPANY_QUOTA_BYTES'' (10 * 1024 ^ 3)) (\<lambda>company.
     ok_then (env_bytes e ''DEFAULT_USER_QUOTA_BYTES'' 0) (\<lambda>user.
     ok_then (env_bytes e ''MAX_UPLOAD_BYTES'' (5 * 1024 ^ 3)) (\<lambda>upload.
     ok_then (env_bytes e ''DATA_UPLOAD_MAX_MEMORY_SIZE'' (12 * 1024 ^ 2)) (\<lambda>memory.
       Inr \<lparr>lc_company_quota = company, lc_user_quota = user, lc_max_upload = upload, lc_max_memory = memory\<rparr>))))"

text \<open>Cross-origin requests.\<close>

definition CORS_ORIGINS :: "string list" where
  "CORS_ORIGINS = [''http://localhost:4000'', ''http://127.0.0.1:4000'', ''http://localhost:5174'',
     ''http://127.0.0.1:5174'', ''http://localhost:5175'', ''http://127.0.0.1:5175'', ''https://admin.shellui.com'']"

record cors_config =
  cc_all_origins :: bool
  cc_origins :: "string list"
  cc_credentials :: bool
  cc_private_network :: bool

definition add_origin :: "string list \<Rightarrow> string \<Rightarrow> string list" where
  "add_origin origins origin =
     (let o' = strip origin in if o' \<noteq> [] \<and> o' \<notin> set origins then origins @ [o'] else origins)"

definition load_cors :: "osenv \<Rightarrow> startup_error + cors_config" where
  "load_cors e =
     (let all_origins = env_bool e ''CORS_ALLOW_ALL_ORIGINS'' True; credentials = env_bool e ''CORS_ALLOW_CREDENTIALS'' False in
      ok_then (demand (\<not> (all_origins \<and> credentials)) ''CORS_ALLOW_ALL_ORIGINS'') (\<lambda>_.
        Inr \<lparr>cc_all_origins = all_origins,
          cc_origins = foldl add_origin CORS_ORIGINS (split_on CHR '','' (getenv e ''CORS_ALLOWED_ORIGINS'' [])),
          cc_credentials = credentials,
          cc_private_network = (lower (strip (getenv e ''CORS_ALLOW_PRIVATE_NETWORK'' ''true'')) \<in> set TRUE_WORDS)\<rparr>))"

text \<open>HTTPS and cookies.\<close>

record https_config =
  hc_redirect :: bool
  hc_hsts_seconds :: int
  hc_hsts_subdomains :: bool
  hc_hsts_preload :: bool
  hc_session_secure :: bool
  hc_csrf_secure :: bool
  hc_session_cookie :: string
  hc_csrf_cookie :: string

definition load_https :: "osenv \<Rightarrow> bool \<Rightarrow> startup_error + https_config" where
  "load_https e debug =
     (let session = env_bool e ''SESSION_COOKIE_SECURE'' (\<not> debug); csrf = env_bool e ''CSRF_COOKIE_SECURE'' (\<not> debug) in
      ok_then (env_int e ''SECURE_HSTS_SECONDS'' (if debug then 0 else 31536000)) (\<lambda>hsts.
        Inr \<lparr>hc_redirect = env_bool e ''SECURE_SSL_REDIRECT'' (\<not> debug), hc_hsts_seconds = hsts,
          hc_hsts_subdomains = env_bool e ''SECURE_HSTS_INCLUDE_SUBDOMAINS'' (\<not> debug),
          hc_hsts_preload = env_bool e ''SECURE_HSTS_PRELOAD'' False,
          hc_session_secure = session, hc_csrf_secure = csrf,
          hc_session_cookie = (if session then ''__Host-sessionid'' else ''sessionid''),
          hc_csrf_cookie = (if csrf then ''__Host-csrftoken'' else ''csrftoken'')\<rparr>))"

text \<open>Actions and e-mail.\<close>

record actions_config =
  ac_timeout :: py_float
  ac_max_attempts :: int
  ac_allow_private :: bool
  ac_retry_lease :: int
  ac_dispatch_workers :: int
  ac_sync_delivery :: bool
  ac_retention_days :: int

definition load_actions :: "osenv \<Rightarrow> startup_error + actions_config" where
  "load_actions e =
     ok_then (env_float e ''ACTIONS_WEBHOOK_TIMEOUT_SECONDS'' (Decimal 5 0)) (\<lambda>timeout.
     ok_then (env_int e ''ACTIONS_OUTBOX_MAX_ATTEMPTS'' 8) (\<lambda>attempts.
     ok_then (env_int e ''ACTIONS_WEBHOOK_RETRY_LEASE_SECONDS'' 120) (\<lambda>lease.
     ok_then (env_int e ''ACTIONS_WEBHOOK_DISPATCH_WORKERS'' 4) (\<lambda>workers.
     ok_then (env_int e ''EVENT_LOG_RETENTION_DAYS'' 7) (\<lambda>days.
       Inr \<lparr>ac_timeout = timeout, ac_max_attempts = attempts, ac_allow_private = env_bool e ''ACTIONS_WEBHOOK_ALLOW_PRIVATE'' False,
         ac_retry_lease = lease, ac_dispatch_workers = workers,
         ac_sync_delivery = env_bool e ''ACTIONS_WEBHOOK_SYNC_DELIVERY'' False, ac_retention_days = days\<rparr>)))))"

record email_config =
  ec_url :: string
  ec_api_key :: string
  ec_allow_private :: bool

definition load_email :: "osenv \<Rightarrow> startup_error + email_config" where
  "load_email e =
     (let given = rstrip_slash (strip (getenv e ''EMAIL_SERVICE_URL'' ''https://email.shellui.com''));
          url = (if given = [] then ''https://email.shellui.com'' else given); k = var e ''EMAIL_SERVICE_API_KEY'' in
      ok_then (demand (k \<noteq> [] \<longrightarrow> prefix ''esk_'' k) ''EMAIL_SERVICE_API_KEY'') (\<lambda>_.
      ok_then (demand (k \<noteq> [] \<longrightarrow> http_url url) ''EMAIL_SERVICE_URL'') (\<lambda>_.
        Inr \<lparr>ec_url = url, ec_api_key = k, ec_allow_private = env_bool e ''EMAIL_SERVICE_ALLOW_PRIVATE'' False\<rparr>)))"

text \<open>The checks of a service that is not for development.\<close>

definition strong_key :: "string \<Rightarrow> bool" where
  "strong_key k \<longleftrightarrow> 50 \<le> length k \<and> 5 \<le> length (remdups k) \<and> \<not> prefix ''django-insecure-'' k"

definition production_errors :: "string \<Rightarrow> identity_config \<Rightarrow> string list" where
  "production_errors secret_key ident =
     (if ic_issuer ident = None then [''IDENTITY_ISSUER''] else []) @
     (if ic_audience ident = None then [''IDENTITY_AUDIENCE''] else []) @
     (if \<not> strong_key secret_key then [''SECRET_KEY''] else [])"

record config =
  cf_secret_key :: string
  cf_debug :: bool
  cf_log_level :: string
  cf_setup_token :: string
  cf_allowed_hosts :: "string list"
  cf_csrf_origins :: "string list"
  cf_version :: string
  cf_redis_url :: string
  cf_caches :: cache
  cf_scheduler :: bool
  cf_broker :: string
  cf_database :: database
  cf_media_root :: string
  cf_storage :: storage_config
  cf_identity :: identity_config
  cf_limits :: limits_config
  cf_webdav :: "string option"
  cf_cors :: cors_config
  cf_https :: https_config
  cf_admin_enabled :: bool
  cf_actions :: actions_config
  cf_email :: email_config
  cf_sentry :: "(string \<times> string \<times> string) option"
  cf_traces_rate :: py_float

definition CSRF_ORIGINS :: "string list" where
  "CSRF_ORIGINS = [''http://localhost:8001'', ''http://127.0.0.1:8001'', ''http://localhost:4000'', ''http://127.0.0.1:4000'',
     ''http://localhost:5174'', ''http://127.0.0.1:5174'', ''http://localhost:5175'', ''http://127.0.0.1:5175'',
     ''https://admin.shellui.com'']"

definition debug_on :: "osenv \<Rightarrow> bool" where
  "debug_on e \<longleftrightarrow> lower (strip (getenv e ''DEBUG'' ''false'')) \<in> set TRUE_WORDS"

definition webdav_prefix :: "osenv \<Rightarrow> string option" where
  "webdav_prefix e =
     (let p = strip (getenv e ''WEBDAV_PATH_PREFIX'' ''/dav'') in
      if lower (strip (getenv e ''WEBDAV_ENABLED'' ''true'')) \<in> set TRUE_WORDS then Some (if p = [] then ''/dav'' else p) else None)"

text \<open>\<open>str.upper\<close> for ASCII; no name of a level has another letter.\<close>

definition upper_ascii :: "string \<Rightarrow> string" where
  "upper_ascii = map (\<lambda>c. if 97 \<le> code_point c \<and> code_point c \<le> 122 then char_of (code_point c - 32) else c)"

definition log_level :: "osenv \<Rightarrow> bool \<Rightarrow> string" where
  "log_level e debug =
     (let usual = (if debug then ''DEBUG'' else ''INFO''); given = upper_ascii (strip (getenv e ''LOG_LEVEL'' usual)) in
      if given = [] then usual else given)"

text \<open>Sentry is set up when there is a DSN; with its environment and release.\<close>

definition sentry_config :: "'c outside \<Rightarrow> osenv \<Rightarrow> bool \<Rightarrow> (string \<times> string \<times> string) option" where
  "sentry_config out e debug =
     (let environment = var e ''SENTRY_ENVIRONMENT''; release = var e ''SENTRY_RELEASE'' in
      if var e ''SENTRY_DSN'' = [] then None
      else Some (var e ''SENTRY_DSN'',
        if environment = [] then (if debug then ''development'' else ''production'') else environment,
        if release = [] then project_version out else release))"

definition load_settings :: "'c outside \<Rightarrow> osenv \<Rightarrow> startup_error + config" where
  "load_settings out e =
     (let secret_key = var e ''SECRET_KEY''; debug = debug_on e; redis_url = var e ''REDIS_URL'' in
      ok_then (demand (secret_key \<noteq> []) ''SECRET_KEY'') (\<lambda>_.
      ok_then (demand (project_version out \<noteq> []) ''project.version'') (\<lambda>_.
      ok_then (load_database out e debug) (\<lambda>db.
      ok_then (load_storage e) (\<lambda>store.
      ok_then (load_identity out e debug) (\<lambda>ident.
      ok_then (load_limits e) (\<lambda>limits.
      ok_then (load_cors e) (\<lambda>cors.
      ok_then (load_https e debug) (\<lambda>https.
      ok_then (load_actions e) (\<lambda>acts.
      ok_then (load_email e) (\<lambda>email.
      ok_then (demand (debug \<or> production_errors secret_key ident = []) (join_on CHR '','' (production_errors secret_key ident))) (\<lambda>_.
      ok_then (env_float e ''SENTRY_TRACES_SAMPLE_RATE'' (Decimal 0 0)) (\<lambda>rate.
        Inr \<lparr>cf_secret_key = secret_key, cf_debug = debug, cf_log_level = log_level e debug, cf_setup_token = var e ''SETUP_TOKEN'',
          cf_allowed_hosts = env_csv e ''ALLOWED_HOSTS'' [''localhost'', ''127.0.0.1''],
          cf_csrf_origins = env_csv e ''CSRF_TRUSTED_ORIGINS'' CSRF_ORIGINS, cf_version = project_version out,
          cf_redis_url = redis_url, cf_caches = caches_config redis_url,
          cf_scheduler = env_bool e ''SCHEDULER_ENABLED'' True,
          cf_broker = celery_broker_url redis_url (getenv e ''CELERY_BROKER_URL'' []),
          cf_database = db, cf_media_root = media_root out e, cf_storage = store, cf_identity = ident, cf_limits = limits,
          cf_webdav = webdav_prefix e, cf_cors = cors, cf_https = https,
          cf_admin_enabled = env_bool e ''DJANGO_ADMIN_ENABLED'' True, cf_actions = acts, cf_email = email,
          cf_sentry = sentry_config out e debug, cf_traces_rate = rate\<rparr>)))))))))))))"

section \<open>\<open>checks.py\<close>\<close>

datatype key_problem = Empty_Key | Placeholder_Key | Short_Key

text \<open>\<open>str.casefold\<close> below code point 256, where it keeps a letter outside of ASCII that the words do not have.\<close>

definition casefold :: "string \<Rightarrow> string" where
  "casefold s = concat (map (\<lambda>c. if code_point c = 223 then ''ss'' else [c]) (lower s))"

definition secret_key_problem :: "string \<Rightarrow> key_problem option" where
  "secret_key_problem secret_key =
     (let k = strip secret_key; folded = casefold k in
      if k = [] then Some Empty_Key
      else if prefix ''django-insecure-'' folded \<or> prefix ''change-me-generate-a-strong-secret-key'' folded \<or>
        folded \<in> {''changeme'', ''change-me'', ''secret'', ''password''} then Some Placeholder_Key
      else if length k < 50 then Some Short_Key else None)"

text \<open>
  What is documented of those checks: Django refuses an origin of \<open>CSRF_TRUSTED_ORIGINS\<close> without a scheme (\<open>4_0.E001\<close>), and
  django-cors-headers an origin of \<open>CORS_ALLOWED_ORIGINS\<close> without a scheme or a host, or with more than these (\<open>E013\<close>, \<open>E014\<close>);
  with neither, and the usual path of WebDAV in the URL table, they report no error, as everything else that they look at is
  fixed in the source.
\<close>

definition csrf_origin_ok :: "string \<Rightarrow> bool" where
  "csrf_origin_ok origin \<longleftrightarrow> search (prefix ''://'') origin"

definition cors_origin_ok :: "string \<Rightarrow> bool" where
  "cors_origin_ok origin \<longleftrightarrow>
     (case urlsplit origin of None \<Rightarrow> False
      | Some u \<Rightarrow> u_scheme u \<noteq> [] \<and> u_netloc u \<noteq> [] \<and> u_path u = [] \<and> u_query u = [] \<and> behind CHR ''#'' origin = [])"

definition checks_documented :: "(config \<Rightarrow> string list) \<Rightarrow> bool" where
  "checks_documented library \<longleftrightarrow> (\<forall>cf.
     (library cf = [] \<longrightarrow> (\<forall>origin \<in> set (cf_csrf_origins cf). csrf_origin_ok origin)) \<and>
     ((\<forall>origin \<in> set (cf_csrf_origins cf). csrf_origin_ok origin) \<and>
      (\<forall>origin \<in> set (cc_origins (cf_cors cf)). cors_origin_ok origin) \<and> cf_webdav cf \<in> {None, Some ''/dav''} \<longrightarrow>
      library cf = []))"

datatype check_message = E004_Redis | W001_Loc_Mem | E005_Key key_problem | Library_Error string

definition redis_required :: "config \<Rightarrow> check_message list" where
  "redis_required cf = (if cf_debug cf \<or> strip (cf_redis_url cf) \<noteq> [] then [] else [E004_Redis])"

definition shared_cache_recommended :: "config \<Rightarrow> osenv \<Rightarrow> startup_error + check_message list" where
  "shared_cache_recommended cf e =
     (if cf_debug cf \<or> cf_caches cf \<noteq> Loc_Mem_Cache then Inr []
      else ok_then (env_int e ''GUNICORN_WORKERS'' 2) (\<lambda>workers. Inr (if workers \<le> 1 then [] else [W001_Loc_Mem])))"

definition secret_key_strength :: "config \<Rightarrow> check_message list" where
  "secret_key_strength cf =
     (if cf_debug cf then []
      else case secret_key_problem (cf_secret_key cf) of None \<Rightarrow> [] | Some problem \<Rightarrow> [E005_Key problem])"

text \<open>
  \<open>check --deploy\<close> runs the checks above and those of Django and the installed packages, a parameter of which only the errors
  matter: it fails on errors, not on warnings. Before it the log configuration is applied, which refuses a level that Python
  does not know.
\<close>

definition check_deploy :: "(config \<Rightarrow> string list) \<Rightarrow> config \<Rightarrow> osenv \<Rightarrow> startup_error + check_message list" where
  "check_deploy library cf e =
     ok_then (shared_cache_recommended cf e) (\<lambda>cache_messages.
       Inr (map Library_Error (library cf) @ redis_required cf @ cache_messages @ secret_key_strength cf))"

definition LOG_LEVELS :: "string list" where
  "LOG_LEVELS = [''CRITICAL'', ''FATAL'', ''ERROR'', ''WARN'', ''WARNING'', ''INFO'', ''DEBUG'', ''NOTSET'']"

definition service_starts :: "config outside \<Rightarrow> osenv \<Rightarrow> config option" where
  "service_starts out e =
     (case load_settings out e of
        Inl _ \<Rightarrow> None
      | Inr cf \<Rightarrow>
          if cf_log_level cf \<notin> set LOG_LEVELS then None
          else (case check_deploy (library_errors out) cf e of
              Inl _ \<Rightarrow> None
            | Inr messages \<Rightarrow> if set messages \<subseteq> {W001_Loc_Mem} then Some cf else None))"

text \<open>What authentication reads.\<close>

definition auth_settings_of :: "config \<Rightarrow> auth_settings" where
  "auth_settings_of cf = (let ident = cf_identity cf in
     \<lparr>IDENTITY_ISSUER = ic_issuer ident, IDENTITY_AUDIENCE = ic_audience ident, JWT_ALGORITHMS = ic_algorithms ident,
      JWT_HS256_FALLBACK_SECRET = ic_hs256_secret ident, ALLOW_JWT_HS256_FALLBACK = ic_allow_hs256 ident,
      DEBUG = cf_debug cf\<rparr>)"

section \<open>What a service that starts can rely on\<close>

lemma ok_then_Inr: "ok_then r f = Inr y \<longleftrightarrow> (\<exists>x. r = Inr x \<and> f x = Inr y)"
  by (cases r) (simp_all add: ok_then_def)

lemma demand_Inr: "demand ok name = Inr u \<longleftrightarrow> ok"
  by (simp add: demand_def)

lemmas loads = ok_then_Inr demand_Inr Let_def

lemma loaded_settings:
  assumes "load_settings out e = Inr cf"
  shows "cf_debug cf = debug_on e" "cf_secret_key cf = var e ''SECRET_KEY''" "cf_redis_url cf = var e ''REDIS_URL''"
    "load_storage e = Inr (cf_storage cf)" "load_identity out e (debug_on e) = Inr (cf_identity cf)"
    "load_cors e = Inr (cf_cors cf)" "load_https e (debug_on e) = Inr (cf_https cf)" "load_email e = Inr (cf_email cf)"
    "load_limits e = Inr (cf_limits cf)"
    "debug_on e \<or> production_errors (var e ''SECRET_KEY'') (cf_identity cf) = []"
    "cf_csrf_origins cf = env_csv e ''CSRF_TRUSTED_ORIGINS'' CSRF_ORIGINS"
  using assms unfolding load_settings_def loads by auto

lemma loaded_identity:
  assumes "load_identity out e debug = Inr ident"
  shows "ic_issuer ident = var_or_none e ''IDENTITY_ISSUER''" "ic_audience ident = var_or_none e ''IDENTITY_AUDIENCE''"
    "ic_hs256_secret ident \<noteq> None \<Longrightarrow> debug \<or> ic_allow_hs256 ident"
    "ic_jwks ident = None \<Longrightarrow> \<exists>url. ic_jwks_url ident = Some url \<and> http_url url"
    "ic_jwks ident = Some (document, source) \<Longrightarrow> \<exists>ks. map_of document ''keys'' = Some (JList ks) \<and> ks \<noteq> []"
proof -
  note run = assms [unfolded load_identity_def loads]
  show "ic_issuer ident = var_or_none e ''IDENTITY_ISSUER''" "ic_audience ident = var_or_none e ''IDENTITY_AUDIENCE''"
    "ic_hs256_secret ident \<noteq> None \<Longrightarrow> debug \<or> ic_allow_hs256 ident"
    "ic_jwks ident = None \<Longrightarrow> \<exists>url. ic_jwks_url ident = Some url \<and> http_url url"
    using run by auto
  have parsed: "\<exists>ks. map_of d ''keys'' = Some (JList ks) \<and> ks \<noteq> []" if "parse_jwks_document out raw src = Inr d" for raw src d
    using that unfolding parse_jwks_document_def by (auto split: option.splits json.splits if_splits)
  show "\<exists>ks. map_of document ''keys'' = Some (JList ks) \<and> ks \<noteq> []" if "ic_jwks ident = Some (document, source)"
  proof -
    have "load_static_jwks out e = Inr (Some (document, source))" using run that by auto
    then show ?thesis
      unfolding load_static_jwks_def loads using parsed by (auto simp: ok_then_Inr split: if_splits option.splits sum.splits)
  qed
qed

lemma loaded_production:
  "production_errors k ident = [] \<longleftrightarrow> ic_issuer ident \<noteq> None \<and> ic_audience ident \<noteq> None \<and> strong_key k"
  by (auto simp: production_errors_def)

lemma var_or_none_set: "var_or_none e name \<noteq> None \<Longrightarrow> var_or_none e name = Some (var e name) \<and> var e name \<noteq> []"
  by (auto simp: var_or_none_def split: if_splits)

lemma loaded_cors: "load_cors e = Inr cors \<Longrightarrow> \<not> (cc_all_origins cors \<and> cc_credentials cors)"
  unfolding load_cors_def loads by auto


text \<open>Two of the checks of the libraries, on the origins that come from the environment.\<close>

definition sample_checks :: "config \<Rightarrow> string list" where
  "sample_checks cf =
     map (\<lambda>_. ''4_0.E001'') (filter (\<lambda>origin. \<not> csrf_origin_ok origin) (cf_csrf_origins cf)) @
     map (\<lambda>_. ''corsheaders.E013'') (filter (\<lambda>origin. \<not> cors_origin_ok origin) (cc_origins (cf_cors cf)))"

lemma sample_checks_documented: "checks_documented sample_checks"
  by (auto simp: checks_documented_def sample_checks_def filter_empty_conv)

definition sample_outside :: "config outside" where
  "sample_outside = \<lparr>base_dir = ''/app'', project_version = ''1'', read_file = (\<lambda>path. None), parse_json = (\<lambda>txt. None),
     parse_database = (\<lambda>url ssl. True), working_dir = ''/app'', library_errors = sample_checks\<rparr>"

definition sample_environment :: osenv where
  "sample_environment = map_of
     [(''SECRET_KEY'', '' abcdefghijklmnopqrstuvwxyz0123456789abcdefghijklmnopqrstuvwxyz ''), (''REDIS_URL'', ''redis://r''),
      (''IDENTITY_ISSUER'', ''id''), (''IDENTITY_AUDIENCE'', ''storage''), (''IDENTITY_SERVICE_URL'', ''https://id/''),
      (''MAX_UPLOAD_BYTES'', ''2G''), (''STORAGE_BACKEND'', ''S3''), (''AWS_STORAGE_BUCKET_NAME'', ''files''),
      (''AWS_S3_ENDPOINT_URL'', ''files.s3.gra.io.cloud.ovh.net/files'')]"

text \<open>The token \<open>user\<close> is from the issuer \<open>id\<close> for the audience \<open>storage\<close>.\<close>

definition issuer_lib :: jwt_lib where
  "issuer_lib = \<lparr>jwt_header = (\<lambda>raw. Inr (Some ''k2'', Some ''RS256'')),
     jwt_decode = (\<lambda>raw k v.
       if raw = ''user'' \<and> k = ''rsa'' \<and> v_require v = [''exp''] \<and> v_audience v = Some ''storage'' \<and> v_issuer v = Some ''id''
       then Inr ((''iss'', JStr ''id'') # sample_claims raw) else Inl Invalid_Token),
     b64_utf8 = (\<lambda>s. None)\<rparr>"

lemma issuer_lib_verifies: "verifies issuer_lib"
  by (auto simp: verifies_def issuer_lib_def sample_claims_def audiences_def split: if_splits)

definition sample_config :: config where
  "sample_config = the (service_starts sample_outside sample_environment)"

lemma sample_start: "service_starts sample_outside sample_environment \<noteq> None"
  by code_simp

definition sample_identity :: identity_config where
  "sample_identity = \<lparr>ic_jwks = None, ic_service_url = Some ''https://id'',
     ic_jwks_url = Some ''https://id/.well-known/jwks.json'', ic_issuer = Some ''id'', ic_audience = Some ''storage'',
     ic_cache_ttl = 900, ic_timeout = Decimal 15 0, ic_retries = 2, ic_hs256_secret = None, ic_allow_hs256 = False, ic_algorithms = [''RS256'']\<rparr>"

definition issuer_settings :: auth_settings where
  "issuer_settings = \<lparr>IDENTITY_ISSUER = Some ''id'', IDENTITY_AUDIENCE = Some ''storage'', JWT_ALGORITHMS = [''RS256''],
     JWT_HS256_FALLBACK_SECRET = None, ALLOW_JWT_HS256_FALLBACK = False, DEBUG = False\<rparr>"

lemma sample_loads:
  "load_identity sample_outside sample_environment False = Inr sample_identity"
  "\<not> debug_on sample_environment"
  by code_simp+

lemma issuer_accepts:
  "fst (authenticate_credentials issuer_lib issuer_settings ''user'' sample_jwks) = Authenticated (user_of 7 2)"
  by code_simp

lemma sample_config_facts:
  "service_starts sample_outside sample_environment = Some sample_config"
  "\<not> cf_debug sample_config"
  "auth_settings_of sample_config = issuer_settings"
proof -
  show start: "service_starts sample_outside sample_environment = Some sample_config"
    using sample_start by (auto simp: sample_config_def)
  then have "load_settings sample_outside sample_environment = Inr sample_config"
    by (auto simp: service_starts_def split: sum.splits if_splits)
  note cf = loaded_settings [OF this]
  show "\<not> cf_debug sample_config" using cf(1) sample_loads(2) by simp
  moreover have "cf_identity sample_config = sample_identity" using cf(5) sample_loads by simp
  ultimately show "auth_settings_of sample_config = issuer_settings"
    by (simp add: auth_settings_of_def Let_def issuer_settings_def sample_identity_def)
qed

lemma sample_storage:
  "case load_storage sample_environment of
     Inr sc \<Rightarrow> sc_endpoint sc = Some ''https://s3.gra.io.cloud.ovh.net'' \<and> sc_region sc = ''gra'' \<and> sc_addressing_style sc = ''virtual''
   | Inl _ \<Rightarrow> False"
  "case load_limits sample_environment of Inr lc \<Rightarrow> lc_max_upload lc = 2147483648 | Inl _ \<Rightarrow> False"
  by code_simp+


end
