(* ===== verification/Grant_Migration.thy ===== *)
theory Grant_Migration
  imports Upload
begin

text \<open>
  \<open>storage/migrations/0005_grant_foreign_keys.py\<close>: the grants, which named a bucket, a folder or an object by text,
  get foreign keys. The table before is a list of \<open>old_grant\<close>; the rows after it are those of Models. A row is
  rewritten or deleted; a folder without a marker gets one. The columns and constraints that are added and removed are
  the difference between the two types. The contract is \<open>grant_migration_exact\<close>.
\<close>

section \<open>The table before\<close>

record old_grant =
  og_id :: uuid
  og_company_id :: int
  og_bucket_name :: string
  og_resource_type :: string
  og_resource_id :: string
  og_subject_type :: SubjectType
  og_subject_id :: string
  og_permission :: Permission
  og_effect :: Effect
  og_created_by_id :: "int option"
  og_created_at :: int
  og_updated_at :: int
  og_expires_at :: "int option"
  og_notes :: string

definition migrated_row :: "old_grant \<Rightarrow> bucket \<Rightarrow> ResourceType \<Rightarrow> uuid option \<Rightarrow> access_grant" where
  "migrated_row og b rt target =
     \<lparr>g_id = og_id og, g_company_id = og_company_id og, g_bucket = b_id b, g_object = target,
      g_subject_type = og_subject_type og, g_subject_id = og_subject_id og, g_resource_type = rt,
      g_permission = og_permission og, g_effect = og_effect og, g_created_by_id = og_created_by_id og,
      g_created_at = og_created_at og, g_updated_at = og_updated_at og, g_expires_at = og_expires_at og,
      g_notes = og_notes og\<rparr>"

section \<open>The migration\<close>

definition old_bucket_name :: "old_grant \<Rightarrow> string" where
  "old_bucket_name og =
     (let given = strip (og_bucket_name og);
          name = (if og_resource_type og = ''bucket'' \<and> given = [] then strip (og_resource_id og) else given) in
      if name = [] then ''company'' else name)"

definition old_resource :: "old_grant \<Rightarrow> string" where
  "old_resource og = strip_slashes (strip (og_resource_id og))"

definition migration_key :: "int \<Rightarrow> string \<Rightarrow> string \<Rightarrow> uuid \<Rightarrow> string" where
  "migration_key company_id bucket_name object_name object_id =
     (let base = (if basename object_name = [] then ''blob'' else basename object_name) in
      ''shellui/'' @ str_int company_id @ slash # bucket_name @ slash # str_uuid object_id @ slash # base)"

text \<open>The object a grant named: by its identifier in the bucket, else by its path.\<close>

definition old_target :: "world \<Rightarrow> bucket \<Rightarrow> string \<Rightarrow> storage_object option" where
  "old_target w b rid =
     (case (case parse_uuid rid of None \<Rightarrow> None
         | Some u \<Rightarrow> first_where (\<lambda>obj. o_bucket obj = b_id b \<and> o_id obj = u) (w_objects w)) of
        Some obj \<Rightarrow> Some obj
      | None \<Rightarrow> if rid \<noteq> [] then find_object w b rid else None)"

text \<open>The marker of a folder, created when the folder has none; no blob is written for it.\<close>

definition migrate_marker :: "bucket \<Rightarrow> string \<Rightarrow> storage_object act" where
  "migrate_marker b name =
     bindE (gets (\<lambda>w. find_object w b name)) (\<lambda>existing.
       case existing of Some obj \<Rightarrow> ret obj
       | None \<Rightarrow>
           bindE fresh_uuid (\<lambda>i.
           bindE (gets w_clock) (\<lambda>now.
           insert_object (new_object i b name None 0 [] ''application/octet-stream'' []
             (migration_key (b_company_id b) (b_name b) name i) now))))"

definition keep_grant :: "access_grant \<Rightarrow> unit act" where
  "keep_grant g = bindE (insert_grant g) (\<lambda>_. ret ())"

text \<open>One row of the table: it is rewritten, or deleted (\<open>ret ()\<close>).\<close>

definition migrate_grant :: "old_grant \<Rightarrow> unit act" where
  "migrate_grant og =
     bindE (gets (\<lambda>w. bucket_by_name w (og_company_id og) (old_bucket_name og))) (\<lambda>found.
       case found of None \<Rightarrow> ret ()
       | Some b \<Rightarrow>
           if og_resource_type og = ''bucket'' then keep_grant (migrated_row og b RESOURCE_BUCKET None)
           else if og_resource_type og = ''object'' then
             bindE (gets (\<lambda>w. old_target w b (old_resource og))) (\<lambda>target.
               case target of None \<Rightarrow> ret () | Some obj \<Rightarrow> keep_grant (migrated_row og b RESOURCE_OBJECT (Some (o_id obj))))
           else if og_resource_type og = ''folder'' then
             bindE (migrate_marker b (folder_placeholder_path (old_resource og))) (\<lambda>obj.
               keep_grant (migrated_row og b RESOURCE_FOLDER (Some (o_id obj))))
           else ret ())"

definition forwards_grant_fks :: "old_grant list \<Rightarrow> unit act" where
  "forwards_grant_fks rows = forE rows migrate_grant"

section \<open>What becomes of a grant\<close>

text \<open>A grant that is lost: its bucket or its object is not there.\<close>

definition lost :: "world \<Rightarrow> old_grant \<Rightarrow> bool" where
  "lost w og \<longleftrightarrow>
     (case bucket_by_name w (og_company_id og) (old_bucket_name og) of
        None \<Rightarrow> True
      | Some b \<Rightarrow> og_resource_type og = ''object'' \<and> old_target w b (old_resource og) = None \<or>
          og_resource_type og \<notin> {''bucket'', ''object'', ''folder''})"

text \<open>A grant that is kept: the same subject, permission and effect on what it named before.\<close>

definition points_to :: "world \<Rightarrow> old_grant \<Rightarrow> bucket \<Rightarrow> ResourceType \<times> uuid option \<Rightarrow> bool" where
  "points_to w og b rt_target \<longleftrightarrow>
     (case rt_target of
        (RESOURCE_BUCKET, target) \<Rightarrow> og_resource_type og = ''bucket'' \<and> target = None
      | (RESOURCE_FOLDER, target) \<Rightarrow> og_resource_type og = ''folder'' \<and>
          (\<exists>obj \<in> set (w_objects w). o_bucket obj = b_id b \<and> o_name obj = folder_placeholder_path (old_resource og) \<and>
             target = Some (o_id obj))
      | (RESOURCE_OBJECT, target) \<Rightarrow> og_resource_type og = ''object'' \<and>
          (\<exists>obj \<in> set (w_objects w). o_bucket obj = b_id b \<and>
             (parse_uuid (old_resource og) = Some (o_id obj) \<or> o_name obj = old_resource og) \<and> target = Some (o_id obj)))"

definition rewritten :: "world \<Rightarrow> old_grant \<Rightarrow> access_grant \<Rightarrow> bool" where
  "rewritten w og g \<longleftrightarrow>
     (\<exists>b rt target. bucket_by_name w (og_company_id og) (old_bucket_name og) = Some b \<and>
        g = migrated_row og b rt target \<and> points_to w og b (rt, target))"

definition folder_marker :: "world \<Rightarrow> storage_object \<Rightarrow> bool" where
  "folder_marker w obj \<longleftrightarrow> o_size obj = 0 \<and> o_owner_id obj = None \<and>
     (\<exists>b \<in> set (w_buckets w). \<exists>folder. o_bucket obj = b_id b \<and> o_company_id obj = b_company_id b \<and>
        o_name obj = folder_placeholder_path folder)"

text \<open>One row or a run of rows: the buckets stay, and objects and grants are only added.\<close>

definition migrates :: "old_grant list \<Rightarrow> world \<Rightarrow> world \<Rightarrow> bool" where
  "migrates rows w w' \<longleftrightarrow>
     schema_ok w' \<and> tenant_ok w' \<and> supply_ok w' \<and> w_buckets w' = w_buckets w \<and>
     (\<exists>markers. w_objects w' = w_objects w @ markers \<and> (\<forall>x \<in> set markers. folder_marker w x)) \<and>
     (\<exists>kept. w_grants w' = w_grants w @ kept \<and>
        (\<forall>g \<in> set kept. \<exists>og \<in> set rows. rewritten w' og g) \<and>
        (\<forall>og \<in> set rows. lost w og \<or> (\<exists>g \<in> set kept. rewritten w' og g)))"

section \<open>A run\<close>

lemma bucket_by_nameD:
  "bucket_by_name w c n = Some b \<Longrightarrow> b \<in> set (w_buckets w) \<and> b_company_id b = c \<and> b_name b = n"
  by (auto simp: bucket_by_name_def dest: first_where_Some)

lemma old_targetD:
  "old_target w b rid = Some obj \<Longrightarrow>
     obj \<in> set (w_objects w) \<and> o_bucket obj = b_id b \<and> (parse_uuid rid = Some (o_id obj) \<or> o_name obj = rid)"
  by (auto simp: old_target_def dest!: first_where_Some find_objectD split: option.splits if_splits)

lemma old_target_append:
  assumes "old_target w b rid \<noteq> None" "w_objects w' = w_objects w @ xs"
  shows "old_target w' b rid \<noteq> None"
  using assms by (auto simp: old_target_def find_object_def first_where_append split: option.splits if_splits)

lemma keep_grant_run:
  assumes "schema_ok w" "tenant_ok w" "supply_ok w" "og_id og \<notin> g_id ` set (w_grants w)" "og_id og < w_next_uuid w"
    "b \<in> set (w_buckets w)" "b_company_id b = og_company_id og" "points_to w og b (rt, target)"
  shows "\<exists>w'. keep_grant (migrated_row og b rt target) w = (Inr (), w') \<and> schema_ok w' \<and> tenant_ok w' \<and> supply_ok w' \<and>
     w_buckets w' = w_buckets w \<and> w_objects w' = w_objects w \<and> w_grants w' = w_grants w @ [migrated_row og b rt target]"
proof -
  let ?g = "migrated_row og b rt target"
  let ?w = "w\<lparr>w_grants := w_grants w @ [?g]\<rparr>"
  have known: "\<exists>obj \<in> set (w_objects w). target = Some (o_id obj) \<and> o_bucket obj = b_id b" if "target \<noteq> None"
    using assms(8) that by (auto simp: points_to_def split: ResourceType.splits)
  have free: "\<not> grant_conflict ?g w"
    using assms(4,6,8) known
    by (auto simp: grant_conflict_def migrated_row_def grant_shape_def points_to_def split: ResourceType.splits)
  then have run: "insert_grant ?g w = (Inr ?g, ?w)" by (simp add: insert_grant_def)
  have "schema_ok ?w" using maintainsD [OF schema_insert_grant assms(1) run] .
  moreover have "grant_local w ?g"
  proof -
    have "distinct (map b_id (w_buckets w))" "distinct (map o_id (w_objects w))" using assms(1) by (simp_all add: schema_ok_def)
    note unique = distinct_key_unique [OF this(1)] distinct_key_unique [OF this(2)]
    have "bucket_company (w_buckets w) (b_id b) (og_company_id og)"
      using assms(6,7) unique(1) by (auto simp: bucket_company_def)
    moreover have "o_bucket obj = b_id b" if "obj \<in> set (w_objects w)" "target = Some (o_id obj)" for obj
      using known that unique(2) by (metis option.distinct(1) option.inject)
    ultimately show ?thesis by (simp add: grant_local_def migrated_row_def)
  qed
  then have "tenant_ok ?w" using tenant_add_grant [OF assms(2), of ?g "w_next_uuid w"] by simp
  moreover have "supply_ok ?w" using assms(3,5) by (simp add: supply_ok_def migrated_row_def)
  ultimately show ?thesis using run by (simp add: keep_grant_def bindE_def ret_def)
qed

lemma migrate_marker_run:
  assumes "schema_ok w" "tenant_ok w" "supply_ok w" "b \<in> set (w_buckets w)" "name = folder_placeholder_path folder"
  shows "\<exists>obj w' markers. migrate_marker b name w = (Inr obj, w') \<and> schema_ok w' \<and> tenant_ok w' \<and> supply_ok w' \<and>
     w_buckets w' = w_buckets w \<and> w_grants w' = w_grants w \<and> w_next_uuid w \<le> w_next_uuid w' \<and>
     w_objects w' = w_objects w @ markers \<and> (\<forall>x \<in> set markers. folder_marker w x) \<and>
     obj \<in> set (w_objects w') \<and> o_bucket obj = b_id b \<and> o_name obj = name"
proof (cases "find_object w b name")
  case (Some obj)
  then show ?thesis using assms find_objectD [OF Some] by (auto simp: migrate_marker_def bindE_def gets_def ret_def)
next
  case None
  let ?i = "w_next_uuid w" and ?w = "w\<lparr>w_next_uuid := Suc (w_next_uuid w)\<rparr>"
  let ?x = "new_object ?i b name None 0 [] ''application/octet-stream'' [] (migration_key (b_company_id b) (b_name b) name ?i) (w_clock w)"
  let ?w' = "?w\<lparr>w_objects := w_objects w @ [?x]\<rparr>"
  have ok: "schema_ok ?w" "tenant_ok ?w" using assms(1,2) stable_next [OF stable_schema_ok] stable_next [OF stable_tenant_ok] by simp_all
  have free: "\<not> object_exists ?x ?w"
    using assms(3,4) None
    by (auto simp: object_exists_def new_object_def supply_ok_def object_key_def find_object_def first_where_None)
  then have run: "insert_object ?x ?w = (Inr ?x, ?w')" by (simp add: insert_object_def)
  have "distinct (map b_id (w_buckets w))" using assms(1) by (simp add: schema_ok_def)
  then have "object_local ?w ?x"
    using assms(4) distinct_key_unique by (fastforce simp: object_local_def new_object_def bucket_company_def)
  then have "tenant_ok ?w'" using tenant_add_object [OF ok free] by simp
  moreover have "schema_ok ?w'" using maintainsD [OF schema_insert_object ok(1) run] .
  moreover have "supply_ok ?w'" using assms(3) by (auto simp: supply_ok_def new_object_def)
  moreover have "folder_marker w ?x" using assms(4,5) by (auto simp: folder_marker_def new_object_def)
  moreover have "migrate_marker b name w = (Inr ?x, ?w')"
    using None run by (simp add: migrate_marker_def bindE_def gets_def fresh_uuid_def)
  ultimately show ?thesis by (intro exI [of _ ?x] exI [of _ ?w'] exI [of _ "[?x]"]) (simp add: new_object_def)
qed

lemma points_mono: "points_to w og b x \<Longrightarrow> set (w_objects w) \<subseteq> set (w_objects w') \<Longrightarrow> points_to w' og b x"
  by (auto simp: points_to_def split: ResourceType.splits prod.splits)

lemma rewritten_mono:
  assumes "rewritten w og g" "w_buckets w' = w_buckets w" "set (w_objects w) \<subseteq> set (w_objects w')"
  shows "rewritten w' og g"
  using assms(1,2) points_mono [OF _ assms(3)] unfolding rewritten_def bucket_by_name_def by metis

lemma lost_mono:
  assumes "lost w' og" "w_buckets w' = w_buckets w" "w_objects w' = w_objects w @ xs"
  shows "lost w og"
proof -
  have "old_target w b (old_resource og) = None" if "old_target w' b (old_resource og) = None" for b
    using old_target_append [OF _ assms(3)] that by blast
  then show ?thesis using assms(1,2) by (auto simp: lost_def bucket_by_name_def split: option.splits)
qed

lemma migrates_none: "schema_ok w \<Longrightarrow> tenant_ok w \<Longrightarrow> supply_ok w \<Longrightarrow> lost w og \<Longrightarrow> migrates [og] w w"
  by (simp add: migrates_def)

lemma migrates_kept:
  assumes "schema_ok w'" "tenant_ok w'" "supply_ok w'" "w_buckets w' = w_buckets w" "w_objects w' = w_objects w @ markers"
    "\<forall>x \<in> set markers. folder_marker w x" "w_grants w' = w_grants w @ [migrated_row og b rt target]"
    "bucket_by_name w (og_company_id og) (old_bucket_name og) = Some b" "points_to w' og b (rt, target)"
  shows "migrates [og] w w'"
proof -
  have "rewritten w' og (migrated_row og b rt target)"
    using assms(4,8,9) unfolding rewritten_def bucket_by_name_def by metis
  then show ?thesis using assms(1-7) by (auto simp: migrates_def)
qed

lemma migrate_grant_run:
  assumes "schema_ok w" "tenant_ok w" "supply_ok w" "og_id og \<notin> g_id ` set (w_grants w)" "og_id og < w_next_uuid w"
  shows "\<exists>w'. migrate_grant og w = (Inr (), w') \<and> migrates [og] w w' \<and> w_next_uuid w \<le> w_next_uuid w'"
proof (cases "bucket_by_name w (og_company_id og) (old_bucket_name og)")
  case None
  then show ?thesis
    using migrates_none [OF assms(1-3), of og] by (simp add: migrate_grant_def bindE_def gets_def ret_def lost_def)
next
  case (Some b)
  note b = bucket_by_nameD [OF Some]
  have kept: "\<exists>w'. keep_grant (migrated_row og b rt target) w = (Inr (), w') \<and> migrates [og] w w' \<and> w_next_uuid w \<le> w_next_uuid w'"
    if target: "points_to w og b (rt, target)" for rt target
  proof -
    obtain w' where w': "keep_grant (migrated_row og b rt target) w = (Inr (), w')" "schema_ok w'" "tenant_ok w'" "supply_ok w'"
        "w_buckets w' = w_buckets w" "w_objects w' = w_objects w" "w_grants w' = w_grants w @ [migrated_row og b rt target]"
      using keep_grant_run [OF assms conjunct1 [OF b] _ target] b by blast
    moreover have "points_to w' og b (rt, target)" using points_mono [OF target] w'(6) by simp
    moreover have "w_next_uuid w' = w_next_uuid w"
      using w'(1) by (auto simp: keep_grant_def bindE_def insert_grant_def ret_def split: if_splits)
    ultimately show ?thesis using migrates_kept [OF w'(2-5), of "[]"] Some by auto
  qed
  consider "og_resource_type og = ''bucket''" | "og_resource_type og = ''object''" | "og_resource_type og = ''folder''"
    | "og_resource_type og \<notin> {''bucket'', ''object'', ''folder''}" by auto
  then show ?thesis
  proof cases
    case 1
    then show ?thesis
      using kept [of RESOURCE_BUCKET None] Some by (simp add: migrate_grant_def bindE_def gets_def points_to_def)
  next
    case 2
    show ?thesis
    proof (cases "old_target w b (old_resource og)")
      case None
      then show ?thesis
        using migrates_none [OF assms(1-3), of og] 2 Some by (simp add: migrate_grant_def bindE_def gets_def ret_def lost_def)
    next
      case (Some obj)
      then have "points_to w og b (RESOURCE_OBJECT, Some (o_id obj))" using old_targetD 2 by (fastforce simp: points_to_def)
      then show ?thesis
        using kept 2 Some \<open>bucket_by_name w (og_company_id og) (old_bucket_name og) = Some b\<close>
        by (simp add: migrate_grant_def bindE_def gets_def)
    qed
  next
    case 3
    obtain obj v markers where v: "migrate_marker b (folder_placeholder_path (old_resource og)) w = (Inr obj, v)"
        "schema_ok v" "tenant_ok v" "supply_ok v" "w_buckets v = w_buckets w" "w_grants v = w_grants w" "w_next_uuid w \<le> w_next_uuid v"
        "w_objects v = w_objects w @ markers" "\<forall>x \<in> set markers. folder_marker w x"
        "obj \<in> set (w_objects v)" "o_bucket obj = b_id b" "o_name obj = folder_placeholder_path (old_resource og)"
      using migrate_marker_run [OF assms(1-3) conjunct1 [OF b] refl] by metis
    have target: "points_to v og b (RESOURCE_FOLDER, Some (o_id obj))" using v 3 by (auto simp: points_to_def)
    have "og_id og \<notin> g_id ` set (w_grants v)" "og_id og < w_next_uuid v" "b \<in> set (w_buckets v)"
      using assms(4,5) v(5-7) b by simp_all
    then obtain w' where w': "keep_grant (migrated_row og b RESOURCE_FOLDER (Some (o_id obj))) v = (Inr (), w')" "schema_ok w'"
        "tenant_ok w'" "supply_ok w'" "w_buckets w' = w_buckets v" "w_objects w' = w_objects v"
        "w_grants w' = w_grants v @ [migrated_row og b RESOURCE_FOLDER (Some (o_id obj))]"
      using keep_grant_run [OF v(2-4) _ _ _ _ target] b by blast
    have "points_to w' og b (RESOURCE_FOLDER, Some (o_id obj))" using points_mono [OF target] w'(6) by simp
    then have "migrates [og] w w'" using migrates_kept [OF w'(2-4), of w markers] w' v Some by simp
    moreover have "w_next_uuid w \<le> w_next_uuid w'"
      using w'(1) v(7) by (auto simp: keep_grant_def bindE_def insert_grant_def ret_def split: if_splits)
    moreover have "migrate_grant og w = (Inr (), w')"
      using 3 Some v(1) w'(1) by (simp add: migrate_grant_def bindE_def gets_def)
    ultimately show ?thesis by blast
  next
    case 4
    then show ?thesis
      using migrates_none [OF assms(1-3), of og] Some by (simp add: migrate_grant_def bindE_def gets_def ret_def lost_def)
  qed
qed

lemma migrates_trans:
  assumes "migrates xs w v" "migrates ys v u"
  shows "migrates (xs @ ys) w u"
proof -
  obtain m1 k1 where a: "w_objects v = w_objects w @ m1" "\<forall>x \<in> set m1. folder_marker w x" "w_grants v = w_grants w @ k1"
      "\<forall>g \<in> set k1. \<exists>og \<in> set xs. rewritten v og g" "\<forall>og \<in> set xs. lost w og \<or> (\<exists>g \<in> set k1. rewritten v og g)"
      "w_buckets v = w_buckets w"
    using assms(1) unfolding migrates_def by blast
  obtain m2 k2 where b: "w_objects u = w_objects v @ m2" "\<forall>x \<in> set m2. folder_marker v x" "w_grants u = w_grants v @ k2"
      "\<forall>g \<in> set k2. \<exists>og \<in> set ys. rewritten u og g" "\<forall>og \<in> set ys. lost v og \<or> (\<exists>g \<in> set k2. rewritten u og g)"
      "w_buckets u = w_buckets v" "schema_ok u" "tenant_ok u" "supply_ok u"
    using assms(2) unfolding migrates_def by blast
  have later: "rewritten u og g" if "rewritten v og g" for og g
    using rewritten_mono [OF that b(6)] b(1) by simp
  have "\<forall>x \<in> set (m1 @ m2). folder_marker w x" using a(2,6) b(2) by (auto simp: folder_marker_def)
  moreover have "\<forall>g \<in> set (k1 @ k2). \<exists>og \<in> set (xs @ ys). rewritten u og g" using a(4) b(4) later by (auto; blast)
  moreover have "\<forall>og \<in> set (xs @ ys). lost w og \<or> (\<exists>g \<in> set (k1 @ k2). rewritten u og g)"
    using a(5) b(5) later lost_mono [OF _ a(6,1)] by (auto; blast)
  ultimately show ?thesis
    unfolding migrates_def using a b by (intro conjI exI [of _ "m1 @ m2"] exI [of _ "k1 @ k2"]) simp_all
qed

lemma rewritten_id: "rewritten w og g \<Longrightarrow> g_id g = og_id og"
  by (auto simp: rewritten_def migrated_row_def)

lemma migrate_rows:
  assumes "schema_ok w" "tenant_ok w" "supply_ok w" "distinct (map og_id rows)"
    "\<forall>og \<in> set rows. og_id og \<notin> g_id ` set (w_grants w) \<and> og_id og < w_next_uuid w"
  shows "\<exists>w'. forwards_grant_fks rows w = (Inr (), w') \<and> migrates rows w w'"
  using assms
proof (induction rows arbitrary: w)
  case Nil
  then show ?case by (simp add: forwards_grant_fks_def ret_def migrates_def)
next
  case (Cons og rows)
  obtain v where v: "migrate_grant og w = (Inr (), v)" "migrates [og] w v" "w_next_uuid w \<le> w_next_uuid v"
    using migrate_grant_run [OF Cons.prems(1-3), of og] Cons.prems(5) by (meson list.set_intros(1))
  have ok: "schema_ok v" "tenant_ok v" "supply_ok v" using v(2) by (auto simp: migrates_def)
  obtain kept where kept: "w_grants v = w_grants w @ kept" "\<forall>g \<in> set kept. \<exists>og' \<in> set [og]. rewritten v og' g"
    using v(2) unfolding migrates_def by blast
  then have "\<forall>g \<in> set kept. g_id g = og_id og" using rewritten_id by fastforce
  then have "g_id ` set (w_grants v) \<subseteq> insert (og_id og) (g_id ` set (w_grants w))" using kept(1) by auto
  then have "\<forall>og' \<in> set rows. og_id og' \<notin> g_id ` set (w_grants v) \<and> og_id og' < w_next_uuid v"
    using Cons.prems(4,5) v(3) by (auto simp: image_iff subset_iff) (metis dual_order.strict_trans1)+
  then obtain w' where w': "forwards_grant_fks rows v = (Inr (), w')" "migrates rows v w'"
    using Cons.IH [OF ok] Cons.prems(4) by auto
  have "forwards_grant_fks (og # rows) w = (Inr (), w')"
    using v(1) w'(1) by (simp add: forwards_grant_fks_def seqE_def bindE_def)
  moreover have "migrates ([og] @ rows) w w'" by (rule migrates_trans [OF v(2) w'(2)])
  ultimately show ?case by auto
qed

lemma forwards_no_blobs: "keeps (\<lambda>w w'. w_blobs w' = w_blobs w) (forwards_grant_fks rows)"
proof -
  have rel: "reflp (\<lambda>w w'. w_blobs w' = w_blobs w)" "transp (\<lambda>w w'. w_blobs w' = w_blobs w)"
    by (auto simp: reflp_def transp_def)
  have "keeps (\<lambda>w w'. w_blobs w' = w_blobs w) fresh_uuid" "keeps (\<lambda>w w'. w_blobs w' = w_blobs w) (insert_object x)"
    "keeps (\<lambda>w w'. w_blobs w' = w_blobs w) (insert_grant g)" for x g
    by (simp_all add: keeps_def fresh_uuid_def insert_object_def insert_grant_def)
  note rules = keeps_bindE [OF rel(2)] keeps_forE [OF rel] this keeps_readers [OF rel(1)]
  show ?thesis
    unfolding forwards_grant_fks_def migrate_grant_def migrate_marker_def keep_grant_def Let_def
    by (intro rules allI impI conjI | simp split: option.splits)+
qed

lemma strip_where_whole:
  assumes "length s \<le> length (strip_where P s)"
  shows "strip_where P s = s"
proof -
  obtain a b where s: "s = a @ strip_where P s @ b" using strip_where_infix by blast
  then have "length s = length a + length (strip_where P s) + length b" by (metis add.assoc length_append)
  then have "a = []" "b = []" using assms by simp_all
  then show ?thesis using s by simp
qed

lemma length_strip_where: "length (strip_where P s) \<le> length s"
proof -
  obtain a b where "s = a @ strip_where P s @ b" using strip_where_infix by blast
  then have "length s = length a + length (strip_where P s) + length b" by (metis add.assoc length_append)
  then show ?thesis by simp
qed

lemma normal_plain:
  assumes "normalize_slashes s = s"
  shows "strip s = s" "strip_slashes s = s"
proof -
  have "length s \<le> length (strip s)"
    using length_strip_where [of "\<lambda>c. c = slash" "strip s"] assms by (simp add: normalize_slashes_def strip_slashes_def)
  then show "strip s = s" using strip_where_whole unfolding strip_def by metis
  then show "strip_slashes s = s" using assms by (simp add: normalize_slashes_def)
qed

lemma normal_append:
  assumes "normalize_slashes s = s" "s \<noteq> []" "t \<noteq> []" "last t \<noteq> slash" "\<not> is_space (last t)"
  shows "normalize_slashes (s @ t) = s @ t"
proof -
  have "stripped is_space s" "stripped (\<lambda>c. c = slash) s"
    using normal_plain [OF assms(1)] stripped_strip_where unfolding strip_def strip_slashes_def by metis+
  then have "stripped is_space (s @ t)" "stripped (\<lambda>c. c = slash) (s @ t)" using assms(2-) by (simp_all add: stripped_def)
  then show ?thesis by (simp add: normalize_slashes_def strip_def strip_slashes_def strip_where_id)
qed

lemma marker_folder:
  assumes "normalize_slashes rid = rid"
  shows "folder_path_from_placeholder (folder_placeholder_path rid) = rid"
proof (cases "rid = []")
  case True
  have "folder_path_from_placeholder (folder_placeholder_path []) = []" by code_simp
  then show ?thesis using True by simp
next
  case False
  let ?sfx = "slash # FOLDER_PLACEHOLDER_NAME"
  have "last ?sfx \<noteq> slash" "\<not> is_space (last ?sfx)" by code_simp+
  then have "normalize_slashes (rid @ ?sfx) = rid @ ?sfx" by (intro normal_append assms False) simp_all
  moreover have "length (rid @ ?sfx) \<noteq> length FOLDER_PLACEHOLDER_NAME" by simp
  then have "rid @ ?sfx \<noteq> FOLDER_PLACEHOLDER_NAME" by metis
  moreover have "suffix ?sfx (rid @ ?sfx)" by (rule suffixI) simp
  ultimately show ?thesis using False assms by (simp add: folder_path_from_placeholder_def folder_placeholder_path_def Let_def)
qed

lemma rewritten_folder_covers:
  assumes "schema_ok w" "rewritten w og g" "og_resource_type og = ''folder''" "normalize_slashes (old_resource og) = old_resource og"
    "g_bucket g = b_id b"
  shows "resource_matches_grant w g b path i = folder_matches (old_resource og) (normalize_path path)"
proof -
  obtain obj where obj: "obj \<in> set (w_objects w)" "o_name obj = folder_placeholder_path (old_resource og)"
      "g_object g = Some (o_id obj)" "g_resource_type g = RESOURCE_FOLDER"
  proof -
    obtain b' rt target where g: "g = migrated_row og b' rt target" "points_to w og b' (rt, target)"
      using assms(2) unfolding rewritten_def by blast
    then show ?thesis using that assms(3) by (cases rt) (auto simp: points_to_def migrated_row_def)
  qed
  have "object_by_id w (o_id obj) = Some obj"
    unfolding object_by_id_def using assms(1) obj(1) by (intro first_where_key) (simp_all add: schema_ok_def)
  then show ?thesis
    using obj assms(5) by (simp add: resource_matches_grant_def object_name_of_def marker_folder [OF assms(4)])
qed

text \<open>
  C37. The migration of grants loses no right and invents none. It completes on every table of grants and leaves a
  database that satisfies the schema and keeps the companies apart, with the same buckets and blobs, and no object
  changed but for new empty folder markers. Every grant it leaves is one of the old ones, with the same subject,
  permission, effect and expiry, on the bucket, folder or object it named; a grant is gone only when that bucket or
  object is not there; and a grant on a folder covers exactly the paths of the folder it named.
\<close>

theorem grant_migration_exact:
  assumes "schema_ok w" "tenant_ok w" "supply_ok w" "w_grants w = []" "distinct (map og_id rows)"
    "\<forall>og \<in> set rows. og_id og < w_next_uuid w"
  shows "\<exists>w'. forwards_grant_fks rows w = (Inr (), w') \<and> schema_ok w' \<and> tenant_ok w' \<and>
     w_buckets w' = w_buckets w \<and> w_blobs w' = w_blobs w \<and>
     (\<exists>markers. w_objects w' = w_objects w @ markers \<and> (\<forall>x \<in> set markers. folder_marker w x)) \<and>
     (\<forall>g \<in> set (w_grants w'). \<exists>og \<in> set rows. rewritten w' og g) \<and>
     (\<forall>og \<in> set rows. lost w og \<or> (\<exists>g \<in> set (w_grants w'). rewritten w' og g \<and>
        (og_resource_type og = ''folder'' \<and> normalize_slashes (old_resource og) = old_resource og \<longrightarrow>
          (\<forall>b path i. g_bucket g = b_id b \<longrightarrow>
             resource_matches_grant w' g b path i = folder_matches (old_resource og) (normalize_path path)))))"
proof -
  obtain w' where w': "forwards_grant_fks rows w = (Inr (), w')" "migrates rows w w'"
    using migrate_rows [OF assms(1-3,5)] assms(4,6) by auto
  have "w_blobs w' = w_blobs w" using forwards_no_blobs [of rows] w'(1) by (simp add: keeps_def) (metis snd_conv)
  moreover have "schema_ok w'" using w'(2) by (simp add: migrates_def)
  ultimately show ?thesis using w' assms(4) rewritten_folder_covers [of w'] unfolding migrates_def by (simp; blast)
qed

text \<open>A share of one file with Bob, a folder closed to the company, and a grant on a file that is gone.\<close>

definition old_row :: "uuid \<Rightarrow> string \<Rightarrow> string \<Rightarrow> SubjectType \<Rightarrow> string \<Rightarrow> Effect \<Rightarrow> old_grant" where
  "old_row i rt rid st sid eff =
     \<lparr>og_id = i, og_company_id = 7, og_bucket_name = [], og_resource_type = rt, og_resource_id = rid, og_subject_type = st,
      og_subject_id = sid, og_permission = READ, og_effect = eff, og_created_by_id = Some 1, og_created_at = 0,
      og_updated_at = 0, og_expires_at = None, og_notes = []\<rparr>"

definition old_rows :: "old_grant list" where
  "old_rows = [old_row 4 ''object'' ''secret/plan.txt'' SUBJECT_USER ''2'' ALLOW,
     old_row 5 ''folder'' ''/reports/'' SUBJECT_COMPANY ''7'' DENY, old_row 6 ''object'' ''gone.txt'' SUBJECT_USER ''2'' ALLOW]"

definition migration_world :: world where
  "migration_world = empty_world\<lparr>w_objects := [secret_file]\<rparr>"

lemma migration_world_ok: "schema_ok migration_world" "tenant_ok migration_world" "supply_ok migration_world"
  by (simp_all add: migration_world_def sample_defs schema_ok_def tenant_ok_def local_defs supply_ok_def bucket_company_def)

lemma old_rows_facts:
  "\<not> lost migration_world (old_rows ! 1)" "lost migration_world (old_rows ! 2)"
  "old_resource (old_rows ! 1) = ''reports''" "normalize_slashes ''reports'' = ''reports''"
  "folder_matches ''reports'' (normalize_path (Some ''reports/2026.txt''))"
  "bucket_by_name migration_world (og_company_id (old_rows ! 1)) (old_bucket_name (old_rows ! 1)) = Some company_bucket"
  by code_simp+

lemma grant_migration_exact_witness:
  "\<exists>w'. forwards_grant_fks old_rows migration_world = (Inr (), w') \<and>
     (\<exists>g \<in> set (w_grants w'). g_effect g = DENY \<and> resource_matches_grant w' g company_bucket (Some ''reports/2026.txt'') None)"
proof -
  have start: "w_grants migration_world = []" "distinct (map og_id old_rows)" "\<forall>og \<in> set old_rows. og_id og < w_next_uuid migration_world"
    by (simp_all add: migration_world_def empty_world_def old_rows_def old_row_def)
  obtain w' where w': "forwards_grant_fks old_rows migration_world = (Inr (), w')" "w_buckets w' = w_buckets migration_world"
    "\<forall>og \<in> set old_rows. lost migration_world og \<or> (\<exists>g \<in> set (w_grants w'). rewritten w' og g \<and>
        (og_resource_type og = ''folder'' \<and> normalize_slashes (old_resource og) = old_resource og \<longrightarrow>
          (\<forall>b path i. g_bucket g = b_id b \<longrightarrow>
             resource_matches_grant w' g b path i = folder_matches (old_resource og) (normalize_path path))))"
    using grant_migration_exact [OF migration_world_ok start] by blast
  have "old_rows ! 1 \<in> set old_rows" "og_resource_type (old_rows ! 1) = ''folder''" "og_effect (old_rows ! 1) = DENY"
    by (simp_all add: old_rows_def old_row_def)
  then obtain g where g: "g \<in> set (w_grants w')" "rewritten w' (old_rows ! 1) g"
      "\<forall>b path i. g_bucket g = b_id b \<longrightarrow>
         resource_matches_grant w' g b path i = folder_matches ''reports'' (normalize_path path)"
    using w'(3) old_rows_facts(1,3,4) by metis
  have "g_effect g = DENY" using g(2) by (auto simp: rewritten_def migrated_row_def old_rows_def old_row_def)
  moreover have "bucket_by_name w' (og_company_id (old_rows ! 1)) (old_bucket_name (old_rows ! 1)) = Some company_bucket"
    using w'(2) old_rows_facts(6) unfolding bucket_by_name_def by metis
  then have "g_bucket g = b_id company_bucket" using g(2) by (auto simp: rewritten_def migrated_row_def)
  then have "resource_matches_grant w' g company_bucket (Some ''reports/2026.txt'') None" using g(3) old_rows_facts(5) by simp
  ultimately show ?thesis using w'(1) g(1) by blast
qed

end
