(* ===== verification/Service_Edge.thy ===== *)
theory Service_Edge
  imports Settings
begin

text \<open>
  The edge of the service, before and around the applications: the request id of \<open>config/request_context.py\<close>, the
  liveness probe of \<open>config/liveness.py\<close>, the answers to errors of \<open>config/errors.py\<close> and
  \<open>config/exceptions.py\<close>, and the page of \<open>config/views.py\<close> on which the first superuser is created. Django's forms,
  password validators and templates are parameters; the links and texts of the page are left out, and so is the log
  line of a failed request. The contract is \<open>bootstrap_guarded\<close>.
\<close>

section \<open>Requests\<close>

text \<open>A request as the middlewares see it. Headers are looked up by their name; a missing parameter is the empty text.\<close>

record http_request =
  hq_method :: string
  hq_path :: string
  hq_header :: "string \<Rightarrow> string"
  hq_query :: "string \<Rightarrow> string"
  hq_form :: "string \<Rightarrow> string"
  hq_request_id :: string

record http_response =
  hp_status :: int
  hp_body :: json
  hp_headers :: dict

section \<open>\<open>request_context.py\<close> and \<open>liveness.py\<close>\<close>

definition request_id :: "http_request \<Rightarrow> uuid \<Rightarrow> string" where
  "request_id rq fresh =
     (let incoming = strip (hq_header rq ''X-Request-ID'') in
      if incoming \<noteq> [] then take 64 incoming else take 12 (hex_digits 32 fresh))"

type_synonym application = "http_request \<Rightarrow> http_response"

definition request_id_middleware :: "application \<Rightarrow> uuid \<Rightarrow> application" where
  "request_id_middleware app fresh rq =
     (let i = request_id rq fresh; response = app (rq\<lparr>hq_request_id := i\<rparr>) in
      response\<lparr>hp_headers := dict_set ''X-Request-ID'' (JStr i) (hp_headers response)\<rparr>)"

definition LIVENESS_PATH :: string where "LIVENESS_PATH = ''/health/live''"

definition liveness_middleware :: "application \<Rightarrow> application" where
  "liveness_middleware app rq =
     (if hq_method rq \<in> {''GET'', ''HEAD''} \<and> rstrip_slash (hq_path rq) = LIVENESS_PATH
      then \<lparr>hp_status = 200, hp_body = JStr ''ok'', hp_headers = [(''Content-Type'', JStr ''text/plain'')]\<rparr>
      else app rq)"

text \<open>The two outermost middlewares, around everything else.\<close>

definition serve :: "application \<Rightarrow> uuid \<Rightarrow> application" where
  "serve app = request_id_middleware (liveness_middleware app)"

section \<open>\<open>errors.py\<close> and \<open>exceptions.py\<close>\<close>

definition API_PREFIXES :: "string list" where
  "API_PREFIXES = [''/api/'', ''/storage/v1/'']"

definition is_api_path :: "http_request \<Rightarrow> bool" where
  "is_api_path rq \<longleftrightarrow> (\<exists>p \<in> set API_PREFIXES. prefix p (hq_path rq))"

datatype page_error = Bad_Request | Permission_Denied | Page_Not_Found | Server_Error | Csrf_Failure

definition page_status :: "page_error \<Rightarrow> int" where
  "page_status e = (case e of Bad_Request \<Rightarrow> 400 | Permission_Denied \<Rightarrow> 403 | Page_Not_Found \<Rightarrow> 404
     | Server_Error \<Rightarrow> 500 | Csrf_Failure \<Rightarrow> 403)"

text \<open>Message and code of the table \<open>_JSON\<close>, title and message of \<open>_COPY\<close>.\<close>

definition json_copy :: "page_error \<Rightarrow> string \<times> string" where
  "json_copy e = (case e of
     Bad_Request \<Rightarrow> (''Bad request.'', ''bad_request'')
   | Permission_Denied \<Rightarrow> (''You do not have permission to perform this action.'', ''forbidden'')
   | Page_Not_Found \<Rightarrow> (''Not found.'', ''not_found'')
   | Server_Error \<Rightarrow> (''Server error.'', ''server_error'')
   | Csrf_Failure \<Rightarrow> (''CSRF check failed. Reload the page and try again.'', ''csrf_failed''))"

definition page_copy :: "page_error \<Rightarrow> string" where
  "page_copy e = (case e of
     Bad_Request \<Rightarrow> ''This request didn'' @ single_quote # ''t work''
   | Permission_Denied \<Rightarrow> ''You can'' @ single_quote # ''t open this page''
   | Page_Not_Found \<Rightarrow> ''This page doesn'' @ single_quote # ''t exist''
   | Server_Error \<Rightarrow> ''Something went wrong''
   | Csrf_Failure \<Rightarrow> ''This form has expired'')"

definition with_request_id :: "http_request \<Rightarrow> dict \<Rightarrow> dict" where
  "with_request_id rq body =
     (if hq_request_id rq \<noteq> [] then dict_set ''request_id'' (JStr (hq_request_id rq)) body else body)"

definition json_error_body :: "http_request \<Rightarrow> int \<Rightarrow> string \<Rightarrow> string \<Rightarrow> dict" where
  "json_error_body rq status code message =
     with_request_id rq
       (if prefix ''/storage/v1/'' (hq_path rq)
        then [(''statusCode'', JStr (str_int status)), (''error'', JStr code), (''message'', JStr message)]
        else [(''detail'', JStr message)])"

text \<open>\<open>template\<close> is the rendered page, or \<open>None\<close> when the template engine fails.\<close>

definition page_error_response :: "(int \<Rightarrow> string \<Rightarrow> string option) \<Rightarrow> http_request \<Rightarrow> page_error \<Rightarrow> http_response" where
  "page_error_response template rq e =
     (let status = page_status e in
      if is_api_path rq
      then (case json_copy e of (message, code) \<Rightarrow>
        \<lparr>hp_status = status, hp_body = JObj (json_error_body rq status code message),
          hp_headers = [(''Content-Type'', JStr ''application/json'')]\<rparr>)
      else \<lparr>hp_status = status,
        hp_body = JStr (case template status (page_copy e) of Some page \<Rightarrow> page | None \<Rightarrow> ''Something went wrong''),
        hp_headers = [(''Content-Type'', JStr ''text/html; charset=utf-8'')]\<rparr>)"

text \<open>\<open>exception_handler\<close> on what REST framework answers; \<open>None\<close> is an exception it does not know.\<close>

definition exception_handler :: "http_request option \<Rightarrow> http_response option \<Rightarrow> http_response option" where
  "exception_handler request response =
     (case response of None \<Rightarrow> None
      | Some r \<Rightarrow> Some (case (request, hp_body r) of
          (Some rq, JObj d) \<Rightarrow>
            if hq_request_id rq \<noteq> [] \<and> map_of d ''request_id'' = None
            then r\<lparr>hp_body := JObj (d @ [(''request_id'', JStr (hq_request_id rq))])\<rparr> else r
        | _ \<Rightarrow> r))"

section \<open>The health answer\<close>

text \<open>\<open>GET /storage/v1/health\<close>: what an anonymous caller and an authenticated one learn of the configuration.\<close>

definition health_view :: "config \<Rightarrow> principal option \<Rightarrow> dict" where
  "health_view cf user =
     [(''status'', JStr ''ok''), (''version'', JStr (cf_version cf))] @
     (case user of None \<Rightarrow> []
      | Some p \<Rightarrow>
          [(''storage_backend'', JStr (sc_backend (cf_storage cf))),
           (''identity_jwks_source'', JStr (case ic_jwks (cf_identity cf) of
              None \<Rightarrow> ''url'' | Some (_, From_File _) \<Rightarrow> ''file'' | Some (_, From_Env) \<Rightarrow> ''env'')),
           (''identity_jwks_url'', (case ic_jwks_url (cf_identity cf) of None \<Rightarrow> JNull | Some url \<Rightarrow> JStr url))])"

section \<open>\<open>views.py\<close>: the first superuser\<close>

record site_user =
  su_username :: string
  su_email :: string
  su_password :: string
  su_superuser :: bool

record setup_form =
  sf_username :: string
  sf_email :: string
  sf_password :: string
  sf_confirm :: string

text \<open>
  Django's part: the cleaning of the fields (\<open>None\<close> when one of them is not accepted), the password validators, and
  a failure of \<open>create_superuser\<close> other than a name that is taken.
\<close>

record django_forms =
  clean_fields :: "(string \<Rightarrow> string) \<Rightarrow> setup_form option"
  password_ok :: "setup_form \<Rightarrow> bool"
  create_fails :: "setup_form \<Rightarrow> bool"

definition clean_form :: "django_forms \<Rightarrow> (string \<Rightarrow> string) \<Rightarrow> setup_form option" where
  "clean_form dj form =
     (case clean_fields dj form of None \<Rightarrow> None
      | Some f \<Rightarrow> if sf_password f \<noteq> sf_confirm f \<or> \<not> password_ok dj f then None else Some f)"

definition provided_setup_token :: "http_request \<Rightarrow> string" where
  "provided_setup_token rq =
     (let field = strip (if hq_method rq = ''POST'' then hq_form rq ''setup_token'' else hq_query rq ''setup_token'') in
      if field \<noteq> [] then field else strip (hq_header rq ''X-Setup-Token''))"

text \<open>\<open>secrets.compare_digest\<close> on texts: a \<open>TypeError\<close> (\<open>Inl\<close>) when one is not ASCII.\<close>

definition compare_digest :: "string \<Rightarrow> string \<Rightarrow> unit + bool" where
  "compare_digest a b = (if list_all (\<lambda>c. code_point c < 128) (a @ b) then Inr (a = b) else Inl ())"

definition bootstrap_allowed :: "config \<Rightarrow> http_request \<Rightarrow> unit + bool" where
  "bootstrap_allowed cf rq =
     (if cf_debug cf then Inr True
      else if cf_setup_token cf = [] then Inr False
      else if provided_setup_token rq = [] then Inr False
      else compare_digest (provided_setup_token rq) (cf_setup_token cf))"

datatype root_answer = Redirect string | Forbidden | Crashed | Home bool bool string

text \<open>
  \<open>root\<close>. The table of users is read three times: at the start (\<open>u0\<close>), inside the transaction (\<open>u1\<close>) and when the row
  is inserted (\<open>u2\<close>); other requests may have written in between. \<open>Home\<close> is the page: whether it shows the form,
  whether it says that the setup is blocked, and the token it puts into the form.
\<close>

definition create_superuser :: "django_forms \<Rightarrow> setup_form \<Rightarrow> site_user list \<Rightarrow> site_user list option" where
  "create_superuser dj f users =
     (if sf_username f \<in> su_username ` set users \<or> create_fails dj f then None
      else Some (users @ [\<lparr>su_username = sf_username f, su_email = sf_email f, su_password = sf_password f, su_superuser = True\<rparr>]))"

definition home_page :: "config \<Rightarrow> http_request \<Rightarrow> bool \<Rightarrow> bool \<Rightarrow> root_answer" where
  "home_page cf rq has_users allowed =
     Home (\<not> has_users \<and> allowed) (\<not> has_users \<and> \<not> allowed) (if allowed \<and> \<not> has_users then provided_setup_token rq else [])"

definition root ::
  "config \<Rightarrow> django_forms \<Rightarrow> http_request \<Rightarrow> site_user list \<Rightarrow> site_user list \<Rightarrow> site_user list \<Rightarrow> root_answer \<times> site_user list" where
  "root cf dj rq u0 u1 u2 =
     (let has_users = u0 \<noteq> [] in
      case bootstrap_allowed cf rq of Inl _ \<Rightarrow> (Crashed, u2)
      | Inr allowed \<Rightarrow>
          if hq_method rq \<noteq> ''POST'' then (home_page cf rq has_users allowed, u2)
          else if has_users then (Redirect ''/'', u2)
          else if \<not> allowed then (Forbidden, u2)
          else (case clean_form dj (hq_form rq) of
              None \<Rightarrow> (home_page cf rq has_users allowed, u2)
            | Some f \<Rightarrow>
                if u1 \<noteq> [] then (home_page cf rq has_users allowed, u2)
                else (case create_superuser dj f u2 of
                    None \<Rightarrow> (home_page cf rq has_users allowed, u2)
                  | Some users \<Rightarrow> (Redirect ''/?setup=done'', users))))"

section \<open>Every answer has a request id\<close>

lemma request_id_bounds: "0 < length (request_id rq fresh) \<and> length (request_id rq fresh) \<le> 64"
proof (cases "strip (hq_header rq ''X-Request-ID'') = []")
  case True
  then have "length (request_id rq fresh) = 12" by (simp add: request_id_def length_hex_digits)
  then show ?thesis by simp
qed (simp add: request_id_def)

lemma served_with_id: "map_of (hp_headers (serve app fresh rq)) ''X-Request-ID'' = Some (JStr (request_id rq fresh))"
  by (simp add: serve_def request_id_middleware_def Let_def map_of_dict_set)

text \<open>The liveness probe does not reach the application.\<close>

lemma liveness_alone:
  "hq_method rq \<in> {''GET'', ''HEAD''} \<Longrightarrow> rstrip_slash (hq_path rq) = LIVENESS_PATH \<Longrightarrow>
     serve app fresh rq = serve app' fresh rq \<and> hp_status (serve app fresh rq) = 200"
  by (auto simp: serve_def request_id_middleware_def liveness_middleware_def Let_def)

text \<open>An error of an API path is JSON, of another path a page; what the request asked for is in neither.\<close>

lemma page_error_kind:
  "(\<exists>d. hp_body (page_error_response template rq e) = JObj d) \<longleftrightarrow> is_api_path rq"
  by (auto simp: page_error_response_def Let_def split: prod.splits)

section \<open>Who may create the first superuser\<close>

lemma allowed_token:
  assumes "bootstrap_allowed cf rq = Inr True"
  shows "cf_debug cf \<or> cf_setup_token cf \<noteq> [] \<and> provided_setup_token rq = cf_setup_token cf"
  using assms by (auto simp: bootstrap_allowed_def compare_digest_def split: if_splits)

lemma create_superuser_Some:
  "create_superuser dj f users = Some users' \<longleftrightarrow>
     sf_username f \<notin> su_username ` set users \<and> \<not> create_fails dj f \<and>
     users' = users @ [\<lparr>su_username = sf_username f, su_email = sf_email f, su_password = sf_password f, su_superuser = True\<rparr>]"
  by (auto simp: create_superuser_def)

text \<open>
  C38. The setup page creates a superuser only for whom it may. A request changes the users only if it is a POST while no
  user exists, at the start and in the transaction, it may set up the service (DEBUG, or it carries the setup token,
  which is not empty), and the form is accepted with its password twice; it then adds exactly one user, the
  superuser of the form. Without DEBUG and a token nobody can. The page gives the token back only to who sent it.
\<close>

theorem bootstrap_guarded:
  assumes "root cf dj rq u0 u1 u2 = (answer, users)"
  shows "(users \<noteq> u2 \<longrightarrow> hq_method rq = ''POST'' \<and> u0 = [] \<and> u1 = [] \<and>
       (cf_debug cf \<or> cf_setup_token cf \<noteq> [] \<and> provided_setup_token rq = cf_setup_token cf) \<and>
       (\<exists>f. clean_fields dj (hq_form rq) = Some f \<and> sf_password f = sf_confirm f \<and> password_ok dj f \<and>
          sf_username f \<notin> su_username ` set u2 \<and>
          users = u2 @ [\<lparr>su_username = sf_username f, su_email = sf_email f, su_password = sf_password f, su_superuser = True\<rparr>] \<and>
          answer = Redirect ''/?setup=done'')) \<and>
     (\<not> cf_debug cf \<and> cf_setup_token cf = [] \<longrightarrow> users = u2) \<and>
     (\<forall>form blocked token. answer = Home form blocked token \<and> token \<noteq> [] \<longrightarrow> token = provided_setup_token rq \<and>
        (cf_debug cf \<or> token = cf_setup_token cf))"
proof -
  have token: "answer = Home form blocked tok \<Longrightarrow> tok \<noteq> [] \<Longrightarrow> tok = provided_setup_token rq \<and> bootstrap_allowed cf rq = Inr True"
    for form blocked tok
    using assms by (auto simp: root_def home_page_def Let_def split: sum.splits if_splits option.splits)
  have written: "hq_method rq = ''POST'' \<and> u0 = [] \<and> u1 = [] \<and> bootstrap_allowed cf rq = Inr True \<and>
      (\<exists>f. clean_form dj (hq_form rq) = Some f \<and> create_superuser dj f u2 = Some users \<and> answer = Redirect ''/?setup=done'')"
    if "users \<noteq> u2"
    using assms that by (auto simp: root_def Let_def split: sum.splits if_splits option.splits)
  have "clean_fields dj form = Some f \<and> sf_password f = sf_confirm f \<and> password_ok dj f" if "clean_form dj form = Some f" for form f
    using that by (auto simp: clean_form_def split: option.splits if_splits)
  then have "users \<noteq> u2 \<longrightarrow> hq_method rq = ''POST'' \<and> u0 = [] \<and> u1 = [] \<and>
       (cf_debug cf \<or> cf_setup_token cf \<noteq> [] \<and> provided_setup_token rq = cf_setup_token cf) \<and>
       (\<exists>f. clean_fields dj (hq_form rq) = Some f \<and> sf_password f = sf_confirm f \<and> password_ok dj f \<and>
          sf_username f \<notin> su_username ` set u2 \<and>
          users = u2 @ [\<lparr>su_username = sf_username f, su_email = sf_email f, su_password = sf_password f, su_superuser = True\<rparr>] \<and>
          answer = Redirect ''/?setup=done'')"
    using written allowed_token create_superuser_Some by blast
  moreover have "\<not> cf_debug cf \<and> cf_setup_token cf = [] \<longrightarrow> users = u2" using written allowed_token by blast
  moreover have "tok = provided_setup_token rq \<and> (cf_debug cf \<or> tok = cf_setup_token cf)"
    if home: "answer = Home form blocked tok" "tok \<noteq> []" for form blocked tok
    using token [OF home] allowed_token [of cf rq] by auto
  ultimately show ?thesis by simp
qed

text \<open>
  The check in the transaction does not lock anything: two requests that overlap both find no user, and both create a
  superuser.
\<close>

lemma overlapping_setups:
  assumes "bootstrap_allowed cf rq = Inr True" "hq_method rq = ''POST''" "clean_form dj (hq_form rq) = Some f" "\<not> create_fails dj f"
    "sf_username f \<notin> su_username ` set others"
  shows "snd (root cf dj rq [] [] others) =
     others @ [\<lparr>su_username = sf_username f, su_email = sf_email f, su_password = sf_password f, su_superuser = True\<rparr>]"
  using assms by (simp add: root_def create_superuser_def)

text \<open>A token with a character outside of ASCII crashes the page, even when the service has long been set up.\<close>

lemma non_ascii_token_crashes:
  "\<not> cf_debug cf \<Longrightarrow> cf_setup_token cf \<noteq> [] \<Longrightarrow> provided_setup_token rq \<noteq> [] \<Longrightarrow>
     \<not> list_all (\<lambda>c. code_point c < 128) (provided_setup_token rq) \<Longrightarrow> root cf dj rq u0 u1 u2 = (Crashed, u2)"
  by (simp add: root_def bootstrap_allowed_def compare_digest_def)

definition setup_request :: "string \<Rightarrow> http_request" where
  "setup_request token =
     \<lparr>hq_method = ''POST'', hq_path = ''/'', hq_header = (\<lambda>k. []), hq_query = (\<lambda>k. []),
      hq_form = (\<lambda>k. if k = ''setup_token'' then token else ''x''), hq_request_id = []\<rparr>"

definition sample_forms :: django_forms where
  "sample_forms = \<lparr>clean_fields = (\<lambda>form. Some \<lparr>sf_username = form ''username'', sf_email = [], sf_password = form ''password'',
       sf_confirm = form ''password_confirm''\<rparr>), password_ok = (\<lambda>f. True), create_fails = (\<lambda>f. False)\<rparr>"

lemma setup_tokens:
  "provided_setup_token (setup_request ''s3cret'') = ''s3cret''" "provided_setup_token (setup_request ''guess'') = ''guess''"
  "compare_digest ''s3cret'' ''s3cret'' = Inr True" "compare_digest ''guess'' ''s3cret'' = Inr False"
  by code_simp+

lemma bootstrap_guarded_witness:
  "\<exists>cf users. cf_setup_token cf = ''s3cret'' \<and> \<not> cf_debug cf \<and>
     root cf sample_forms (setup_request ''s3cret'') [] [] [] = (Redirect ''/?setup=done'', users) \<and> map su_username users = [''x''] \<and>
     (\<exists>f. clean_fields sample_forms (hq_form (setup_request ''s3cret'')) = Some f \<and> sf_password f = sf_confirm f) \<and>
     root cf sample_forms (setup_request ''guess'') [] [] [] = (Forbidden, [])"
proof -
  let ?cf = "sample_config\<lparr>cf_setup_token := ''s3cret''\<rparr>"
  have debug: "\<not> cf_debug ?cf" using sample_config_facts(2) by simp
  have allowed: "bootstrap_allowed ?cf (setup_request ''s3cret'') = Inr True" "bootstrap_allowed ?cf (setup_request ''guess'') = Inr False"
    using debug by (simp_all add: bootstrap_allowed_def setup_tokens)
  let ?u = "\<lparr>su_username = ''x'', su_email = [], su_password = ''x'', su_superuser = True\<rparr>"
  have run: "root ?cf sample_forms (setup_request ''s3cret'') [] [] [] = (Redirect ''/?setup=done'', [?u])"
    using allowed(1) by (simp add: root_def setup_request_def clean_form_def sample_forms_def create_superuser_def)
  have "\<exists>f. clean_fields sample_forms (hq_form (setup_request ''s3cret'')) = Some f \<and> sf_password f = sf_confirm f"
    using bootstrap_guarded [OF run] by blast
  moreover have "root ?cf sample_forms (setup_request ''guess'') [] [] [] = (Forbidden, [])"
    using allowed(2) by (simp add: root_def setup_request_def)
  ultimately show ?thesis using debug run by (intro exI [of _ ?cf] exI [of _ "[?u]"]) simp
qed

end
