(* ===== verification/Admin_Site.thy ===== *)
theory Admin_Site
  imports Removal
begin

text \<open>
  The deletions of the Django admin (\<open>storage/admin.py\<close>): they go through \<open>delete_object\<close>, so that blobs, counters and
  events follow. Lists, filters and forms of the admin are declarations for Django and are left out, but for the
  form of share links, which is in Shares. The contract is
  \<open>bucket_admin_delete_exact\<close>.
\<close>

section \<open>Deleting a bucket\<close>

text \<open>The row of a bucket takes its objects, grants and share links with it (\<open>on_delete=CASCADE\<close>).\<close>

definition delete_bucket_row :: "uuid \<Rightarrow> unit act" where
  "delete_bucket_row i = modify (\<lambda>w.
     let gone = o_id ` set (filter (\<lambda>x. o_bucket x = i) (w_objects w)) in
     w\<lparr>w_buckets := delete_where (\<lambda>b. b_id b = i) (w_buckets w),
       w_objects := delete_where (\<lambda>x. o_bucket x = i) (w_objects w),
       w_grants := delete_where (\<lambda>g. g_bucket g = i \<or> g_object g \<in> Some ` gone) (w_grants w),
       w_links := delete_where (\<lambda>l. l_object l \<in> gone) (w_links w)\<rparr>)"

definition bucket_admin_delete :: "env \<Rightarrow> bucket \<Rightarrow> unit act" where
  "bucket_admin_delete env b =
     bindE (gets (\<lambda>w. bucket_files w b)) (\<lambda>objs. seqE (delete_all env objs None) (delete_bucket_row (b_id b)))"

definition bucket_admin_delete_queryset :: "env \<Rightarrow> bucket list \<Rightarrow> unit act" where
  "bucket_admin_delete_queryset env bs = forE bs (bucket_admin_delete env)"

definition object_admin_delete :: "env \<Rightarrow> storage_object \<Rightarrow> unit act" where
  "object_admin_delete env obj = delete_object env obj None"

definition object_admin_delete_queryset :: "env \<Rightarrow> storage_object list \<Rightarrow> unit act" where
  "object_admin_delete_queryset env objs = delete_all env objs None"

section \<open>Nothing of a bucket is left\<close>

lemma set_bucket_files: "set (bucket_files w b) = {x \<in> set (w_objects w). o_bucket x = b_id b}"
  by (auto simp: bucket_files_def)

lemma bucket_files_distinct: "sound w \<Longrightarrow> distinct (map o_id (bucket_files w b))"
  by (simp add: bucket_files_def sound_def schema_ok_def distinct_map_filter distinct_map inj_on_def)

text \<open>
  After a bucket has been deleted in the admin there is no row of the bucket, of its objects, of their grants and share
  links and no blob of theirs; every other object and blob is still there, and the counters agree with the rows.
\<close>

theorem bucket_admin_delete_exact:
  assumes "sound w" "removes env" "bucket_admin_delete env b w = (Inr (), w')"
  shows "sound w'" "w_buckets w' = filter (\<lambda>x. b_id x \<noteq> b_id b) (w_buckets w)"
    "w_objects w' = filter (\<lambda>x. o_bucket x \<noteq> b_id b) (w_objects w)"
    "\<forall>g \<in> set (w_grants w'). g_bucket g \<noteq> b_id b"
    "w_blobs w' = w_blobs w |` (- o_storage_key ` set (bucket_files w b))"
proof -
  let ?objs = "bucket_files w b"
  obtain v where v: "delete_all env ?objs None w = (Inr (), v)" "delete_bucket_row (b_id b) v = (Inr (), w')"
    using assms(3) by (auto simp: bucket_admin_delete_def run_Inr)
  have sub: "set ?objs \<subseteq> set (w_objects w)" by (auto simp: set_bucket_files)
  have post: "sound v" "w_buckets v = w_buckets w" "w_objects v = filter (\<lambda>x. o_id x \<notin> o_id ` set ?objs) (w_objects w)"
    using wp_Inr [OF delete_all_rows [OF bucket_files_distinct [OF assms(1)] sub assms(1)] v(1)] by blast+
  have ids: "distinct (map o_id (w_objects w))" using assms(1) by (simp add: sound_def schema_ok_def)
  have "o_id x \<notin> o_id ` set ?objs \<longleftrightarrow> o_bucket x \<noteq> b_id b" if "x \<in> set (w_objects w)" for x
    using that distinct_key_unique [OF ids] by (auto simp: set_bucket_files image_iff)
  then have rows: "w_objects v = filter (\<lambda>x. o_bucket x \<noteq> b_id b) (w_objects w)"
    unfolding post(3) by (intro filter_cong) auto
  then have none: "{x \<in> set (w_objects v). o_bucket x = b_id b} = {}" by auto
  have w': "w' = v\<lparr>w_buckets := delete_where (\<lambda>x. b_id x = b_id b) (w_buckets v),
      w_objects := delete_where (\<lambda>x. o_bucket x = b_id b) (w_objects v),
      w_grants := delete_where (\<lambda>g. g_bucket g = b_id b) (w_grants v), w_links := delete_where (\<lambda>l. False) (w_links v)\<rparr>"
    using v(2) by (simp add: delete_bucket_row_def modify_def none eq_commute [of _ w'])
  have same: "delete_where (\<lambda>x. o_bucket x = b_id b) (w_objects v) = w_objects v"
    unfolding rows delete_where_def by simp
  have kept: "w_links w' = w_links v" "w_objects w' = w_objects v" by (simp_all add: w' same) (simp add: delete_where_def)
  show "w_buckets w' = filter (\<lambda>x. b_id x \<noteq> b_id b) (w_buckets w)" by (simp add: w' post(2) delete_where_def)
  show "w_objects w' = filter (\<lambda>x. o_bucket x \<noteq> b_id b) (w_objects w)" using kept rows by simp
  show "\<forall>g \<in> set (w_grants w'). g_bucket g \<noteq> b_id b" by (simp add: w')
  show "w_blobs w' = w_blobs w |` (- o_storage_key ` set ?objs)"
    using delete_all_blobs [OF assms(2) v(1)] by (simp add: w')
  have "schema_ok w'" "tenant_ok w'"
    using post(1) rows kept
    by (auto simp: sound_def schema_ok_def tenant_ok_def local_defs bucket_company_def w' delete_where_def distinct_map_filter)
  moreover have "exact w'"
    using post(1) kept by (auto simp: sound_def w' intro: exact_frame [of v])
  ultimately show "sound w'" by (simp add: sound_def)
qed

end
