(* ===== verification/Spec2Isabelle.thy ===== *)
theory Spec2Isabelle
  imports Upload_Results Storage_Views Webdav Delivery_Runs Emission Job_Views Company_Deletion Rule_Admin Directory Log_Scrubbing Settings Grant_Migration Service_Edge Env_Registry Admin_Site
begin

text \<open>
  storage-service: a verification library.

  \<^bold>\<open>The program.\<close> A Django service that stores files of companies. The storage app
  (\<open>apps/storage\<close>) keeps buckets, objects, access grants, share links and quotas in a database
  and the bytes in a blob store; the token check (\<open>apps/authapi\<close>) turns a request into a
  principal; WebDAV (\<open>apps/webdav\<close>) and REST views call the same services; the actions app
  (\<open>apps/actions\<close>) turns storage events into webhook and email deliveries through an outbox, with
  retries and a retention purge, and deletes all data of a company on request.

  \<^bold>\<open>State.\<close> One record \<open>world\<close> (Models) holds the tables of the storage app as lists of rows, the
  blobs as a map from keys to bytes, the clock, the supply of UUIDs and the events that a
  request has emitted. The actions app has its own record \<open>actions\<close> (Outbox). A handler is a function
  \<open>world \<Rightarrow> (exn + 'a) \<times> world\<close> (Prelude): Python exceptions are values, \<open>atomic\<close> undoes
  the database part of the world when its body raises and keeps the blobs as they are, as the
  code's \<open>transaction.atomic\<close> does. One request reads one time.

  \<^bold>\<open>Theories and the code they model.\<close>
  \<^item> Prelude, Py_Strings, Py_Values: handlers with the calculus \<open>wp\<close> and \<open>keeps\<close>; Python's
    string operations, integers as text, UUIDs, JSON values, slices.
  \<^item> Models, Database, Environment, Samples: \<open>apps/storage/models.py\<close>, the constraints and
    cascades of its schema (\<open>schema_ok\<close>, \<open>tenant_ok\<close>), the settings and libraries as
    parameters, concrete rows for the examples.
  \<^item> Mime, Backends, Quotas, Hooks: \<open>mime.py\<close>, \<open>backends.py\<close>, \<open>quotas.py\<close>, \<open>signals.py\<close> and
    \<open>apps/actions/storage_hooks.py\<close>. \<open>usage_ledger\<close> is the contract of the counters.
  \<^item> Access, Private_Default, Resolve: \<open>access.py\<close>. \<open>access_policy\<close> is the contract of a decision,
    \<open>sound\<close> the invariant of the storage app: schema, separated companies, exact counters.
  \<^item> Upload, Upload_Results, Removal, Relocate, Listing: \<open>services.py\<close>.
  \<^item> Grants, Shares, Stats, Storage_Views: \<open>grants.py\<close>, \<open>shares.py\<close>, \<open>stats.py\<close> with
    \<open>metrics.py\<close>, \<open>views.py\<close>; Shares also has the form of the administration for links (\<open>admin.py\<close>). Auth: \<open>apps/authapi\<close> and the assertion of
    \<open>apps/actions/company_deletion.py\<close>.
  \<^item> Redaction, Net_Address, Webhook_Url, Webhook_Signing: \<open>apps/actions/secret_redaction.py\<close>,
    the parts of \<open>ipaddress\<close> and \<open>urllib\<close> that \<open>ssrf.py\<close> uses, \<open>ssrf.py\<close> with the TLS name of
    \<open>webhook_transport.py\<close>, \<open>webhook_signing.py\<close>.
  \<^item> Outbox, Webhook_Post, Delivery, Delivery_Runs: \<open>apps/actions/models.py\<close>, \<open>webhook_retry.py\<close>,
    \<open>webhook_transport.py\<close>, \<open>handlers/webhook.py\<close>, the email client, \<open>delivery.py\<close>. An attempt
    is two transactions with a network call between them; \<open>plant_step\<close> interleaves those of
    any number of workers with retry runs, requests, purges and the clock.
  \<^item> Emission, Retention: \<open>registry.py\<close>, \<open>storage_events.py\<close>, \<open>envelope.py\<close>, \<open>event_log.py\<close>,
    \<open>emit.py\<close>; \<open>retention.py\<close>.
  \<^item> Rule_Admin: the administration API of the actions app (\<open>admin_api_views.py\<close>, \<open>event_log_views.py\<close>,
    \<open>admin_auth.py\<close>, \<open>rule_config.py\<close>, \<open>sample_data.py\<close>, \<open>webhook_test_send.py\<close>), one \<open>admin_view\<close> per method
    behind one gate \<open>admitted\<close>.
  \<^item> Task_Lock, Job_Runs, Job_Views: \<open>config/task_lock.py\<close> over a Redis that is a parameter with its laws;
    \<open>scheduled_jobs.py\<close>, \<open>tasks.py\<close> and the commands \<open>retry_webhooks\<close> and \<open>purge_expired_data\<close> over a state
    \<open>job_db\<close>; the staff views and the collector of metrics. Company_Deletion: \<open>company_deletion.py\<close> of both apps and
    its view, over the two apps together (\<open>platform\<close>).
  \<^item> Webdav: \<open>apps/webdav/views.py\<close>; a PROPFIND answer is the list of its entries, a path is quoted and unquoted
    byte by byte.
  \<^item> Directory: what the storage operations promise, as a map from bucket and path to contents (\<open>dir\<close>), a set of
    commands with their \<open>effect\<close> on it, and the proof that uploads, copies, moves, renames and removals refine it, on
    blob stores that satisfy \<open>store_laws\<close>.
  \<^item> Settings, Env_Registry: \<open>config/settings.py\<close>, \<open>s3utils.py\<close>, \<open>authapi/checks.py\<close>: every variable of the
    environment in the order it is read, what is refused, and the checks before the start (those of Django and the
    packages are a parameter, \<open>library_errors\<close>); the documented defaults and the generated environment of
    \<open>env_registry.py\<close> and \<open>generate_env.py\<close>, with the key from the bytes that are drawn.
  \<^item> Log_Scrubbing, Service_Edge: \<open>safe_access_log.py\<close>, \<open>access_log.py\<close>, \<open>sentry_scrub.py\<close>;
    \<open>request_context.py\<close>, \<open>liveness.py\<close>, \<open>errors.py\<close>, \<open>exceptions.py\<close> and the setup page of \<open>config/views.py\<close>.
  \<^item> Grant_Migration, Admin_Site: the data migration of the grants (\<open>storage/migrations/0005\<close>), and the deletions of
    \<open>storage/admin.py\<close>.

  \<^bold>\<open>What is shown.\<close> Access decisions: companies are apart, the order of permissions, which
  grant decides, where a private folder reaches. Object operations: what an upload, a folder
  deletion and a folder rename do to rows, blobs and counters, that a refused one does
  nothing, and that together they are updates of one map from paths to contents. Grants and links: who may create or
  delete them, how often a link serves, that a dead link stays dead until an administrator edits it, that the migration keeps every grant. Listings and
  statistics: what they show and to whom. Tokens: when one is accepted, from the environment of the service on.
  Actions: no secret leaves in a payload or reaches the logs, no webhook reaches an internal address,
  attempts are counted once under every interleaving, a delivery ends, events reach exactly the rules of their company,
  an administrator sees and changes his company only, the purge removes exactly what has
  expired, a deleted company leaves nothing behind. Jobs: one worker at a time, consistent run rows, health that
  follows the runs. WebDAV does what REST does, up to the size
  of a body that it takes. Configuration: a production service starts safe or not at all, the
  documented defaults are true. Some properties state what the code does where it is not what it means to do; the
  findings of the manifest name them.

  \<^bold>\<open>Bounds and fuel.\<close> The integers of the code are unbounded Python integers; the widths that
  count are those of IP addresses (\<open>32 word\<close>, \<open>128 word\<close>) and of UUIDs (below \<open>2 ^ 128\<close> where their text is read
  back). Loops over rows are structural. The
  retry run, the purge and the deletion of companies loop until nothing is left or a deadline has passed: the number of turns
  the clock allows is an argument (\<open>None\<close> for no deadline; for the deletion the rows the deadline allows), and they
  are shown to end without one. A run of a job may die at any of its writes: the number of writes that succeed is an argument.
  Storage keys and share tokens are drawn from supplies that never repeat.

  \<^bold>\<open>Not modelled.\<close> Log lines, wording of messages, durations, host names, column lengths, JSON numbers with a
  fraction, the rounding of float settings to doubles, database collations and the order of equal sort keys, code points above 255
  (WebDAV writes a question mark for them); the float arithmetic that prints byte counts and percentages; Prometheus
  text, the XML of WebDAV, OpenAPI schemas, Django's parsing of headers, URLs and bodies (what the parsers make of a body is
  a field of the request), templates, URL tables, lists and filters of the admin pages and their forms other than that of share
  links, schema migrations, start scripts and the probe of the container.
  Third-party code (blob stores, PyJWT, Redis, the database URL parser, resolver and HTTP connections, mimetypes,
  hashes, Markdown, the field checks of REST framework) is a parameter with its documented behaviour as named hypotheses.
  Requests to the storage app run one after another.
\<close>

end
